(* ===== verification/Alvs_Prelude.thy ===== *)
theory Alvs_Prelude
  imports Main "HOL-Library.Word" "HOL-Library.Multiset"
begin

text \<open>
  Shared vocabulary of the development: the widths of the C integers, the byte-order
  helpers of \<^verbatim>\<open>byteswap.h\<close> that the control plane applies to every field it writes for the
  big-endian network processor, the collections of rewrite rules that the component
  theories fill, and the generic lemmas on words, lists and circular buffers they share.
\<close>

unbundle bit_operations_syntax

named_theorems pool_simps \<open>rewrite rules of the index pool\<close>
named_theorems sched_simps \<open>rewrite rules of the scheduling buckets\<close>
named_theorems fib_simps \<open>rewrite rules of the forwarding table\<close>
named_theorems dp_simps \<open>frame rules of the data plane operations\<close>
named_theorems db_simps \<open>rewrite rules of the internal database\<close>

subsection \<open>Machine integers\<close>

type_synonym u8 = "8 word"
type_synonym u16 = "16 word"
type_synonym u32 = "32 word"
type_synonym u64 = "64 word"
type_synonym in_addr_t = u32
type_synonym ezdp_sum_addr = u32

definition bswap_16 :: "u16 \<Rightarrow> u16" where
  "bswap_16 w = push_bit 8 w OR drop_bit 8 w"

definition bswap_32 :: "u32 \<Rightarrow> u32" where
  "bswap_32 w = push_bit 24 w OR (push_bit 8 w AND push_bit 16 (mask 8))
     OR (drop_bit 8 w AND push_bit 8 (mask 8)) OR drop_bit 24 w"

lemma bswap_16_involution [simp]: "bswap_16 (bswap_16 w) = w"
  unfolding bswap_16_def by (rule bit_word_eqI) (auto simp: bit_simps)

lemma bit_bswap_32:
  assumes "n < 32"
  shows "bit (bswap_32 w) n =
    bit w (if n < 8 then 24 + n else if n < 16 then 8 + n else if n < 24 then n - 8 else n - 24)"
  using assms bit_imp_le_length [of w "8 + n"] bit_imp_le_length [of w "24 + n"]
  by (auto simp: bswap_32_def bit_simps)

lemma bswap_32_involution [simp]: "bswap_32 (bswap_32 w) = w"
proof (rule bit_word_eqI)
  fix n assume "n < LENGTH(32)"
  then consider "n < 8" | "8 \<le> n" "n < 16" | "16 \<le> n" "n < 24" | "24 \<le> n" "n < 32"
    by fastforce
  then show "bit (bswap_32 (bswap_32 w)) n = bit w n"
    by cases (simp_all add: bit_bswap_32, arith+)
qed

lemma bswap_16_inj [simp]: "bswap_16 a = bswap_16 b \<longleftrightarrow> a = b"
  by (metis bswap_16_involution)

lemma bswap_32_inj [simp]: "bswap_32 a = bswap_32 b \<longleftrightarrow> a = b"
  by (metis bswap_32_involution)

lemma unat_u8_less [simp]: "unat (w :: u8) < 256"
  by (rule order.strict_trans2 [OF unsigned_less]) simp

lemma unat_u16_less [simp]: "unat (w :: u16) < 65536"
  by (rule order.strict_trans2 [OF unsigned_less]) simp

lemma unat_u32_less [simp]: "unat (w :: u32) < 4294967296"
  by (rule order.strict_trans2 [OF unsigned_less]) simp

subsection \<open>Circular buffers\<close>

text \<open>
  The contents of a circular buffer \<open>xs\<close> of which \<open>len\<close> entries are in use from position
  \<open>h\<close> on, in queue order.
\<close>

definition ring_list :: "'a list \<Rightarrow> nat \<Rightarrow> nat \<Rightarrow> 'a list" where
  "ring_list xs h len = map (\<lambda>i. xs ! ((h + i) mod length xs)) [0..<len]"

lemma ring_list_Suc:
  "ring_list xs h (Suc len) = xs ! (h mod length xs) # ring_list xs (Suc h) len"
  unfolding ring_list_def by (subst upt_conv_Cons) (simp_all add: map_Suc_upt [symmetric] del: upt_Suc)

lemma ring_list_snoc:
  "ring_list xs h (Suc len) = ring_list xs h len @ [xs ! ((h + len) mod length xs)]"
  by (simp add: ring_list_def)

lemma ring_list_0 [simp]: "ring_list xs h 0 = []"
  by (simp add: ring_list_def)

lemma length_ring_list [simp]: "length (ring_list xs h len) = len"
  by (simp add: ring_list_def)

lemma ring_list_mod: "ring_list xs (h mod length xs) len = ring_list xs h len"
  by (simp add: ring_list_def mod_add_left_eq)

lemma ring_position_inj:
  fixes n :: nat
  assumes "i < n" "j < n" "(h + i) mod n = (h + j) mod n"
  shows "i = j"
proof -
  have "(int h + int i) mod int n = (int h + int j) mod int n"
    using assms(3) by (metis of_nat_add of_nat_mod)
  then have "int i mod int n = int j mod int n"
    by (simp add: mod_eq_dvd_iff)
  with assms(1,2) show ?thesis by simp
qed

lemma ring_list_update_free:
  assumes "len < length xs"
  shows "ring_list (xs[(h + len) mod length xs := x]) h len = ring_list xs h len"
proof (rule nth_equalityI)
  fix i assume "i < length (ring_list (xs[(h + len) mod length xs := x]) h len)"
  then have i: "i < len" by simp
  with assms have "(h + len) mod length xs \<noteq> (h + i) mod length xs"
    using ring_position_inj [of len "length xs" i h] by auto
  with i show "ring_list (xs[(h + len) mod length xs := x]) h len ! i = ring_list xs h len ! i"
    by (simp add: ring_list_def)
qed simp

end
