(* ===== verification/Index_Pool.thy ===== *)
theory Index_Pool
  imports Alvs_Prelude
begin

text \<open>
  The index pools of the control plane, \<^verbatim>\<open>src/cp/index_pool.h\<close>: a circular buffer of free
  indexes with one allocation flag per index.  The service pool (256 indexes) and the server
  pool (32768 indexes) hand out the indexes under which services and servers are stored in the
  tables of the network processor, so an index must never be held by two owners.

  The representation invariant \<open>pool_ok\<close> is kept by every operation, and the pool refines a
  first-in-first-out list of free indexes (\<open>pool_free\<close>).  The contract is stated in the locale
  \<open>index_allocator\<close>, the clients' facts are proved there, and the locale is interpreted on the
  operations of the pool.
\<close>

subsection \<open>State and operations\<close>

record index_pool =
  indexes :: "u32 list"
  indexes_flags :: "u8 list"
  head :: u32
  max_size :: u32
  pool_length :: u32

definition INDEX_FREE :: u8 where "INDEX_FREE = 0"
definition INDEX_ALLOC :: u8 where "INDEX_ALLOC = 1"

text \<open>The loop of \<open>index_pool_rewind\<close>, from position \<open>ind\<close> for \<open>k\<close> more iterations.\<close>

primrec rewind_loop :: "nat \<Rightarrow> nat \<Rightarrow> index_pool \<Rightarrow> index_pool" where
  "rewind_loop 0 ind pool = pool"
| "rewind_loop (Suc k) ind pool = rewind_loop k (Suc ind)
     (pool\<lparr>indexes := (indexes pool)[ind := of_nat ind],
           indexes_flags := (indexes_flags pool)[ind := INDEX_FREE]\<rparr>)"

definition index_pool_rewind :: "index_pool \<Rightarrow> index_pool" where
  "index_pool_rewind pool =
     rewind_loop (unat (max_size pool)) 0 (pool\<lparr>head := 0, pool_length := max_size pool\<rparr>)"

text \<open>
  The two \<open>malloc\<close> results are arguments: \<open>None\<close> is a null pointer, \<open>Some\<close> a block with
  arbitrary contents.  An array that has been freed is the empty list.
\<close>

definition index_pool_init ::
  "u32 list option \<Rightarrow> u8 list option \<Rightarrow> index_pool \<Rightarrow> int \<Rightarrow> bool \<times> index_pool" where
  "index_pool_init m_indexes m_flags pool n =
     (let pool = pool\<lparr>max_size := word_of_int n\<rparr> in
      case m_indexes of
        None \<Rightarrow> (False, pool\<lparr>indexes := []\<rparr>)
      | Some xs \<Rightarrow>
         (let pool = pool\<lparr>indexes := xs\<rparr> in
          case m_flags of
            None \<Rightarrow> (False, pool\<lparr>indexes := [], indexes_flags := []\<rparr>)
          | Some fs \<Rightarrow> (True, index_pool_rewind (pool\<lparr>indexes_flags := fs\<rparr>))))"

definition index_pool_destroy :: "index_pool \<Rightarrow> index_pool" where
  "index_pool_destroy pool = pool\<lparr>indexes := [], indexes_flags := []\<rparr>"

text \<open>\<open>None\<close> is the result false, which leaves the pool and the output index alone.\<close>

definition index_pool_alloc :: "index_pool \<Rightarrow> (u32 \<times> index_pool) option" where
  "index_pool_alloc pool =
     (if pool_length pool = 0 then None
      else let index = indexes pool ! unat (head pool) in
        Some (index,
          pool\<lparr>indexes_flags := (indexes_flags pool)[unat index := INDEX_ALLOC],
               head := (head pool + 1) mod max_size pool,
               pool_length := pool_length pool - 1\<rparr>))"

definition index_pool_release :: "index_pool \<Rightarrow> u32 \<Rightarrow> index_pool" where
  "index_pool_release pool index =
     (if index \<ge> max_size pool then pool
      else if indexes_flags pool ! unat index = INDEX_FREE then pool
      else let tail = (head pool + pool_length pool) mod max_size pool in
        pool\<lparr>indexes := (indexes pool)[unat tail := index],
             indexes_flags := (indexes_flags pool)[unat index := INDEX_FREE],
             pool_length := pool_length pool + 1\<rparr>)"

subsection \<open>Abstraction and invariant\<close>

definition pool_cap :: "index_pool \<Rightarrow> nat" where
  "pool_cap pool = unat (max_size pool)"

definition pool_free :: "index_pool \<Rightarrow> u32 list" where
  "pool_free pool = ring_list (indexes pool) (unat (head pool)) (unat (pool_length pool))"

definition pool_ok :: "index_pool \<Rightarrow> bool" where
  "pool_ok pool \<longleftrightarrow>
     0 < pool_cap pool \<and> pool_cap pool \<le> 2 ^ 31 \<and>
     length (indexes pool) = pool_cap pool \<and> length (indexes_flags pool) = pool_cap pool \<and>
     unat (head pool) < pool_cap pool \<and> unat (pool_length pool) \<le> pool_cap pool \<and>
     distinct (pool_free pool) \<and>
     (\<forall>i \<in> set (pool_free pool). unat i < pool_cap pool) \<and>
     (\<forall>k < pool_cap pool. indexes_flags pool ! k =
        (if of_nat k \<in> set (pool_free pool) then INDEX_FREE else INDEX_ALLOC))"

lemma flags_distinct [simp]: "INDEX_FREE \<noteq> INDEX_ALLOC" "INDEX_ALLOC \<noteq> INDEX_FREE"
  by (simp_all add: INDEX_FREE_def INDEX_ALLOC_def)

text \<open>The additions and the remainder of the ring arithmetic do not wrap within the capacity.\<close>

lemma unat_ring_step:
  fixes h l n :: u32
  assumes "unat n \<le> 2 ^ 31" "unat h < unat n" "unat l \<le> unat n"
  shows "unat ((h + l) mod n) = (unat h + unat l) mod unat n"
proof -
  have "unat h + unat l < 2 ^ 32" using assms by simp
  then have "unat (h + l) = unat h + unat l"
    by (subst unat_add_lem [THEN iffD1]) simp_all
  then show ?thesis by (simp add: unat_mod)
qed

lemma unat_of_nat_u32: "k < 2 ^ 32 \<Longrightarrow> unat (of_nat k :: u32) = k"
  by (simp add: unat_of_nat take_bit_eq_mod)

lemma of_nat_eq_u32_iff: "k \<le> 2 ^ 31 \<Longrightarrow> (of_nat k :: u32) = j \<longleftrightarrow> unat j = k"
  using unat_of_nat_u32 [of k] by auto

subsection \<open>Rewinding\<close>

lemma rewind_loop_eq:
  assumes "length (indexes pool) = ind + k" "length (indexes_flags pool) = ind + k"
  shows "rewind_loop k ind pool =
    pool\<lparr>indexes := take ind (indexes pool) @ map of_nat [ind..<ind + k],
         indexes_flags := take ind (indexes_flags pool) @ replicate k INDEX_FREE\<rparr>"
  using assms
proof (induction k arbitrary: ind pool)
  case 0
  then show ?case by simp
next
  case (Suc k)
  then show ?case
    by (simp add: take_Suc_conv_app_nth upt_conv_Cons del: upt_Suc)
qed

lemma index_pool_rewind_eq:
  assumes "length (indexes pool) = pool_cap pool" "length (indexes_flags pool) = pool_cap pool"
  shows "index_pool_rewind pool =
    pool\<lparr>head := 0, pool_length := max_size pool,
         indexes := map of_nat [0..<pool_cap pool],
         indexes_flags := replicate (pool_cap pool) INDEX_FREE\<rparr>"
  using assms by (simp add: index_pool_rewind_def rewind_loop_eq pool_cap_def)

lemma pool_rewind_free:
  assumes "length (indexes pool) = pool_cap pool" "length (indexes_flags pool) = pool_cap pool"
  shows "pool_free (index_pool_rewind pool) = map of_nat [0..<pool_cap pool]"
  unfolding index_pool_rewind_eq [OF assms] pool_free_def ring_list_def
  by (rule nth_equalityI) (simp_all add: pool_cap_def)

lemma pool_rewind_ok:
  assumes len: "length (indexes pool) = pool_cap pool" "length (indexes_flags pool) = pool_cap pool"
    and cap: "0 < pool_cap pool" "pool_cap pool \<le> 2 ^ 31"
  shows "pool_ok (index_pool_rewind pool)"
proof -
  have cap': "pool_cap (index_pool_rewind pool) = pool_cap pool"
    by (simp add: index_pool_rewind_eq [OF len]) (simp add: pool_cap_def)
  have inj: "inj_on (of_nat :: nat \<Rightarrow> u32) {0..<pool_cap pool}"
  proof (rule inj_onI)
    fix x y assume "x \<in> {0..<pool_cap pool}" "y \<in> {0..<pool_cap pool}"
      and eq: "(of_nat x :: u32) = of_nat y"
    then have "x < 2 ^ 32" "y < 2 ^ 32" using cap(2) by auto
    with eq show "x = y" by (metis unat_of_nat_u32)
  qed
  show ?thesis
    unfolding pool_ok_def cap' pool_rewind_free [OF len]
    using cap inj by (auto simp: index_pool_rewind_eq [OF len] distinct_map pool_cap_def
        unat_of_nat_u32 image_iff)
qed

subsection \<open>Allocation and release refine a first-in-first-out list\<close>

lemma unat_Suc_pred: "(w :: u32) \<noteq> 0 \<Longrightarrow> unat w = Suc (unat (w - 1))"
  by (metis Suc_pred' unat_gt_0 unat_minus_one)

lemma alloc_fields:
  assumes "pool_ok pool" "index_pool_alloc pool = Some (i, pool')"
  shows "max_size pool' = max_size pool" "indexes pool' = indexes pool"
    "unat (pool_length pool) = Suc (unat (pool_length pool'))"
    "unat (head pool') = Suc (unat (head pool)) mod pool_cap pool"
    "i = indexes pool ! unat (head pool)"
    "indexes_flags pool' = (indexes_flags pool)[unat i := INDEX_ALLOC]"
  using assms unat_ring_step [of "max_size pool" "head pool" 1]
  by (auto simp: index_pool_alloc_def pool_ok_def pool_cap_def Let_def unat_Suc_pred
      split: if_splits)

lemma alloc_free:
  assumes "pool_ok pool" "index_pool_alloc pool = Some (i, pool')"
  shows "pool_free pool = i # pool_free pool'"
  using assms alloc_fields [OF assms]
  by (simp add: pool_free_def ring_list_Suc pool_ok_def
      ring_list_mod [of "indexes pool" "Suc (unat (head pool))", symmetric])

lemma alloc_none_iff: "index_pool_alloc pool = None \<longleftrightarrow> pool_free pool = []"
proof -
  have "pool_free pool = [] \<longleftrightarrow> unat (pool_length pool) = 0"
    by (simp add: pool_free_def flip: length_0_conv)
  then show ?thesis by (simp add: index_pool_alloc_def Let_def unat_eq_0)
qed

lemma alloc_ok:
  assumes ok: "pool_ok pool" and al: "index_pool_alloc pool = Some (i, pool')"
  shows "pool_ok pool'"
proof -
  note f = alloc_fields [OF assms] and q = alloc_free [OF assms]
  have cap: "pool_cap pool' = pool_cap pool" by (simp add: pool_cap_def f)
  have bnd: "\<And>k j. k < pool_cap pool \<Longrightarrow> (of_nat k :: u32) = j \<longleftrightarrow> unat j = k"
    using ok of_nat_eq_u32_iff by (simp add: pool_ok_def)
  show ?thesis
    unfolding pool_ok_def cap
    using ok q bnd by (auto simp: pool_ok_def f nth_list_update)
qed

lemma release_refused:
  assumes "pool_ok pool" "pool_cap pool \<le> unat i \<or> i \<in> set (pool_free pool)"
  shows "index_pool_release pool i = pool"
  using assms by (auto simp: index_pool_release_def word_le_nat_alt pool_ok_def pool_cap_def
      split: if_splits)

lemma free_not_full:
  assumes "pool_ok pool" "unat i < pool_cap pool" "i \<notin> set (pool_free pool)"
  shows "unat (pool_length pool) < pool_cap pool"
proof -
  have "unat ` set (i # pool_free pool) \<subseteq> {0..<pool_cap pool}"
    using assms by (auto simp: pool_ok_def)
  moreover have "card (unat ` set (i # pool_free pool)) = Suc (unat (pool_length pool))"
  proof -
    have "card (unat ` set (i # pool_free pool)) = card (set (i # pool_free pool))"
      by (intro card_image inj_onI) (metis word_unat_eq_iff)
    also have "\<dots> = length (i # pool_free pool)"
      using assms by (intro distinct_card) (auto simp: pool_ok_def)
    finally show ?thesis by (simp add: pool_free_def)
  qed
  ultimately show ?thesis by (metis Suc_le_eq card_atLeastLessThan card_mono
        diff_zero finite_atLeastLessThan)
qed

lemma release_fields:
  assumes ok: "pool_ok pool" and i: "unat i < pool_cap pool" "i \<notin> set (pool_free pool)"
  shows "max_size (index_pool_release pool i) = max_size pool"
    "head (index_pool_release pool i) = head pool"
    "unat (pool_length (index_pool_release pool i)) = Suc (unat (pool_length pool))"
    "indexes (index_pool_release pool i) =
       (indexes pool)[(unat (head pool) + unat (pool_length pool)) mod pool_cap pool := i]"
    "indexes_flags (index_pool_release pool i) = (indexes_flags pool)[unat i := INDEX_FREE]"
proof -
  have len: "unat (pool_length pool) < pool_cap pool" by (rule free_not_full [OF assms])
  have "unat (pool_length pool + 1) = Suc (unat (pool_length pool))"
    using len ok by (subst unat_add_lem [THEN iffD1]) (simp_all add: pool_ok_def)
  moreover have flag: "indexes_flags pool ! unat i = INDEX_ALLOC"
    using ok i by (simp add: pool_ok_def)
  moreover have "\<not> max_size pool \<le> i" using i by (simp add: pool_cap_def word_le_nat_alt)
  moreover have "unat ((head pool + pool_length pool) mod max_size pool) =
      (unat (head pool) + unat (pool_length pool)) mod pool_cap pool"
    using ok unat_ring_step [of "max_size pool" "head pool" "pool_length pool"]
    by (simp add: pool_ok_def pool_cap_def)
  ultimately show "max_size (index_pool_release pool i) = max_size pool"
    "head (index_pool_release pool i) = head pool"
    "unat (pool_length (index_pool_release pool i)) = Suc (unat (pool_length pool))"
    "indexes (index_pool_release pool i) =
       (indexes pool)[(unat (head pool) + unat (pool_length pool)) mod pool_cap pool := i]"
    "indexes_flags (index_pool_release pool i) = (indexes_flags pool)[unat i := INDEX_FREE]"
    by (simp_all add: index_pool_release_def Let_def)
qed

lemma release_free:
  assumes "pool_ok pool" "unat i < pool_cap pool" "i \<notin> set (pool_free pool)"
  shows "pool_free (index_pool_release pool i) = pool_free pool @ [i]"
proof -
  have "length (indexes pool) = pool_cap pool" "0 < pool_cap pool"
    using assms(1) by (simp_all add: pool_ok_def)
  then show ?thesis
    using ring_list_update_free [of "unat (pool_length pool)" "indexes pool" "unat (head pool)" i]
      free_not_full [OF assms]
    by (simp add: pool_free_def release_fields [OF assms] ring_list_snoc)
qed

lemma release_ok:
  assumes ok: "pool_ok pool" and i: "unat i < pool_cap pool" "i \<notin> set (pool_free pool)"
  shows "pool_ok (index_pool_release pool i)"
proof -
  note f = release_fields [OF assms] and q = release_free [OF assms]
  have cap: "pool_cap (index_pool_release pool i) = pool_cap pool" by (simp add: pool_cap_def f)
  have bnd: "\<And>k j. k < pool_cap pool \<Longrightarrow> (of_nat k :: u32) = j \<longleftrightarrow> unat j = k"
    using ok of_nat_eq_u32_iff by (simp add: pool_ok_def)
  show ?thesis
    unfolding pool_ok_def cap q
    using ok i bnd free_not_full [OF assms] by (auto simp: pool_ok_def f nth_list_update)
qed

lemma init_ok:
  assumes "0 < n" "n \<le> 2 ^ 31" "length xs = nat n" "length fs = nat n"
    and "index_pool_init (Some xs) (Some fs) pool n = (r, pool')"
  shows "r" "pool_ok pool'" "pool_cap pool' = nat n" "pool_free pool' = map of_nat [0..<nat n]"
proof -
  define q where "q = pool\<lparr>max_size := word_of_int n, indexes := xs, indexes_flags := fs\<rparr>"
  have cap: "pool_cap q = nat n"
    using assms(1,2) by (simp add: q_def pool_cap_def unat_eq_nat_uint uint_word_of_int_eq
        take_bit_int_eq_self)
  have res: "r" "pool' = index_pool_rewind q"
    using assms(5) by (auto simp: index_pool_init_def q_def)
  have len: "length (indexes q) = pool_cap q" "length (indexes_flags q) = pool_cap q"
    using assms(3,4) unfolding cap by (simp_all add: q_def)
  show "r" "pool_ok pool'" "pool_free pool' = map of_nat [0..<nat n]"
    using res pool_rewind_ok [OF len] pool_rewind_free [OF len] cap assms(1,2) by auto
  show "pool_cap pool' = nat n"
    using res cap by (simp add: index_pool_rewind_eq [OF len]) (simp add: pool_cap_def)
qed

subsection \<open>The allocator contract\<close>

text \<open>
  A client's requests, and what it observes of an allocator: the answer of every allocation,
  the list of the indexes it was handed and has not given back, and the allocator it leaves.
\<close>

datatype pool_op = PAlloc | PRelease u32

fun alloc_run :: "('p \<Rightarrow> (u32 \<times> 'p) option) \<Rightarrow> ('p \<Rightarrow> u32 \<Rightarrow> 'p) \<Rightarrow> pool_op list \<Rightarrow>
    u32 list \<Rightarrow> 'p \<Rightarrow> u32 option list \<times> u32 list \<times> 'p" where
  "alloc_run al re [] held p = ([], held, p)"
| "alloc_run al re (PAlloc # ops) held p =
     (case al p of
        None \<Rightarrow> (let (os, h, q) = alloc_run al re ops held p in (None # os, h, q))
      | Some (i, p') \<Rightarrow>
         (let (os, h, q) = alloc_run al re ops (i # held) p' in (Some i # os, h, q)))"
| "alloc_run al re (PRelease i # ops) held p =
     alloc_run al re ops (removeAll i held) (re p i)"

text \<open>The abstract allocator: a queue of free indexes below a capacity.\<close>

fun fifo_alloc :: "u32 list \<Rightarrow> (u32 \<times> u32 list) option" where
  "fifo_alloc [] = None"
| "fifo_alloc (i # q) = Some (i, q)"

definition fifo_release :: "nat \<Rightarrow> u32 list \<Rightarrow> u32 \<Rightarrow> u32 list" where
  "fifo_release cap q i = (if unat i < cap \<and> i \<notin> set q then q @ [i] else q)"

locale index_allocator =
  fixes inv :: "'p \<Rightarrow> bool"
    and free :: "'p \<Rightarrow> u32 list"
    and cap :: "'p \<Rightarrow> nat"
    and alloc :: "'p \<Rightarrow> (u32 \<times> 'p) option"
    and release :: "'p \<Rightarrow> u32 \<Rightarrow> 'p"
  assumes free_valid: "inv p \<Longrightarrow> distinct (free p) \<and> (\<forall>i \<in> set (free p). unat i < cap p)"
    and alloc_none: "inv p \<Longrightarrow> alloc p = None \<longleftrightarrow> free p = []"
    and alloc_some: "inv p \<Longrightarrow> alloc p = Some (i, p') \<Longrightarrow>
      inv p' \<and> cap p' = cap p \<and> free p = i # free p'"
    and release_spec: "inv p \<Longrightarrow>
      inv (release p i) \<and> cap (release p i) = cap p \<and>
      free (release p i) = fifo_release (cap p) (free p) i"
begin

lemma alloc_fifo:
  assumes "inv p"
  shows "fifo_alloc (free p) = map_option (\<lambda>(i, p'). (i, free p')) (alloc p)"
proof (cases "alloc p")
  case None
  with alloc_none [OF assms] show ?thesis by simp
next
  case (Some a)
  then obtain i p' where ip: "alloc p = Some (i, p')" by (cases a) auto
  with alloc_some [OF assms ip] show ?thesis by simp
qed

lemma run_refines_fifo:
  assumes "inv p" "alloc_run alloc release ops held p = (os, h, q)"
  shows "inv q \<and> cap q = cap p \<and>
    alloc_run fifo_alloc (fifo_release (cap p)) ops held (free p) = (os, h, free q)"
  using assms
proof (induction ops arbitrary: held p os)
  case (Cons op ops)
  show ?case
  proof (cases op)
    case PAlloc
    show ?thesis
    proof (cases "alloc p")
      case None
      with Cons PAlloc alloc_fifo [of p] show ?thesis
        by (fastforce split: prod.splits)
    next
      case (Some a)
      then obtain i p' where ip: "alloc p = Some (i, p')" by (cases a) auto
      with alloc_some [of p i p'] Cons PAlloc alloc_fifo [of p] show ?thesis
        by (fastforce split: prod.splits)
    qed
  next
    case (PRelease i)
    with Cons release_spec [of p i] show ?thesis by fastforce
  qed
qed simp

lemma run_ownership:
  assumes "inv p" "alloc_run alloc release ops held p = (os, h, q)"
    and "distinct (held @ free p)" "\<forall>i. unat i < cap p \<longleftrightarrow> i \<in> set (held @ free p)"
  shows "distinct (h @ free q) \<and> (\<forall>i. unat i < cap p \<longleftrightarrow> i \<in> set (h @ free q))"
  using assms
proof (induction ops arbitrary: held p os)
  case (Cons op ops)
  show ?case
  proof (cases op)
    case PAlloc
    show ?thesis
    proof (cases "alloc p")
      case None
      then obtain os' where "alloc_run alloc release ops held p = (os', h, q)"
        using Cons.prems(2) PAlloc by (auto split: prod.splits)
      then show ?thesis using Cons.IH Cons.prems by blast
    next
      case (Some a)
      then obtain i p' where ip: "alloc p = Some (i, p')" by (cases a) auto
      obtain os' where run: "alloc_run alloc release ops (i # held) p' = (os', h, q)"
        using Cons.prems(2) PAlloc ip by (auto split: prod.splits)
      have p': "inv p'" "cap p' = cap p" "free p = i # free p'"
        using alloc_some [OF Cons.prems(1) ip] by auto
      have "distinct ((i # held) @ free p')" using Cons.prems(3) p' by auto
      moreover have "\<forall>j. unat j < cap p' \<longleftrightarrow> j \<in> set ((i # held) @ free p')"
        using Cons.prems(4) p' by auto
      ultimately show ?thesis using Cons.IH [OF p'(1) run] p'(2) by simp
    qed
  next
    case (PRelease i)
    have p': "inv (release p i)" "cap (release p i) = cap p"
      "free (release p i) = fifo_release (cap p) (free p) i"
      using release_spec [OF Cons.prems(1), of i] by auto
    have "distinct (removeAll i held @ free (release p i))"
      using Cons.prems(3) p' by (auto simp: fifo_release_def distinct_removeAll)
    moreover have "\<forall>j. unat j < cap (release p i) \<longleftrightarrow>
        j \<in> set (removeAll i held @ free (release p i))"
      using Cons.prems(3,4) p' by (auto simp: fifo_release_def)
    ultimately show ?thesis
      using Cons.IH [OF p'(1), of "removeAll i held" os] Cons.prems(2) PRelease p'(2) by simp
  qed
qed simp

end

interpretation pool: index_allocator pool_ok pool_free pool_cap index_pool_alloc index_pool_release
proof unfold_locales
  fix p :: index_pool
  assume ok: "pool_ok p"
  then show "distinct (pool_free p) \<and> (\<forall>i \<in> set (pool_free p). unat i < pool_cap p)"
    by (simp add: pool_ok_def)
  show "index_pool_alloc p = None \<longleftrightarrow> pool_free p = []" by (rule alloc_none_iff)
  show "pool_ok p' \<and> pool_cap p' = pool_cap p \<and> pool_free p = i # pool_free p'"
    if "index_pool_alloc p = Some (i, p')" for i p'
    using alloc_ok [OF ok that] alloc_free [OF ok that] alloc_fields(1) [OF ok that]
    by (simp add: pool_cap_def)
  show "pool_ok (index_pool_release p i) \<and> pool_cap (index_pool_release p i) = pool_cap p \<and>
      pool_free (index_pool_release p i) = fifo_release (pool_cap p) (pool_free p) i" for i
  proof (cases "unat i < pool_cap p \<and> i \<notin> set (pool_free p)")
    case True
    with ok release_ok [of p i] release_free [of p i] release_fields(1) [of p i]
    show ?thesis by (simp add: fifo_release_def) (simp add: pool_cap_def)
  next
    case False
    with ok release_refused [of p i] show ?thesis by (auto simp: fifo_release_def)
  qed
qed

lemma fresh_free_covers:
  assumes "0 < n" "n \<le> 2 ^ 31"
  shows "unat i < nat n \<longleftrightarrow> (i :: u32) \<in> set (map of_nat [0..<nat n])"
  using assms of_nat_eq_u32_iff [of _ i]
  by (auto simp: image_iff unat_of_nat_u32 intro!: bexI [of _ "unat i"])

subsection \<open>Properties\<close>

text \<open>A concrete run, evaluated: three indexes, a double and an out-of-range release.\<close>

definition demo_ops :: "pool_op list" where
  "demo_ops = [PAlloc, PAlloc, PRelease 0, PRelease 0, PRelease 77, PAlloc, PAlloc, PAlloc]"

lemma demo_init:
  "index_pool_init (Some [7, 7, 7]) (Some [9, 9, 9])
     \<lparr>indexes = [], indexes_flags = [], head = 5, max_size = 0, pool_length = 0\<rparr> 3
   = (True, \<lparr>indexes = [0, 1, 2], indexes_flags = [0, 0, 0], head = 0, max_size = 3, pool_length = 3\<rparr>)"
  by code_simp

lemma demo_run:
  "alloc_run index_pool_alloc index_pool_release demo_ops []
     \<lparr>indexes = [0, 1, 2], indexes_flags = [0, 0, 0], head = 0, max_size = 3, pool_length = 3\<rparr>
   = ([Some 0, Some 1, Some 2, Some 0, None], [0, 2, 1],
      \<lparr>indexes = [0, 1, 2], indexes_flags = [1, 1, 1], head = 1, max_size = 3, pool_length = 0\<rparr>)"
  by code_simp

text \<open>
  C5. Whatever sequence of allocations and releases is applied to a freshly initialised pool of
  \<open>n\<close> indexes (releases of indexes that are out of range, or already free, included), the pool
  answers exactly as a first-in-first-out queue holding \<open>0, 1, \<dots>, n - 1\<close> does, and ends in a
  well-formed state whose circular buffer holds that queue's contents.
\<close>

theorem index_pool_refines_fifo:
  assumes "0 < n" "n \<le> 2 ^ 31" "length xs = nat n" "length fs = nat n"
    and "index_pool_init (Some xs) (Some fs) pool n = (r, pool0)"
    and "alloc_run index_pool_alloc index_pool_release ops [] pool0 = (os, held, pool1)"
  shows "r \<and> pool_ok pool1 \<and>
    alloc_run fifo_alloc (fifo_release (nat n)) ops [] (map of_nat [0..<nat n])
      = (os, held, pool_free pool1)"
  using pool.run_refines_fifo [OF init_ok(2) [OF assms(1-5)] assms(6)] init_ok [OF assms(1-5)]
  by simp

theorem index_pool_refines_fifo_witness:
  "pool_ok \<lparr>indexes = [0, 1, 2], indexes_flags = [1, 1, 1], head = 1, max_size = 3, pool_length = 0\<rparr> \<and>
   alloc_run fifo_alloc (fifo_release 3) demo_ops [] [0, 1, 2]
     = ([Some 0, Some 1, Some 2, Some 0, None], [0, 2, 1], [])"
  using index_pool_refines_fifo [OF _ _ _ _ demo_init demo_run] by (simp add: pool_free_def upt_rec)

text \<open>
  C4. No index is ever owned twice: after any sequence of allocations and releases on a fresh
  pool of \<open>n\<close> indexes, the indexes handed out and not yet released are pairwise distinct, none
  of them is in the free queue, and together with the free queue they are all of \<open>0, \<dots>, n - 1\<close>
  (no index leaks).
\<close>

theorem index_pool_no_double_ownership:
  assumes "0 < n" "n \<le> 2 ^ 31" "length xs = nat n" "length fs = nat n"
    and "index_pool_init (Some xs) (Some fs) pool n = (r, pool0)"
    and "alloc_run index_pool_alloc index_pool_release ops [] pool0 = (os, held, pool1)"
  shows "distinct held \<and> set held \<inter> set (pool_free pool1) = {} \<and>
    set held \<union> set (pool_free pool1) = {i. unat i < nat n}"
proof -
  note init = init_ok [OF assms(1-5)]
  have "distinct ([] @ pool_free pool0)"
    using init(2,4) by (simp add: pool_ok_def)
  moreover have "\<forall>i. unat i < pool_cap pool0 \<longleftrightarrow> i \<in> set ([] @ pool_free pool0)"
    using fresh_free_covers [OF assms(1,2)] init by simp
  ultimately show ?thesis
    using pool.run_ownership [OF init(2) assms(6)] init(3) by auto
qed

theorem index_pool_no_double_ownership_witness:
  "distinct [0, 2, 1 :: u32] \<and>
   set [0, 2, 1 :: u32] \<union> set (pool_free \<lparr>indexes = [0, 1, 2], indexes_flags = [1, 1, 1], head = 1,
     max_size = 3, pool_length = 0\<rparr>) = {i. unat i < 3}"
  using index_pool_no_double_ownership [OF _ _ _ _ demo_init demo_run] by simp

end
