(* ===== verification/Alvs_Defs.thy ===== *)
theory Alvs_Defs
  imports Alvs_Prelude
begin

text \<open>
  The definitions shared by the control plane and the data plane: the sizes, offsets and
  enumerations of \<^verbatim>\<open>src/common/defs.h\<close> and \<^verbatim>\<open>src/dp/alvs_defs.h\<close>, the keys and results of the search
  tables of \<^verbatim>\<open>src/common/alvs_search_defs.h\<close>, \<^verbatim>\<open>nw_search_defs.h\<close> and \<^verbatim>\<open>application_search_defs.h\<close>,
  and the structures of the control plane's internal database in \<^verbatim>\<open>src/cp/alvs_db.c\<close>.

  Reserved, parity and padding bits carry no information and are left out.  A member shared by
  a union keeps one field of the union's width.  The field names carry a prefix that names the
  structure, because several structures use the same member name.
\<close>

subsection \<open>Sizes and memory layout\<close>

definition ALVS_SIZE_OF_SCHED_BUCKET :: nat where "ALVS_SIZE_OF_SCHED_BUCKET = 256"
definition ALVS_CONN_MAX_ENTRIES :: nat where "ALVS_CONN_MAX_ENTRIES = 64 * 1024 * 1024"
definition ALVS_SERVICES_MAX_ENTRIES :: nat where "ALVS_SERVICES_MAX_ENTRIES = 256"
definition ALVS_SERVERS_MAX_ENTRIES :: nat where
  "ALVS_SERVERS_MAX_ENTRIES = ALVS_SERVICES_MAX_ENTRIES * 1024"
definition ALVS_NUM_OF_SERVICE_STATS :: nat where "ALVS_NUM_OF_SERVICE_STATS = 6"
definition ALVS_NUM_OF_SERVER_STATS :: nat where "ALVS_NUM_OF_SERVER_STATS = 8"
definition ALVS_NUM_OF_SERVERS_ON_DEMAND_STATS :: nat where
  "ALVS_NUM_OF_SERVERS_ON_DEMAND_STATS = 1"
definition ALVS_NUM_OF_ALVS_ERROR_STATS :: nat where "ALVS_NUM_OF_ALVS_ERROR_STATS = 40"
definition NW_NUM_OF_IF_STATS :: nat where "NW_NUM_OF_IF_STATS = 20"
definition ALVS_CONN_LOCK_ELEMENTS_COUNT :: nat where
  "ALVS_CONN_LOCK_ELEMENTS_COUNT = 256 * 1024"
definition ALVS_AGING_TIMER_SCAN_ENTRIES_PER_JOB :: nat where
  "ALVS_AGING_TIMER_SCAN_ENTRIES_PER_JOB = 128"
definition ALVS_AGING_TIMER_EVENTS_PER_ITERATION :: nat where
  "ALVS_AGING_TIMER_EVENTS_PER_ITERATION =
     ALVS_CONN_MAX_ENTRIES div ALVS_AGING_TIMER_SCAN_ENTRIES_PER_JOB"
definition ALVS_SCHED_RR_RETRIES :: nat where "ALVS_SCHED_RR_RETRIES = 10"
definition ALVS_STATE_SYNC_PROTO_VER :: u8 where "ALVS_STATE_SYNC_PROTO_VER = 1"
definition ALVS_STATE_SYNC_HEADROOM :: nat where "ALVS_STATE_SYNC_HEADROOM = 64"
definition ALVS_STATE_SYNC_BUFFERS_LIMIT :: nat where "ALVS_STATE_SYNC_BUFFERS_LIMIT = 5"
definition ALVS_STATE_SYNC_DST_IP :: u32 where "ALVS_STATE_SYNC_DST_IP = 0xe0000051"
definition ALVS_STATE_SYNC_DST_PORT :: u16 where "ALVS_STATE_SYNC_DST_PORT = 8848"
definition ALVS_APPLICATION_INFO_INDEX :: u8 where "ALVS_APPLICATION_INFO_INDEX = 0"

definition USER_EMEM_OUT_OF_BAND_MSID :: u32 where "USER_EMEM_OUT_OF_BAND_MSID = 2"
definition USER_POSTED_STATS_MSID :: u32 where "USER_POSTED_STATS_MSID = 3"
definition USER_ON_DEMAND_STATS_MSID :: u32 where "USER_ON_DEMAND_STATS_MSID = 5"
definition AF_INET :: u16 where "AF_INET = 2"
definition USER_NW_IF_NUM :: nat where "USER_NW_IF_NUM = 4"
definition USER_HOST_LOGICAL_ID :: u8 where "USER_HOST_LOGICAL_ID = 4"

definition EMEM_ALVS_ERROR_STATS_POSTED_OFFSET :: nat where
  "EMEM_ALVS_ERROR_STATS_POSTED_OFFSET = 0"
definition EMEM_SERVICE_STATS_POSTED_OFFSET :: nat where
  "EMEM_SERVICE_STATS_POSTED_OFFSET =
     EMEM_ALVS_ERROR_STATS_POSTED_OFFSET + ALVS_NUM_OF_ALVS_ERROR_STATS"
definition EMEM_SERVER_STATS_POSTED_OFFSET :: nat where
  "EMEM_SERVER_STATS_POSTED_OFFSET =
     EMEM_SERVICE_STATS_POSTED_OFFSET + ALVS_SERVICES_MAX_ENTRIES * ALVS_NUM_OF_SERVICE_STATS"
definition EMEM_IF_STATS_POSTED_OFFSET :: nat where
  "EMEM_IF_STATS_POSTED_OFFSET =
     EMEM_SERVER_STATS_POSTED_OFFSET + ALVS_SERVERS_MAX_ENTRIES * ALVS_NUM_OF_SERVER_STATS"
definition EMEM_HOST_IF_STATS_POSTED_OFFSET :: nat where
  "EMEM_HOST_IF_STATS_POSTED_OFFSET =
     EMEM_IF_STATS_POSTED_OFFSET + USER_NW_IF_NUM * NW_NUM_OF_IF_STATS"
definition EMEM_SPINLOCK_OFFSET :: nat where "EMEM_SPINLOCK_OFFSET = 0"
definition EMEM_SERVER_FLAGS_OFFSET :: nat where
  "EMEM_SERVER_FLAGS_OFFSET = EMEM_SPINLOCK_OFFSET + ALVS_CONN_LOCK_ELEMENTS_COUNT"
definition EMEM_SERVER_FLAGS_OFFSET_CP :: nat where
  "EMEM_SERVER_FLAGS_OFFSET_CP = EMEM_SPINLOCK_OFFSET + ALVS_CONN_LOCK_ELEMENTS_COUNT * 4"
definition EMEM_SERVER_STATS_ON_DEMAND_OFFSET :: nat where
  "EMEM_SERVER_STATS_ON_DEMAND_OFFSET = 0"
definition EMEM_STATS_ON_DEMAND_COLOR_FLAG_OFFSET :: nat where
  "EMEM_STATS_ON_DEMAND_COLOR_FLAG_OFFSET = ALVS_SERVERS_MAX_ENTRIES * ALVS_NUM_OF_SERVERS_ON_DEMAND_STATS"
definition EMEM_STATS_ON_DEMAND_COLOR_FLAG_NUM :: nat where "EMEM_STATS_ON_DEMAND_COLOR_FLAG_NUM = 1"
definition EMEM_STATS_ON_DEMAND_TB_OFFSET :: nat where
  "EMEM_STATS_ON_DEMAND_TB_OFFSET = EMEM_STATS_ON_DEMAND_COLOR_FLAG_OFFSET + EMEM_STATS_ON_DEMAND_COLOR_FLAG_NUM"
definition EMEM_STATS_ON_DEMAND_TB_STATS_NUM :: nat where "EMEM_STATS_ON_DEMAND_TB_STATS_NUM = 1"

definition BUILD_SUM_ADDR :: "u32 \<Rightarrow> u32 \<Rightarrow> u32 \<Rightarrow> ezdp_sum_addr" where
  "BUILD_SUM_ADDR mem_space_type msid offset =
     push_bit 31 mem_space_type OR push_bit 27 msid OR offset"

lemmas alvs_layout_defs = ALVS_SIZE_OF_SCHED_BUCKET_def ALVS_CONN_MAX_ENTRIES_def
  ALVS_SERVICES_MAX_ENTRIES_def ALVS_SERVERS_MAX_ENTRIES_def ALVS_NUM_OF_SERVICE_STATS_def
  ALVS_NUM_OF_SERVER_STATS_def ALVS_NUM_OF_SERVERS_ON_DEMAND_STATS_def
  ALVS_NUM_OF_ALVS_ERROR_STATS_def NW_NUM_OF_IF_STATS_def ALVS_CONN_LOCK_ELEMENTS_COUNT_def
  EMEM_ALVS_ERROR_STATS_POSTED_OFFSET_def EMEM_SERVICE_STATS_POSTED_OFFSET_def
  EMEM_SERVER_STATS_POSTED_OFFSET_def EMEM_IF_STATS_POSTED_OFFSET_def
  EMEM_HOST_IF_STATS_POSTED_OFFSET_def EMEM_SPINLOCK_OFFSET_def EMEM_SERVER_FLAGS_OFFSET_def
  EMEM_SERVER_FLAGS_OFFSET_CP_def EMEM_SERVER_STATS_ON_DEMAND_OFFSET_def USER_NW_IF_NUM_def
  EMEM_STATS_ON_DEMAND_COLOR_FLAG_OFFSET_def EMEM_STATS_ON_DEMAND_COLOR_FLAG_NUM_def
  EMEM_STATS_ON_DEMAND_TB_OFFSET_def EMEM_STATS_ON_DEMAND_TB_STATS_NUM_def

subsection \<open>Constants of the kernel's load balancer (\<^verbatim>\<open>linux/ip_vs.h\<close>) and of \<^verbatim>\<open>netinet/in.h\<close>\<close>

definition IP_VS_DEST_F_AVAILABLE :: u32 where "IP_VS_DEST_F_AVAILABLE = 0x0001"
definition IP_VS_DEST_F_OVERLOAD :: u32 where "IP_VS_DEST_F_OVERLOAD = 0x0002"
definition IP_VS_CONN_F_FWD_MASK :: u32 where "IP_VS_CONN_F_FWD_MASK = 0x0007"
definition IP_VS_CONN_F_DROUTE :: u32 where "IP_VS_CONN_F_DROUTE = 0x0003"
definition IP_VS_CONN_F_SYNC :: u32 where "IP_VS_CONN_F_SYNC = 0x0020"
definition IP_VS_CONN_F_NOOUTPUT :: u32 where "IP_VS_CONN_F_NOOUTPUT = 0x0080"
definition IP_VS_CONN_F_INACTIVE :: u32 where "IP_VS_CONN_F_INACTIVE = 0x0100"
definition IP_VS_CONN_F_SEQ_MASK :: u32 where "IP_VS_CONN_F_SEQ_MASK = 0x0600"
definition IP_VS_CONN_F_NO_CPORT :: u32 where "IP_VS_CONN_F_NO_CPORT = 0x0800"
definition IP_VS_CONN_F_TEMPLATE :: u32 where "IP_VS_CONN_F_TEMPLATE = 0x1000"
definition IP_VS_CONN_F_BACKUP_MASK :: u32 where
  "IP_VS_CONN_F_BACKUP_MASK = IP_VS_CONN_F_FWD_MASK OR IP_VS_CONN_F_NOOUTPUT OR
     IP_VS_CONN_F_INACTIVE OR IP_VS_CONN_F_SEQ_MASK OR IP_VS_CONN_F_NO_CPORT OR
     IP_VS_CONN_F_TEMPLATE"
definition IP_VS_CONN_F_BACKUP_UPD_MASK :: u32 where
  "IP_VS_CONN_F_BACKUP_UPD_MASK = IP_VS_CONN_F_INACTIVE OR IP_VS_CONN_F_SEQ_MASK"
definition IP_VS_SVC_F_SCHED_SH_FALLBACK :: u32 where "IP_VS_SVC_F_SCHED_SH_FALLBACK = 0x0008"
definition IP_VS_SVC_F_SCHED_SH_PORT :: u32 where "IP_VS_SVC_F_SCHED_SH_PORT = 0x0010"
definition IP_VS_STATE_MASTER :: u32 where "IP_VS_STATE_MASTER = 0x0001"
definition IP_VS_STATE_BACKUP :: u32 where "IP_VS_STATE_BACKUP = 0x0002"
definition IPPROTO_TCP :: u16 where "IPPROTO_TCP = 6"
definition IPPROTO_UDP :: u16 where "IPPROTO_UDP = 17"

lemmas ip_vs_defs = IP_VS_DEST_F_AVAILABLE_def IP_VS_DEST_F_OVERLOAD_def
  IP_VS_CONN_F_FWD_MASK_def IP_VS_CONN_F_DROUTE_def IP_VS_CONN_F_SYNC_def
  IP_VS_CONN_F_NOOUTPUT_def IP_VS_CONN_F_INACTIVE_def IP_VS_CONN_F_SEQ_MASK_def
  IP_VS_CONN_F_NO_CPORT_def IP_VS_CONN_F_TEMPLATE_def IP_VS_CONN_F_BACKUP_MASK_def
  IP_VS_CONN_F_BACKUP_UPD_MASK_def IP_VS_SVC_F_SCHED_SH_FALLBACK_def
  IP_VS_SVC_F_SCHED_SH_PORT_def IP_VS_STATE_MASTER_def IP_VS_STATE_BACKUP_def

subsection \<open>Enumerations\<close>

datatype alvs_scheduler_type =
    ALVS_ROUND_ROBIN_SCHEDULER
  | ALVS_WEIGHTED_ROUND_ROBIN_SCHEDULER
  | ALVS_LEAST_CONNECTION_SCHEDULER
  | ALVS_WEIGHTED_LEAST_CONNECTION_SCHEDULER
  | ALVS_DESTINATION_HASH_SCHEDULER
  | ALVS_SOURCE_HASH_SCHEDULER
  | ALVS_LB_LEAST_CONNECTION_SCHEDULER
  | ALVS_LB_LEAST_CONNECTION_SCHEDULER_WITH_REPLICATION
  | ALVS_SHORTEST_EXPECTED_DELAY_SCHEDULER
  | ALVS_NEVER_QUEUE_SCHEDULER
  | ALVS_SCHEDULER_LAST

text \<open>
  The connection state is an eight-bit field.  A backup stores the state it receives, whatever its
  value, so the type is the whole range and the enumerators are three of its values.
\<close>

type_synonym alvs_tcp_conn_state = u8

definition IP_VS_TCP_S_NONE :: alvs_tcp_conn_state where "IP_VS_TCP_S_NONE = 0"
definition IP_VS_TCP_S_ESTABLISHED :: alvs_tcp_conn_state where "IP_VS_TCP_S_ESTABLISHED = 1"
definition IP_VS_TCP_S_CLOSE_WAIT :: alvs_tcp_conn_state where "IP_VS_TCP_S_CLOSE_WAIT = 7"

lemmas tcp_state_defs = IP_VS_TCP_S_NONE_def IP_VS_TCP_S_ESTABLISHED_def IP_VS_TCP_S_CLOSE_WAIT_def

datatype alvs_service_output_result =
    ALVS_SERVICE_DATA_PATH_IGNORE
  | ALVS_SERVICE_DATA_PATH_RETRY
  | ALVS_SERVICE_DATA_PATH_SUCCESS

datatype alvs_sched_server_result =
    ALVS_SCHED_SERVER_SUCCESS
  | ALVS_SCHED_SERVER_FAILED
  | ALVS_SCHED_SERVER_EMPTY
  | ALVS_SCHED_SERVER_UNAVAILABLE

datatype alvs_conn_sync_status = ALVS_CONN_SYNC_NEED | ALVS_CONN_SYNC_NO_NEED

datatype alvs_db_rc =
    ALVS_DB_OK
  | ALVS_DB_FAILURE
  | ALVS_DB_NOT_SUPPORTED
  | ALVS_DB_INTERNAL_ERROR
  | ALVS_DB_NPS_ERROR
  | ALVS_DB_FATAL_ERROR

datatype alvs_error_stat =
    ALVS_ERROR_UNSUPPORTED_ROUTING_ALGO
  | ALVS_ERROR_CANT_EXPIRE_CONNECTION
  | ALVS_ERROR_CANT_UPDATE_CONNECTION_STATE
  | ALVS_ERROR_CONN_INFO_LKUP_FAIL
  | ALVS_ERROR_CONN_CLASS_ALLOC_FAIL
  | ALVS_ERROR_CONN_INFO_ALLOC_FAIL
  | ALVS_ERROR_CONN_INDEX_ALLOC_FAIL
  | ALVS_ERROR_SERVICE_CLASS_LKUP_FAIL
  | ALVS_ERROR_SCHEDULING_FAIL
  | ALVS_ERROR_SERVER_INFO_LKUP_FAIL
  | ALVS_ERROR_SERVER_IS_UNAVAILABLE
  | ALVS_ERROR_SERVER_INDEX_LKUP_FAIL
  | ALVS_ERROR_CONN_CLASS_LKUP_FAIL
  | ALVS_ERROR_SERVICE_INFO_LOOKUP
  | ALVS_ERROR_UNSUPPORTED_SCHED_ALGO
  | ALVS_ERROR_CANT_MARK_DELETE
  | ALVS_ERROR_DEST_SERVER_IS_NOT_AVAIL
  | ALVS_ERROR_SEND_FRAME_FAIL
  | ALVS_ERROR_CONN_MARK_TO_DELETE
  | ALVS_ERROR_SERVICE_CLASS_LOOKUP
  | ALVS_ERROR_UNSUPPORTED_PROTOCOL
  | ALVS_ERROR_NO_ACTIVE_SERVERS
  | ALVS_ERROR_CREATE_CONN_MEM_ERROR
  | ALVS_ERROR_STATE_SYNC
  | ALVS_ERROR_STATE_SYNC_LOOKUP_FAIL
  | ALVS_ERROR_STATE_SYNC_BACKUP_DOWN
  | ALVS_ERROR_STATE_SYNC_BAD_HEADER_SIZE
  | ALVS_ERROR_STATE_SYNC_BACKUP_NOT_MY_SYNCID
  | ALVS_ERROR_STATE_SYNC_BAD_BUFFER
  | ALVS_ERROR_STATE_SYNC_DECODE_CONN
  | ALVS_ERROR_STATE_SYNC_BAD_MESSAGE_VERSION

datatype nw_if_stat =
    NW_IF_STATS_FRAME_VALIDATION_FAIL
  | NW_IF_STATS_MAC_ERROR
  | NW_IF_STATS_IPV4_ERROR
  | NW_IF_STATS_NOT_MY_MAC
  | NW_IF_STATS_NOT_IPV4
  | NW_IF_STATS_NOT_TCP
  | NW_IF_STATS_NO_VALID_ROUTE
  | NW_IF_STATS_FAIL_ARP_LOOKUP
  | NW_IF_STATS_FAIL_INTERFACE_LOOKUP
  | NW_IF_STATS_FAIL_FIB_LOOKUP
  | NW_IF_STATS_REJECT_BY_FIB
  | NW_IF_STATS_UNKNOWN_FIB_RESULT

datatype dp_path_type = DP_PATH_FROM_NW_PATH | DP_PATH_FROM_HOST_PATH | DP_PATH_NOT_VALID

datatype nw_fib_type = NW_FIB_NEIGHBOR | NW_FIB_GW | NW_FIB_DROP

definition ALVS_TCP_CONN_ITER_ESTABLISHED :: u8 where "ALVS_TCP_CONN_ITER_ESTABLISHED = 60"
definition ALVS_TCP_CONN_ITER_CLOSE_WAIT :: u8 where "ALVS_TCP_CONN_ITER_CLOSE_WAIT = 1"

subsection \<open>Search tables\<close>

record alvs_service_classification_key =
  sck_address :: in_addr_t
  sck_port :: u16
  sck_protocol :: u16

record alvs_service_classification_result =
  scr_service_index :: u8

record alvs_service_info_result =
  sir_sched_alg :: alvs_scheduler_type
  sir_sched_entries_count :: u16
  sir_service_sched_ctr :: ezdp_sum_addr
  sir_service_stats_base :: ezdp_sum_addr
  sir_service_flags :: u32

record alvs_sched_info_result =
  schr_server_index :: u32

record alvs_conn_classification_key =
  cck_client_ip :: in_addr_t
  cck_virtual_ip :: in_addr_t
  cck_client_port :: u16
  cck_virtual_port :: u16
  cck_protocol :: u16

record alvs_conn_classification_result =
  ccr_conn_index :: u32

text \<open>
  \<open>cir_server_word\<close> is the union of \<open>server_index\<close> (the entry is bound) and \<open>server_addr\<close> (it
  is not).
\<close>

record alvs_conn_info_result =
  cir_reset_bit :: bool
  cir_delete_bit :: bool
  cir_aging_bit :: bool
  cir_bound :: bool
  cir_server_port :: u16
  cir_server_word :: u32
  cir_conn_class_key :: alvs_conn_classification_key
  cir_conn_state :: alvs_tcp_conn_state
  cir_age_iteration :: u8
  cir_conn_flags :: u32

record alvs_server_info_result =
  svr_server_flags :: u8
  svr_server_port :: u16
  svr_server_stats_base :: ezdp_sum_addr
  svr_server_ip :: in_addr_t
  svr_server_on_demand_stats_base :: ezdp_sum_addr
  svr_service_stats_base :: ezdp_sum_addr
  svr_u_thresh :: u16
  svr_l_thresh :: u16
  svr_conn_flags :: u32
  svr_server_flags_dp_base :: ezdp_sum_addr

record alvs_server_classification_key =
  svk_server_ip :: in_addr_t
  svk_virtual_ip :: in_addr_t
  svk_server_port :: u16
  svk_virtual_port :: u16
  svk_protocol :: u16

record alvs_server_classification_result =
  svc_server_index :: u32

record alvs_app_info_result =
  air_master_bit :: bool
  air_backup_bit :: bool
  air_m_sync_id :: u8
  air_b_sync_id :: u8
  air_source_ip :: in_addr_t

type_synonym ether_addr = "u8 list"

record nw_if_result =
  nir_oper_status :: bool
  nir_path_type :: dp_path_type
  nir_is_vlan :: bool
  nir_lag_id :: u8
  nir_default_vlan :: u16
  nir_mac_address :: ether_addr
  nir_output_channel :: u8
  nir_stats_base :: ezdp_sum_addr

record nw_arp_result =
  nar_base_logical_id :: u8
  nar_dest_mac_addr :: ether_addr

record nw_fib_key =
  nfk_rsv0 :: u32
  nfk_rsv1 :: u16
  nfk_dest_ip :: in_addr_t

record nw_fib_result =
  nfr_result_type :: nw_fib_type
  nfr_dest_ip :: in_addr_t

subsection \<open>Structures of the internal database\<close>

record alvs_db_service_stats =
  sst_connection_scheduled :: u64
  sst_in_packet :: u64
  sst_in_byte :: u64
  sst_out_packet :: u64
  sst_out_byte :: u64

record alvs_db_service =
  svc_ip :: in_addr_t
  svc_port :: u16
  svc_protocol :: u16
  svc_nps_index :: u32
  svc_flags :: u32
  svc_sched_alg :: alvs_scheduler_type
  svc_stats_base :: ezdp_sum_addr
  svc_sched_entries_count :: u16
  svc_stats :: alvs_db_service_stats

record alvs_db_server_stats =
  vst_connection_scheduled :: u64
  vst_in_packet :: u64
  vst_in_byte :: u64
  vst_out_packet :: u64
  vst_out_byte :: u64
  vst_active_connection :: u64
  vst_inactive_connection :: u64
  vst_connection_total :: u64

record alvs_db_server =
  srv_ip :: in_addr_t
  srv_port :: u16
  srv_weight :: u16
  srv_active :: u8
  srv_nps_index :: u32
  srv_conn_flags :: u32
  srv_server_flags :: u32
  srv_u_thresh :: u32
  srv_l_thresh :: u32
  srv_server_stats_base :: ezdp_sum_addr
  srv_service_stats_base :: ezdp_sum_addr
  srv_on_demand_stats_base :: ezdp_sum_addr
  srv_flags_dp_base :: ezdp_sum_addr
  srv_stats :: alvs_db_server_stats

record alvs_db_application_info =
  app_application_index :: u8
  app_is_master :: bool
  app_is_backup :: bool
  app_m_sync_id :: u8
  app_b_sync_id :: u8
  app_source_ip :: in_addr_t

end
