(* ===== verification/Sched_Buckets.thy ===== *)
theory Sched_Buckets
  imports Alvs_Defs
begin

text \<open>
  The scheduling buckets of \<^verbatim>\<open>src/cp/alvs_db.c\<close>: the pure part of
  \<open>alvs_db_recalculate_scheduling_info\<close>, which turns the servers of a service into the 256
  entries the data plane schedules from, by round robin, weighted round robin or source hash.

  The cyclic list that \<open>internal_db_get_server_list\<close> builds is a list of servers, its head
  first; a pointer to a node is the node's position, and following \<open>next\<close> from position \<open>p\<close>
  gives \<open>Suc p mod length\<close>.  A bucket is a list of such pointers, with \<open>None\<close> for \<open>NULL\<close>.  The
  pools bound the number of servers by 32768, so the 16-bit loop counters do not wrap.
\<close>

subsection \<open>Operations\<close>

function alvs_db_gcd :: "u16 \<Rightarrow> u16 \<Rightarrow> u16" where
  "alvs_db_gcd num1 num2 = (let r = num1 mod num2 in
     if r \<noteq> 0 then alvs_db_gcd num2 r else num2)"
  by pat_completeness auto

text \<open>
  With a zero divisor (undefined in C, where the callers exclude it) the loop would swap its
  arguments once, hence the measure.
\<close>

termination alvs_db_gcd
  by (relation "measure (\<lambda>(a, b). if b = 0 then 2 ^ 16 else unat b)")
    (auto simp: unat_mod unat_gt_0)

declare alvs_db_gcd.simps [simp del]

type_synonym bucket = "nat option list"

definition next_node :: "alvs_db_server list \<Rightarrow> nat \<Rightarrow> nat" where
  "next_node server_list p = Suc p mod length server_list"

text \<open>The first loop of \<open>alvs_db_reduce_weights\<close>; \<open>None\<close> is its early return on a divisor of 1.\<close>

primrec reduce_gcd_loop :: "nat \<Rightarrow> alvs_db_server list \<Rightarrow> nat \<Rightarrow> u16 \<Rightarrow> (u16 \<times> nat) option" where
  "reduce_gcd_loop 0 server_list p g = Some (g, p)"
| "reduce_gcd_loop (Suc k) server_list p g =
     (let p = next_node server_list p;
          g = alvs_db_gcd g (srv_weight (server_list ! p))
      in if g = 1 then None else reduce_gcd_loop k server_list p g)"

primrec reduce_div_loop :: "nat \<Rightarrow> alvs_db_server list \<Rightarrow> nat \<Rightarrow> u16 \<Rightarrow> alvs_db_server list" where
  "reduce_div_loop 0 server_list p g = server_list"
| "reduce_div_loop (Suc k) server_list p g =
     (let server_list = server_list[p := (server_list ! p)
            \<lparr>srv_weight := srv_weight (server_list ! p) div g\<rparr>]
      in reduce_div_loop k server_list (next_node server_list p) g)"

definition alvs_db_reduce_weights :: "alvs_db_server list \<Rightarrow> nat \<Rightarrow> alvs_db_server list" where
  "alvs_db_reduce_weights server_list server_count =
     (case reduce_gcd_loop (server_count - 1) server_list 0 (srv_weight (server_list ! 0)) of
        None \<Rightarrow> server_list
      | Some (g, p) \<Rightarrow> reduce_div_loop server_count server_list p g)"

primrec max_weight_loop ::
  "nat \<Rightarrow> alvs_db_server list \<Rightarrow> nat \<Rightarrow> nat option \<Rightarrow> u16 \<Rightarrow> nat option" where
  "max_weight_loop 0 server_list p max_server max_weight = max_server"
| "max_weight_loop (Suc k) server_list p max_server max_weight =
     (if srv_weight (server_list ! p) > max_weight
      then max_weight_loop k server_list (next_node server_list p) (Some p)
             (srv_weight (server_list ! p))
      else max_weight_loop k server_list (next_node server_list p) max_server max_weight)"

definition alvs_db_get_max_weight_server :: "alvs_db_server list \<Rightarrow> nat \<Rightarrow> nat option" where
  "alvs_db_get_max_weight_server server_list server_count =
     max_weight_loop server_count server_list 0 None 0"

primrec rr_loop :: "nat \<Rightarrow> nat \<Rightarrow> bucket \<Rightarrow> alvs_db_server list \<Rightarrow> nat \<Rightarrow> bucket" where
  "rr_loop 0 ind bucket server_list p = bucket"
| "rr_loop (Suc k) ind bucket server_list p =
     rr_loop k (Suc ind) (bucket[ind := Some p]) server_list (next_node server_list p)"

definition alvs_db_rr_fill_buckets :: "bucket \<Rightarrow> alvs_db_server list \<Rightarrow> nat \<Rightarrow> bucket" where
  "alvs_db_rr_fill_buckets bucket server_list server_count =
     rr_loop (min server_count ALVS_SIZE_OF_SCHED_BUCKET) 0 bucket server_list 0"

definition dec_weight :: "alvs_db_server list \<Rightarrow> nat \<Rightarrow> alvs_db_server list" where
  "dec_weight server_list m =
     server_list[m := (server_list ! m)\<lparr>srv_weight := srv_weight (server_list ! m) - 1\<rparr>]"

primrec wrr_loop ::
  "nat \<Rightarrow> nat \<Rightarrow> bucket \<Rightarrow> alvs_db_server list \<Rightarrow> nat \<Rightarrow> bucket \<times> alvs_db_server list" where
  "wrr_loop 0 ind bucket server_list server_count = (bucket, server_list)"
| "wrr_loop (Suc k) ind bucket server_list server_count =
     (case alvs_db_get_max_weight_server server_list server_count of
        None \<Rightarrow> (bucket, server_list)
      | Some m \<Rightarrow> wrr_loop k (Suc ind) (bucket[ind := Some m]) (dec_weight server_list m) server_count)"

definition alvs_db_wrr_fill_buckets ::
  "bucket \<Rightarrow> alvs_db_server list \<Rightarrow> nat \<Rightarrow> bucket \<times> alvs_db_server list" where
  "alvs_db_wrr_fill_buckets bucket server_list server_count =
     wrr_loop ALVS_SIZE_OF_SCHED_BUCKET 0 bucket server_list server_count"

primrec sh_loop :: "nat \<Rightarrow> nat \<Rightarrow> bucket \<Rightarrow> alvs_db_server list \<Rightarrow> nat \<Rightarrow> u16 \<Rightarrow> bucket" where
  "sh_loop 0 ind bucket server_list p weight = bucket"
| "sh_loop (Suc k) ind bucket server_list p weight =
     (let bucket = bucket[ind := Some p]; weight = weight + 1 in
      if weight \<ge> srv_weight (server_list ! p)
      then sh_loop k (Suc ind) bucket server_list (next_node server_list p) 0
      else sh_loop k (Suc ind) bucket server_list p weight)"

definition alvs_db_sh_fill_buckets :: "bucket \<Rightarrow> alvs_db_server list \<Rightarrow> bucket" where
  "alvs_db_sh_fill_buckets bucket server_list =
     sh_loop ALVS_SIZE_OF_SCHED_BUCKET 0 bucket server_list 0 0"

definition empty_bucket :: bucket where
  "empty_bucket = replicate ALVS_SIZE_OF_SCHED_BUCKET None"

subsection \<open>Greatest common divisor\<close>

lemma alvs_db_gcd_correct:
  assumes "num2 \<noteq> 0"
  shows "unat (alvs_db_gcd num1 num2) = gcd (unat num1) (unat num2)"
  using assms
proof (induction num1 num2 rule: alvs_db_gcd.induct)
  case (1 num1 num2)
  have mod: "unat (num1 mod num2) = unat num1 mod unat num2" by (simp add: unat_mod)
  show ?case
  proof (cases "num1 mod num2 = 0")
    case True
    then have "unat num2 dvd unat num1" using mod by auto
    then show ?thesis using True by (simp add: alvs_db_gcd.simps gcd_nat.absorb2)
  next
    case False
    then have "unat (alvs_db_gcd num1 num2) = gcd (unat num2) (unat (num1 mod num2))"
      using 1 by (simp add: alvs_db_gcd.simps [of num1 num2])
    then show ?thesis by (simp add: mod gcd_red_nat [symmetric])
  qed
qed

text \<open>The weights of a server list, as numbers.\<close>

definition weights :: "alvs_db_server list \<Rightarrow> nat list" where
  "weights server_list = map (\<lambda>s. unat (srv_weight s)) server_list"

definition total_weight :: "alvs_db_server list \<Rightarrow> nat" where
  "total_weight server_list = sum_list (weights server_list)"

lemma length_weights [simp]: "length (weights ss) = length ss"
  by (simp add: weights_def)

lemma nth_weights [simp]: "i < length ss \<Longrightarrow> weights ss ! i = unat (srv_weight (ss ! i))"
  by (simp add: weights_def)

lemma weights_zero: "total_weight ss = 0 \<Longrightarrow> i < length ss \<Longrightarrow> weights ss ! i = 0"
  by (metis length_weights nth_mem sum_list_eq_0_iff total_weight_def)

lemma reduce_gcd_loop_spec:
  assumes "p + k < length ss" "\<forall>s \<in> set ss. srv_weight s \<noteq> 0"
    and "unat g = Gcd (set (take (Suc p) (weights ss)))"
  shows "case reduce_gcd_loop k ss p g of
      None \<Rightarrow> Gcd (set (weights ss)) = 1
    | Some (g', p') \<Rightarrow> unat g' = Gcd (set (take (Suc (p + k)) (weights ss))) \<and> p' = p + k"
  using assms
proof (induction k arbitrary: p g)
  case (Suc k)
  let ?g = "alvs_db_gcd g (srv_weight (ss ! Suc p))"
  have nxt: "next_node ss p = Suc p" using Suc.prems by (simp add: next_node_def)
  have "srv_weight (ss ! Suc p) \<noteq> 0" using Suc.prems by simp
  then have g: "unat ?g = Gcd (set (take (Suc (Suc p)) (weights ss)))"
    using Suc.prems
    by (simp add: alvs_db_gcd_correct take_Suc_conv_app_nth [of "Suc p"] gcd.commute)
  show ?case
  proof (cases "?g = 1")
    case True
    then have "Gcd (set (take (Suc (Suc p)) (weights ss))) = 1" using g by simp
    moreover have "Gcd (set (weights ss)) dvd Gcd (set (take (Suc (Suc p)) (weights ss)))"
      by (meson Gcd_greatest Gcd_dvd in_set_takeD)
    ultimately show ?thesis using True nxt by simp
  next
    case False
    then show ?thesis using Suc.IH [of "Suc p" ?g] Suc.prems g nxt by (simp split: option.splits prod.splits)
  qed
qed simp


lemma reduce_div_loop_length [simp]: "length (reduce_div_loop k ss p g) = length ss"
  by (induction k arbitrary: ss p) (simp_all add: Let_def)

text \<open>Dividing \<open>k\<close> consecutive nodes of the ring from \<open>p\<close> divides exactly those nodes.\<close>

lemma reduce_div_loop_nth:
  assumes "k \<le> length ss" "p < length ss" "i < length ss"
  shows "reduce_div_loop k ss p g ! i =
    (if \<exists>j < k. i = (p + j) mod length ss
     then (ss ! i)\<lparr>srv_weight := srv_weight (ss ! i) div g\<rparr> else ss ! i)"
  using assms
proof (induction k arbitrary: ss p)
  case (Suc k)
  let ?n = "length ss"
  let ?ss = "ss[p := (ss ! p)\<lparr>srv_weight := srv_weight (ss ! p) div g\<rparr>]"
  have pos: "Suc p mod ?n < ?n" using Suc.prems(2) by (intro mod_less_divisor) linarith
  have IH: "reduce_div_loop k ?ss (Suc p mod ?n) g ! i =
    (if \<exists>j < k. i = (p + Suc j) mod ?n
     then (?ss ! i)\<lparr>srv_weight := srv_weight (?ss ! i) div g\<rparr> else ?ss ! i)"
    using Suc.IH [of ?ss "Suc p mod ?n"] Suc.prems pos by (simp add: mod_add_left_eq)
  have split: "(\<exists>j < Suc k. i = (p + j) mod ?n) \<longleftrightarrow> i = p \<or> (\<exists>j < k. i = (p + Suc j) mod ?n)"
    using Suc.prems by (auto simp: less_Suc_eq_0_disj)
  have "p \<noteq> (p + Suc j) mod ?n" if "j < k" for j
    using ring_position_inj [of 0 ?n "Suc j" p] that Suc.prems(1,2) by fastforce
  then show ?case using IH split Suc.prems by (auto simp: next_node_def nth_list_update)
qed simp

lemma ring_covers:
  assumes "p < n" "i < (n :: nat)"
  shows "\<exists>j < n. i = (p + j) mod n"
proof (cases "p \<le> i")
  case True
  with assms show ?thesis by (intro exI [of _ "i - p"]) auto
next
  case False
  with assms show ?thesis by (intro exI [of _ "n + i - p"]) auto
qed

lemma reduce_weights_map:
  assumes "ss \<noteq> []" "\<forall>s \<in> set ss. srv_weight s \<noteq> 0"
  shows "\<exists>g. unat g = Gcd (set (weights ss)) \<and>
    alvs_db_reduce_weights ss (length ss) = map (\<lambda>s. s\<lparr>srv_weight := srv_weight s div g\<rparr>) ss"
proof -
  let ?n = "length ss"
  have "unat (srv_weight (ss ! 0)) = Gcd (set (take (Suc 0) (weights ss)))"
    using assms(1) by (simp add: take_Suc_conv_app_nth)
  note loop = reduce_gcd_loop_spec [OF _ assms(2) this, of "?n - 1"]
  show ?thesis
  proof (cases "reduce_gcd_loop (?n - 1) ss 0 (srv_weight (ss ! 0))")
    case None
    then show ?thesis using loop assms(1)
      by (intro exI [of _ 1]) (simp add: alvs_db_reduce_weights_def)
  next
    case (Some gp)
    then obtain g where g: "gp = (g, ?n - 1)" "unat g = Gcd (set (weights ss))"
      using loop assms(1) by (cases gp) auto
    have "reduce_div_loop ?n ss (?n - 1) g = map (\<lambda>s. s\<lparr>srv_weight := srv_weight s div g\<rparr>) ss"
      using assms(1) ring_covers [of "?n - 1" ?n]
      by (intro nth_equalityI) (auto simp: reduce_div_loop_nth)
    with g Some show ?thesis by (auto simp: alvs_db_reduce_weights_def)
  qed
qed

lemma weights_reduce:
  assumes "ss \<noteq> []" "\<forall>s \<in> set ss. srv_weight s \<noteq> 0"
  shows "weights (alvs_db_reduce_weights ss (length ss)) =
    map (\<lambda>w. w div Gcd (set (weights ss))) (weights ss)"
proof -
  obtain g where "unat g = Gcd (set (weights ss))"
    "alvs_db_reduce_weights ss (length ss) = map (\<lambda>s. s\<lparr>srv_weight := srv_weight s div g\<rparr>) ss"
    using reduce_weights_map [OF assms] by blast
  then show ?thesis by (simp add: weights_def unat_div)
qed

subsection \<open>The server with the largest weight\<close>

lemma max_weight_loop_spec:
  assumes "p + k = length ss" "\<forall>i < p. srv_weight (ss ! i) \<le> mw"
    and "case ms of None \<Rightarrow> mw = 0 | Some m \<Rightarrow> m < p \<and> srv_weight (ss ! m) = mw \<and> mw > 0"
  shows "case max_weight_loop k ss (p mod length ss) ms mw of
      None \<Rightarrow> \<forall>i < length ss. srv_weight (ss ! i) = 0
    | Some m \<Rightarrow> m < length ss \<and> 0 < srv_weight (ss ! m) \<and>
        (\<forall>i < length ss. srv_weight (ss ! i) \<le> srv_weight (ss ! m))"
  using assms
proof (induction k arbitrary: p ms mw)
  case 0
  then show ?case by (auto split: option.splits)
next
  case (Suc k)
  then have p: "p < length ss" by simp
  then have nxt: "next_node ss p = Suc p mod length ss" by (simp add: next_node_def)
  show ?case
  proof (cases "srv_weight (ss ! p) > mw")
    case True
    then have "\<forall>i < Suc p. srv_weight (ss ! i) \<le> srv_weight (ss ! p)"
      using Suc.prems(2) by (force simp: less_Suc_eq)
    moreover have "0 < srv_weight (ss ! p)" using True word_zero_le le_less_trans by blast
    ultimately show ?thesis
      using True Suc.IH [of "Suc p" "srv_weight (ss ! p)" "Some p"] Suc.prems(1) p nxt by simp
  next
    case False
    then have "\<forall>i < Suc p. srv_weight (ss ! i) \<le> mw"
      using Suc.prems(2) by (auto simp: less_Suc_eq not_less)
    with False show ?thesis
      using Suc.IH [of "Suc p" mw ms] Suc.prems(1,3) p nxt
      by (auto split: option.splits)
  qed
qed

lemma max_weight_spec:
  "case alvs_db_get_max_weight_server ss (length ss) of
      None \<Rightarrow> \<forall>i < length ss. srv_weight (ss ! i) = 0
    | Some m \<Rightarrow> m < length ss \<and> 0 < srv_weight (ss ! m) \<and>
        (\<forall>i < length ss. srv_weight (ss ! i) \<le> srv_weight (ss ! m))"
  using max_weight_loop_spec [of 0 "length ss" ss 0 None]
  by (simp add: alvs_db_get_max_weight_server_def)

lemma max_weight_none:
  "alvs_db_get_max_weight_server ss (length ss) = None \<Longrightarrow> total_weight ss = 0"
  using max_weight_spec [of ss]
  by (auto simp: total_weight_def weights_def in_set_conv_nth)

lemma max_weight_some:
  assumes "alvs_db_get_max_weight_server ss (length ss) = Some m"
  shows "m < length ss" "0 < weights ss ! m" "\<forall>i < length ss. weights ss ! i \<le> weights ss ! m"
  using max_weight_spec [of ss] assms by (auto simp: word_le_nat_alt unat_gt_0 word_greater_zero_iff)

subsection \<open>Round robin\<close>

lemma rr_loop_eq:
  assumes "length b = ind + k + r" "ind + k \<le> length ss"
  shows "rr_loop k ind b ss (ind mod length ss) =
    take ind b @ map Some [ind..<ind + k] @ drop (ind + k) b"
  using assms
proof (induction k arbitrary: ind b)
  case (Suc k)
  then have "next_node ss ind = Suc ind mod length ss" "ind mod length ss = ind"
    by (simp_all add: next_node_def)
  then show ?case
    using Suc.IH [of "b[ind := Some ind]" "Suc ind"] Suc.prems
    by (simp add: take_Suc_conv_app_nth upt_conv_Cons del: upt_Suc)
qed simp

lemma rr_fill_eq:
  "alvs_db_rr_fill_buckets empty_bucket ss (length ss) =
     map Some [0..<min (length ss) 256] @ replicate (256 - length ss) None"
  using rr_loop_eq [of empty_bucket 0 "min (length ss) 256" "256 - min (length ss) 256" ss]
  by (simp add: alvs_db_rr_fill_buckets_def empty_bucket_def ALVS_SIZE_OF_SCHED_BUCKET_def)

subsection \<open>Weighted round robin\<close>

text \<open>The servers in the order in which the loop picks them.\<close>

primrec wrr_picks :: "nat \<Rightarrow> alvs_db_server list \<Rightarrow> nat list" where
  "wrr_picks 0 ss = []"
| "wrr_picks (Suc k) ss =
     (case alvs_db_get_max_weight_server ss (length ss) of
        None \<Rightarrow> []
      | Some m \<Rightarrow> m # wrr_picks k (dec_weight ss m))"

lemma length_dec_weight [simp]: "length (dec_weight ss m) = length ss"
  by (simp add: dec_weight_def)

lemma weights_dec_weight:
  assumes "m < length ss" "0 < weights ss ! m"
  shows "weights (dec_weight ss m) = (weights ss)[m := weights ss ! m - 1]"
proof -
  have "srv_weight (ss ! m) \<noteq> 0" using assms by auto
  then show ?thesis using assms by (simp add: weights_def dec_weight_def map_update unat_minus_one)
qed

lemma total_dec_weight:
  assumes "m < length ss" "0 < weights ss ! m"
  shows "total_weight ss = Suc (total_weight (dec_weight ss m))"
  using assms elem_le_sum_list [of m "weights ss"]
  by (simp add: total_weight_def weights_dec_weight sum_list_update)

lemma wrr_picks_length: "length (wrr_picks k ss) = min k (total_weight ss)"
proof (induction k arbitrary: ss)
  case (Suc k)
  show ?case
  proof (cases "alvs_db_get_max_weight_server ss (length ss)")
    case None
    then show ?thesis using max_weight_none by simp
  next
    case (Some m)
    note m = max_weight_some [OF Some]
    then show ?thesis using Some Suc.IH total_dec_weight [OF m(1,2)] by simp
  qed
qed simp

lemma wrr_picks_valid: "set (wrr_picks k ss) \<subseteq> {..<length ss}"
proof (induction k arbitrary: ss)
  case (Suc k)
  show ?case
    using Suc.IH [of "dec_weight ss _"] max_weight_some(1) [of ss]
    by (force split: option.splits)
qed simp

text \<open>What is left of a server's weight after the picks.\<close>

lemma wrr_picks_count_le:
  "i < length ss \<Longrightarrow> count_list (wrr_picks k ss) i \<le> weights ss ! i"
proof (induction k arbitrary: ss)
  case (Suc k)
  show ?case
  proof (cases "alvs_db_get_max_weight_server ss (length ss)")
    case (Some m)
    note m = max_weight_some [OF Some]
    have "count_list (wrr_picks k (dec_weight ss m)) i \<le> (weights ss)[m := weights ss ! m - 1] ! i"
      using Suc.IH [of "dec_weight ss m"] Suc.prems weights_dec_weight [OF m(1,2)] by simp
    then show ?thesis using Some m Suc.prems by (auto simp: nth_list_update split: if_splits)
  qed simp
qed simp

lemma wrr_picks_exact:
  assumes "total_weight ss \<le> k" "i < length ss"
  shows "count_list (wrr_picks k ss) i = weights ss ! i"
  using assms
proof (induction k arbitrary: ss)
  case 0
  then show ?case using weights_zero by simp
next
  case (Suc k)
  show ?case
  proof (cases "alvs_db_get_max_weight_server ss (length ss)")
    case None
    then show ?thesis using max_weight_none [OF None] weights_zero Suc.prems(2) by simp
  next
    case (Some m)
    note m = max_weight_some [OF Some]
    have "count_list (wrr_picks k (dec_weight ss m)) i = (weights ss)[m := weights ss ! m - 1] ! i"
      using Suc.IH [of "dec_weight ss m"] Suc.prems weights_dec_weight [OF m(1,2)]
        total_dec_weight [OF m(1,2)] by simp
    then show ?thesis using Some m Suc.prems by (auto simp: nth_list_update)
  qed
qed

text \<open>Picking the largest remaining weight keeps the remainders of the picked servers level.\<close>

lemma wrr_picks_level:
  assumes "i \<in> set (wrr_picks k ss)" "j < length ss"
  shows "weights ss ! j - count_list (wrr_picks k ss) j
    \<le> weights ss ! i - count_list (wrr_picks k ss) i + 1"
  using assms
proof (induction k arbitrary: ss)
  case (Suc k)
  then obtain m where Some: "alvs_db_get_max_weight_server ss (length ss) = Some m"
    by (cases "alvs_db_get_max_weight_server ss (length ss)") auto
  note m = max_weight_some [OF Some]
  let ?ss = "dec_weight ss m" and ?ps = "wrr_picks k (dec_weight ss m)"
  have i: "i < length ss"
    using Suc.prems(1) wrr_picks_valid [of "Suc k" ss] by (meson lessThan_iff subsetD)
  have w: "weights ?ss ! l - count_list ?ps l =
      weights ss ! l - count_list (wrr_picks (Suc k) ss) l" if "l < length ss" for l
    using that m Some by (auto simp: weights_dec_weight nth_list_update)
  show ?case
  proof (cases "i \<in> set ?ps")
    case True
    then show ?thesis using Suc.IH [of ?ss] Suc.prems(2) w i by simp
  next
    case False
    then have "i = m" using Suc.prems(1) Some by simp
    then have "count_list (wrr_picks (Suc k) ss) i = 1"
      using False Some by (simp add: count_notin)
    then show ?thesis
      using \<open>i = m\<close> m Suc.prems(2) by fastforce
  qed
qed simp

lemma wrr_loop_eq:
  assumes "length b = ind + k"
  shows "fst (wrr_loop k ind b ss (length ss)) =
    take ind b @ map Some (wrr_picks k ss) @ drop (ind + length (wrr_picks k ss)) b"
  using assms
proof (induction k arbitrary: ind b ss)
  case (Suc k)
  show ?case
  proof (cases "alvs_db_get_max_weight_server ss (length ss)")
    case (Some m)
    then show ?thesis
      using Suc.IH [of "b[ind := Some m]" "Suc ind" "dec_weight ss m"] Suc.prems
      by (simp add: take_Suc_conv_app_nth)
  qed simp
qed simp

lemma wrr_fill_eq:
  "fst (alvs_db_wrr_fill_buckets empty_bucket ss (length ss)) =
     map Some (wrr_picks 256 ss) @ replicate (256 - total_weight ss) None"
  using wrr_loop_eq [of empty_bucket 0 256 ss]
  by (simp add: alvs_db_wrr_fill_buckets_def empty_bucket_def ALVS_SIZE_OF_SCHED_BUCKET_def
      wrr_picks_length)


subsection \<open>Source hash\<close>

text \<open>
  One round of the source-hash bucket: every server repeated as often as its weight says, in
  list order.
\<close>

definition sh_pattern :: "alvs_db_server list \<Rightarrow> nat list" where
  "sh_pattern ss = concat (map (\<lambda>i. replicate (weights ss ! i) i) [0..<length ss])"

definition sh_offset :: "alvs_db_server list \<Rightarrow> nat \<Rightarrow> u16 \<Rightarrow> nat" where
  "sh_offset ss p weight = sum_list (take p (weights ss)) + unat weight"

lemma concat_replicate_nth:
  "p < length ws \<Longrightarrow> j < ws ! p \<Longrightarrow>
   concat (map (\<lambda>i. replicate (ws ! i) (f i)) [0..<length ws]) ! (sum_list (take p ws) + j) = f p"
proof (induction ws arbitrary: p f)
  case (Cons w ws)
  have tl: "map (\<lambda>i. replicate ((w # ws) ! i) (f i)) [Suc 0..<Suc (length ws)] =
      map (\<lambda>i. replicate (ws ! i) (f (Suc i))) [0..<length ws]"
    by (simp add: map_Suc_upt [symmetric] del: upt_Suc)
  show ?case
  proof (cases p)
    case 0
    then show ?thesis using Cons.prems by (simp add: upt_conv_Cons nth_append del: upt_Suc)
  next
    case (Suc q)
    then show ?thesis
      using Cons.prems Cons.IH [of q "\<lambda>i. f (Suc i)"]
      by (simp add: upt_conv_Cons tl nth_append add.assoc del: upt_Suc)
  qed
qed simp

lemma sh_pattern_nth:
  assumes "p < length ss" "unat weight < weights ss ! p"
  shows "sh_pattern ss ! sh_offset ss p weight = p"
  using concat_replicate_nth [of p "weights ss" "unat weight" "\<lambda>i. i"] assms
  by (simp add: sh_pattern_def sh_offset_def)

lemma sh_offset_less:
  assumes "p < length ss" "unat weight < weights ss ! p"
  shows "sh_offset ss p weight < total_weight ss"
proof -
  have "total_weight ss = sum_list (take p (weights ss)) + weights ss ! p
      + sum_list (drop (Suc p) (weights ss))"
    using assms(1) arg_cong [OF id_take_nth_drop [of p "weights ss"], of sum_list]
    by (simp add: total_weight_def)
  with assms(2) show ?thesis by (simp add: sh_offset_def)
qed

lemma sh_offset_step_same:
  assumes "Suc (unat weight) < weights ss ! p" "p < length ss"
  shows "unat (weight + 1) = Suc (unat weight)" "sh_offset ss p (weight + 1) = Suc (sh_offset ss p weight)"
proof -
  show "unat (weight + 1) = Suc (unat weight)"
    using assms order.strict_trans [OF _ unat_u16_less, of "Suc (unat weight)" "srv_weight (ss ! p)"]
    by (subst unat_add_lem [THEN iffD1]) simp_all
  then show "sh_offset ss p (weight + 1) = Suc (sh_offset ss p weight)"
    by (simp add: sh_offset_def)
qed

lemma sh_offset_step_next:
  assumes "weights ss ! p = Suc (unat weight)" "p < length ss" "\<forall>i < length ss. 0 < weights ss ! i"
  shows "sh_offset ss (next_node ss p) 0 = Suc (sh_offset ss p weight) mod total_weight ss"
proof (cases "Suc p < length ss")
  case True
  then have nxt: "next_node ss p = Suc p" by (simp add: next_node_def)
  have "sh_offset ss (Suc p) 0 = Suc (sh_offset ss p weight)"
    using True assms by (simp add: sh_offset_def take_Suc_conv_app_nth)
  moreover have "sh_offset ss (Suc p) 0 < total_weight ss"
    using True assms(3) by (intro sh_offset_less) simp_all
  ultimately show ?thesis by (simp add: nxt)
next
  case False
  then have last: "Suc p = length ss" using assms(2) by simp
  have "total_weight ss = sum_list (take (Suc p) (weights ss))"
    by (simp add: last total_weight_def)
  also have "\<dots> = Suc (sh_offset ss p weight)"
    using assms(1,2) by (simp add: sh_offset_def take_Suc_conv_app_nth)
  finally show ?thesis using last by (simp add: next_node_def sh_offset_def)
qed

lemma sh_loop_eq:
  assumes "length b = ind + k" "p < length ss" "unat weight < weights ss ! p"
    and pos: "\<forall>i < length ss. 0 < weights ss ! i"
  shows "sh_loop k ind b ss p weight = take ind b @
    map (\<lambda>j. Some (sh_pattern ss ! ((sh_offset ss p weight + j) mod total_weight ss))) [0..<k]"
  using assms(1-3)
proof (induction k arbitrary: ind b p weight)
  case (Suc k)
  let ?b = "b[ind := Some p]" and ?T = "total_weight ss" and ?o = "sh_offset ss p weight"
  have hd: "sh_pattern ss ! (?o mod ?T) = p"
    using sh_pattern_nth sh_offset_less Suc.prems by simp
  have tl: "map (\<lambda>j. Some (sh_pattern ss ! ((?o + j) mod ?T))) [0..<Suc k] = Some p #
      map (\<lambda>j. Some (sh_pattern ss ! ((Suc ?o mod ?T + j) mod ?T))) [0..<k]"
    using hd by (simp add: upt_conv_Cons map_Suc_upt [symmetric] mod_simps del: upt_Suc)
  have tk: "take (Suc ind) ?b = take ind b @ [Some p]"
    using Suc.prems by (simp add: take_Suc_conv_app_nth)
  show ?case
  proof (cases "Suc (unat weight) < weights ss ! p")
    case True
    note st = sh_offset_step_same [OF True Suc.prems(2)]
    have lt: "Suc ?o < ?T"
      using sh_offset_less [of p ss "weight + 1"] True st Suc.prems by simp
    have "\<not> srv_weight (ss ! p) \<le> weight + 1"
      using True st Suc.prems by (simp add: word_le_nat_alt)
    then show ?thesis
      using Suc.IH [of ?b "Suc ind" p "weight + 1"] Suc.prems True st tl tk lt
      by (simp del: upt_Suc)
  next
    case False
    then have eq: "weights ss ! p = Suc (unat weight)" using Suc.prems by simp
    have "unat (weight + 1) = Suc (unat weight)"
      using eq Suc.prems unat_u16_less [of "srv_weight (ss ! p)"]
      by (subst unat_add_lem [THEN iffD1]) simp_all
    then have "srv_weight (ss ! p) \<le> weight + 1"
      using eq Suc.prems by (simp add: word_le_nat_alt)
    moreover have nn: "next_node ss p < length ss"
      using Suc.prems(2) by (auto simp: next_node_def intro: mod_less_divisor)
    ultimately show ?thesis
      using Suc.IH [of ?b "Suc ind" "next_node ss p" 0] Suc.prems pos tl tk
        sh_offset_step_next [OF eq Suc.prems(2) pos]
      by (simp del: upt_Suc)
  qed
qed simp

lemma sh_fill_eq:
  assumes "ss \<noteq> []" "\<forall>s \<in> set ss. srv_weight s \<noteq> 0" "length b = 256"
  shows "alvs_db_sh_fill_buckets b ss =
    map (\<lambda>ind. Some (sh_pattern ss ! (ind mod total_weight ss))) [0..<256]"
proof -
  have "\<forall>i < length ss. 0 < weights ss ! i" using assms(2) by (simp add: unat_gt_0)
  then show ?thesis
    using sh_loop_eq [of b 0 256 0 ss 0] assms
    by (simp add: alvs_db_sh_fill_buckets_def ALVS_SIZE_OF_SCHED_BUCKET_def sh_offset_def)
qed

subsection \<open>The switch of the recalculation\<close>

text \<open>
  The switch on the algorithm in \<open>alvs_db_recalculate_scheduling_info\<close>, with the buckets
  initialised to \<open>NULL\<close>; \<open>None\<close> is the branch of the algorithms that are not supported.
\<close>

definition fill_servers_buckets ::
  "alvs_scheduler_type \<Rightarrow> alvs_db_server list \<Rightarrow> nat \<Rightarrow> bucket option" where
  "fill_servers_buckets sched_alg server_list server_count =
     (if server_count > 0 then
        (case sched_alg of
           ALVS_SOURCE_HASH_SCHEDULER \<Rightarrow>
             (let server_list = alvs_db_reduce_weights server_list server_count
              in Some (alvs_db_sh_fill_buckets empty_bucket server_list))
         | ALVS_ROUND_ROBIN_SCHEDULER \<Rightarrow>
             Some (alvs_db_rr_fill_buckets empty_bucket server_list server_count)
         | ALVS_WEIGHTED_ROUND_ROBIN_SCHEDULER \<Rightarrow>
             (let server_list = alvs_db_reduce_weights server_list server_count
              in Some (fst (alvs_db_wrr_fill_buckets empty_bucket server_list server_count)))
         | _ \<Rightarrow> None)
      else Some empty_bucket)"

text \<open>The servers a service schedules to: at least one, and none of weight zero.\<close>

definition schedulable :: "alvs_db_server list \<Rightarrow> bool" where
  "schedulable ss \<longleftrightarrow> ss \<noteq> [] \<and> (\<forall>s \<in> set ss. srv_weight s \<noteq> 0)"

lemma reduced_length [simp]:
  "schedulable ss \<Longrightarrow> length (alvs_db_reduce_weights ss (length ss)) = length ss"
  using reduce_weights_map [of ss] by (auto simp: schedulable_def)

lemma gcd_weights_pos: "schedulable ss \<Longrightarrow> 0 < Gcd (set (weights ss))"
  by (cases ss) (auto simp: schedulable_def weights_def unat_gt_0)

lemma schedulable_reduced:
  assumes "schedulable ss"
  shows "schedulable (alvs_db_reduce_weights ss (length ss))"
proof -
  let ?r = "alvs_db_reduce_weights ss (length ss)"
  have w: "weights ?r = map (\<lambda>w. w div Gcd (set (weights ss))) (weights ss)"
    using assms weights_reduce by (simp add: schedulable_def)
  have "0 < weights ?r ! i" if "i < length ss" for i
  proof -
    have "weights ss ! i \<in> set (weights ss)" using that by (simp del: nth_weights)
    then have "Gcd (set (weights ss)) dvd weights ss ! i" by (rule Gcd_dvd)
    moreover have "0 < weights ss ! i" using that assms by (simp add: schedulable_def unat_gt_0)
    ultimately show ?thesis
      using that gcd_weights_pos [OF assms]
      by (simp add: w div_greater_zero_iff dvd_imp_le del: nth_weights)
  qed
  then have "srv_weight (?r ! i) \<noteq> 0" if "i < length ss" for i
    using that nth_weights [of i ?r] assms by fastforce
  then show ?thesis
    using assms reduced_length [OF assms] unfolding schedulable_def all_set_conv_all_nth
    by (metis length_0_conv)
qed

lemma total_weight_pos: "schedulable ss \<Longrightarrow> 0 < total_weight ss"
  by (cases ss) (auto simp: schedulable_def total_weight_def weights_def unat_gt_0)

text \<open>Every supported algorithm fills a prefix of the bucket with valid pointers.\<close>

lemma fill_prefix:
  assumes "schedulable ss" "fill_servers_buckets alg ss (length ss) = Some b"
  shows "\<exists>ps. b = map Some ps @ replicate (256 - length ps) None \<and> ps \<noteq> [] \<and> length ps \<le> 256 \<and>
    set ps \<subseteq> {..<length ss}"
proof -
  let ?r = "alvs_db_reduce_weights ss (length ss)"
  have r: "schedulable ?r" "length ?r = length ss"
    using assms(1) schedulable_reduced by simp_all
  have ss: "0 < length ss" using assms(1) by (simp add: schedulable_def)
  consider "alg = ALVS_SOURCE_HASH_SCHEDULER" | "alg = ALVS_ROUND_ROBIN_SCHEDULER"
    | "alg = ALVS_WEIGHTED_ROUND_ROBIN_SCHEDULER"
    using assms(2) ss by (auto simp: fill_servers_buckets_def split: alvs_scheduler_type.splits)
  then show ?thesis
  proof cases
    case 1
    let ?ps = "map (\<lambda>ind. sh_pattern ?r ! (ind mod total_weight ?r)) [0..<256]"
    have "length (sh_pattern ?r) = total_weight ?r"
      by (simp add: sh_pattern_def length_concat comp_def total_weight_def) (metis map_nth length_weights)
    then have "sh_pattern ?r ! (ind mod total_weight ?r) \<in> set (sh_pattern ?r)" for ind
      using total_weight_pos [OF r(1)] by simp
    moreover have "set (sh_pattern ?r) \<subseteq> {..<length ss}"
      using r(2) by (auto simp: sh_pattern_def split: if_splits)
    ultimately have "set ?ps \<subseteq> {..<length ss}" by auto
    moreover have "b = map Some ?ps"
      using assms(2) ss 1 r(1) sh_fill_eq [of ?r empty_bucket]
      by (simp add: fill_servers_buckets_def Let_def schedulable_def empty_bucket_def
          ALVS_SIZE_OF_SCHED_BUCKET_def comp_def)
    ultimately show ?thesis by (intro exI [of _ ?ps]) (simp add: comp_def)
  next
    case 2
    then show ?thesis
      using assms(2) ss
      by (intro exI [of _ "[0..<min (length ss) 256]"])
        (auto simp: fill_servers_buckets_def rr_fill_eq min_def)
  next
    case 3
    then have "b = map Some (wrr_picks 256 ?r) @ replicate (256 - total_weight ?r) None"
      using assms(2) ss wrr_fill_eq [of ?r] r(2) by (simp add: fill_servers_buckets_def Let_def)
    then show ?thesis
      using total_weight_pos [OF r(1)] wrr_picks_valid [of 256 ?r] r(2)
      by (intro exI [of _ "wrr_picks 256 ?r"])
        (auto simp: wrr_picks_length simp flip: length_greater_0_conv)
  qed
qed

subsection \<open>Properties\<close>

definition demo_server :: "u16 \<Rightarrow> alvs_db_server" where
  "demo_server w = \<lparr>srv_ip = 0, srv_port = 0, srv_weight = w, srv_active = 1, srv_nps_index = 0,
     srv_conn_flags = 0, srv_server_flags = 1, srv_u_thresh = 0, srv_l_thresh = 0,
     srv_server_stats_base = 0, srv_service_stats_base = 0, srv_on_demand_stats_base = 0,
     srv_flags_dp_base = 0, srv_stats = \<lparr>vst_connection_scheduled = 0, vst_in_packet = 0,
     vst_in_byte = 0, vst_out_packet = 0, vst_out_byte = 0, vst_active_connection = 0,
     vst_inactive_connection = 0, vst_connection_total = 0\<rparr>\<rparr>"

text \<open>
  C6. Weighted round robin.  Let \<open>w\<close> be the weights divided by their greatest common divisor.
  The bucket is a filled prefix followed by \<open>NULL\<close> entries, and the prefix has
  \<open>min 256 (\<Sum> w)\<close> entries.  If the reduced weights fit into the bucket, server \<open>i\<close> occurs in it
  exactly \<open>w i\<close> times; if they do not, no server occurs more often than its weight, and the
  weights that are left unserved differ by at most one from those of any other served server.
\<close>

theorem wrr_bucket_proportional:
  assumes "schedulable ss"
  shows "\<exists>ps. fill_servers_buckets ALVS_WEIGHTED_ROUND_ROBIN_SCHEDULER ss (length ss)
        = Some (map Some ps @ replicate (256 - length ps) None) \<and>
      (let w = map (\<lambda>x. x div Gcd (set (weights ss))) (weights ss) in
        length ps = min 256 (sum_list w) \<and>
        (\<forall>i < length ss. count_list ps i \<le> w ! i) \<and>
        (sum_list w \<le> 256 \<longrightarrow> (\<forall>i < length ss. count_list ps i = w ! i)) \<and>
        (\<forall>i \<in> set ps. \<forall>j < length ss. w ! j - count_list ps j \<le> w ! i - count_list ps i + 1))"
proof -
  let ?r = "alvs_db_reduce_weights ss (length ss)"
  have r: "weights ?r = map (\<lambda>x. x div Gcd (set (weights ss))) (weights ss)" "length ?r = length ss"
    using assms weights_reduce [of ss] by (simp_all add: schedulable_def)
  have "fill_servers_buckets ALVS_WEIGHTED_ROUND_ROBIN_SCHEDULER ss (length ss)
      = Some (map Some (wrr_picks 256 ?r) @ replicate (256 - length (wrr_picks 256 ?r)) None)"
    using assms r(2) wrr_fill_eq [of ?r]
    by (simp add: fill_servers_buckets_def schedulable_def Let_def wrr_picks_length)
  then show ?thesis
    using wrr_picks_length [of 256 ?r] wrr_picks_count_le [of _ ?r 256]
      wrr_picks_exact [of ?r 256] wrr_picks_level [of _ 256 ?r] r
    by (intro exI [of _ "wrr_picks 256 ?r"]) (simp add: Let_def total_weight_def del: nth_weights)
qed

theorem wrr_bucket_proportional_witness:
  "\<exists>ps. fill_servers_buckets ALVS_WEIGHTED_ROUND_ROBIN_SCHEDULER
       [demo_server 6, demo_server 2, demo_server 4] (length [demo_server 6, demo_server 2, demo_server 4])
       = Some (map Some ps @ replicate (256 - length ps) None) \<and> length ps = 6 \<and>
     count_list ps 0 = 3 \<and> count_list ps 1 = 1 \<and> count_list ps 2 = 2"
proof -
  let ?ss = "[demo_server 6, demo_server 2, demo_server 4]"
  have ok: "schedulable ?ss" by (simp add: schedulable_def demo_server_def)
  have w: "weights ?ss = [6, 2, 4]" by (simp add: weights_def demo_server_def)
  have g: "map (\<lambda>x. x div Gcd (set [6, 2, 4])) [6, 2, 4 :: nat] = [3, 1, 2]"
    by code_simp
  obtain ps where ps: "fill_servers_buckets ALVS_WEIGHTED_ROUND_ROBIN_SCHEDULER ?ss (length ?ss)
      = Some (map Some ps @ replicate (256 - length ps) None)"
    "length ps = 6" "\<forall>i < length ?ss. count_list ps i = [3, 1, 2] ! i"
    using wrr_bucket_proportional [OF ok] unfolding w g by (auto simp: Let_def)
  show ?thesis
    using ps(1,2) ps(3) [rule_format, of 0] ps(3) [rule_format, of 1] ps(3) [rule_format, of 2]
    by (intro exI [of _ ps]) simp
qed

text \<open>
  C7. Source hash.  Entry \<open>ind\<close> of the bucket is entry \<open>ind mod \<Sum> w\<close> of the pattern in which each
  server is repeated as often as its reduced weight says, so all 256 entries are filled and the
  pattern repeats over the bucket.
\<close>

theorem sh_bucket_periodic:
  assumes "schedulable ss"
  shows "fill_servers_buckets ALVS_SOURCE_HASH_SCHEDULER ss (length ss) =
    (let w = map (\<lambda>x. x div Gcd (set (weights ss))) (weights ss);
         pattern = concat (map (\<lambda>i. replicate (w ! i) i) [0..<length ss])
     in Some (map (\<lambda>ind. Some (pattern ! (ind mod sum_list w))) [0..<256]))"
proof -
  let ?r = "alvs_db_reduce_weights ss (length ss)"
  have r: "weights ?r = map (\<lambda>x. x div Gcd (set (weights ss))) (weights ss)" "length ?r = length ss"
    using assms weights_reduce [of ss] by (simp_all add: schedulable_def)
  have "alvs_db_sh_fill_buckets empty_bucket ?r =
      map (\<lambda>ind. Some (sh_pattern ?r ! (ind mod total_weight ?r))) [0..<256]"
    using schedulable_reduced [OF assms]
    by (intro sh_fill_eq) (simp_all add: schedulable_def empty_bucket_def ALVS_SIZE_OF_SCHED_BUCKET_def)
  then show ?thesis
    using assms r unfolding sh_pattern_def total_weight_def
    by (simp add: fill_servers_buckets_def Let_def schedulable_def del: nth_weights)
qed

theorem sh_bucket_periodic_witness:
  "fill_servers_buckets ALVS_SOURCE_HASH_SCHEDULER [demo_server 2, demo_server 4]
       (length [demo_server 2, demo_server 4])
     = Some (map (\<lambda>ind. Some ([0, 1, 1] ! (ind mod 3))) [0..<256])"
proof -
  let ?ss = "[demo_server 2, demo_server 4]"
  have ok: "schedulable ?ss" by (simp add: schedulable_def demo_server_def)
  have w: "weights ?ss = [2, 4]" by (simp add: weights_def demo_server_def)
  have g: "map (\<lambda>x. x div Gcd (set [2, 4])) [2, 4 :: nat] = [1, 2]" by code_simp
  have p: "concat (map (\<lambda>i. replicate ([1, 2] ! i) i) [0..<length ?ss]) = [0, 1, 1]"
    by (simp add: upt_conv_Cons numeral_2_eq_2)
  show ?thesis using sh_bucket_periodic [OF ok] unfolding w g Let_def p by simp
qed

text \<open>
  C8. Round robin.  Of \<open>n\<close> servers the first \<open>min n 256\<close> each hold exactly one entry, in list
  order, and the rest of the bucket is \<open>NULL\<close>, whatever the weights are.
\<close>

theorem rr_bucket_once:
  assumes "ss \<noteq> []"
  shows "fill_servers_buckets ALVS_ROUND_ROBIN_SCHEDULER ss (length ss) =
    Some (map Some [0..<min (length ss) 256] @ replicate (256 - length ss) None)"
  using assms by (simp add: fill_servers_buckets_def rr_fill_eq)

theorem rr_bucket_once_witness:
  "fill_servers_buckets ALVS_ROUND_ROBIN_SCHEDULER [demo_server 9, demo_server 1] 2 =
     Some ([Some 0, Some 1] @ replicate 254 None)"
  using rr_bucket_once [of "[demo_server 9, demo_server 1]"] by (simp add: upt_conv_Cons numeral_2_eq_2)

end
