(* ===== verification/Nw_DB.thy ===== *)
theory Nw_DB
  imports Alvs_Defs
begin

text \<open>
  The network database of the control plane, \<^verbatim>\<open>src/cp/nw_db.c\<close>: the table of routes (FIB
  entries), kept in SQLite, and its image in the ternary memory (TCAM) that the data plane
  searches.  The TCAM answers with its first matching entry, so the entries must lie in it in
  descending order of their mask length: adding a route makes room by pushing the entries of
  lower mask length up, deleting one closes the gap.

  The SQL table is the list of its rows.  SQLite and the NPS driver are parameters: an
  environment says for the \<open>n\<close>-th call whether it succeeds, a call that succeeds has its documented
  effect, and one that fails has none.  Routes come from libnl; a route is the record of what the
  accessors the code calls return for it.

  The main result is that, while the calls succeed, the table and the TCAM refine a list of
  routes in descending order of mask length, with insertion and deletion at the right place
  (\<open>fib_rep\<close>), and that a lookup in the TCAM is a longest-prefix match over the table.
\<close>

subsection \<open>State, environment and external values\<close>

datatype nw_db_rc =
    NW_DB_OK
  | NW_DB_FAILURE
  | NW_DB_NOT_SUPPORTED
  | NW_DB_INTERNAL_ERROR
  | NW_DB_NPS_ERROR
  | NW_DB_FATAL_ERROR

record nw_db_fib_entry =
  fib_dest_ip :: in_addr_t
  fib_mask_length :: u16
  fib_result_type :: nw_fib_type
  fib_next_hop :: in_addr_t
  fib_nps_index :: u16

record nw_db_state =
  fib_entries :: "nw_db_fib_entry list"
  fib_entry_count :: u32
  fib_tcam :: "nat \<Rightarrow> (nw_fib_key \<times> nw_fib_key \<times> nw_fib_result) option"
  nw_clock :: nat

record nw_env =
  nw_sql_ok :: "nat \<Rightarrow> bool"
  nw_nps_ok :: "nat \<Rightarrow> bool"

record rtnl_route =
  rt_type :: u8
  rt_dst_prefixlen :: u32
  rt_dst_addr :: u32
  rt_gateway :: "u32 option"
  rt_nnexthops :: nat

definition RTN_UNICAST :: u8 where "RTN_UNICAST = 1"
definition NW_FIB_TCAM_MAX_SIZE :: nat where "NW_FIB_TCAM_MAX_SIZE = 0x2000"

definition nw_sql :: "nw_env \<Rightarrow> nw_db_state \<Rightarrow> bool \<times> nw_db_state" where
  "nw_sql e st = (nw_sql_ok e (nw_clock st), st\<lparr>nw_clock := Suc (nw_clock st)\<rparr>)"

definition infra_add_tcam_entry :: "nw_env \<Rightarrow> nw_fib_key \<Rightarrow> nw_fib_key \<Rightarrow> nat \<Rightarrow> nw_fib_result \<Rightarrow>
    nw_db_state \<Rightarrow> bool \<times> nw_db_state" where
  "infra_add_tcam_entry e key msk index result st =
     (if nw_nps_ok e (nw_clock st)
      then (True, st\<lparr>nw_clock := Suc (nw_clock st),
                     fib_tcam := (fib_tcam st)(index \<mapsto> (key, msk, result))\<rparr>)
      else (False, st\<lparr>nw_clock := Suc (nw_clock st)\<rparr>))"

definition infra_delete_tcam_entry :: "nw_env \<Rightarrow> nw_fib_key \<Rightarrow> nw_fib_key \<Rightarrow> nat \<Rightarrow> nw_fib_result \<Rightarrow>
    nw_db_state \<Rightarrow> bool \<times> nw_db_state" where
  "infra_delete_tcam_entry e key msk index result st =
     (if nw_nps_ok e (nw_clock st)
      then (True, st\<lparr>nw_clock := Suc (nw_clock st), fib_tcam := (fib_tcam st)(index := None)\<rparr>)
      else (False, st\<lparr>nw_clock := Suc (nw_clock st)\<rparr>))"

subsection \<open>The table of routes\<close>

definition fib_key :: "nw_db_fib_entry \<Rightarrow> in_addr_t \<times> u16" where
  "fib_key r = (fib_dest_ip r, fib_mask_length r)"

definition nw_db_init :: "nw_env \<Rightarrow> nw_db_state \<Rightarrow> nw_db_rc \<times> nw_db_state" where
  "nw_db_init e st =
     (let (ok, st) = nw_sql e st in
      if \<not> ok then (NW_DB_INTERNAL_ERROR, st)
      else let (ok, st) = nw_sql e st in
        if \<not> ok then (NW_DB_INTERNAL_ERROR, st)
        else (NW_DB_OK, st\<lparr>fib_entries := [], fib_entry_count := 0\<rparr>))"

definition internal_db_add_fib_entry ::
  "nw_env \<Rightarrow> nw_db_fib_entry \<Rightarrow> nw_db_state \<Rightarrow> nw_db_rc \<times> nw_db_state" where
  "internal_db_add_fib_entry e fib_entry st =
     (let (ok, st) = nw_sql e st in
      if ok \<and> fib_key fib_entry \<notin> fib_key ` set (fib_entries st)
      then (NW_DB_OK, st\<lparr>fib_entries := fib_entries st @ [fib_entry]\<rparr>)
      else (NW_DB_INTERNAL_ERROR, st))"

definition update_fib_row :: "nw_db_fib_entry \<Rightarrow> nw_db_fib_entry \<Rightarrow> nw_db_fib_entry" where
  "update_fib_row fib_entry r =
     (if fib_key r = fib_key fib_entry
      then r\<lparr>fib_result_type := fib_result_type fib_entry, fib_next_hop := fib_next_hop fib_entry,
             fib_nps_index := fib_nps_index fib_entry\<rparr>
      else r)"

definition internal_db_modify_fib_entry ::
  "nw_env \<Rightarrow> nw_db_fib_entry \<Rightarrow> nw_db_state \<Rightarrow> nw_db_rc \<times> nw_db_state" where
  "internal_db_modify_fib_entry e fib_entry st =
     (let (ok, st) = nw_sql e st in
      if ok then (NW_DB_OK, st\<lparr>fib_entries := map (update_fib_row fib_entry) (fib_entries st)\<rparr>)
      else (NW_DB_INTERNAL_ERROR, st))"

definition internal_db_remove_fib_entry ::
  "nw_env \<Rightarrow> nw_db_fib_entry \<Rightarrow> nw_db_state \<Rightarrow> nw_db_rc \<times> nw_db_state" where
  "internal_db_remove_fib_entry e fib_entry st =
     (let (ok, st) = nw_sql e st in
      if ok then (NW_DB_OK, st\<lparr>fib_entries := filter (\<lambda>r. fib_key r \<noteq> fib_key fib_entry) (fib_entries st)\<rparr>)
      else (NW_DB_INTERNAL_ERROR, st))"

definition internal_db_get_fib_entry ::
  "nw_env \<Rightarrow> nw_db_fib_entry \<Rightarrow> nw_db_state \<Rightarrow> nw_db_rc \<times> nw_db_fib_entry \<times> nw_db_state" where
  "internal_db_get_fib_entry e fib_entry st =
     (let (ok, st) = nw_sql e st in
      if \<not> ok then (NW_DB_INTERNAL_ERROR, fib_entry, st)
      else case find (\<lambda>r. fib_key r = fib_key fib_entry) (fib_entries st) of
        None \<Rightarrow> (NW_DB_FAILURE, fib_entry, st)
      | Some r \<Rightarrow> (NW_DB_OK, fib_entry\<lparr>fib_result_type := fib_result_type r,
          fib_next_hop := fib_next_hop r, fib_nps_index := fib_nps_index r\<rparr>, st))"

subsection \<open>The image of a route in the TCAM\<close>

definition fib_mask_word :: "u16 \<Rightarrow> u32" where
  "fib_mask_word len = (if len = 0 then 0 else bswap_32 (push_bit (32 - unat len) 0xFFFFFFFF))"

definition build_nps_fib_key_and_mask :: "nw_db_fib_entry \<Rightarrow> nw_fib_key \<times> nw_fib_key" where
  "build_nps_fib_key_and_mask cp_fib_entry =
     (\<lparr>nfk_rsv0 = 0, nfk_rsv1 = 0, nfk_dest_ip = fib_dest_ip cp_fib_entry\<rparr>,
      \<lparr>nfk_rsv0 = 0, nfk_rsv1 = 0, nfk_dest_ip = fib_mask_word (fib_mask_length cp_fib_entry)\<rparr>)"

definition build_nps_fib_result :: "nw_db_fib_entry \<Rightarrow> nw_fib_result" where
  "build_nps_fib_result cp_fib_entry =
     \<lparr>nfr_result_type = fib_result_type cp_fib_entry, nfr_dest_ip = fib_next_hop cp_fib_entry\<rparr>"

definition add_fib_entry_to_nps ::
  "nw_env \<Rightarrow> nw_db_fib_entry \<Rightarrow> nw_db_state \<Rightarrow> bool \<times> nw_db_state" where
  "add_fib_entry_to_nps e cp_fib_entry st =
     (let (key, msk) = build_nps_fib_key_and_mask cp_fib_entry;
          result = build_nps_fib_result cp_fib_entry
      in infra_add_tcam_entry e key msk (unat (fib_nps_index cp_fib_entry)) result st)"

definition delete_fib_entry_from_nps ::
  "nw_env \<Rightarrow> nw_db_fib_entry \<Rightarrow> nw_db_state \<Rightarrow> bool \<times> nw_db_state" where
  "delete_fib_entry_from_nps e cp_fib_entry st =
     (let (key, msk) = build_nps_fib_key_and_mask cp_fib_entry;
          result = build_nps_fib_result cp_fib_entry
      in infra_delete_tcam_entry e key msk (unat (fib_nps_index cp_fib_entry)) result st)"

subsection \<open>Reordering\<close>

text \<open>
  One iteration per row of the result set; the rows are materialised by the \<open>ORDER BY\<close>, so the
  updates the loop makes do not change them.  Advancing the statement may fail.
\<close>

fun push_up_loop :: "nw_env \<Rightarrow> nw_db_fib_entry list \<Rightarrow> nw_db_fib_entry \<Rightarrow> nw_db_state \<Rightarrow>
    nw_db_rc \<times> nw_db_fib_entry \<times> nw_db_state" where
  "push_up_loop e [] tmp st = (NW_DB_OK, tmp, st)"
| "push_up_loop e (r # rs) tmp st =
     (let tmp = r\<lparr>fib_nps_index := fib_nps_index r + 1\<rparr>;
          (rc, st) = internal_db_modify_fib_entry e tmp st
      in if rc = NW_DB_INTERNAL_ERROR then (NW_DB_INTERNAL_ERROR, tmp, st)
         else let (ok, st) = add_fib_entry_to_nps e tmp st in
           if \<not> ok then (NW_DB_NPS_ERROR, tmp, st)
           else let (ok, st) = nw_sql e st in
             if \<not> ok then (NW_DB_INTERNAL_ERROR, tmp, st) else push_up_loop e rs tmp st)"

definition fib_reorder_push_entries_up :: "nw_env \<Rightarrow> nw_db_fib_entry \<Rightarrow> nw_db_state \<Rightarrow>
    nw_db_rc \<times> nw_db_fib_entry \<times> nw_db_state" where
  "fib_reorder_push_entries_up e new_fib_entry st =
     (let (ok, st) = nw_sql e st in
      if \<not> ok then (NW_DB_INTERNAL_ERROR, new_fib_entry, st)
      else
        let rows = rev (sort_key fib_nps_index
              (filter (\<lambda>r. fib_mask_length r < fib_mask_length new_fib_entry) (fib_entries st)))
        in if rows = [] then
             (NW_DB_OK, new_fib_entry\<lparr>fib_nps_index := ucast (fib_entry_count st)\<rparr>, st)
           else let (rc, tmp, st) = push_up_loop e rows (hd rows) st in
             if rc \<noteq> NW_DB_OK then (rc, new_fib_entry, st)
             else (NW_DB_OK, new_fib_entry\<lparr>fib_nps_index := fib_nps_index tmp - 1\<rparr>, st))"

fun push_down_loop ::
  "nw_env \<Rightarrow> nw_db_fib_entry list \<Rightarrow> nw_db_state \<Rightarrow> nw_db_rc \<times> nw_db_state" where
  "push_down_loop e [] st = (NW_DB_OK, st)"
| "push_down_loop e (r # rs) st =
     (let tmp = r\<lparr>fib_nps_index := fib_nps_index r - 1\<rparr>;
          (rc, st) = internal_db_modify_fib_entry e tmp st
      in if rc = NW_DB_INTERNAL_ERROR then (NW_DB_INTERNAL_ERROR, st)
         else let (ok, st) = add_fib_entry_to_nps e tmp st in
           if \<not> ok then (NW_DB_NPS_ERROR, st)
           else let (ok, st) = nw_sql e st in
             if \<not> ok then (NW_DB_INTERNAL_ERROR, st) else push_down_loop e rs st)"

definition fib_reorder_push_entries_down :: "nw_env \<Rightarrow> nw_db_fib_entry \<Rightarrow> nw_db_state \<Rightarrow>
    nw_db_rc \<times> nw_db_fib_entry \<times> nw_db_state" where
  "fib_reorder_push_entries_down e fib_entry st =
     (let (ok, st) = nw_sql e st in
      if \<not> ok then (NW_DB_INTERNAL_ERROR, fib_entry, st)
      else
        let rows = sort_key fib_nps_index
              (filter (\<lambda>r. fib_nps_index r > fib_nps_index fib_entry) (fib_entries st));
            (rc, st) = push_down_loop e rows st
        in if rc \<noteq> NW_DB_OK then (rc, fib_entry, st)
           else (NW_DB_OK, fib_entry\<lparr>fib_nps_index := ucast (fib_entry_count st - 1)\<rparr>, st))"

definition set_fib_params :: "rtnl_route \<Rightarrow> nw_db_fib_entry \<Rightarrow> nw_db_fib_entry" where
  "set_fib_params route_entry fib_entry =
     (if rt_type route_entry = RTN_UNICAST then
        (case rt_gateway route_entry of
           None \<Rightarrow> fib_entry\<lparr>fib_result_type := NW_FIB_NEIGHBOR\<rparr>
         | Some next_hop \<Rightarrow>
             if rt_nnexthops route_entry > 1 then fib_entry\<lparr>fib_result_type := NW_FIB_DROP\<rparr>
             else fib_entry\<lparr>fib_next_hop := next_hop, fib_result_type := NW_FIB_GW\<rparr>)
      else fib_entry\<lparr>fib_result_type := NW_FIB_DROP\<rparr>)"

subsection \<open>The operations\<close>

text \<open>The key part of an entry whose other fields \<open>memset\<close> has zeroed.\<close>

definition route_fib_entry :: "rtnl_route \<Rightarrow> nw_db_fib_entry" where
  "route_fib_entry route_entry =
     \<lparr>fib_dest_ip = rt_dst_addr route_entry, fib_mask_length = ucast (rt_dst_prefixlen route_entry),
      fib_result_type = NW_FIB_NEIGHBOR, fib_next_hop = 0, fib_nps_index = 0\<rparr>"

definition nw_db_add_fib_entry ::
  "nw_env \<Rightarrow> rtnl_route \<Rightarrow> bool \<Rightarrow> nw_db_state \<Rightarrow> nw_db_rc \<times> nw_db_state" where
  "nw_db_add_fib_entry e route_entry reorder st =
     (let (rc, cp_fib_entry, st) = internal_db_get_fib_entry e (route_fib_entry route_entry) st in
      case rc of
        NW_DB_OK \<Rightarrow> (NW_DB_FAILURE, st)
      | NW_DB_INTERNAL_ERROR \<Rightarrow> (NW_DB_INTERNAL_ERROR, st)
      | NW_DB_FAILURE \<Rightarrow>
          if fib_entry_count st = of_nat NW_FIB_TCAM_MAX_SIZE then (NW_DB_INTERNAL_ERROR, st)
          else
            let cp_fib_entry = set_fib_params route_entry cp_fib_entry;
                (rc, cp_fib_entry, st) =
                  (if reorder then fib_reorder_push_entries_up e cp_fib_entry st
                   else (NW_DB_OK, cp_fib_entry\<lparr>fib_nps_index := ucast (fib_entry_count st)\<rparr>, st))
            in if rc \<noteq> NW_DB_OK then (rc, st)
               else let (rc, st) = internal_db_add_fib_entry e cp_fib_entry st in
                 if rc = NW_DB_INTERNAL_ERROR then (NW_DB_INTERNAL_ERROR, st)
                 else let (ok, st) = add_fib_entry_to_nps e cp_fib_entry st in
                   if \<not> ok then (NW_DB_NPS_ERROR, st)
                   else (NW_DB_OK, st\<lparr>fib_entry_count := fib_entry_count st + 1\<rparr>)
      | _ \<Rightarrow> (NW_DB_INTERNAL_ERROR, st))"

definition nw_db_delete_fib_entry ::
  "nw_env \<Rightarrow> rtnl_route \<Rightarrow> nw_db_state \<Rightarrow> nw_db_rc \<times> nw_db_state" where
  "nw_db_delete_fib_entry e route_entry st =
     (let (rc, cp_fib_entry, st) = internal_db_get_fib_entry e (route_fib_entry route_entry) st in
      case rc of
        NW_DB_OK \<Rightarrow>
          let (rc, cp_fib_entry, st) =
                (if ucast (fib_nps_index cp_fib_entry) \<noteq> fib_entry_count st - 1
                 then fib_reorder_push_entries_down e cp_fib_entry st
                 else (NW_DB_OK, cp_fib_entry, st))
          in if rc \<noteq> NW_DB_OK then (rc, st)
             else
               let st = st\<lparr>fib_entry_count := fib_entry_count st - 1\<rparr>;
                   (rc, st) = internal_db_remove_fib_entry e cp_fib_entry st
               in if rc = NW_DB_INTERNAL_ERROR then (NW_DB_INTERNAL_ERROR, st)
                  else let (ok, st) = delete_fib_entry_from_nps e cp_fib_entry st in
                    if \<not> ok then (NW_DB_NPS_ERROR, st) else (NW_DB_OK, st)
      | NW_DB_INTERNAL_ERROR \<Rightarrow> (NW_DB_INTERNAL_ERROR, st)
      | NW_DB_FAILURE \<Rightarrow> (NW_DB_FAILURE, st)
      | _ \<Rightarrow> (NW_DB_INTERNAL_ERROR, st))"

definition nw_db_modify_fib_entry ::
  "nw_env \<Rightarrow> rtnl_route \<Rightarrow> nw_db_state \<Rightarrow> nw_db_rc \<times> nw_db_state" where
  "nw_db_modify_fib_entry e route_entry st =
     (let (rc, cp_fib_entry, st) = internal_db_get_fib_entry e (route_fib_entry route_entry) st in
      case rc of
        NW_DB_OK \<Rightarrow>
          let cp_fib_entry = set_fib_params route_entry cp_fib_entry;
              (rc, st) = internal_db_modify_fib_entry e cp_fib_entry st
          in if rc = NW_DB_INTERNAL_ERROR then (NW_DB_INTERNAL_ERROR, st)
             else let (ok, st) = add_fib_entry_to_nps e cp_fib_entry st in
               if \<not> ok then (NW_DB_NPS_ERROR, st) else (NW_DB_OK, st)
      | NW_DB_INTERNAL_ERROR \<Rightarrow> (NW_DB_INTERNAL_ERROR, st)
      | NW_DB_FAILURE \<Rightarrow> (NW_DB_FAILURE, st)
      | _ \<Rightarrow> (NW_DB_INTERNAL_ERROR, st))"

text \<open>
  The search of the TCAM by the device: the first entry, in the order of the indexes, that
  agrees with the key on the bits of its mask.
\<close>

definition tcam_match :: "in_addr_t \<Rightarrow> nw_fib_key \<times> nw_fib_key \<times> nw_fib_result \<Rightarrow> bool" where
  "tcam_match ip = (\<lambda>(key, msk, result). ip AND nfk_dest_ip msk = nfk_dest_ip key AND nfk_dest_ip msk)"

definition tcam_lookup :: "nw_db_state \<Rightarrow> in_addr_t \<Rightarrow> nw_fib_result option" where
  "tcam_lookup st ip =
     map_option (\<lambda>(key, msk, result). result)
       (find (tcam_match ip) (List.map_filter (fib_tcam st) [0..<NW_FIB_TCAM_MAX_SIZE]))"

subsection \<open>The abstract table\<close>

text \<open>
  The specification of the component: a list of routes in descending order of mask length.
\<close>

definition fib_insert :: "nw_db_fib_entry \<Rightarrow> nw_db_fib_entry list \<Rightarrow> nw_db_fib_entry list" where
  "fib_insert x xs = takeWhile (\<lambda>y. fib_mask_length x \<le> fib_mask_length y) xs @ x #
     dropWhile (\<lambda>y. fib_mask_length x \<le> fib_mask_length y) xs"

definition fib_remove :: "in_addr_t \<times> u16 \<Rightarrow> nw_db_fib_entry list \<Rightarrow> nw_db_fib_entry list" where
  "fib_remove k xs = filter (\<lambda>y. fib_key y \<noteq> k) xs"

definition fib_sorted :: "nw_db_fib_entry list \<Rightarrow> bool" where
  "fib_sorted xs \<longleftrightarrow> sorted_wrt (\<lambda>x y. fib_mask_length y \<le> fib_mask_length x) xs"

definition fib_image :: "nw_db_fib_entry \<Rightarrow> nw_fib_key \<times> nw_fib_key \<times> nw_fib_result" where
  "fib_image r = (fst (build_nps_fib_key_and_mask r), snd (build_nps_fib_key_and_mask r),
     build_nps_fib_result r)"

primrec idx_from :: "nat \<Rightarrow> nw_db_fib_entry list \<Rightarrow> nw_db_fib_entry list" where
  "idx_from i [] = []"
| "idx_from i (x # xs) = x\<lparr>fib_nps_index := of_nat i\<rparr> # idx_from (Suc i) xs"

text \<open>The table and the TCAM represent the list \<open>xs\<close>.\<close>

definition fib_rep :: "nw_db_state \<Rightarrow> nw_db_fib_entry list \<Rightarrow> bool" where
  "fib_rep st xs \<longleftrightarrow>
     mset (fib_entries st) = mset (idx_from 0 xs) \<and>
     unat (fib_entry_count st) = length xs \<and> length xs \<le> NW_FIB_TCAM_MAX_SIZE \<and>
     distinct (map fib_key xs) \<and> fib_sorted xs \<and> (\<forall>x \<in> set xs. unat (fib_mask_length x) \<le> 32) \<and>
     fib_tcam st = (\<lambda>i. if i < length xs then Some (fib_image (xs ! i)) else None)"

definition nw_env_ok :: "nw_env \<Rightarrow> bool" where
  "nw_env_ok e \<longleftrightarrow> (\<forall>n. nw_sql_ok e n) \<and> (\<forall>n. nw_nps_ok e n)"

lemma fib_key_idx [simp]: "fib_key (x\<lparr>fib_nps_index := i\<rparr>) = fib_key x"
  by (simp add: fib_key_def)

lemma fib_image_idx [simp]: "fib_image (x\<lparr>fib_nps_index := i\<rparr>) = fib_image x"
  by (simp add: fib_image_def build_nps_fib_key_and_mask_def build_nps_fib_result_def)

lemma length_idx_from [simp]: "length (idx_from i xs) = length xs"
  by (induction xs arbitrary: i) simp_all

lemma idx_from_append: "idx_from i (xs @ ys) = idx_from i xs @ idx_from (i + length xs) ys"
  by (induction xs arbitrary: i) simp_all

lemma idx_from_keys [simp]: "map fib_key (idx_from i xs) = map fib_key xs"
  by (induction xs arbitrary: i) simp_all

lemma idx_from_key_set [simp]: "fib_key ` set (idx_from i xs) = fib_key ` set xs"
  by (metis idx_from_keys list.set_map)

lemma idx_from_keyD: "x \<in> set (idx_from i xs) \<Longrightarrow> fib_key x \<in> fib_key ` set xs"
  by (metis idx_from_key_set imageI)

lemma idx_from_nth: "j < length xs \<Longrightarrow> idx_from i xs ! j = (xs ! j)\<lparr>fib_nps_index := of_nat (i + j)\<rparr>"
  by (induction xs arbitrary: i j) (auto simp: nth_Cons split: nat.splits)

lemma filter_idx_from:
  assumes "\<And>x k. P (x\<lparr>fib_nps_index := k\<rparr>) = P x"
  shows "takeWhile P xs = xs \<Longrightarrow> filter P (idx_from i xs) = idx_from i xs"
    "\<forall>x \<in> set xs. \<not> P x \<Longrightarrow> filter P (idx_from i xs) = []"
  using assms by (induction xs arbitrary: i) (auto split: if_splits)

lemma nw_sql_succeeds [fib_simps]:
  "nw_env_ok e \<Longrightarrow> nw_sql e st = (True, st\<lparr>nw_clock := Suc (nw_clock st)\<rparr>)"
  by (simp add: nw_sql_def nw_env_ok_def)

lemma add_to_nps_succeeds [fib_simps]:
  "nw_env_ok e \<Longrightarrow> add_fib_entry_to_nps e r st =
     (True, st\<lparr>nw_clock := Suc (nw_clock st),
               fib_tcam := (fib_tcam st)(unat (fib_nps_index r) \<mapsto> fib_image r)\<rparr>)"
  by (simp add: add_fib_entry_to_nps_def infra_add_tcam_entry_def nw_env_ok_def fib_image_def
      build_nps_fib_key_and_mask_def Let_def)

lemma delete_from_nps_succeeds [fib_simps]:
  "nw_env_ok e \<Longrightarrow> delete_fib_entry_from_nps e r st =
     (True, st\<lparr>nw_clock := Suc (nw_clock st),
               fib_tcam := (fib_tcam st)(unat (fib_nps_index r) := None)\<rparr>)"
  by (simp add: delete_fib_entry_from_nps_def infra_delete_tcam_entry_def nw_env_ok_def
      build_nps_fib_key_and_mask_def Let_def)

lemma modify_succeeds [fib_simps]:
  "nw_env_ok e \<Longrightarrow> internal_db_modify_fib_entry e r st =
     (NW_DB_OK, st\<lparr>nw_clock := Suc (nw_clock st),
                   fib_entries := map (update_fib_row r) (fib_entries st)\<rparr>)"
  by (simp add: internal_db_modify_fib_entry_def fib_simps)

subsection \<open>Updating one row\<close>

lemma update_fib_row_hit: "fib_key r = fib_key r' \<Longrightarrow> update_fib_row r' r = r'"
  by (cases r; cases r') (simp add: update_fib_row_def fib_key_def)

lemma update_one_row:
  assumes "mset rows = N + {#r#}" "fib_key r \<notin> fib_key ` set_mset N" "fib_key r' = fib_key r"
  shows "mset (map (update_fib_row r') rows) = N + {#r'#}"
proof -
  have "image_mset (update_fib_row r') N = image_mset (\<lambda>x. x) N"
    using assms(2,3) by (intro image_mset_cong) (metis image_eqI update_fib_row_def)
  then show ?thesis using assms by (simp add: update_fib_row_hit)
qed

lemma unat_of_nat_u16: "k < 65536 \<Longrightarrow> unat (of_nat k :: u16) = k"
  by (simp add: unat_of_nat take_bit_eq_mod)

text \<open>Moving the block \<open>zs\<close> of the table one index up, last element first.\<close>

lemma push_up_loop_spec:
  assumes "nw_env_ok e" "mset (fib_entries st) = M + mset (idx_from k zs)"
    and "fib_key ` set_mset M \<inter> fib_key ` set zs = {}" "distinct (map fib_key zs)"
    and "k + length zs < 65535"
  shows "\<exists>tmp' st'. push_up_loop e (rev (idx_from k zs)) tmp st = (NW_DB_OK, tmp', st') \<and>
    mset (fib_entries st') = M + mset (idx_from (Suc k) zs) \<and>
    fib_entry_count st' = fib_entry_count st \<and>
    fib_tcam st' = (\<lambda>i. if k < i \<and> i \<le> k + length zs then Some (fib_image (zs ! (i - Suc k)))
                       else fib_tcam st i) \<and>
    (zs \<noteq> [] \<longrightarrow> fib_nps_index tmp' = of_nat (Suc k))"
  using assms(2-)
proof (induction zs arbitrary: M st tmp rule: rev_induct)
  case Nil
  then show ?case by (auto simp: fun_eq_iff)
next
  case (snoc z zs)
  let ?z = "z\<lparr>fib_nps_index := of_nat (k + length zs)\<rparr>"
    and ?z' = "z\<lparr>fib_nps_index := of_nat (Suc (k + length zs))\<rparr>"
  define st1 where "st1 = st\<lparr>fib_entries := map (update_fib_row ?z') (fib_entries st),
      fib_tcam := (fib_tcam st)(Suc (k + length zs) \<mapsto> fib_image z),
      nw_clock := Suc (Suc (Suc (nw_clock st)))\<rparr>"
  have idx: "unat (of_nat (Suc (k + length zs)) :: u16) = Suc (k + length zs)"
    using snoc.prems(4) by (intro unat_of_nat_u16) simp
  have step: "push_up_loop e (rev (idx_from k (zs @ [z]))) tmp st =
      push_up_loop e (rev (idx_from k zs)) ?z' st1"
    using assms(1) idx by (simp add: idx_from_append fib_simps st1_def add.commute Let_def)
  have "mset (map (update_fib_row ?z') (fib_entries st)) = (M + mset (idx_from k zs)) + {#?z'#}"
    using snoc.prems by (intro update_one_row [where r = ?z]) (auto simp: idx_from_append dest: idx_from_keyD)
  then have rows: "mset (fib_entries st1) = (M + {#?z'#}) + mset (idx_from k zs)"
    by (simp add: st1_def del: mset_map)
  obtain tmp' st' where IH:
    "push_up_loop e (rev (idx_from k zs)) ?z' st1 = (NW_DB_OK, tmp', st')"
    "mset (fib_entries st') = (M + {#?z'#}) + mset (idx_from (Suc k) zs)"
    "fib_entry_count st' = fib_entry_count st1"
    "fib_tcam st' = (\<lambda>i. if k < i \<and> i \<le> k + length zs then Some (fib_image (zs ! (i - Suc k)))
                       else fib_tcam st1 i)"
    "zs \<noteq> [] \<longrightarrow> fib_nps_index tmp' = of_nat (Suc k)"
    using snoc.IH [OF rows, of ?z'] snoc.prems by auto
  have "fib_nps_index tmp' = of_nat (Suc k)"
    using IH(1,5) by (cases "zs = []") auto
  moreover have "fib_tcam st' = (\<lambda>i. if k < i \<and> i \<le> k + length (zs @ [z])
      then Some (fib_image ((zs @ [z]) ! (i - Suc k))) else fib_tcam st i)"
    unfolding IH(4) by (rule ext) (auto simp: st1_def nth_append)
  ultimately show ?case
    using IH step by (auto simp: st1_def idx_from_append)
qed

text \<open>Moving the block \<open>zs\<close> one index down, first element first.\<close>

lemma push_down_loop_spec:
  assumes "nw_env_ok e" "mset (fib_entries st) = M + mset (idx_from (Suc k) zs)"
    and "fib_key ` set_mset M \<inter> fib_key ` set zs = {}" "distinct (map fib_key zs)"
    and "k + length zs < 65535"
  shows "\<exists>st'. push_down_loop e (idx_from (Suc k) zs) st = (NW_DB_OK, st') \<and>
    mset (fib_entries st') = M + mset (idx_from k zs) \<and>
    fib_entry_count st' = fib_entry_count st \<and>
    fib_tcam st' = (\<lambda>i. if k \<le> i \<and> i < k + length zs then Some (fib_image (zs ! (i - k)))
                       else fib_tcam st i)"
  using assms(2-)
proof (induction zs arbitrary: M st k)
  case Nil
  then show ?case by (auto simp: fun_eq_iff)
next
  case (Cons z zs)
  let ?z = "z\<lparr>fib_nps_index := of_nat (Suc k)\<rparr>" and ?z' = "z\<lparr>fib_nps_index := of_nat k\<rparr>"
  define st1 where "st1 = st\<lparr>fib_entries := map (update_fib_row ?z') (fib_entries st),
      fib_tcam := (fib_tcam st)(k \<mapsto> fib_image z),
      nw_clock := Suc (Suc (Suc (nw_clock st)))\<rparr>"
  have idx: "unat (of_nat k :: u16) = k"
    using Cons.prems(4) by (intro unat_of_nat_u16) simp
  have step: "push_down_loop e (idx_from (Suc k) (z # zs)) st =
      push_down_loop e (idx_from (Suc (Suc k)) zs) st1"
    using assms(1) idx by (simp add: fib_simps st1_def)
  have "mset (map (update_fib_row ?z') (fib_entries st)) =
      (M + mset (idx_from (Suc (Suc k)) zs)) + {#?z'#}"
    using Cons.prems by (intro update_one_row [where r = ?z]) (auto dest: idx_from_keyD)
  then have rows: "mset (fib_entries st1) = (M + {#?z'#}) + mset (idx_from (Suc (Suc k)) zs)"
    by (simp add: st1_def del: mset_map)
  obtain st' where IH:
    "push_down_loop e (idx_from (Suc (Suc k)) zs) st1 = (NW_DB_OK, st')"
    "mset (fib_entries st') = (M + {#?z'#}) + mset (idx_from (Suc k) zs)"
    "fib_entry_count st' = fib_entry_count st1"
    "fib_tcam st' = (\<lambda>i. if Suc k \<le> i \<and> i < Suc k + length zs then Some (fib_image (zs ! (i - Suc k)))
                       else fib_tcam st1 i)"
    using Cons.IH [OF rows] Cons.prems by auto
  have "fib_tcam st' = (\<lambda>i. if k \<le> i \<and> i < k + length (z # zs)
      then Some (fib_image ((z # zs) ! (i - k))) else fib_tcam st i)"
    unfolding IH(4) by (rule ext) (auto simp: st1_def nth_Cons')
  then show ?case using IH step by (auto simp: st1_def)
qed

subsection \<open>The rows selected by the reordering queries\<close>

lemma fib_sorted_dropWhile:
  assumes "fib_sorted xs" "y \<in> set (dropWhile (\<lambda>y. m \<le> fib_mask_length y) xs)"
  shows "fib_mask_length y < m"
  using assms by (induction xs) (fastforce simp: fib_sorted_def split: if_splits)+

lemma fib_sorted_idx: "sorted (map (\<lambda>r. unat (fib_nps_index r)) (idx_from i xs))"
  if "i + length xs < 65536"
  using that
proof (induction xs arbitrary: i)
  case (Cons x xs)
  have "\<forall>r \<in> set (idx_from (Suc i) xs). i \<le> unat (fib_nps_index r)"
    using Cons.prems
    by (auto simp: in_set_conv_nth idx_from_nth unat_of_nat_u16 simp del: of_nat_Suc of_nat_add)
  then show ?case using Cons by (simp add: unat_of_nat_u16)
qed simp

lemma sort_idx_from:
  assumes "mset rows = mset (idx_from i xs)" "i + length xs < 65536"
  shows "sort_key fib_nps_index rows = idx_from i xs"
proof (rule sort_key_inj_key_eq [OF assms(1)])
  show "inj_on fib_nps_index (set rows)"
  proof (rule inj_onI)
    fix r r' assume "r \<in> set rows" "r' \<in> set rows" and eq: "fib_nps_index r = fib_nps_index r'"
    then have "r \<in> set (idx_from i xs)" "r' \<in> set (idx_from i xs)"
      using mset_eq_setD [OF assms(1)] by auto
    then obtain j j' where j: "j < length xs" "r = idx_from i xs ! j"
      "j' < length xs" "r' = idx_from i xs ! j'"
      by (auto simp: in_set_conv_nth)
    then have "(of_nat (i + j) :: u16) = of_nat (i + j')"
      using eq by (simp add: idx_from_nth del: of_nat_add)
    moreover have "i + j < 65536" "i + j' < 65536" using j(1,3) assms(2) by simp_all
    ultimately have "i + j = i + j'" by (metis unat_of_nat_u16)
    then show "r = r'" using j by simp
  qed
  show "sorted (map fib_nps_index (idx_from i xs))"
    using fib_sorted_idx [OF assms(2)] by (simp add: sorted_map word_le_nat_alt)
qed

text \<open>Splitting a represented list where the reordering splits it.\<close>

lemma push_up_rows:
  assumes "fib_rep st xs"
  shows "rev (sort_key fib_nps_index (filter (\<lambda>r. fib_mask_length r < m) (fib_entries st))) =
    rev (idx_from (length (takeWhile (\<lambda>y. m \<le> fib_mask_length y) xs))
      (dropWhile (\<lambda>y. m \<le> fib_mask_length y) xs))"
proof -
  let ?ts = "takeWhile (\<lambda>y. m \<le> fib_mask_length y) xs"
    and ?ds = "dropWhile (\<lambda>y. m \<le> fib_mask_length y) xs"
  let ?P = "\<lambda>r. fib_mask_length r < m"
  have "idx_from 0 xs = idx_from 0 ?ts @ idx_from (length ?ts) ?ds"
    using idx_from_append [of 0 ?ts ?ds] by simp
  moreover have "filter ?P (idx_from 0 ?ts) = []"
    by (rule filter_idx_from(2)) (auto dest: set_takeWhileD)
  moreover have "filter ?P (idx_from (length ?ts) ?ds) = idx_from (length ?ts) ?ds"
    using assms by (intro filter_idx_from(1))
      (auto simp: fib_rep_def takeWhile_eq_all_conv dest: fib_sorted_dropWhile)
  ultimately have "filter ?P (idx_from 0 xs) = idx_from (length ?ts) ?ds"
    by simp
  moreover have "mset (filter ?P (fib_entries st)) = mset (filter ?P (idx_from 0 xs))"
    using assms by (simp add: fib_rep_def)
  ultimately have "mset (filter ?P (fib_entries st)) = mset (idx_from (length ?ts) ?ds)"
    by simp
  moreover have "length ?ts + length ?ds = length xs"
    by (metis length_append takeWhile_dropWhile_id)
  ultimately show ?thesis
    using sort_idx_from assms by (simp add: fib_rep_def NW_FIB_TCAM_MAX_SIZE_def)
qed

subsection \<open>The operations refine the abstract table\<close>

lemma fib_rep_rows: "fib_rep st xs \<Longrightarrow> set (fib_entries st) = set (idx_from 0 xs)"
  by (auto simp: fib_rep_def dest: mset_eq_setD)

lemma fib_rep_find_none:
  assumes "fib_rep st xs" "k \<notin> fib_key ` set xs"
  shows "find (\<lambda>r. fib_key r = k) (fib_entries st) = None"
  unfolding find_None_iff fib_rep_rows [OF assms(1)] using assms(2) idx_from_keyD by blast

lemma fib_rep_find_some:
  assumes "fib_rep st xs" "j < length xs"
  shows "find (\<lambda>r. fib_key r = fib_key (xs ! j)) (fib_entries st) = Some (idx_from 0 xs ! j)"
proof -
  have j: "idx_from 0 xs ! j \<in> set (idx_from 0 xs)" "fib_key (idx_from 0 xs ! j) = fib_key (xs ! j)"
    using assms(2) nth_mem [of j "idx_from 0 xs"] by (simp_all add: idx_from_nth del: nth_mem)
  have inj: "inj_on fib_key (set (idx_from 0 xs))"
    using assms(1) distinct_map [of fib_key "idx_from 0 xs"] by (simp add: fib_rep_def)
  show ?thesis
  proof (cases "find (\<lambda>r. fib_key r = fib_key (xs ! j)) (fib_entries st)")
    case None
    then show ?thesis using j unfolding find_None_iff fib_rep_rows [OF assms(1)] by blast
  next
    case (Some r)
    then have "r \<in> set (idx_from 0 xs)" "fib_key r = fib_key (xs ! j)"
      unfolding find_Some_iff fib_rep_rows [OF assms(1), symmetric] by auto
    then have "r = idx_from 0 xs ! j" using inj j by (simp add: inj_on_def)
    then show ?thesis using Some by simp
  qed
qed

lemma fib_sorted_between:
  "fib_sorted (ts @ ds) \<Longrightarrow> \<forall>y \<in> set ts. fib_mask_length x \<le> fib_mask_length y \<Longrightarrow>
   \<forall>y \<in> set ds. fib_mask_length y < fib_mask_length x \<Longrightarrow> fib_sorted (ts @ x # ds)"
  by (auto simp: fib_sorted_def sorted_wrt_append intro: less_imp_le)

lemma fib_sorted_insert:
  assumes "fib_sorted xs"
  shows "fib_sorted (fib_insert x xs)"
proof -
  let ?m = "fib_mask_length x"
  let ?ts = "takeWhile (\<lambda>y. ?m \<le> fib_mask_length y) xs" and ?ds = "dropWhile (\<lambda>y. ?m \<le> fib_mask_length y) xs"
  have "fib_sorted (?ts @ ?ds)" using assms by simp
  moreover have "\<forall>y \<in> set ?ts. ?m \<le> fib_mask_length y" by (auto dest: set_takeWhileD)
  moreover have "\<forall>y \<in> set ?ds. fib_mask_length y < ?m" using fib_sorted_dropWhile [OF assms] by auto
  ultimately show ?thesis
    unfolding fib_insert_def by (rule fib_sorted_between)
qed

lemma set_fib_insert [simp]: "set (fib_insert x xs) = insert x (set xs)"
  unfolding fib_insert_def
  by (metis Un_insert_right list.simps(15) set_append takeWhile_dropWhile_id)

lemma length_fib_insert [simp]: "length (fib_insert x xs) = Suc (length xs)"
  unfolding fib_insert_def by (metis add_Suc_right length_Cons length_append takeWhile_dropWhile_id)

lemma distinct_fib_insert:
  "distinct (map fib_key xs) \<Longrightarrow> fib_key x \<notin> fib_key ` set xs \<Longrightarrow> distinct (map fib_key (fib_insert x xs))"
proof -
  assume a: "distinct (map fib_key xs)" "fib_key x \<notin> fib_key ` set xs"
  have "mset (map fib_key (fib_insert x xs)) = mset (map fib_key (x # xs))"
    unfolding fib_insert_def
    by simp (metis image_mset_union mset_append takeWhile_dropWhile_id)
  with a show ?thesis by (metis distinct.simps(2) list.set_map list.simps(9) mset_eq_imp_distinct_iff)
qed


lemma unat_ucast_u32_u16: "unat (w :: u32) < 65536 \<Longrightarrow> unat (ucast w :: u16) = unat w"
  by (simp add: unsigned_ucast_eq take_bit_eq_mod)

lemma push_up_refines:
  assumes e: "nw_env_ok e" and rep: "fib_rep st xs" and k: "fib_key x \<notin> fib_key ` set xs"
    and n: "length xs < NW_FIB_TCAM_MAX_SIZE"
  defines "ts \<equiv> takeWhile (\<lambda>y. fib_mask_length x \<le> fib_mask_length y) xs"
    and "ds \<equiv> dropWhile (\<lambda>y. fib_mask_length x \<le> fib_mask_length y) xs"
  shows "\<exists>st'. fib_reorder_push_entries_up e x st =
      (NW_DB_OK, x\<lparr>fib_nps_index := of_nat (length ts)\<rparr>, st') \<and>
    mset (fib_entries st') = mset (idx_from 0 ts) + mset (idx_from (Suc (length ts)) ds) \<and>
    fib_entry_count st' = fib_entry_count st \<and>
    fib_tcam st' = (\<lambda>i. if length ts < i \<and> i \<le> length xs then Some (fib_image (ds ! (i - Suc (length ts))))
                       else fib_tcam st i)"
proof -
  let ?st = "st\<lparr>nw_clock := Suc (nw_clock st)\<rparr>"
  have xs: "xs = ts @ ds" by (simp add: ts_def ds_def)
  have rows: "rev (sort_key fib_nps_index
      (filter (\<lambda>r. fib_mask_length r < fib_mask_length x) (fib_entries st))) = rev (idx_from (length ts) ds)"
    using push_up_rows [OF rep] by (simp add: ts_def ds_def)
  have m: "mset (fib_entries ?st) = mset (idx_from 0 ts) + mset (idx_from (length ts) ds)"
    using rep by (simp add: fib_rep_def xs idx_from_append)
  have d: "fib_key ` set_mset (mset (idx_from 0 ts)) \<inter> fib_key ` set ds = {}" "distinct (map fib_key ds)"
    using rep by (simp_all add: fib_rep_def xs)
  have len: "length ts + length ds < 65535" using n by (simp add: xs NW_FIB_TCAM_MAX_SIZE_def)
  show ?thesis
  proof (cases "ds = []")
    case True
    then have "unat (fib_entry_count st) = length ts" using rep xs by (simp add: fib_rep_def)
    then have "(ucast (fib_entry_count st) :: u16) = of_nat (length ts)"
      by (metis of_nat_unat unsigned_of_nat)
    then show ?thesis
      using rows True m e xs by (auto simp: fib_reorder_push_entries_up_def fib_simps fun_eq_iff)
  next
    case False
    then obtain tmp' st' where "push_up_loop e (rev (idx_from (length ts) ds)) (hd (rev (idx_from (length ts) ds))) ?st
        = (NW_DB_OK, tmp', st')"
      "mset (fib_entries st') = mset (idx_from 0 ts) + mset (idx_from (Suc (length ts)) ds)"
      "fib_entry_count st' = fib_entry_count ?st"
      "fib_tcam st' = (\<lambda>i. if length ts < i \<and> i \<le> length ts + length ds
         then Some (fib_image (ds ! (i - Suc (length ts)))) else fib_tcam ?st i)"
      "fib_nps_index tmp' = of_nat (Suc (length ts))"
      using push_up_loop_spec [OF e m d len] by blast
    moreover have "rev (idx_from (length ts) ds) \<noteq> []" using False by (cases ds) simp_all
    ultimately show ?thesis
      using rows e by (auto simp: fib_reorder_push_entries_up_def fib_simps Let_def xs fun_eq_iff)
  qed
qed

lemma set_fib_params_key [simp]:
  "fib_key (set_fib_params rt x) = fib_key x" "fib_mask_length (set_fib_params rt x) = fib_mask_length x"
  by (auto simp: set_fib_params_def fib_key_def split: option.splits)

definition new_route :: "rtnl_route \<Rightarrow> nw_db_fib_entry" where
  "new_route rt = set_fib_params rt (route_fib_entry rt)"

lemma new_route_key [simp]:
  "fib_key (new_route rt) = fib_key (route_fib_entry rt)"
  "fib_mask_length (new_route rt) = fib_mask_length (route_fib_entry rt)"
  by (simp_all add: new_route_def)

lemma get_fib_entry_none:
  assumes "nw_env_ok e" "fib_rep st xs" "fib_key x \<notin> fib_key ` set xs"
  shows "internal_db_get_fib_entry e x st = (NW_DB_FAILURE, x, st\<lparr>nw_clock := Suc (nw_clock st)\<rparr>)"
  using assms fib_rep_find_none [OF assms(2,3)]
  by (simp add: internal_db_get_fib_entry_def fib_simps)

lemma get_fib_entry_some:
  assumes "nw_env_ok e" "fib_rep st xs" "j < length xs" "fib_key x = fib_key (xs ! j)"
  shows "internal_db_get_fib_entry e x st =
    (NW_DB_OK, (xs ! j)\<lparr>fib_nps_index := of_nat j\<rparr>, st\<lparr>nw_clock := Suc (nw_clock st)\<rparr>)"
  using assms fib_rep_find_some [OF assms(2,3)]
  by (cases x, cases "xs ! j") (simp add: internal_db_get_fib_entry_def fib_simps idx_from_nth fib_key_def)

lemma fib_rep_clock [simp]: "fib_rep (st\<lparr>nw_clock := c\<rparr>) xs = fib_rep st xs"
  by (simp add: fib_rep_def)

lemma add_refines_new:
  assumes e: "nw_env_ok e" and rep: "fib_rep st xs"
    and new: "fib_key (route_fib_entry rt) \<notin> fib_key ` set xs"
    and len: "unat (fib_mask_length (route_fib_entry rt)) \<le> 32"
    and room: "length xs < NW_FIB_TCAM_MAX_SIZE"
  shows "\<exists>st'. nw_db_add_fib_entry e rt True st = (NW_DB_OK, st') \<and> fib_rep st' (fib_insert (new_route rt) xs)"
proof -
  let ?x = "new_route rt"
  let ?st1 = "st\<lparr>nw_clock := Suc (nw_clock st)\<rparr>"
  define ts where "ts = takeWhile (\<lambda>y. fib_mask_length ?x \<le> fib_mask_length y) xs"
  define ds where "ds = dropWhile (\<lambda>y. fib_mask_length ?x \<le> fib_mask_length y) xs"
  let ?x' = "?x\<lparr>fib_nps_index := of_nat (length ts)\<rparr>"
  have xs: "xs = ts @ ds" and ins: "fib_insert ?x xs = ts @ ?x # ds"
    by (simp_all add: ts_def ds_def fib_insert_def)
  obtain st2 where st2: "fib_reorder_push_entries_up e ?x ?st1 = (NW_DB_OK, ?x', st2)"
    "mset (fib_entries st2) = mset (idx_from 0 ts) + mset (idx_from (Suc (length ts)) ds)"
    "fib_entry_count st2 = fib_entry_count st"
    "fib_tcam st2 = (\<lambda>i. if length ts < i \<and> i \<le> length xs
       then Some (fib_image (ds ! (i - Suc (length ts)))) else fib_tcam st i)"
    using push_up_refines [OF e, of ?st1 xs ?x, folded ts_def ds_def] rep new room
    by (auto cong: if_cong)
  define st' where "st' = st2\<lparr>fib_entries := fib_entries st2 @ [?x'],
     fib_tcam := (fib_tcam st2)(length ts \<mapsto> fib_image ?x), nw_clock := Suc (Suc (nw_clock st2)),
     fib_entry_count := fib_entry_count st2 + 1\<rparr>"
  have cnt: "unat (fib_entry_count st) = length xs" using rep by (simp add: fib_rep_def)
  then have notfull: "fib_entry_count st \<noteq> of_nat NW_FIB_TCAM_MAX_SIZE"
    using room by (auto simp: NW_FIB_TCAM_MAX_SIZE_def)
  have idx: "unat (of_nat (length ts) :: u16) = length ts"
    using room by (intro unat_of_nat_u16) (simp add: xs NW_FIB_TCAM_MAX_SIZE_def)
  have "set (fib_entries st2) = set (idx_from 0 ts @ idx_from (Suc (length ts)) ds)"
    using st2(2) by (metis mset_append mset_eq_setD)
  then have keys: "fib_key ?x \<notin> fib_key ` set (fib_entries st2)"
    using new by (auto simp: xs image_Un)
  have run: "nw_db_add_fib_entry e rt True st = (NW_DB_OK, st')"
    using e get_fib_entry_none [OF e rep new] notfull st2(1) keys idx
    by (simp add: nw_db_add_fib_entry_def new_route_def [symmetric] internal_db_add_fib_entry_def
        fib_simps st'_def)
  have "unat (fib_entry_count st + 1) = Suc (length xs)"
    using cnt room by (subst unat_add_lem [THEN iffD1]) (simp_all add: NW_FIB_TCAM_MAX_SIZE_def)
  then have cnt': "unat (fib_entry_count st') = length (fib_insert ?x xs)"
    by (simp add: st'_def st2(3))
  have rows: "mset (fib_entries st') = mset (idx_from 0 (fib_insert ?x xs))"
    using st2(2) by (simp add: st'_def ins idx_from_append)
  have "fib_tcam st' i = (if i < length (fib_insert ?x xs) then Some (fib_image (fib_insert ?x xs ! i)) else None)" for i
    using rep unfolding ins by (simp add: st'_def st2(4) fib_rep_def) (auto simp: xs nth_append nth_Cons')
  then have "fib_rep st' (fib_insert ?x xs)"
    using rep new len room cnt' rows fib_sorted_insert [of xs ?x] distinct_fib_insert [of xs ?x]
    by (auto simp: fib_rep_def)
  with run show ?thesis by blast
qed

lemma push_down_rows:
  assumes "fib_rep st xs" "j < length xs"
  shows "sort_key fib_nps_index (filter (\<lambda>r. fib_nps_index r > of_nat j) (fib_entries st)) =
    idx_from (Suc j) (drop (Suc j) xs)"
proof -
  let ?P = "\<lambda>r. fib_nps_index r > of_nat j"
  have n: "length xs < 65536" using assms(1) by (simp add: fib_rep_def NW_FIB_TCAM_MAX_SIZE_def)
  have gt: "?P (idx_from 0 xs ! i) \<longleftrightarrow> j < i" if "i < length xs" for i
    using that n assms(2) by (simp add: idx_from_nth word_less_nat_alt unat_of_nat_u16)
  have "filter ?P (idx_from 0 (take (Suc j) xs)) = []"
    using gt assms(2) by (auto simp: filter_empty_conv in_set_conv_nth idx_from_nth)
  moreover have "filter ?P (idx_from (Suc j) (drop (Suc j) xs)) = idx_from (Suc j) (drop (Suc j) xs)"
    using gt by (auto simp: filter_id_conv in_set_conv_nth idx_from_nth add.commute
        simp del: of_nat_Suc of_nat_add)
  moreover have "idx_from 0 xs = idx_from 0 (take (Suc j) xs) @ idx_from (Suc j) (drop (Suc j) xs)"
    using idx_from_append [of 0 "take (Suc j) xs" "drop (Suc j) xs"] assms(2) by simp
  ultimately have "filter ?P (idx_from 0 xs) = idx_from (Suc j) (drop (Suc j) xs)" by simp
  moreover have "mset (filter ?P (fib_entries st)) = mset (filter ?P (idx_from 0 xs))"
    using assms by (simp add: fib_rep_def)
  ultimately show ?thesis using sort_idx_from n assms(2) by simp
qed

lemma fib_remove_split:
  "distinct (map fib_key (as @ x # bs)) \<Longrightarrow> fib_remove (fib_key x) (as @ x # bs) = as @ bs"
  unfolding fib_remove_def
  by (simp, rule arg_cong2 [where f = append]) (simp_all add: filter_id_conv, (metis imageI)+)

lemma push_down_refines:
  assumes e: "nw_env_ok e" and rep: "fib_rep st (as @ x # bs)"
  defines "j \<equiv> length as"
  shows "\<exists>st2. (if ucast (of_nat j :: u16) \<noteq> fib_entry_count st - 1
      then fib_reorder_push_entries_down e (x\<lparr>fib_nps_index := of_nat j\<rparr>) st
      else (NW_DB_OK, x\<lparr>fib_nps_index := of_nat j\<rparr>, st))
      = (NW_DB_OK, x\<lparr>fib_nps_index := of_nat (j + length bs)\<rparr>, st2) \<and>
    mset (fib_entries st2) = mset (idx_from 0 as) + {#x\<lparr>fib_nps_index := of_nat j\<rparr>#} + mset (idx_from j bs) \<and>
    fib_entry_count st2 = fib_entry_count st \<and>
    fib_tcam st2 = (\<lambda>i. if j \<le> i \<and> i < j + length bs then Some (fib_image (bs ! (i - j))) else fib_tcam st i)"
proof -
  let ?st = "st\<lparr>nw_clock := Suc (nw_clock st)\<rparr>" and ?x = "x\<lparr>fib_nps_index := of_nat j\<rparr>"
  have n: "j + length bs < 65535" and cnt: "unat (fib_entry_count st) = Suc (j + length bs)"
    using rep by (simp_all add: fib_rep_def j_def NW_FIB_TCAM_MAX_SIZE_def)
  have pred: "unat (fib_entry_count st - 1) = j + length bs"
    using cnt by (subst unat_minus_one) auto
  then have last: "fib_entry_count st - 1 = of_nat (j + length bs)" by (metis of_nat_unat word_of_nat_eq_iff ucast_id)
  have uj: "unat (ucast (of_nat j :: u16) :: u32) = j"
    using n by (simp add: unsigned_ucast_eq take_bit_eq_mod unat_of_nat_u16)
  have m: "mset (fib_entries ?st) = (mset (idx_from 0 as) + {#?x#}) + mset (idx_from (Suc j) bs)"
    using rep by (simp add: fib_rep_def idx_from_append j_def)
  show ?thesis
  proof (cases "bs = []")
    case True
    then have "ucast (of_nat j :: u16) = fib_entry_count st - 1"
      using pred uj by (intro word_unat_eq_iff [THEN iffD2]) simp
    then show ?thesis using True m by (auto simp: fun_eq_iff)
  next
    case False
    then have "ucast (of_nat j :: u16) \<noteq> fib_entry_count st - 1"
      using pred uj by (metis add.right_neutral add_left_cancel length_0_conv)
    moreover obtain st2 where "push_down_loop e (idx_from (Suc j) bs) ?st = (NW_DB_OK, st2)"
      "mset (fib_entries st2) = mset (idx_from 0 as) + {#?x#} + mset (idx_from j bs)"
      "fib_entry_count st2 = fib_entry_count ?st"
      "fib_tcam st2 = (\<lambda>i. if j \<le> i \<and> i < j + length bs then Some (fib_image (bs ! (i - j))) else fib_tcam ?st i)"
      using push_down_loop_spec [OF e m _ _ n] rep by (auto simp: fib_rep_def)
    moreover have "sort_key fib_nps_index (filter (\<lambda>r. fib_nps_index r > of_nat j) (fib_entries ?st)) =
        idx_from (Suc j) bs"
      using push_down_rows [OF rep, of j] by (simp add: j_def)
    moreover have "(ucast (fib_entry_count st - 1) :: u16) = of_nat (j + length bs)"
      by (metis last of_nat_unat pred unsigned_of_nat)
    ultimately show ?thesis
      using e by (auto simp: fib_reorder_push_entries_down_def fib_simps Let_def cong: if_cong simp del: of_nat_add)
  qed
qed

lemma idx_filter_other:
  "fib_key x \<notin> fib_key ` set as \<Longrightarrow> filter (\<lambda>r. fib_key r \<noteq> fib_key x) (idx_from i as) = idx_from i as"
  by (simp add: filter_id_conv) (metis idx_from_keyD)

lemma delete_refines_found:
  assumes e: "nw_env_ok e" and rep: "fib_rep st xs" and j: "j < length xs"
    and key: "fib_key (route_fib_entry rt) = fib_key (xs ! j)"
  shows "\<exists>st'. nw_db_delete_fib_entry e rt st = (NW_DB_OK, st') \<and>
    fib_rep st' (fib_remove (fib_key (route_fib_entry rt)) xs)"
proof -
  define as x bs where "as = take j xs" and "x = xs ! j" and "bs = drop (Suc j) xs"
  have xs: "xs = as @ x # bs" and la: "length as = j"
    using j id_take_nth_drop [OF j] by (simp_all add: as_def x_def bs_def)
  let ?x = "x\<lparr>fib_nps_index := of_nat j\<rparr>" and ?x' = "x\<lparr>fib_nps_index := of_nat (length as + length bs)\<rparr>"
  let ?st1 = "st\<lparr>nw_clock := Suc (nw_clock st)\<rparr>"
  have n: "j + length bs < 65535" and cnt: "unat (fib_entry_count st) = Suc (j + length bs)"
    using rep la by (simp_all add: fib_rep_def xs NW_FIB_TCAM_MAX_SIZE_def)
  have pred: "unat (fib_entry_count st - 1) = j + length bs"
    using cnt by (subst unat_minus_one) auto
  have key': "fib_key (route_fib_entry rt) = fib_key x" using key by (simp add: x_def)
  have rem: "fib_remove (fib_key (route_fib_entry rt)) xs = as @ bs"
    using rep fib_remove_split [of as x bs] by (simp add: key' fib_rep_def xs)
  obtain st2 where st2: "(if ucast (fib_nps_index ?x) \<noteq> fib_entry_count ?st1 - 1
        then fib_reorder_push_entries_down e ?x ?st1 else (NW_DB_OK, ?x, ?st1)) = (NW_DB_OK, ?x', st2)"
    "mset (fib_entries st2) = mset (idx_from 0 as) + {#?x#} + mset (idx_from j bs)"
    "fib_entry_count st2 = fib_entry_count st"
    "fib_tcam st2 = (\<lambda>i. if j \<le> i \<and> i < j + length bs then Some (fib_image (bs ! (i - j))) else fib_tcam st i)"
    using push_down_refines [OF e, of ?st1 as x bs] rep xs la by (auto cong: if_cong)
  define st' where "st' = st2\<lparr>fib_entry_count := fib_entry_count st2 - 1,
     fib_entries := filter (\<lambda>r. fib_key r \<noteq> fib_key x) (fib_entries st2),
     nw_clock := Suc (Suc (nw_clock st2)), fib_tcam := (fib_tcam st2)(j + length bs := None)\<rparr>"
  have idx: "unat (of_nat (length as + length bs) :: u16) = j + length bs"
    using n la by (simp add: unat_of_nat_u16 del: of_nat_add)
  have run: "nw_db_delete_fib_entry e rt st = (NW_DB_OK, st')"
    using e get_fib_entry_some [OF e rep j key] st2(1) idx
    by (simp add: nw_db_delete_fib_entry_def internal_db_remove_fib_entry_def x_def [symmetric]
        fib_simps st'_def del: of_nat_add)
  have "mset (fib_entries st') = filter_mset (\<lambda>r. fib_key r \<noteq> fib_key x)
      (mset (idx_from 0 as) + {#?x#} + mset (idx_from j bs))"
    by (simp add: st'_def st2(2))
  also have "\<dots> = mset (idx_from 0 as) + mset (idx_from j bs)"
    using rep idx_filter_other [of x as 0] idx_filter_other [of x bs j]
    by (simp add: fib_rep_def xs flip: mset_filter)
  finally have rows: "mset (fib_entries st') = mset (idx_from 0 (as @ bs))"
    by (simp add: idx_from_append la)
  have "fib_tcam st' i = (if i < length (as @ bs) then Some (fib_image ((as @ bs) ! i)) else None)" for i
    using rep by (simp add: st'_def st2(4) fib_rep_def) (auto simp: xs la nth_append nth_Cons')
  then have "fib_rep st' (as @ bs)"
    using rep rows pred la st2(3)
    by (auto simp: fib_rep_def st'_def xs fib_sorted_def sorted_wrt_append)
  with run rem show ?thesis by auto
qed

lemma modify_refines_found:
  assumes e: "nw_env_ok e" and rep: "fib_rep st xs" and j: "j < length xs"
    and key: "fib_key (route_fib_entry rt) = fib_key (xs ! j)"
  shows "\<exists>st'. nw_db_modify_fib_entry e rt st = (NW_DB_OK, st') \<and>
    fib_rep st' (xs[j := set_fib_params rt (xs ! j)])"
proof -
  define as x bs where "as = take j xs" and "x = xs ! j" and "bs = drop (Suc j) xs"
  have xs: "xs = as @ x # bs" and la: "length as = j"
    using j id_take_nth_drop [OF j] by (simp_all add: as_def x_def bs_def)
  let ?x = "x\<lparr>fib_nps_index := of_nat j\<rparr>"
  let ?y = "set_fib_params rt x"
  have y: "set_fib_params rt ?x = ?y\<lparr>fib_nps_index := of_nat j\<rparr>"
    by (simp add: set_fib_params_def split: option.splits)
  define st' where "st' = st\<lparr>fib_entries := map (update_fib_row (?y\<lparr>fib_nps_index := of_nat j\<rparr>)) (fib_entries st),
     fib_tcam := (fib_tcam st)(j \<mapsto> fib_image ?y), nw_clock := Suc (Suc (Suc (nw_clock st)))\<rparr>"
  have idx: "unat (of_nat j :: u16) = j"
    using rep j by (intro unat_of_nat_u16) (simp add: fib_rep_def NW_FIB_TCAM_MAX_SIZE_def)
  have run: "nw_db_modify_fib_entry e rt st = (NW_DB_OK, st')"
    using e get_fib_entry_some [OF e rep j key] idx
    by (simp add: nw_db_modify_fib_entry_def x_def [symmetric] y fib_simps st'_def Let_def)
  have upd: "xs[j := ?y] = as @ ?y # bs" by (simp add: xs flip: la)
  have "mset (map (update_fib_row (?y\<lparr>fib_nps_index := of_nat j\<rparr>)) (fib_entries st)) =
      (mset (idx_from 0 as) + mset (idx_from (Suc j) bs)) + {#?y\<lparr>fib_nps_index := of_nat j\<rparr>#}"
    using rep by (intro update_one_row [where r = ?x])
      (auto simp: fib_rep_def xs idx_from_append la dest: idx_from_keyD)
  then have rows: "mset (fib_entries st') = mset (idx_from 0 (as @ ?y # bs))"
    by (simp add: st'_def idx_from_append la del: mset_map)
  have "fib_tcam st' i = (if i < length (as @ ?y # bs) then Some (fib_image ((as @ ?y # bs) ! i)) else None)" for i
    using rep by (simp add: st'_def fib_rep_def) (auto simp: xs la nth_append nth_Cons')
  then have tcam: "fib_tcam st' =
      (\<lambda>i. if i < length (as @ ?y # bs) then Some (fib_image ((as @ ?y # bs) ! i)) else None)"
    by (rule ext)
  have cnt: "fib_entry_count st' = fib_entry_count st" by (simp add: st'_def)
  have "fib_rep st' (as @ ?y # bs)"
    using rep unfolding fib_rep_def rows tcam cnt xs by (auto simp: fib_sorted_def sorted_wrt_append)
  with run upd show ?thesis by (auto simp: x_def)
qed

subsection \<open>Longest prefix match\<close>

text \<open>The prefix of an address in network byte order, as the number its leading bits spell.\<close>

definition prefix_match :: "in_addr_t \<Rightarrow> nw_db_fib_entry \<Rightarrow> bool" where
  "prefix_match ip r \<longleftrightarrow>
     drop_bit (32 - unat (fib_mask_length r)) (bswap_32 ip) =
     drop_bit (32 - unat (fib_mask_length r)) (bswap_32 (fib_dest_ip r))"

lemma bswap_32_and: "bswap_32 (a AND b) = bswap_32 a AND bswap_32 b"
  by (rule bit_word_eqI) (simp add: bit_bswap_32 bit_simps)

lemma and_high_mask_eq_iff:
  fixes a b :: u32
  assumes "k \<le> 32"
  shows "a AND push_bit k 0xFFFFFFFF = b AND push_bit k 0xFFFFFFFF \<longleftrightarrow> drop_bit k a = drop_bit k b"
proof -
  have ff: "(0xFFFFFFFF :: u32) = mask 32" by (simp add: mask_eq_exp_minus_1)
  show ?thesis
  proof
    assume eq: "a AND push_bit k 0xFFFFFFFF = b AND push_bit k 0xFFFFFFFF"
    show "drop_bit k a = drop_bit k b"
    proof (rule bit_word_eqI)
      fix i assume "i < LENGTH(32)"
      then show "bit (drop_bit k a) i = bit (drop_bit k b) i"
        using arg_cong [OF eq, of "\<lambda>w. bit w (k + i)"] bit_imp_le_length [of a "k + i"]
          bit_imp_le_length [of b "k + i"]
        by (auto simp: bit_simps ff)
    qed
  next
    assume eq: "drop_bit k a = drop_bit k b"
    show "a AND push_bit k 0xFFFFFFFF = b AND push_bit k 0xFFFFFFFF"
    proof (rule bit_word_eqI)
      fix i assume "i < LENGTH(32)"
      then show "bit (a AND push_bit k 0xFFFFFFFF) i = bit (b AND push_bit k 0xFFFFFFFF) i"
        using arg_cong [OF eq, of "\<lambda>w. bit w (i - k)"] by (auto simp: bit_simps ff)
    qed
  qed
qed

lemma tcam_match_prefix:
  assumes "unat (fib_mask_length r) \<le> 32"
  shows "tcam_match ip (fib_image r) = prefix_match ip r"
proof (cases "fib_mask_length r = 0")
  case True
  have "drop_bit 32 w = 0" for w :: u32
    by (rule bit_word_eqI) (auto simp: bit_simps dest: bit_imp_le_length)
  then show ?thesis
    using True by (simp add: tcam_match_def fib_image_def build_nps_fib_key_and_mask_def
        fib_mask_word_def prefix_match_def)
next
  case False
  let ?m = "push_bit (32 - unat (fib_mask_length r)) 0xFFFFFFFF :: u32"
  have "ip AND bswap_32 ?m = fib_dest_ip r AND bswap_32 ?m \<longleftrightarrow>
      bswap_32 (ip AND bswap_32 ?m) = bswap_32 (fib_dest_ip r AND bswap_32 ?m)"
    by simp
  also have "\<dots> \<longleftrightarrow> bswap_32 ip AND ?m = bswap_32 (fib_dest_ip r) AND ?m"
    by (simp only: bswap_32_and bswap_32_involution)
  finally show ?thesis
    using False and_high_mask_eq_iff [of "32 - unat (fib_mask_length r)"]
    by (simp add: tcam_match_def fib_image_def build_nps_fib_key_and_mask_def
        fib_mask_word_def prefix_match_def)
qed

text \<open>
  The contract between the route table and the data plane's search: the state represents a list
  of routes in descending order of mask length, and a lookup answers with the first route of
  that list which matches.
\<close>

locale lpm_table =
  fixes rep :: "'st \<Rightarrow> nw_db_fib_entry list \<Rightarrow> bool"
    and lookup :: "'st \<Rightarrow> in_addr_t \<Rightarrow> nw_fib_result option"
  assumes rep_sorted: "rep st xs \<Longrightarrow> fib_sorted xs"
    and lookup_first: "rep st xs \<Longrightarrow>
      lookup st ip = map_option build_nps_fib_result (find (prefix_match ip) xs)"
begin

lemma lookup_none: "rep st xs \<Longrightarrow> lookup st ip = None \<longleftrightarrow> (\<forall>x \<in> set xs. \<not> prefix_match ip x)"
  by (auto simp: lookup_first find_None_iff)

lemma lookup_longest:
  assumes "rep st xs" "lookup st ip = Some res"
  shows "\<exists>x \<in> set xs. prefix_match ip x \<and> res = build_nps_fib_result x \<and>
    (\<forall>y \<in> set xs. prefix_match ip y \<longrightarrow> fib_mask_length y \<le> fib_mask_length x)"
proof -
  obtain x where x: "find (prefix_match ip) xs = Some x" "res = build_nps_fib_result x"
    using assms by (auto simp: lookup_first)
  then obtain i where i: "i < length xs" "x = xs ! i" "prefix_match ip x"
    "\<forall>j < i. \<not> prefix_match ip (xs ! j)"
    by (auto simp: find_Some_iff)
  have "fib_mask_length (xs ! j) \<le> fib_mask_length x" if "j < length xs" "prefix_match ip (xs ! j)" for j
  proof (cases "j = i")
    case False
    then have "i < j" using i(4) that(2) by (metis linorder_neqE_nat)
    then show ?thesis
      using sorted_wrt_nth_less [of "\<lambda>x y. fib_mask_length y \<le> fib_mask_length x" xs i j]
        rep_sorted [OF assms(1)] that(1) i(2) by (simp add: fib_sorted_def)
  qed (simp add: i)
  then show ?thesis using x i by (metis in_set_conv_nth)
qed

end

lemma map_filter_prefix:
  assumes "n \<le> k" "\<forall>i. f i = (if i < n then Some (g i) else None)"
  shows "List.map_filter f [0..<k] = map g [0..<n]"
proof -
  have "List.map_filter f [0..<n] = map g [0..<n]"
    using assms(2) by (simp add: List.map_filter_def)
  moreover have "List.map_filter f [n..<k] = []"
    using assms(2) by (simp add: List.map_filter_def)
  moreover have "[0..<k] = [0..<n] @ [n..<k]"
    using assms(1) upt_add_eq_append [of 0 n "k - n"] by simp
  ultimately show ?thesis by (simp add: List.map_filter_def)
qed

lemma find_map_image:
  "\<forall>x \<in> set xs. P (f x) = Q x \<Longrightarrow> find P (map f xs) = map_option f (find Q xs)"
  by (induction xs) auto

lemma map_nth_image: "map (\<lambda>i. f (xs ! i)) [0..<length xs] = map f xs"
  by (rule nth_equalityI) simp_all

interpretation fib: lpm_table fib_rep tcam_lookup
proof unfold_locales
  fix st xs ip
  assume rep: "fib_rep st xs"
  then show "fib_sorted xs" by (simp add: fib_rep_def)
  have "List.map_filter (fib_tcam st) [0..<NW_FIB_TCAM_MAX_SIZE] = map fib_image xs"
    using rep map_filter_prefix [of "length xs" NW_FIB_TCAM_MAX_SIZE "fib_tcam st" "\<lambda>i. fib_image (xs ! i)"]
    by (simp add: fib_rep_def map_nth_image)
  moreover have "find (tcam_match ip) (map fib_image xs) = map_option fib_image (find (prefix_match ip) xs)"
    using rep by (intro find_map_image) (auto simp: fib_rep_def tcam_match_prefix)
  ultimately show "tcam_lookup st ip = map_option build_nps_fib_result (find (prefix_match ip) xs)"
    by (simp add: tcam_lookup_def option.map_comp comp_def fib_image_def)
qed

subsection \<open>Sequences of route updates\<close>

datatype fib_op = FibAdd rtnl_route | FibDelete rtnl_route | FibModify rtnl_route

fun fib_step :: "nw_env \<Rightarrow> fib_op \<Rightarrow> nw_db_state \<Rightarrow> nw_db_rc \<times> nw_db_state" where
  "fib_step e (FibAdd rt) st = nw_db_add_fib_entry e rt True st"
| "fib_step e (FibDelete rt) st = nw_db_delete_fib_entry e rt st"
| "fib_step e (FibModify rt) st = nw_db_modify_fib_entry e rt st"

fun fib_run :: "nw_env \<Rightarrow> fib_op list \<Rightarrow> nw_db_state \<Rightarrow> nw_db_rc list \<times> nw_db_state" where
  "fib_run e [] st = ([], st)"
| "fib_run e (op # ops) st =
     (let (rc, st) = fib_step e op st; (rcs, st) = fib_run e ops st in (rc # rcs, st))"

text \<open>The same updates on the abstract table.\<close>

definition fib_change :: "rtnl_route \<Rightarrow> nw_db_fib_entry list \<Rightarrow> nw_db_fib_entry list" where
  "fib_change rt xs =
     map (\<lambda>y. if fib_key y = fib_key (route_fib_entry rt) then set_fib_params rt y else y) xs"

fun fib_spec :: "fib_op \<Rightarrow> nw_db_fib_entry list \<Rightarrow> nw_db_rc \<times> nw_db_fib_entry list" where
  "fib_spec (FibAdd rt) xs =
     (if fib_key (route_fib_entry rt) \<in> fib_key ` set xs then (NW_DB_FAILURE, xs)
      else if length xs = NW_FIB_TCAM_MAX_SIZE then (NW_DB_INTERNAL_ERROR, xs)
      else (NW_DB_OK, fib_insert (new_route rt) xs))"
| "fib_spec (FibDelete rt) xs =
     (if fib_key (route_fib_entry rt) \<in> fib_key ` set xs
      then (NW_DB_OK, fib_remove (fib_key (route_fib_entry rt)) xs) else (NW_DB_FAILURE, xs))"
| "fib_spec (FibModify rt) xs =
     (if fib_key (route_fib_entry rt) \<in> fib_key ` set xs
      then (NW_DB_OK, fib_change rt xs) else (NW_DB_FAILURE, xs))"

fun fib_spec_run :: "fib_op list \<Rightarrow> nw_db_fib_entry list \<Rightarrow> nw_db_rc list \<times> nw_db_fib_entry list" where
  "fib_spec_run [] xs = ([], xs)"
| "fib_spec_run (op # ops) xs =
     (let (rc, xs) = fib_spec op xs; (rcs, xs) = fib_spec_run ops xs in (rc # rcs, xs))"

fun fib_op_route :: "fib_op \<Rightarrow> rtnl_route" where
  "fib_op_route (FibAdd rt) = rt"
| "fib_op_route (FibDelete rt) = rt"
| "fib_op_route (FibModify rt) = rt"

definition ipv4_op :: "fib_op \<Rightarrow> bool" where
  "ipv4_op op \<longleftrightarrow> rt_dst_prefixlen (fib_op_route op) \<le> 32"

lemma ipv4_mask_length:
  assumes "rt_dst_prefixlen rt \<le> 32"
  shows "unat (fib_mask_length (route_fib_entry rt)) \<le> 32"
proof -
  have "unat (rt_dst_prefixlen rt) \<le> 32" using assms by (simp add: word_le_nat_alt)
  then show ?thesis using unat_ucast_u32_u16 [of "rt_dst_prefixlen rt"] by (simp add: route_fib_entry_def)
qed

lemma fib_change_nth:
  assumes "distinct (map fib_key xs)" "j < length xs" "fib_key (route_fib_entry rt) = fib_key (xs ! j)"
  shows "fib_change rt xs = xs[j := set_fib_params rt (xs ! j)]"
proof (rule nth_equalityI)
  fix i assume "i < length (fib_change rt xs)"
  then have i: "i < length xs" by (simp add: fib_change_def)
  have "fib_key (xs ! i) = fib_key (xs ! j) \<longleftrightarrow> i = j"
    using assms(1,2) i nth_eq_iff_index_eq [of "map fib_key xs" i j] by simp
  then show "fib_change rt xs ! i = xs[j := set_fib_params rt (xs ! j)] ! i"
    using i assms by (auto simp: fib_change_def nth_list_update)
qed (simp add: fib_change_def)

lemma fib_step_refines:
  assumes e: "nw_env_ok e" and rep: "fib_rep st xs" and ok: "ipv4_op op"
  shows "\<exists>st'. fib_step e op st = (fst (fib_spec op xs), st') \<and> fib_rep st' (snd (fib_spec op xs))"
proof -
  let ?k = "fib_key (route_fib_entry (fib_op_route op))"
  have d: "distinct (map fib_key xs)" using rep by (simp add: fib_rep_def)
  show ?thesis
  proof (cases "?k \<in> fib_key ` set xs")
    case True
    then obtain j where j: "j < length xs" "?k = fib_key (xs ! j)"
      by (auto simp: in_set_conv_nth)
    note got = get_fib_entry_some [OF e rep j]
    show ?thesis
    proof (cases op)
      case (FibAdd rt)
      then show ?thesis using got True rep by (simp add: nw_db_add_fib_entry_def)
    next
      case (FibDelete rt)
      then show ?thesis using delete_refines_found [OF e rep j(1)] j(2) True by simp
    next
      case (FibModify rt)
      then show ?thesis
        using modify_refines_found [OF e rep j(1)] j True fib_change_nth [OF d j(1)] by simp
    qed
  next
    case False
    note none = get_fib_entry_none [OF e rep False]
    show ?thesis
    proof (cases op)
      case (FibAdd rt)
      show ?thesis
      proof (cases "length xs = NW_FIB_TCAM_MAX_SIZE")
        case True
        then have "fib_entry_count st = of_nat NW_FIB_TCAM_MAX_SIZE"
          using rep by (metis fib_rep_def of_nat_unat ucast_id)
        then show ?thesis using none True False FibAdd rep by (simp add: nw_db_add_fib_entry_def)
      next
        case False
        then have "length xs < NW_FIB_TCAM_MAX_SIZE" using rep by (simp add: fib_rep_def)
        then show ?thesis
          using add_refines_new [OF e rep, of rt] FibAdd ok ipv4_mask_length [of rt] False
            \<open>?k \<notin> fib_key ` set xs\<close>
          by (simp add: ipv4_op_def)
      qed
    next
      case (FibDelete rt)
      then show ?thesis using none False rep by (simp add: nw_db_delete_fib_entry_def)
    next
      case (FibModify rt)
      then show ?thesis using none False rep by (simp add: nw_db_modify_fib_entry_def)
    qed
  qed
qed

lemma fib_run_refines:
  assumes "nw_env_ok e" "fib_rep st xs" "\<forall>op \<in> set ops. ipv4_op op"
  shows "\<exists>st'. fib_run e ops st = (fst (fib_spec_run ops xs), st') \<and> fib_rep st' (snd (fib_spec_run ops xs))"
  using assms(2,3)
proof (induction ops arbitrary: st xs)
  case (Cons op ops)
  obtain st1 where st1: "fib_step e op st = (fst (fib_spec op xs), st1)" "fib_rep st1 (snd (fib_spec op xs))"
    using fib_step_refines [OF assms(1) Cons.prems(1)] Cons.prems(2) by auto
  then show ?case
    using Cons.IH [OF st1(2)] Cons.prems(2) by (auto simp: case_prod_beta)
qed simp


subsection \<open>Properties\<close>

lemma idx_from_image:
  "set (idx_from 0 xs) = (\<lambda>j. (xs ! j)\<lparr>fib_nps_index := of_nat j\<rparr>) ` {..<length xs}"
  unfolding set_conv_nth by (force simp: idx_from_nth)

text \<open>No helper changes the number of entries.\<close>

lemma count_frame [simp]:
  "fib_entry_count (snd (nw_sql e st)) = fib_entry_count st"
  "fib_entry_count (snd (internal_db_modify_fib_entry e r st)) = fib_entry_count st"
  "fib_entry_count (snd (internal_db_add_fib_entry e r st)) = fib_entry_count st"
  "fib_entry_count (snd (add_fib_entry_to_nps e r st)) = fib_entry_count st"
  "fib_entry_count (snd (snd (internal_db_get_fib_entry e r st))) = fib_entry_count st"
  by (simp_all add: nw_sql_def internal_db_modify_fib_entry_def internal_db_add_fib_entry_def
      add_fib_entry_to_nps_def infra_add_tcam_entry_def internal_db_get_fib_entry_def Let_def
      split: prod.splits option.splits)

lemma count_push_up_loop [simp]:
  "fib_entry_count (snd (snd (push_up_loop e rows tmp st))) = fib_entry_count st"
proof (induction rows arbitrary: tmp st)
  case (Cons r rows)
  show ?case by (simp add: Let_def case_prod_beta Cons.IH)
qed simp

lemma count_push_up [simp]:
  "fib_entry_count (snd (snd (fib_reorder_push_entries_up e r st))) = fib_entry_count st"
  by (simp add: fib_reorder_push_entries_up_def Let_def case_prod_beta)

text \<open>The state after \<open>nw_db_init\<close>, with an empty TCAM.\<close>

definition nw_db_start :: nw_db_state where
  "nw_db_start = \<lparr>fib_entries = [], fib_entry_count = 0, fib_tcam = (\<lambda>i. None), nw_clock = 0\<rparr>"

lemma nw_db_start_rep: "fib_rep nw_db_start []"
  by (simp add: fib_rep_def nw_db_start_def fib_sorted_def)

definition nw_ideal :: nw_env where
  "nw_ideal = \<lparr>nw_sql_ok = (\<lambda>n. True), nw_nps_ok = (\<lambda>n. True)\<rparr>"

definition demo_route :: "u32 \<Rightarrow> u32 \<Rightarrow> u32 \<Rightarrow> rtnl_route" where
  "demo_route addr len gw = \<lparr>rt_type = RTN_UNICAST, rt_dst_prefixlen = len, rt_dst_addr = addr,
     rt_gateway = Some gw, rt_nnexthops = 1\<rparr>"

text \<open>
  C10. Any sequence of route additions, deletions and modifications, carried out while SQLite and
  the NPS accept every call, returns exactly the codes of the abstract table (already present,
  table full, not found, done), and leaves the SQL rows, the counter and the TCAM representing
  the abstract list, in which every addition went behind the entries of equal or greater mask
  length and the indexes are contiguous.
\<close>

theorem fib_operations_refine_sorted_table:
  assumes "nw_env_ok e" "\<forall>op \<in> set ops. ipv4_op op"
  shows "\<exists>st. fib_run e ops nw_db_start = (fst (fib_spec_run ops []), st) \<and>
    fib_rep st (snd (fib_spec_run ops []))"
  using fib_run_refines [OF assms(1) nw_db_start_rep assms(2)] .

theorem fib_operations_refine_sorted_table_witness:
  "\<exists>st. fib_run nw_ideal [FibAdd (demo_route 10 8 1), FibAdd (demo_route 10 16 2),
       FibAdd (demo_route 10 8 3), FibDelete (demo_route 10 8 0), FibDelete (demo_route 10 8 0)] nw_db_start
     = ([NW_DB_OK, NW_DB_OK, NW_DB_FAILURE, NW_DB_OK, NW_DB_FAILURE], st) \<and>
     fib_rep st [new_route (demo_route 10 16 2)]"
  using fib_operations_refine_sorted_table [of nw_ideal "[FibAdd (demo_route 10 8 1),
      FibAdd (demo_route 10 16 2), FibAdd (demo_route 10 8 3), FibDelete (demo_route 10 8 0),
      FibDelete (demo_route 10 8 0)]"]
  by (simp add: nw_env_ok_def nw_ideal_def ipv4_op_def demo_route_def fib_key_def route_fib_entry_def
      NW_FIB_TCAM_MAX_SIZE_def fib_insert_def fib_remove_def new_route_def set_fib_params_def
      RTN_UNICAST_def)

text \<open>
  C9. In every state the route updates can reach, the lookup the device makes in the TCAM is a
  longest-prefix match over the rows of the table: it misses exactly when no row's prefix contains
  the address, and otherwise it answers with the next hop and the type of a matching row such
  that no matching row has a longer mask.
\<close>

theorem tcam_lookup_longest_prefix:
  assumes "nw_env_ok e" "\<forall>op \<in> set ops. ipv4_op op" "fib_run e ops nw_db_start = (rcs, st)"
  shows "case tcam_lookup st ip of
      None \<Rightarrow> \<forall>r \<in> set (fib_entries st). \<not> prefix_match ip r
    | Some res \<Rightarrow> \<exists>r \<in> set (fib_entries st). prefix_match ip r \<and> res = build_nps_fib_result r \<and>
        (\<forall>q \<in> set (fib_entries st). prefix_match ip q \<longrightarrow> fib_mask_length q \<le> fib_mask_length r)"
proof -
  obtain xs where rep: "fib_rep st xs"
    using fib_run_refines [OF assms(1) nw_db_start_rep assms(2)] assms(3) by auto
  have rows: "set (fib_entries st) = (\<lambda>j. (xs ! j)\<lparr>fib_nps_index := of_nat j\<rparr>) ` {..<length xs}"
    unfolding fib_rep_rows [OF rep] by (rule idx_from_image)
  show ?thesis
  proof (cases "tcam_lookup st ip")
    case None
    then have "\<forall>x \<in> set xs. \<not> prefix_match ip x" using fib.lookup_none [OF rep] by simp
    then show ?thesis using None by (simp add: rows prefix_match_def)
  next
    case (Some res)
    then obtain x where x: "x \<in> set xs" "prefix_match ip x" "res = build_nps_fib_result x"
      "\<forall>y \<in> set xs. prefix_match ip y \<longrightarrow> fib_mask_length y \<le> fib_mask_length x"
      using fib.lookup_longest [OF rep] by blast
    then obtain i where i: "i < length xs" "x = xs ! i" by (metis in_set_conv_nth)
    have "\<forall>q \<in> set (fib_entries st). prefix_match ip q \<longrightarrow> fib_mask_length q \<le> fib_mask_length x"
      using x(4) by (simp add: rows prefix_match_def)
    then show ?thesis
      using Some x(2,3) i
      by (auto simp: rows prefix_match_def build_nps_fib_result_def intro!: bexI [of _ i])
  qed
qed

theorem tcam_lookup_longest_prefix_witness:
  "\<exists>st. fib_run nw_ideal [FibAdd (demo_route 10 8 1)] nw_db_start = ([NW_DB_OK], st) \<and>
     (case tcam_lookup st 10 of
        None \<Rightarrow> \<forall>r \<in> set (fib_entries st). \<not> prefix_match 10 r
      | Some res \<Rightarrow> \<exists>r \<in> set (fib_entries st). prefix_match 10 r \<and> res = build_nps_fib_result r)"
proof -
  have e: "nw_env_ok nw_ideal" by (simp add: nw_env_ok_def nw_ideal_def)
  have ok: "\<forall>op \<in> set [FibAdd (demo_route 10 8 1)]. ipv4_op op"
    by (simp add: ipv4_op_def demo_route_def)
  obtain st where st: "fib_run nw_ideal [FibAdd (demo_route 10 8 1)] nw_db_start = ([NW_DB_OK], st)"
    using fib_run_refines [OF e nw_db_start_rep ok] by (auto simp: NW_FIB_TCAM_MAX_SIZE_def)
  show ?thesis
    using tcam_lookup_longest_prefix [OF e ok st, of 10] st by (auto split: option.splits)
qed

text \<open>
  Whatever SQLite and the NPS answer, an addition that does not return \<open>NW_DB_OK\<close> leaves the
  number of TCAM entries in use as it was, and one that does increments it.
\<close>

theorem add_fib_entry_count:
  "fib_entry_count (snd (nw_db_add_fib_entry e rt reorder st)) =
     (if fst (nw_db_add_fib_entry e rt reorder st) = NW_DB_OK
      then fib_entry_count st + 1 else fib_entry_count st)"
  by (simp add: nw_db_add_fib_entry_def Let_def case_prod_beta split: nw_db_rc.split)

end
