(* ===== verification/Alvs_Infra.thy ===== *)
theory Alvs_Infra
  imports Alvs_Defs Index_Pool
begin

text \<open>
  The state of the control plane and the primitives of \<^verbatim>\<open>src/cp/infrastructure.c\<close> that the ALVS
  database uses: the search structures of the network processor (NPS), its statistics counters
  and the external memory that holds the servers' overload flags.

  The NPS driver (EZapi) and SQLite are parameters.  The environment \<open>cp_env\<close> says whether the
  \<open>n\<close>-th call to either succeeds, in which order an unordered \<open>SELECT\<close> delivers its rows, what an
  uninitialised variable holds and which values the EZdp memory-space constants have.  A call that
  succeeds has its documented effect (as the sources put it: modifying a missing entry adds it,
  deleting a missing entry does nothing); a call that fails has none.
\<close>

subsection \<open>Environment and state\<close>

record cp_env =
  sql_ok :: "nat \<Rightarrow> bool"
  nps_ok :: "nat \<Rightarrow> bool"
  sql_perm :: "nat \<Rightarrow> nat \<Rightarrow> nat list"
  stack_garbage :: u64
  EZDP_EXTERNAL_MS :: u32
  EZDP_INTERNAL_MS :: u32
  EZDP_ALL_CLUSTER_DATA :: u32

text \<open>A key of a search structure; its constructor is the structure's identifier.\<close>

datatype nps_key =
    SERVICE_CLASSIFICATION alvs_service_classification_key
  | SERVICE_INFO u8
  | SCHED_INFO u16
  | SERVER_INFO u32
  | SERVER_CLASSIFICATION alvs_server_classification_key
  | APPLICATION_INFO u8

datatype nps_result =
    ServiceClassification alvs_service_classification_result
  | ServiceInfo alvs_service_info_result
  | SchedInfo alvs_sched_info_result
  | ServerInfo alvs_server_info_result
  | ServerClassification alvs_server_classification_result
  | ApplicationInfo alvs_app_info_result

datatype struct_id =
    STRUCT_ID_ALVS_SERVICE_CLASSIFICATION
  | STRUCT_ID_ALVS_SERVICE_INFO
  | STRUCT_ID_ALVS_SCHED_INFO
  | STRUCT_ID_ALVS_SERVER_INFO
  | STRUCT_ID_ALVS_SERVER_CLASSIFICATION
  | STRUCT_ID_APPLICATION_INFO

fun struct_of :: "nps_key \<Rightarrow> struct_id" where
  "struct_of (SERVICE_CLASSIFICATION k) = STRUCT_ID_ALVS_SERVICE_CLASSIFICATION"
| "struct_of (SERVICE_INFO k) = STRUCT_ID_ALVS_SERVICE_INFO"
| "struct_of (SCHED_INFO k) = STRUCT_ID_ALVS_SCHED_INFO"
| "struct_of (SERVER_INFO k) = STRUCT_ID_ALVS_SERVER_INFO"
| "struct_of (SERVER_CLASSIFICATION k) = STRUCT_ID_ALVS_SERVER_CLASSIFICATION"
| "struct_of (APPLICATION_INFO k) = STRUCT_ID_APPLICATION_INFO"

type_synonym service_key = "in_addr_t \<times> u16 \<times> u16"
type_synonym server_row = "service_key \<times> alvs_db_server"

record cp_state =
  services :: "alvs_db_service list"
  servers :: "server_row list"
  application_infos :: "alvs_db_application_info list"
  service_index_pool :: index_pool
  server_index_pool :: index_pool
  nps :: "nps_key \<Rightarrow> nps_result option"
  posted_counters :: "nat \<Rightarrow> u64"
  long_counters :: "nat \<Rightarrow> u64"
  server_flags_mem :: "nat \<Rightarrow> u32"
  clock :: nat

definition sql_call :: "cp_env \<Rightarrow> cp_state \<Rightarrow> bool \<times> cp_state" where
  "sql_call e st = (sql_ok e (clock st), st\<lparr>clock := Suc (clock st)\<rparr>)"

definition nps_call :: "cp_env \<Rightarrow> (cp_state \<Rightarrow> cp_state) \<Rightarrow> cp_state \<Rightarrow> bool \<times> cp_state" where
  "nps_call e effect st =
     (let st' = st\<lparr>clock := Suc (clock st)\<rparr> in
      if nps_ok e (clock st) then (True, effect st') else (False, st'))"

text \<open>The rows an unordered \<open>SELECT\<close> finds, in the order in which SQLite delivers them.\<close>

definition select_order :: "cp_env \<Rightarrow> nat \<Rightarrow> 'a list \<Rightarrow> 'a list" where
  "select_order e n xs = map (\<lambda>i. xs ! i) (sql_perm e n (length xs))"

subsection \<open>Search structures\<close>

definition infra_add_entry :: "cp_env \<Rightarrow> nps_key \<Rightarrow> nps_result \<Rightarrow> cp_state \<Rightarrow> bool \<times> cp_state" where
  "infra_add_entry e key result = nps_call e (\<lambda>st. st\<lparr>nps := (nps st)(key \<mapsto> result)\<rparr>)"

definition infra_modify_entry :: "cp_env \<Rightarrow> nps_key \<Rightarrow> nps_result \<Rightarrow> cp_state \<Rightarrow> bool \<times> cp_state" where
  "infra_modify_entry e key result = nps_call e (\<lambda>st. st\<lparr>nps := (nps st)(key \<mapsto> result)\<rparr>)"

definition infra_delete_entry :: "cp_env \<Rightarrow> nps_key \<Rightarrow> cp_state \<Rightarrow> bool \<times> cp_state" where
  "infra_delete_entry e key = nps_call e (\<lambda>st. st\<lparr>nps := (nps st)(key := None)\<rparr>)"

definition infra_delete_all_entries :: "cp_env \<Rightarrow> struct_id \<Rightarrow> cp_state \<Rightarrow> bool \<times> cp_state" where
  "infra_delete_all_entries e sid =
     nps_call e (\<lambda>st. st\<lparr>nps := (\<lambda>k. if struct_of k = sid then None else nps st k)\<rparr>)"

subsection \<open>Counters and memory\<close>

definition clear_range :: "nat \<Rightarrow> nat \<Rightarrow> (nat \<Rightarrow> u64) \<Rightarrow> nat \<Rightarrow> u64" where
  "clear_range start num f = (\<lambda>i. if start \<le> i \<and> i < start + num then 0 else f i)"

definition infra_clear_posted_counters :: "cp_env \<Rightarrow> nat \<Rightarrow> nat \<Rightarrow> cp_state \<Rightarrow> bool \<times> cp_state" where
  "infra_clear_posted_counters e counter_index num_of_counters =
     nps_call e (\<lambda>st. st\<lparr>posted_counters := clear_range counter_index num_of_counters (posted_counters st)\<rparr>)"

definition infra_clear_long_counters :: "cp_env \<Rightarrow> nat \<Rightarrow> nat \<Rightarrow> cp_state \<Rightarrow> bool \<times> cp_state" where
  "infra_clear_long_counters e counter_index num_of_counters =
     nps_call e (\<lambda>st. st\<lparr>long_counters := clear_range counter_index num_of_counters (long_counters st)\<rparr>)"

text \<open>Reading delivers the values only when it succeeds.\<close>

definition infra_get_posted_counters ::
  "cp_env \<Rightarrow> nat \<Rightarrow> nat \<Rightarrow> cp_state \<Rightarrow> u64 list option \<times> cp_state" where
  "infra_get_posted_counters e counter_index num_of_counters st =
     (case nps_call e (\<lambda>st. st) st of (ok, st) \<Rightarrow>
       (if ok then Some (map (posted_counters st) [counter_index..<counter_index + num_of_counters])
        else None, st))"

definition infra_get_long_counters ::
  "cp_env \<Rightarrow> nat \<Rightarrow> nat \<Rightarrow> cp_state \<Rightarrow> u64 list option \<times> cp_state" where
  "infra_get_long_counters e counter_index num_of_counters st =
     (case nps_call e (\<lambda>st. st) st of (ok, st) \<Rightarrow>
       (if ok then Some (map (long_counters st) [counter_index..<counter_index + num_of_counters])
        else None, st))"

text \<open>\<open>EZapiPrm_WriteMem\<close> of a 32-bit word at a byte offset of the flags area.\<close>

definition write_server_flags_mem :: "cp_env \<Rightarrow> nat \<Rightarrow> u32 \<Rightarrow> cp_state \<Rightarrow> bool \<times> cp_state" where
  "write_server_flags_mem e offset value =
     nps_call e (\<lambda>st. st\<lparr>server_flags_mem := (server_flags_mem st)(offset := value)\<rparr>)"

subsection \<open>What the code relies on\<close>

definition all_calls_ok :: "cp_env \<Rightarrow> bool" where
  "all_calls_ok e \<longleftrightarrow> (\<forall>n. sql_ok e n) \<and> (\<forall>n. nps_ok e n)"

definition select_ok :: "cp_env \<Rightarrow> bool" where
  "select_ok e \<longleftrightarrow> (\<forall>n k. mset (sql_perm e n k) = mset [0..<k])"

lemma sql_call_ok [db_simps]:
  "all_calls_ok e \<Longrightarrow> sql_call e st = (True, st\<lparr>clock := Suc (clock st)\<rparr>)"
  by (simp add: sql_call_def all_calls_ok_def)

lemma nps_call_ok [db_simps]:
  "all_calls_ok e \<Longrightarrow> nps_call e f st = (True, f (st\<lparr>clock := Suc (clock st)\<rparr>))"
  by (simp add: nps_call_def all_calls_ok_def)

lemma mset_select_order [simp]: "select_ok e \<Longrightarrow> mset (select_order e n xs) = mset xs"
proof -
  assume "select_ok e"
  then have "mset (select_order e n xs) = mset (map (\<lambda>i. xs ! i) [0..<length xs])"
    by (simp add: select_order_def select_ok_def)
  then show ?thesis by (simp add: map_nth)
qed

lemma set_select_order [simp]: "select_ok e \<Longrightarrow> set (select_order e n xs) = set xs"
  by (metis mset_select_order mset_eq_setD)

lemma length_select_order [simp]: "select_ok e \<Longrightarrow> length (select_order e n xs) = length xs"
  by (metis mset_select_order mset_eq_length)

text \<open>
  The contract of the NPS search structures towards the database: what a lookup finds after each
  call that succeeded, and that a call which failed changes nothing.
\<close>

locale search_structures =
  fixes lookup :: "'st \<Rightarrow> nps_key \<Rightarrow> nps_result option"
    and add :: "nps_key \<Rightarrow> nps_result \<Rightarrow> 'st \<Rightarrow> bool \<times> 'st"
    and modify :: "nps_key \<Rightarrow> nps_result \<Rightarrow> 'st \<Rightarrow> bool \<times> 'st"
    and delete :: "nps_key \<Rightarrow> 'st \<Rightarrow> bool \<times> 'st"
  assumes add_done: "add k r st = (True, st') \<Longrightarrow> lookup st' = (lookup st)(k \<mapsto> r)"
    and modify_done: "modify k r st = (True, st') \<Longrightarrow> lookup st' = (lookup st)(k \<mapsto> r)"
    and delete_done: "delete k st = (True, st') \<Longrightarrow> lookup st' = (lookup st)(k := None)"
    and add_failed: "add k r st = (False, st') \<Longrightarrow> lookup st' = lookup st"
    and modify_failed: "modify k r st = (False, st') \<Longrightarrow> lookup st' = lookup st"
    and delete_failed: "delete k st = (False, st') \<Longrightarrow> lookup st' = lookup st"
begin

lemma add_other: "k' \<noteq> k \<Longrightarrow> lookup (snd (add k r st)) k' = lookup st k'"
  using add_done [of k r st] add_failed [of k r st]
  by (cases "add k r st"; cases "fst (add k r st)") simp_all

lemma modify_other: "k' \<noteq> k \<Longrightarrow> lookup (snd (modify k r st)) k' = lookup st k'"
  using modify_done [of k r st] modify_failed [of k r st]
  by (cases "modify k r st"; cases "fst (modify k r st)") simp_all

lemma delete_other: "k' \<noteq> k \<Longrightarrow> lookup (snd (delete k st)) k' = lookup st k'"
  using delete_done [of k st] delete_failed [of k st]
  by (cases "delete k st"; cases "fst (delete k st)") simp_all

lemma add_then_delete:
  "add k r st = (True, st1) \<Longrightarrow> delete k st1 = (True, st2) \<Longrightarrow> lookup st k = None \<Longrightarrow>
   lookup st2 = lookup st"
  using add_done [of k r st st1] delete_done [of k st1 st2] by auto

end

interpretation nps: search_structures nps "infra_add_entry e" "infra_modify_entry e" "infra_delete_entry e" for e
  by unfold_locales
    (auto simp: infra_add_entry_def infra_modify_entry_def infra_delete_entry_def nps_call_def Let_def
      split: if_splits)

end
