(* ===== verification/Internal_DB.thy ===== *)
theory Internal_DB
  imports Alvs_Infra
begin

text \<open>
  The internal database of \<^verbatim>\<open>src/cp/alvs_db.c\<close>: the functions \<open>internal_db_*\<close>, each of which runs one
  SQL statement (or two, for the deletion of services) on the tables \<open>services\<close>, \<open>servers\<close> and
  \<open>application_info\<close>, and the readers and cleaners of the NPS counters that go with them.

  A table is the list of its rows.  The integers survive the trip through SQL text unchanged:
  what \<^verbatim>\<open>%d\<close> prints of a 32-bit value is what \<open>sqlite3_column_int\<close> reads back.  The primary keys
  are those of the \<open>CREATE TABLE\<close> statements in \<open>alvs_db_init\<close>; inserting a row whose key exists is
  an SQL error.  SQLite does not enforce the foreign key of \<open>servers\<close> unless told to.
\<close>

subsection \<open>Services\<close>

definition svc_key :: "alvs_db_service \<Rightarrow> service_key" where
  "svc_key s = (svc_ip s, svc_port s, svc_protocol s)"

definition internal_db_get_service ::
  "cp_env \<Rightarrow> alvs_db_service \<Rightarrow> bool \<Rightarrow> cp_state \<Rightarrow> alvs_db_rc \<times> alvs_db_service \<times> cp_state" where
  "internal_db_get_service e service full_service st =
     (let (ok, st) = sql_call e st in
      if \<not> ok then (ALVS_DB_INTERNAL_ERROR, service, st)
      else case find (\<lambda>s. svc_key s = svc_key service) (services st) of
        None \<Rightarrow> (ALVS_DB_FAILURE, service, st)
      | Some s \<Rightarrow> (ALVS_DB_OK,
          if full_service then
            service\<lparr>svc_nps_index := svc_nps_index s, svc_flags := svc_flags s,
              svc_sched_alg := svc_sched_alg s, svc_stats_base := svc_stats_base s,
              svc_sched_entries_count := svc_sched_entries_count s, svc_stats := svc_stats s\<rparr>
          else service, st))"

definition internal_db_add_service ::
  "cp_env \<Rightarrow> alvs_db_service \<Rightarrow> cp_state \<Rightarrow> alvs_db_rc \<times> cp_state" where
  "internal_db_add_service e service st =
     (let (ok, st) = sql_call e st in
      if ok \<and> svc_key service \<notin> svc_key ` set (services st)
      then (ALVS_DB_OK, st\<lparr>services := services st @ [service]\<rparr>)
      else (ALVS_DB_INTERNAL_ERROR, st))"

definition internal_db_modify_service ::
  "cp_env \<Rightarrow> alvs_db_service \<Rightarrow> cp_state \<Rightarrow> alvs_db_rc \<times> cp_state" where
  "internal_db_modify_service e service st =
     (let (ok, st) = sql_call e st in
      if ok then (ALVS_DB_OK, st\<lparr>services := map (\<lambda>s.
          if svc_key s = svc_key service
          then s\<lparr>svc_flags := svc_flags service, svc_sched_alg := svc_sched_alg service,
                 svc_sched_entries_count := svc_sched_entries_count service\<rparr>
          else s) (services st)\<rparr>)
      else (ALVS_DB_INTERNAL_ERROR, st))"

definition not_available :: "u32 \<Rightarrow> u32" where
  "not_available flags = flags AND NOT IP_VS_DEST_F_AVAILABLE"

definition deactivate_row :: "server_row \<Rightarrow> server_row" where
  "deactivate_row r = (fst r, (snd r)\<lparr>srv_active := 0,
     srv_server_flags := not_available (srv_server_flags (snd r))\<rparr>)"

definition internal_db_delete_service ::
  "cp_env \<Rightarrow> alvs_db_service \<Rightarrow> cp_state \<Rightarrow> alvs_db_rc \<times> cp_state" where
  "internal_db_delete_service e service st =
     (let (ok, st) = sql_call e st in
      if \<not> ok then (ALVS_DB_INTERNAL_ERROR, st)
      else
        let st = st\<lparr>services := filter (\<lambda>s. svc_key s \<noteq> svc_key service) (services st)\<rparr>;
            (ok, st) = sql_call e st
        in if \<not> ok then (ALVS_DB_INTERNAL_ERROR, st)
           else (ALVS_DB_OK, st\<lparr>servers := map (\<lambda>r.
               if fst r = svc_key service then deactivate_row r else r) (servers st)\<rparr>))"

definition internal_db_clear_all :: "cp_env \<Rightarrow> cp_state \<Rightarrow> alvs_db_rc \<times> cp_state" where
  "internal_db_clear_all e st =
     (let (ok, st) = sql_call e st in
      if \<not> ok then (ALVS_DB_INTERNAL_ERROR, st)
      else
        let st = st\<lparr>services := []\<rparr>; (ok, st) = sql_call e st
        in if \<not> ok then (ALVS_DB_INTERNAL_ERROR, st)
           else (ALVS_DB_OK, st\<lparr>servers := map deactivate_row (servers st)\<rparr>))"

definition internal_db_get_service_count :: "cp_env \<Rightarrow> cp_state \<Rightarrow> alvs_db_rc \<times> nat \<times> cp_state" where
  "internal_db_get_service_count e st =
     (let (ok, st) = sql_call e st in
      if \<not> ok then (ALVS_DB_INTERNAL_ERROR, 0, st) else (ALVS_DB_OK, length (services st), st))"

definition internal_db_get_service_list ::
  "cp_env \<Rightarrow> cp_state \<Rightarrow> alvs_db_rc \<times> alvs_db_service list \<times> cp_state" where
  "internal_db_get_service_list e st =
     (let n = clock st; (ok, st) = sql_call e st in
      if \<not> ok then (ALVS_DB_INTERNAL_ERROR, [], st)
      else (ALVS_DB_OK, select_order e n (services st), st))"

subsection \<open>Servers\<close>

definition same_server :: "service_key \<Rightarrow> alvs_db_server \<Rightarrow> server_row \<Rightarrow> bool" where
  "same_server k server r \<longleftrightarrow>
     fst r = k \<and> srv_ip (snd r) = srv_ip server \<and> srv_port (snd r) = srv_port server"

text \<open>The \<open>WHERE\<close> clause of the server queries, with the flags that extend it.\<close>

definition server_selected :: "service_key \<Rightarrow> bool \<Rightarrow> bool \<Rightarrow> server_row \<Rightarrow> bool" where
  "server_selected k EXCLUDE_WEIGHT_ZERO EXCLUDE_INACTIVE r \<longleftrightarrow>
     fst r = k \<and> (EXCLUDE_WEIGHT_ZERO \<longrightarrow> srv_weight (snd r) > 0) \<and>
     (EXCLUDE_INACTIVE \<longrightarrow> srv_active (snd r) = 1)"

text \<open>On an error the count keeps the value \<open>old\<close> it had.\<close>

definition internal_db_get_server_count ::
  "cp_env \<Rightarrow> alvs_db_service \<Rightarrow> bool \<Rightarrow> bool \<Rightarrow> nat \<Rightarrow> cp_state \<Rightarrow> alvs_db_rc \<times> nat \<times> cp_state" where
  "internal_db_get_server_count e service exw exi old st =
     (let (ok, st) = sql_call e st in
      if \<not> ok then (ALVS_DB_INTERNAL_ERROR, old, st)
      else (ALVS_DB_OK, length (filter (server_selected (svc_key service) exw exi) (servers st)), st))"

definition internal_db_get_server_list ::
  "cp_env \<Rightarrow> alvs_db_service \<Rightarrow> bool \<Rightarrow> bool \<Rightarrow> cp_state \<Rightarrow> alvs_db_rc \<times> alvs_db_server list \<times> cp_state" where
  "internal_db_get_server_list e service exw exi st =
     (let n = clock st; (ok, st) = sql_call e st in
      if \<not> ok then (ALVS_DB_INTERNAL_ERROR, [], st)
      else (ALVS_DB_OK, map snd (select_order e n
             (filter (server_selected (svc_key service) exw exi) (servers st))), st))"

definition internal_db_get_server ::
  "cp_env \<Rightarrow> alvs_db_service \<Rightarrow> alvs_db_server \<Rightarrow> cp_state \<Rightarrow> alvs_db_rc \<times> alvs_db_server \<times> cp_state" where
  "internal_db_get_server e service server st =
     (let (ok, st) = sql_call e st in
      if \<not> ok then (ALVS_DB_INTERNAL_ERROR, server, st)
      else case find (same_server (svc_key service) server) (servers st) of
        None \<Rightarrow> (ALVS_DB_FAILURE, server, st)
      | Some r \<Rightarrow> (ALVS_DB_OK,
          server\<lparr>srv_nps_index := srv_nps_index (snd r), srv_weight := srv_weight (snd r),
            srv_conn_flags := srv_conn_flags (snd r), srv_server_flags := srv_server_flags (snd r),
            srv_u_thresh := srv_u_thresh (snd r), srv_l_thresh := srv_l_thresh (snd r),
            srv_active := srv_active (snd r), srv_server_stats_base := srv_server_stats_base (snd r),
            srv_service_stats_base := srv_service_stats_base (snd r),
            srv_on_demand_stats_base := srv_on_demand_stats_base (snd r),
            srv_flags_dp_base := srv_flags_dp_base (snd r)\<rparr>, st))"

definition internal_db_add_server ::
  "cp_env \<Rightarrow> alvs_db_service \<Rightarrow> alvs_db_server \<Rightarrow> cp_state \<Rightarrow> alvs_db_rc \<times> cp_state" where
  "internal_db_add_server e service server st =
     (let (ok, st) = sql_call e st in
      if ok \<and> \<not> list_ex (same_server (svc_key service) server) (servers st)
      then (ALVS_DB_OK, st\<lparr>servers := servers st @ [(svc_key service, server)]\<rparr>)
      else (ALVS_DB_INTERNAL_ERROR, st))"

definition update_server_rows ::
  "cp_env \<Rightarrow> alvs_db_service \<Rightarrow> alvs_db_server \<Rightarrow> (server_row \<Rightarrow> server_row) \<Rightarrow> cp_state \<Rightarrow> alvs_db_rc \<times> cp_state" where
  "update_server_rows e service server f st =
     (let (ok, st) = sql_call e st in
      if ok then (ALVS_DB_OK, st\<lparr>servers := map (\<lambda>r.
          if same_server (svc_key service) server r then f r else r) (servers st)\<rparr>)
      else (ALVS_DB_INTERNAL_ERROR, st))"

definition internal_db_modify_server ::
  "cp_env \<Rightarrow> alvs_db_service \<Rightarrow> alvs_db_server \<Rightarrow> cp_state \<Rightarrow> alvs_db_rc \<times> cp_state" where
  "internal_db_modify_server e service server =
     update_server_rows e service server (\<lambda>r. (fst r, (snd r)\<lparr>srv_weight := srv_weight server,
       srv_conn_flags := srv_conn_flags server, srv_server_flags := srv_server_flags server,
       srv_u_thresh := srv_u_thresh server, srv_l_thresh := srv_l_thresh server\<rparr>))"

definition internal_db_deactivate_server ::
  "cp_env \<Rightarrow> alvs_db_service \<Rightarrow> alvs_db_server \<Rightarrow> cp_state \<Rightarrow> alvs_db_rc \<times> cp_state" where
  "internal_db_deactivate_server e service server =
     update_server_rows e service server deactivate_row"

definition internal_db_activate_server ::
  "cp_env \<Rightarrow> alvs_db_service \<Rightarrow> alvs_db_server \<Rightarrow> cp_state \<Rightarrow> alvs_db_rc \<times> cp_state" where
  "internal_db_activate_server e service server =
     update_server_rows e service server (\<lambda>r. (fst r, (snd r)\<lparr>srv_weight := srv_weight server,
       srv_active := 1, srv_server_flags := srv_server_flags (snd r) OR IP_VS_DEST_F_AVAILABLE,
       srv_u_thresh := srv_u_thresh server, srv_l_thresh := srv_l_thresh server,
       srv_conn_flags := srv_conn_flags server\<rparr>))"

definition internal_db_delete_server ::
  "cp_env \<Rightarrow> alvs_db_service \<Rightarrow> alvs_db_server \<Rightarrow> cp_state \<Rightarrow> alvs_db_rc \<times> cp_state" where
  "internal_db_delete_server e service server st =
     (let (ok, st) = sql_call e st in
      if ok then (ALVS_DB_OK, st\<lparr>servers :=
          filter (\<lambda>r. \<not> same_server (svc_key service) server r) (servers st)\<rparr>)
      else (ALVS_DB_INTERNAL_ERROR, st))"

definition alvs_clear_overloaded_flag_of_server ::
  "cp_env \<Rightarrow> alvs_db_server \<Rightarrow> cp_state \<Rightarrow> alvs_db_rc \<times> cp_state" where
  "alvs_clear_overloaded_flag_of_server e cp_server st =
     (let (ok, st) = write_server_flags_mem e
            (EMEM_SERVER_FLAGS_OFFSET_CP + unat (srv_nps_index cp_server) * 4) 0 st
      in if \<not> ok then (ALVS_DB_INTERNAL_ERROR, st) else (ALVS_DB_OK, st))"

subsection \<open>Application information\<close>

definition internal_db_add_application_info ::
  "cp_env \<Rightarrow> alvs_db_application_info \<Rightarrow> cp_state \<Rightarrow> alvs_db_rc \<times> cp_state" where
  "internal_db_add_application_info e info st =
     (let (ok, st) = sql_call e st in
      if ok \<and> app_application_index info \<notin> app_application_index ` set (application_infos st)
      then (ALVS_DB_OK, st\<lparr>application_infos := application_infos st @ [info]\<rparr>)
      else (ALVS_DB_INTERNAL_ERROR, st))"

definition internal_db_get_application_info ::
  "cp_env \<Rightarrow> alvs_db_application_info \<Rightarrow> cp_state \<Rightarrow> alvs_db_rc \<times> alvs_db_application_info \<times> cp_state" where
  "internal_db_get_application_info e info st =
     (let (ok, st) = sql_call e st in
      if \<not> ok then (ALVS_DB_INTERNAL_ERROR, info, st)
      else case find (\<lambda>a. app_application_index a = app_application_index info) (application_infos st) of
        None \<Rightarrow> (ALVS_DB_FAILURE, info, st)
      | Some a \<Rightarrow> (ALVS_DB_OK, info\<lparr>app_is_master := app_is_master a, app_is_backup := app_is_backup a,
          app_m_sync_id := app_m_sync_id a, app_b_sync_id := app_b_sync_id a,
          app_source_ip := app_source_ip a\<rparr>, st))"

definition internal_db_modify_application_info ::
  "cp_env \<Rightarrow> alvs_db_application_info \<Rightarrow> cp_state \<Rightarrow> alvs_db_rc \<times> cp_state" where
  "internal_db_modify_application_info e info st =
     (let (ok, st) = sql_call e st in
      if ok then (ALVS_DB_OK, st\<lparr>application_infos := map (\<lambda>a.
          if app_application_index a = app_application_index info then info else a) (application_infos st)\<rparr>)
      else (ALVS_DB_INTERNAL_ERROR, st))"

subsection \<open>Counters of services and servers\<close>

definition alvs_db_get_service_counters ::
  "cp_env \<Rightarrow> u32 \<Rightarrow> alvs_db_service_stats \<Rightarrow> cp_state \<Rightarrow> alvs_db_rc \<times> alvs_db_service_stats \<times> cp_state" where
  "alvs_db_get_service_counters e service_index stats st =
     (case infra_get_posted_counters e
        (EMEM_SERVICE_STATS_POSTED_OFFSET + unat service_index * ALVS_NUM_OF_SERVICE_STATS)
        ALVS_NUM_OF_SERVICE_STATS st of
        (None, st) \<Rightarrow> (ALVS_DB_NPS_ERROR, stats, st)
      | (Some c, st) \<Rightarrow> (ALVS_DB_OK, \<lparr>sst_connection_scheduled = c ! 4, sst_in_packet = c ! 0,
          sst_in_byte = c ! 1, sst_out_packet = c ! 2, sst_out_byte = c ! 3\<rparr>, st))"

definition internal_db_save_service_stats ::
  "cp_env \<Rightarrow> alvs_db_service \<Rightarrow> cp_state \<Rightarrow> alvs_db_rc \<times> cp_state" where
  "internal_db_save_service_stats e service st =
     (let (rc, stats, st) = alvs_db_get_service_counters e (svc_nps_index service) (svc_stats service) st in
      if rc \<noteq> ALVS_DB_OK then (rc, st)
      else let (ok, st) = sql_call e st in
        if ok then (ALVS_DB_OK, st\<lparr>services := map (\<lambda>s.
            if svc_key s = svc_key service then s\<lparr>svc_stats := stats\<rparr> else s) (services st)\<rparr>)
        else (ALVS_DB_INTERNAL_ERROR, st))"

definition alvs_db_get_server_counters ::
  "cp_env \<Rightarrow> u32 \<Rightarrow> alvs_db_server_stats \<Rightarrow> bool \<Rightarrow> cp_state \<Rightarrow> alvs_db_rc \<times> alvs_db_server_stats \<times> cp_state" where
  "alvs_db_get_server_counters e server_index stats read_connection_total st =
     (case infra_get_posted_counters e
        (EMEM_SERVER_STATS_POSTED_OFFSET + unat server_index * ALVS_NUM_OF_SERVER_STATS)
        ALVS_NUM_OF_SERVER_STATS st of
        (None, st) \<Rightarrow> (ALVS_DB_NPS_ERROR, stats, st)
      | (Some c, st) \<Rightarrow>
          let stats = stats\<lparr>vst_in_packet := c ! 0, vst_in_byte := c ! 1, vst_out_packet := c ! 2,
                vst_out_byte := c ! 3, vst_connection_scheduled := c ! 4,
                vst_active_connection := c ! 7, vst_inactive_connection := c ! 6\<rparr>
          in if read_connection_total then
               (case infra_get_long_counters e
                  (EMEM_SERVER_STATS_ON_DEMAND_OFFSET + unat server_index * ALVS_NUM_OF_SERVERS_ON_DEMAND_STATS)
                  1 st of
                  (None, st) \<Rightarrow> (ALVS_DB_NPS_ERROR, stats, st)
                | (Some d, st) \<Rightarrow> (ALVS_DB_OK, stats\<lparr>vst_connection_total := d ! 0\<rparr>, st))
             else (ALVS_DB_OK, stats, st))"

definition internal_db_save_server_stats ::
  "cp_env \<Rightarrow> alvs_db_server \<Rightarrow> cp_state \<Rightarrow> alvs_db_rc \<times> cp_state" where
  "internal_db_save_server_stats e server st =
     (let (rc, stats, st) = alvs_db_get_server_counters e (srv_nps_index server) (srv_stats server) False st in
      if rc \<noteq> ALVS_DB_OK then (rc, st)
      else let (ok, st) = sql_call e st in
        if ok then (ALVS_DB_OK, st\<lparr>servers := map (\<lambda>r.
            if srv_ip (snd r) = srv_ip server \<and> srv_port (snd r) = srv_port server \<and>
               srv_nps_index (snd r) = srv_nps_index server
            then (fst r, (snd r)\<lparr>srv_stats := (srv_stats (snd r))\<lparr>
                vst_connection_scheduled := vst_connection_scheduled stats,
                vst_in_packet := vst_in_packet stats, vst_in_byte := vst_in_byte stats,
                vst_out_packet := vst_out_packet stats, vst_out_byte := vst_out_byte stats\<rparr>\<rparr>)
            else r) (servers st)\<rparr>)
        else (ALVS_DB_INTERNAL_ERROR, st))"

text \<open>\<open>conn_total\<close> keeps its old value when the counter cannot be read.\<close>

definition alvs_db_get_num_conn_total ::
  "cp_env \<Rightarrow> u32 \<Rightarrow> u64 \<Rightarrow> cp_state \<Rightarrow> alvs_db_rc \<times> u64 \<times> cp_state" where
  "alvs_db_get_num_conn_total e server_index conn_total st =
     (case infra_get_long_counters e
        (EMEM_SERVER_STATS_ON_DEMAND_OFFSET + unat server_index * ALVS_NUM_OF_SERVERS_ON_DEMAND_STATS + 0)
        1 st of
        (None, st) \<Rightarrow> (ALVS_DB_NPS_ERROR, conn_total, st)
      | (Some c, st) \<Rightarrow> (ALVS_DB_OK, c ! 0, st))"

definition alvs_db_clean_server_stats :: "cp_env \<Rightarrow> u32 \<Rightarrow> cp_state \<Rightarrow> alvs_db_rc \<times> cp_state" where
  "alvs_db_clean_server_stats e server_index st =
     (let (ok, st) = infra_clear_long_counters e
            (EMEM_SERVER_STATS_ON_DEMAND_OFFSET + unat server_index * ALVS_NUM_OF_SERVERS_ON_DEMAND_STATS)
            ALVS_NUM_OF_SERVERS_ON_DEMAND_STATS st
      in if \<not> ok then (ALVS_DB_NPS_ERROR, st)
         else let (ok, st) = infra_clear_posted_counters e
                (EMEM_SERVER_STATS_POSTED_OFFSET + unat server_index * ALVS_NUM_OF_SERVER_STATS)
                ALVS_NUM_OF_SERVER_STATS st
           in if \<not> ok then (ALVS_DB_NPS_ERROR, st) else (ALVS_DB_OK, st))"

definition alvs_db_clean_error_stats :: "cp_env \<Rightarrow> cp_state \<Rightarrow> alvs_db_rc \<times> cp_state" where
  "alvs_db_clean_error_stats e st =
     (let (ok, st) = infra_clear_posted_counters e EMEM_ALVS_ERROR_STATS_POSTED_OFFSET
            ALVS_NUM_OF_ALVS_ERROR_STATS st
      in if \<not> ok then (ALVS_DB_NPS_ERROR, st) else (ALVS_DB_OK, st))"

definition alvs_db_clean_interface_stats :: "cp_env \<Rightarrow> cp_state \<Rightarrow> alvs_db_rc \<times> cp_state" where
  "alvs_db_clean_interface_stats e st =
     (let (ok, st) = infra_clear_posted_counters e EMEM_IF_STATS_POSTED_OFFSET
            (NW_NUM_OF_IF_STATS * (USER_NW_IF_NUM + 1)) st
      in if \<not> ok then (ALVS_DB_NPS_ERROR, st) else (ALVS_DB_OK, st))"

definition alvs_db_clean_service_stats :: "cp_env \<Rightarrow> u32 \<Rightarrow> cp_state \<Rightarrow> alvs_db_rc \<times> cp_state" where
  "alvs_db_clean_service_stats e service_index st =
     (let (ok, st) = infra_clear_posted_counters e
            (EMEM_SERVICE_STATS_POSTED_OFFSET + unat service_index * ALVS_NUM_OF_SERVICE_STATS)
            ALVS_NUM_OF_SERVICE_STATS st
      in if \<not> ok then (ALVS_DB_NPS_ERROR, st) else (ALVS_DB_OK, st))"

end
