(* ===== verification/Alvs_DB.thy ===== *)
theory Alvs_DB
  imports Internal_DB Sched_Buckets
begin

text \<open>
  The application database of \<^verbatim>\<open>src/cp/alvs_db.c\<close>: the operations the IPVS requests are carried out
  with (adding, modifying and deleting services and servers, clearing), each of which keeps the
  internal database, the index pools and the search structures of the NPS in step, and the
  builders of the NPS keys and results.

  A local variable the code does not initialise starts with all fields zero; no field is read
  before it is written, except the two the environment provides a value for (\<open>stack_garbage\<close>).
\<close>

subsection \<open>Requests\<close>

record ip_vs_service_user =
  ivs_protocol :: u16
  ivs_addr :: u32
  ivs_port :: u16
  ivs_sched_name :: string
  ivs_flags :: u32

record ip_vs_dest_user =
  ivd_addr :: u32
  ivd_port :: u16
  ivd_conn_flags :: u32
  ivd_weight :: int
  ivd_u_threshold :: u32
  ivd_l_threshold :: u32

definition get_sched_alg :: "string \<Rightarrow> alvs_scheduler_type" where
  "get_sched_alg sched_name =
     (if sched_name = ''rr'' then ALVS_ROUND_ROBIN_SCHEDULER
      else if sched_name = ''wrr'' then ALVS_WEIGHTED_ROUND_ROBIN_SCHEDULER
      else if sched_name = ''lc'' then ALVS_LEAST_CONNECTION_SCHEDULER
      else if sched_name = ''wlc'' then ALVS_WEIGHTED_LEAST_CONNECTION_SCHEDULER
      else if sched_name = ''dh'' then ALVS_DESTINATION_HASH_SCHEDULER
      else if sched_name = ''sh'' then ALVS_SOURCE_HASH_SCHEDULER
      else if sched_name = ''lblc'' then ALVS_LB_LEAST_CONNECTION_SCHEDULER
      else if sched_name = ''lblcr'' then ALVS_LB_LEAST_CONNECTION_SCHEDULER_WITH_REPLICATION
      else if sched_name = ''sed'' then ALVS_SHORTEST_EXPECTED_DELAY_SCHEDULER
      else if sched_name = ''nq'' then ALVS_NEVER_QUEUE_SCHEDULER
      else ALVS_SCHEDULER_LAST)"

definition supported_protocol :: "u16 \<Rightarrow> bool" where
  "supported_protocol protocol = (if protocol = IPPROTO_TCP then True else False)"

definition supported_sched_alg :: "alvs_scheduler_type \<Rightarrow> bool" where
  "supported_sched_alg sched_alg =
     (if sched_alg = ALVS_SOURCE_HASH_SCHEDULER then True
      else if sched_alg = ALVS_ROUND_ROBIN_SCHEDULER then True
      else if sched_alg = ALVS_WEIGHTED_ROUND_ROBIN_SCHEDULER then True
      else False)"

definition supported_routing_alg :: "u32 \<Rightarrow> bool" where
  "supported_routing_alg conn_flags =
     (if conn_flags AND IP_VS_CONN_F_FWD_MASK = IP_VS_CONN_F_DROUTE then True else False)"

subsection \<open>Keys and results of the NPS structures\<close>

definition build_nps_service_info_key :: "alvs_db_service \<Rightarrow> nps_key" where
  "build_nps_service_info_key cp_service = SERVICE_INFO (ucast (svc_nps_index cp_service))"

definition build_nps_service_info_result :: "cp_env \<Rightarrow> alvs_db_service \<Rightarrow> alvs_service_info_result" where
  "build_nps_service_info_result e cp_service =
     \<lparr>sir_sched_alg = svc_sched_alg cp_service,
      sir_sched_entries_count = bswap_16 (svc_sched_entries_count cp_service),
      sir_service_sched_ctr = bswap_32 (BUILD_SUM_ADDR (EZDP_INTERNAL_MS e) (EZDP_ALL_CLUSTER_DATA e)
         (svc_nps_index cp_service)),
      sir_service_stats_base = bswap_32 (svc_stats_base cp_service),
      sir_service_flags = bswap_32 (svc_flags cp_service)\<rparr>"

definition build_nps_service_classification_key :: "alvs_db_service \<Rightarrow> nps_key" where
  "build_nps_service_classification_key cp_service =
     SERVICE_CLASSIFICATION \<lparr>sck_address = bswap_32 (svc_ip cp_service),
       sck_port = bswap_16 (svc_port cp_service), sck_protocol = bswap_16 (svc_protocol cp_service)\<rparr>"

definition build_nps_service_classification_result ::
  "alvs_db_service \<Rightarrow> alvs_service_classification_result" where
  "build_nps_service_classification_result cp_service =
     \<lparr>scr_service_index = ucast (svc_nps_index cp_service)\<rparr>"

definition build_nps_server_info_key :: "alvs_db_server \<Rightarrow> nps_key" where
  "build_nps_server_info_key cp_server = SERVER_INFO (bswap_32 (srv_nps_index cp_server))"

definition build_nps_server_info_result :: "alvs_db_server \<Rightarrow> alvs_server_info_result" where
  "build_nps_server_info_result cp_server =
     \<lparr>svr_server_flags = ucast (srv_server_flags cp_server),
      svr_server_port = bswap_16 (srv_port cp_server),
      svr_server_stats_base = bswap_32 (srv_server_stats_base cp_server),
      svr_server_ip = bswap_32 (srv_ip cp_server),
      svr_server_on_demand_stats_base = bswap_32 (srv_on_demand_stats_base cp_server),
      svr_service_stats_base = bswap_32 (srv_service_stats_base cp_server),
      svr_u_thresh = bswap_16 (ucast (srv_u_thresh cp_server)),
      svr_l_thresh = bswap_16 (ucast (srv_l_thresh cp_server)),
      svr_conn_flags = bswap_32 (srv_conn_flags cp_server),
      svr_server_flags_dp_base = bswap_32 (srv_flags_dp_base cp_server)\<rparr>"

definition build_nps_server_classification_key :: "alvs_db_service \<Rightarrow> alvs_db_server \<Rightarrow> nps_key" where
  "build_nps_server_classification_key cp_service cp_server =
     SERVER_CLASSIFICATION \<lparr>svk_server_ip = bswap_32 (srv_ip cp_server),
       svk_virtual_ip = bswap_32 (svc_ip cp_service), svk_server_port = bswap_16 (srv_port cp_server),
       svk_virtual_port = bswap_16 (svc_port cp_service), svk_protocol = bswap_16 (svc_protocol cp_service)\<rparr>"

definition build_nps_server_classification_result ::
  "alvs_db_server \<Rightarrow> alvs_server_classification_result" where
  "build_nps_server_classification_result cp_server = \<lparr>svc_server_index = bswap_32 (srv_nps_index cp_server)\<rparr>"

subsection \<open>Recalculation of the scheduling information\<close>

definition sched_index :: "alvs_db_service \<Rightarrow> nat \<Rightarrow> u16" where
  "sched_index service ind =
     ucast (svc_nps_index service * of_nat ALVS_SIZE_OF_SCHED_BUCKET + of_nat ind)"

fun sched_populate :: "cp_env \<Rightarrow> alvs_db_server list \<Rightarrow> bucket \<Rightarrow> nat \<Rightarrow> alvs_db_service \<Rightarrow> cp_state \<Rightarrow>
    alvs_db_rc \<times> alvs_db_service \<times> cp_state" where
  "sched_populate e server_list [] ind service st = (ALVS_DB_OK, service, st)"
| "sched_populate e server_list (Some p # bucket) ind service st =
     (let (ok, st) = infra_modify_entry e (SCHED_INFO (bswap_16 (sched_index service ind)))
            (SchedInfo \<lparr>schr_server_index = bswap_32 (srv_nps_index (server_list ! p))\<rparr>) st
      in if \<not> ok then (ALVS_DB_NPS_ERROR, service, st)
         else sched_populate e server_list bucket (Suc ind)
           (service\<lparr>svc_sched_entries_count := svc_sched_entries_count service + 1\<rparr>) st)"
| "sched_populate e server_list (None # bucket) ind service st =
     (let (ok, st) = infra_delete_entry e (SCHED_INFO (bswap_16 (sched_index service ind))) st
      in if \<not> ok then (ALVS_DB_NPS_ERROR, service, st)
         else sched_populate e server_list bucket (Suc ind) service st)"

definition alvs_db_recalculate_scheduling_info ::
  "cp_env \<Rightarrow> alvs_db_service \<Rightarrow> cp_state \<Rightarrow> alvs_db_rc \<times> alvs_db_service \<times> cp_state" where
  "alvs_db_recalculate_scheduling_info e service st =
     (let (rc, server_list, st) = internal_db_get_server_list e service True True st in
      if rc \<noteq> ALVS_DB_OK then (ALVS_DB_INTERNAL_ERROR, service, st)
      else let (rc, server_count, st) = internal_db_get_server_count e service True True 0 st in
        if rc \<noteq> ALVS_DB_OK then (ALVS_DB_INTERNAL_ERROR, service, st)
        else case fill_servers_buckets (svc_sched_alg service) server_list server_count of
          None \<Rightarrow> (ALVS_DB_NOT_SUPPORTED, service, st)
        | Some bucket \<Rightarrow>
            sched_populate e server_list bucket 0 (service\<lparr>svc_sched_entries_count := 0\<rparr>) st)"

subsection \<open>Operations on services\<close>

definition zero_service :: alvs_db_service where
  "zero_service = \<lparr>svc_ip = 0, svc_port = 0, svc_protocol = 0, svc_nps_index = 0, svc_flags = 0,
     svc_sched_alg = ALVS_ROUND_ROBIN_SCHEDULER, svc_stats_base = 0, svc_sched_entries_count = 0,
     svc_stats = \<lparr>sst_connection_scheduled = 0, sst_in_packet = 0, sst_in_byte = 0,
       sst_out_packet = 0, sst_out_byte = 0\<rparr>\<rparr>"

definition requested_service :: "ip_vs_service_user \<Rightarrow> alvs_db_service" where
  "requested_service ip_vs_service = zero_service\<lparr>svc_ip := bswap_32 (ivs_addr ip_vs_service),
     svc_port := bswap_16 (ivs_port ip_vs_service), svc_protocol := ivs_protocol ip_vs_service\<rparr>"

definition alvs_db_add_service ::
  "cp_env \<Rightarrow> ip_vs_service_user \<Rightarrow> cp_state \<Rightarrow> alvs_db_rc \<times> cp_state" where
  "alvs_db_add_service e ip_vs_service st =
     (if \<not> supported_protocol (ivs_protocol ip_vs_service) then (ALVS_DB_NOT_SUPPORTED, st)
      else if \<not> supported_sched_alg (get_sched_alg (ivs_sched_name ip_vs_service))
      then (ALVS_DB_NOT_SUPPORTED, st)
      else
        let (rc, cp_service, st) = internal_db_get_service e (requested_service ip_vs_service) False st in
        case rc of
          ALVS_DB_OK \<Rightarrow> (ALVS_DB_FAILURE, st)
        | ALVS_DB_INTERNAL_ERROR \<Rightarrow> (ALVS_DB_INTERNAL_ERROR, st)
        | ALVS_DB_FAILURE \<Rightarrow>
            (case index_pool_alloc (service_index_pool st) of
               None \<Rightarrow> (ALVS_DB_NOT_SUPPORTED, st)
             | Some (nps_index, pool) \<Rightarrow>
                 let st = st\<lparr>service_index_pool := pool\<rparr>;
                     cp_service = cp_service\<lparr>svc_nps_index := nps_index,
                       svc_sched_alg := get_sched_alg (ivs_sched_name ip_vs_service),
                       svc_flags := ivs_flags ip_vs_service, svc_sched_entries_count := 0,
                       svc_stats_base := BUILD_SUM_ADDR (EZDP_EXTERNAL_MS e) USER_POSTED_STATS_MSID
                         (of_nat EMEM_SERVICE_STATS_POSTED_OFFSET +
                          nps_index * of_nat ALVS_NUM_OF_SERVICE_STATS)\<rparr>;
                     release = (\<lambda>st. st\<lparr>service_index_pool :=
                       index_pool_release (service_index_pool st) nps_index\<rparr>);
                     (rc, st) = alvs_db_clean_service_stats e nps_index st
                 in if rc = ALVS_DB_INTERNAL_ERROR then (ALVS_DB_INTERNAL_ERROR, release st)
                    else let (rc, st) = internal_db_add_service e cp_service st in
                      if rc = ALVS_DB_INTERNAL_ERROR then (ALVS_DB_INTERNAL_ERROR, release st)
                      else let (ok, st) = infra_add_entry e (build_nps_service_info_key cp_service)
                             (ServiceInfo (build_nps_service_info_result e cp_service)) st in
                        if \<not> ok then (ALVS_DB_NPS_ERROR, release st)
                        else let (ok, st) = infra_add_entry e
                               (build_nps_service_classification_key cp_service)
                               (ServiceClassification (build_nps_service_classification_result cp_service)) st in
                          if \<not> ok then (ALVS_DB_NPS_ERROR, release st) else (ALVS_DB_OK, st))
        | _ \<Rightarrow> (ALVS_DB_INTERNAL_ERROR, st))"

text \<open>The common first step of the other operations: the service must exist.\<close>

definition with_service ::
  "cp_env \<Rightarrow> ip_vs_service_user \<Rightarrow> (alvs_db_service \<Rightarrow> cp_state \<Rightarrow> alvs_db_rc \<times> cp_state) \<Rightarrow>
   cp_state \<Rightarrow> alvs_db_rc \<times> cp_state" where
  "with_service e ip_vs_service body st =
     (let (rc, cp_service, st) = internal_db_get_service e (requested_service ip_vs_service) True st in
      case rc of
        ALVS_DB_FAILURE \<Rightarrow> (ALVS_DB_FAILURE, st)
      | ALVS_DB_INTERNAL_ERROR \<Rightarrow> (ALVS_DB_INTERNAL_ERROR, st)
      | ALVS_DB_OK \<Rightarrow> body cp_service st
      | _ \<Rightarrow> (ALVS_DB_INTERNAL_ERROR, st))"

definition modify_service_info_entry ::
  "cp_env \<Rightarrow> alvs_db_service \<Rightarrow> cp_state \<Rightarrow> bool \<times> cp_state" where
  "modify_service_info_entry e cp_service =
     infra_modify_entry e (build_nps_service_info_key cp_service)
       (ServiceInfo (build_nps_service_info_result e cp_service))"

definition modify_server_info_entry ::
  "cp_env \<Rightarrow> alvs_db_server \<Rightarrow> cp_state \<Rightarrow> bool \<times> cp_state" where
  "modify_server_info_entry e cp_server =
     infra_modify_entry e (build_nps_server_info_key cp_server)
       (ServerInfo (build_nps_server_info_result cp_server))"

definition alvs_db_modify_service ::
  "cp_env \<Rightarrow> ip_vs_service_user \<Rightarrow> cp_state \<Rightarrow> alvs_db_rc \<times> cp_state" where
  "alvs_db_modify_service e ip_vs_service st =
     (if \<not> supported_sched_alg (get_sched_alg (ivs_sched_name ip_vs_service))
      then (ALVS_DB_NOT_SUPPORTED, st)
      else with_service e ip_vs_service (\<lambda>cp_service st.
        let prev_sched_alg = svc_sched_alg cp_service;
            cp_service = cp_service\<lparr>svc_sched_alg := get_sched_alg (ivs_sched_name ip_vs_service),
              svc_flags := ivs_flags ip_vs_service\<rparr>;
            (rc, cp_service, st) =
              (if prev_sched_alg \<noteq> svc_sched_alg cp_service
               then alvs_db_recalculate_scheduling_info e cp_service st
               else (ALVS_DB_OK, cp_service, st))
        in if rc \<noteq> ALVS_DB_OK then (rc, st)
           else let (rc, st) = internal_db_modify_service e cp_service st in
             if rc = ALVS_DB_INTERNAL_ERROR then (ALVS_DB_INTERNAL_ERROR, st)
             else let (ok, st) = modify_service_info_entry e cp_service st in
               if \<not> ok then (ALVS_DB_NPS_ERROR, st) else (ALVS_DB_OK, st)) st)"

text \<open>
  The loop of \<open>alvs_db_delete_service\<close> over the active servers.  It does not advance
  \<open>server_list\<close>: every iteration works on the head of the list.
\<close>

primrec deactivate_loop :: "nat \<Rightarrow> cp_env \<Rightarrow> alvs_db_server list \<Rightarrow> cp_state \<Rightarrow> bool \<times> cp_state" where
  "deactivate_loop 0 e server_list st = (True, st)"
| "deactivate_loop (Suc k) e server_list st =
     (let server_list = server_list[0 := (server_list ! 0)\<lparr>srv_server_flags :=
            not_available (srv_server_flags (server_list ! 0))\<rparr>];
          (ok, st) = modify_server_info_entry e (server_list ! 0) st
      in if \<not> ok then (False, st) else deactivate_loop k e server_list st)"

definition alvs_db_delete_service ::
  "cp_env \<Rightarrow> ip_vs_service_user \<Rightarrow> cp_state \<Rightarrow> alvs_db_rc \<times> cp_state" where
  "alvs_db_delete_service e ip_vs_service st = with_service e ip_vs_service (\<lambda>cp_service st.
     let (rc, server_count, st) = internal_db_get_server_count e cp_service False True
           (unat (ucast (stack_garbage e) :: u32)) st;
         (rc, server_list, st) = internal_db_get_server_list e cp_service False True st
     in if rc \<noteq> ALVS_DB_OK then (ALVS_DB_INTERNAL_ERROR, st)
        else let (rc, st) = internal_db_delete_service e cp_service st in
          if rc = ALVS_DB_INTERNAL_ERROR then (ALVS_DB_INTERNAL_ERROR, st)
          else
            let st = st\<lparr>service_index_pool := index_pool_release (service_index_pool st) (svc_nps_index cp_service)\<rparr>;
                (ok, st) = infra_delete_entry e (build_nps_service_classification_key cp_service) st
            in if \<not> ok then (ALVS_DB_NPS_ERROR, st)
               else let (ok, st) = infra_delete_entry e (build_nps_service_info_key cp_service) st in
                 if \<not> ok then (ALVS_DB_NPS_ERROR, st)
                 else let (ok, st) = deactivate_loop server_count e server_list st in
                   if \<not> ok then (ALVS_DB_NPS_ERROR, st)
                   else let (rc, cp_service, st) = alvs_db_recalculate_scheduling_info e cp_service st
                     in (rc, st)) st"

text \<open>The flags are returned through the request.\<close>

definition alvs_db_get_service_flags ::
  "cp_env \<Rightarrow> ip_vs_service_user \<Rightarrow> cp_state \<Rightarrow> alvs_db_rc \<times> ip_vs_service_user \<times> cp_state" where
  "alvs_db_get_service_flags e ip_vs_service st =
     (let (rc, cp_service, st) = internal_db_get_service e (requested_service ip_vs_service) True st in
      case rc of
        ALVS_DB_FAILURE \<Rightarrow> (ALVS_DB_FAILURE, ip_vs_service, st)
      | ALVS_DB_INTERNAL_ERROR \<Rightarrow> (ALVS_DB_INTERNAL_ERROR, ip_vs_service, st)
      | ALVS_DB_OK \<Rightarrow> (ALVS_DB_OK, ip_vs_service\<lparr>ivs_flags := svc_flags cp_service\<rparr>, st)
      | _ \<Rightarrow> (ALVS_DB_INTERNAL_ERROR, ip_vs_service, st))"

subsection \<open>Operations on servers\<close>

definition zero_server :: alvs_db_server where
  "zero_server = \<lparr>srv_ip = 0, srv_port = 0, srv_weight = 0, srv_active = 0, srv_nps_index = 0,
     srv_conn_flags = 0, srv_server_flags = 0, srv_u_thresh = 0, srv_l_thresh = 0,
     srv_server_stats_base = 0, srv_service_stats_base = 0, srv_on_demand_stats_base = 0,
     srv_flags_dp_base = 0, srv_stats = \<lparr>vst_connection_scheduled = 0, vst_in_packet = 0,
     vst_in_byte = 0, vst_out_packet = 0, vst_out_byte = 0, vst_active_connection = 0,
     vst_inactive_connection = 0, vst_connection_total = 0\<rparr>\<rparr>"

definition requested_server :: "ip_vs_dest_user \<Rightarrow> alvs_db_server" where
  "requested_server ip_vs_dest = zero_server\<lparr>srv_ip := bswap_32 (ivd_addr ip_vs_dest),
     srv_port := bswap_16 (ivd_port ip_vs_dest)\<rparr>"

text \<open>The branch of \<open>alvs_db_add_server\<close> for a server that exists but is inactive.\<close>

definition reactivate_server ::
  "cp_env \<Rightarrow> alvs_db_service \<Rightarrow> alvs_db_server \<Rightarrow> ip_vs_dest_user \<Rightarrow> cp_state \<Rightarrow>
   alvs_db_rc \<times> alvs_db_server \<times> cp_state" where
  "reactivate_server e cp_service cp_server ip_vs_dest st =
     (let cp_server = cp_server\<lparr>srv_server_flags := srv_server_flags cp_server OR IP_VS_DEST_F_AVAILABLE,
            srv_conn_flags := ivd_conn_flags ip_vs_dest, srv_weight := word_of_int (ivd_weight ip_vs_dest),
            srv_u_thresh := ivd_u_threshold ip_vs_dest, srv_l_thresh := ivd_l_threshold ip_vs_dest\<rparr>;
          (rc, st) = internal_db_activate_server e cp_service cp_server st
      in if rc = ALVS_DB_INTERNAL_ERROR then (ALVS_DB_INTERNAL_ERROR, cp_server, st)
         else let (ok, st) = modify_server_info_entry e cp_server st in
           if \<not> ok then (ALVS_DB_NPS_ERROR, cp_server, st) else (ALVS_DB_OK, cp_server, st))"

text \<open>The branch for a server that does not exist.\<close>

definition create_server ::
  "cp_env \<Rightarrow> alvs_db_service \<Rightarrow> alvs_db_server \<Rightarrow> ip_vs_dest_user \<Rightarrow> cp_state \<Rightarrow>
   alvs_db_rc \<times> alvs_db_server \<times> cp_state" where
  "create_server e cp_service cp_server ip_vs_dest st =
     (case index_pool_alloc (server_index_pool st) of
        None \<Rightarrow> (ALVS_DB_NOT_SUPPORTED, cp_server, st)
      | Some (nps_index, pool) \<Rightarrow>
          let st = st\<lparr>server_index_pool := pool\<rparr>;
              cp_server = cp_server\<lparr>srv_nps_index := nps_index,
                srv_conn_flags := ivd_conn_flags ip_vs_dest,
                srv_server_flags := IP_VS_DEST_F_AVAILABLE,
                srv_weight := word_of_int (ivd_weight ip_vs_dest), srv_active := 1,
                srv_u_thresh := ivd_u_threshold ip_vs_dest, srv_l_thresh := ivd_l_threshold ip_vs_dest,
                srv_server_stats_base := BUILD_SUM_ADDR (EZDP_EXTERNAL_MS e) USER_POSTED_STATS_MSID
                  (of_nat EMEM_SERVER_STATS_POSTED_OFFSET + nps_index * of_nat ALVS_NUM_OF_SERVER_STATS),
                srv_service_stats_base := svc_stats_base cp_service,
                srv_on_demand_stats_base := BUILD_SUM_ADDR (EZDP_EXTERNAL_MS e) USER_ON_DEMAND_STATS_MSID
                  (of_nat EMEM_SERVER_STATS_ON_DEMAND_OFFSET +
                   nps_index * of_nat ALVS_NUM_OF_SERVERS_ON_DEMAND_STATS),
                srv_flags_dp_base := BUILD_SUM_ADDR (EZDP_EXTERNAL_MS e) USER_EMEM_OUT_OF_BAND_MSID
                  (of_nat EMEM_SERVER_FLAGS_OFFSET + nps_index)\<rparr>;
              release = (\<lambda>st. st\<lparr>server_index_pool := index_pool_release (server_index_pool st) nps_index\<rparr>);
              (rc, st) = alvs_db_clean_server_stats e nps_index st
          in if rc = ALVS_DB_INTERNAL_ERROR then (ALVS_DB_INTERNAL_ERROR, cp_server, release st)
             else let (rc, st) = alvs_clear_overloaded_flag_of_server e cp_server st in
               if rc = ALVS_DB_INTERNAL_ERROR then (ALVS_DB_INTERNAL_ERROR, cp_server, release st)
               else let (rc, st) = internal_db_add_server e cp_service cp_server st in
                 if rc = ALVS_DB_INTERNAL_ERROR then (ALVS_DB_INTERNAL_ERROR, cp_server, release st)
                 else let (ok, st) = modify_server_info_entry e cp_server st in
                   if \<not> ok then (ALVS_DB_NPS_ERROR, cp_server, release st)
                   else (ALVS_DB_OK, cp_server, st))"

text \<open>
  The step of adding a server that has a weight: recalculation, then the update of the service in
  the internal database and in the NPS.
\<close>

definition recalculate_store_and_publish ::
  "cp_env \<Rightarrow> alvs_db_service \<Rightarrow> cp_state \<Rightarrow> alvs_db_rc \<times> cp_state" where
  "recalculate_store_and_publish e cp_service st =
     (let (rc, cp_service, st) = alvs_db_recalculate_scheduling_info e cp_service st in
      if rc \<noteq> ALVS_DB_OK then (rc, st)
      else let (rc, st) = internal_db_modify_service e cp_service st in
        if rc = ALVS_DB_INTERNAL_ERROR then (ALVS_DB_INTERNAL_ERROR, st)
        else let (ok, st) = modify_service_info_entry e cp_service st in
          if \<not> ok then (ALVS_DB_NPS_ERROR, st) else (ALVS_DB_OK, st))"

text \<open>The steps of \<open>alvs_db_add_server\<close> once the row of the server is in place.\<close>

definition schedule_new_server ::
  "cp_env \<Rightarrow> ip_vs_dest_user \<Rightarrow> alvs_db_service \<Rightarrow> alvs_db_server \<Rightarrow> cp_state \<Rightarrow> alvs_db_rc \<times> cp_state" where
  "schedule_new_server e ip_vs_dest cp_service cp_server st =
     (let (rc, st) =
            (if ivd_weight ip_vs_dest > 0
             then recalculate_store_and_publish e cp_service st else (ALVS_DB_OK, st))
      in if rc \<noteq> ALVS_DB_OK then (rc, st)
         else let (ok, st) = infra_add_entry e (build_nps_server_classification_key cp_service cp_server)
                (ServerClassification (build_nps_server_classification_result cp_server)) st in
           if \<not> ok then (ALVS_DB_NPS_ERROR, st) else (ALVS_DB_OK, st))"

definition alvs_db_add_server ::
  "cp_env \<Rightarrow> ip_vs_service_user \<Rightarrow> ip_vs_dest_user \<Rightarrow> cp_state \<Rightarrow> alvs_db_rc \<times> cp_state" where
  "alvs_db_add_server e ip_vs_service ip_vs_dest st =
     (if \<not> supported_routing_alg (ivd_conn_flags ip_vs_dest) then (ALVS_DB_NOT_SUPPORTED, st)
      else if ivd_l_threshold ip_vs_dest > ivd_u_threshold ip_vs_dest then (ALVS_DB_NOT_SUPPORTED, st)
      else with_service e ip_vs_service (\<lambda>cp_service st.
        let (rc, server_count, st) = internal_db_get_server_count e cp_service False True 0 st in
        if server_count = ALVS_SIZE_OF_SCHED_BUCKET then (ALVS_DB_FAILURE, st)
        else
          let (rc, cp_server, st) = internal_db_get_server e cp_service (requested_server ip_vs_dest) st;
              (rc, cp_server, st) =
                (case rc of
                   ALVS_DB_OK \<Rightarrow>
                     if srv_active cp_server = 1 then (ALVS_DB_FAILURE, cp_server, st)
                     else reactivate_server e cp_service cp_server ip_vs_dest st
                 | ALVS_DB_INTERNAL_ERROR \<Rightarrow> (ALVS_DB_INTERNAL_ERROR, cp_server, st)
                 | ALVS_DB_FAILURE \<Rightarrow> create_server e cp_service cp_server ip_vs_dest st
                 | _ \<Rightarrow> (ALVS_DB_INTERNAL_ERROR, cp_server, st))
          in if rc \<noteq> ALVS_DB_OK then (rc, st)
             else schedule_new_server e ip_vs_dest cp_service cp_server st) st)"

text \<open>The common second step of modifying and deleting: the server must exist and be active.\<close>

definition with_active_server ::
  "cp_env \<Rightarrow> alvs_db_service \<Rightarrow> ip_vs_dest_user \<Rightarrow> (alvs_db_server \<Rightarrow> cp_state \<Rightarrow> alvs_db_rc \<times> cp_state) \<Rightarrow>
   cp_state \<Rightarrow> alvs_db_rc \<times> cp_state" where
  "with_active_server e cp_service ip_vs_dest body st =
     (let (rc, cp_server, st) = internal_db_get_server e cp_service (requested_server ip_vs_dest) st in
      case rc of
        ALVS_DB_FAILURE \<Rightarrow> (ALVS_DB_FAILURE, st)
      | ALVS_DB_INTERNAL_ERROR \<Rightarrow> (ALVS_DB_INTERNAL_ERROR, st)
      | ALVS_DB_OK \<Rightarrow> if srv_active cp_server = 0 then (ALVS_DB_FAILURE, st) else body cp_server st
      | _ \<Rightarrow> (ALVS_DB_INTERNAL_ERROR, st))"

text \<open>Recalculation followed by the update of the service's NPS entry only.\<close>

definition recalculate_and_publish ::
  "cp_env \<Rightarrow> alvs_db_service \<Rightarrow> cp_state \<Rightarrow> alvs_db_rc \<times> cp_state" where
  "recalculate_and_publish e cp_service st =
     (let (rc, cp_service, st) = alvs_db_recalculate_scheduling_info e cp_service st in
      if rc \<noteq> ALVS_DB_OK then (rc, st)
      else let (ok, st) = modify_service_info_entry e cp_service st in
        if \<not> ok then (ALVS_DB_NPS_ERROR, st) else (ALVS_DB_OK, st))"

text \<open>
  The part of \<open>alvs_db_modify_server\<close> after the server is found.  \<open>prev_weight\<close> is an 8-bit variable,
  the weight it keeps and is compared with has 16 bits.
\<close>

definition modify_active_server ::
  "cp_env \<Rightarrow> ip_vs_dest_user \<Rightarrow> alvs_db_service \<Rightarrow> alvs_db_server \<Rightarrow> cp_state \<Rightarrow> alvs_db_rc \<times> cp_state" where
  "modify_active_server e ip_vs_dest cp_service cp_server st =
     (let prev_weight = (ucast (srv_weight cp_server) :: u8);
          cp_server = cp_server\<lparr>srv_conn_flags := ivd_conn_flags ip_vs_dest,
            srv_weight := word_of_int (ivd_weight ip_vs_dest)\<rparr>;
          (rc, st) =
            (if ivd_u_threshold ip_vs_dest = 0 \<or> ivd_u_threshold ip_vs_dest > srv_u_thresh cp_server
             then alvs_clear_overloaded_flag_of_server e cp_server st else (ALVS_DB_OK, st))
      in if rc = ALVS_DB_INTERNAL_ERROR then (ALVS_DB_INTERNAL_ERROR, st)
         else
           let cp_server = cp_server\<lparr>srv_u_thresh := ivd_u_threshold ip_vs_dest,
                 srv_l_thresh := ivd_l_threshold ip_vs_dest\<rparr>;
               (rc, st) = internal_db_modify_server e cp_service cp_server st
           in if rc = ALVS_DB_INTERNAL_ERROR then (ALVS_DB_INTERNAL_ERROR, st)
              else
                let (rc, st) =
                      (if srv_weight cp_server \<noteq> ucast prev_weight
                       then recalculate_and_publish e cp_service st else (ALVS_DB_OK, st))
                in if rc \<noteq> ALVS_DB_OK then (rc, st)
                   else let (ok, st) = modify_server_info_entry e cp_server st in
                     if \<not> ok then (ALVS_DB_NPS_ERROR, st) else (ALVS_DB_OK, st))"

definition alvs_db_modify_server ::
  "cp_env \<Rightarrow> ip_vs_service_user \<Rightarrow> ip_vs_dest_user \<Rightarrow> cp_state \<Rightarrow> alvs_db_rc \<times> cp_state" where
  "alvs_db_modify_server e ip_vs_service ip_vs_dest st =
     (if \<not> supported_routing_alg (ivd_conn_flags ip_vs_dest) then (ALVS_DB_NOT_SUPPORTED, st)
      else if ivd_l_threshold ip_vs_dest > ivd_u_threshold ip_vs_dest then (ALVS_DB_NOT_SUPPORTED, st)
      else with_service e ip_vs_service (\<lambda>cp_service.
        with_active_server e cp_service ip_vs_dest (modify_active_server e ip_vs_dest cp_service)) st)"

definition alvs_db_delete_server ::
  "cp_env \<Rightarrow> ip_vs_service_user \<Rightarrow> ip_vs_dest_user \<Rightarrow> cp_state \<Rightarrow> alvs_db_rc \<times> cp_state" where
  "alvs_db_delete_server e ip_vs_service ip_vs_dest st =
     with_service e ip_vs_service (\<lambda>cp_service.
       with_active_server e cp_service ip_vs_dest (\<lambda>cp_server st.
         let cp_server = cp_server\<lparr>srv_server_flags := not_available (srv_server_flags cp_server)\<rparr>;
             (rc, st) = internal_db_deactivate_server e cp_service cp_server st
         in if rc = ALVS_DB_INTERNAL_ERROR then (ALVS_DB_INTERNAL_ERROR, st)
            else
              let (rc, st) =
                    (if srv_weight cp_server > 0 then recalculate_and_publish e cp_service st
                     else (ALVS_DB_OK, st))
              in if rc \<noteq> ALVS_DB_OK then (rc, st)
                 else let (ok, st) = modify_server_info_entry e cp_server st in
                   if \<not> ok then (ALVS_DB_NPS_ERROR, st)
                   else let (ok, st) = infra_delete_entry e
                          (build_nps_server_classification_key cp_service cp_server) st in
                     if \<not> ok then (ALVS_DB_NPS_ERROR, st) else (ALVS_DB_OK, st))) st"

end
