(* ===== verification/Alvs_DB_Props.thy ===== *)
theory Alvs_DB_Props
  imports Alvs_DB
begin

text \<open>
  Properties of the application database: what the scheduling structure of the NPS holds after a
  recalculation, the functional behaviour of the operations on services and servers when every
  call to SQLite and to the NPS succeeds, the ownership of the indexes, and the behaviours in
  which the operations fall short of keeping the NPS and the internal database in step.
\<close>

subsection \<open>Addresses of the scheduling entries\<close>

lemma unat_sched_index:
  assumes "unat (svc_nps_index s) < 256" "ind < 256"
  shows "unat (sched_index s ind) = unat (svc_nps_index s) * 256 + ind"
proof -
  have a: "unat (svc_nps_index s * of_nat ALVS_SIZE_OF_SCHED_BUCKET) = unat (svc_nps_index s) * 256"
    using assms(1) by (simp add: ALVS_SIZE_OF_SCHED_BUCKET_def unat_word_ariths)
  have i: "unat (of_nat ind :: u32) = ind" using assms(2) by (intro unat_of_nat_u32) simp
  have "unat (svc_nps_index s * of_nat ALVS_SIZE_OF_SCHED_BUCKET + of_nat ind) =
      unat (svc_nps_index s) * 256 + ind"
    using a i assms by (subst unat_add_lem [THEN iffD1]) simp_all
  then show ?thesis
    using assms by (simp add: sched_index_def unsigned_ucast_eq take_bit_eq_mod)
qed

lemma block_index_inj: "(a :: nat) * 256 + i = b * 256 + j \<Longrightarrow> i < 256 \<Longrightarrow> j < 256 \<Longrightarrow> a = b \<and> i = j"
proof -
  assume eq: "a * 256 + i = b * 256 + j" and "i < 256" "j < 256"
  then have "a = (a * 256 + i) div 256" "b = (b * 256 + j) div 256" by simp_all
  then have "a = b" using eq by metis
  then show ?thesis using eq by simp
qed

lemma sched_index_inj:
  assumes "unat (svc_nps_index s) < 256" "i < 256" "unat (svc_nps_index t) < 256" "j < 256"
  shows "sched_index s i = sched_index t j \<longleftrightarrow> svc_nps_index s = svc_nps_index t \<and> i = j"
proof
  assume "sched_index s i = sched_index t j"
  then have "unat (svc_nps_index s) * 256 + i = unat (svc_nps_index t) * 256 + j"
    using unat_sched_index [OF assms(1,2)] unat_sched_index [OF assms(3,4)] by simp
  then have "unat (svc_nps_index s) = unat (svc_nps_index t) \<and> i = j"
    using assms(2,4) by (rule block_index_inj)
  then show "svc_nps_index s = svc_nps_index t \<and> i = j" by (simp add: word_unat_eq_iff)
qed (simp add: sched_index_def)

lemma sched_index_count [simp]:
  "sched_index (s\<lparr>svc_sched_entries_count := c\<rparr>) i = sched_index s i"
  by (simp add: sched_index_def)

subsection \<open>Populating the scheduling structure\<close>

definition sched_key :: "alvs_db_service \<Rightarrow> nat \<Rightarrow> nps_key" where
  "sched_key s ind = SCHED_INFO (bswap_16 (sched_index s ind))"

definition sched_entry :: "alvs_db_server list \<Rightarrow> nat option \<Rightarrow> nps_result option" where
  "sched_entry L x = map_option (\<lambda>p. SchedInfo \<lparr>schr_server_index = bswap_32 (srv_nps_index (L ! p))\<rparr>) x"

definition filled :: "bucket \<Rightarrow> nat" where
  "filled b = length (filter (\<lambda>x. x \<noteq> None) b)"

definition same_db :: "cp_state \<Rightarrow> cp_state \<Rightarrow> bool" where
  "same_db st st' \<longleftrightarrow> services st' = services st \<and> servers st' = servers st \<and>
     application_infos st' = application_infos st \<and> service_index_pool st' = service_index_pool st \<and>
     server_index_pool st' = server_index_pool st \<and> posted_counters st' = posted_counters st \<and>
     long_counters st' = long_counters st \<and> server_flags_mem st' = server_flags_mem st"

lemma same_db_refl [simp]: "same_db st st"
  by (simp add: same_db_def)

lemma sched_key_count [simp]:
  "sched_key (s\<lparr>svc_sched_entries_count := c\<rparr>) i = sched_key s i"
  by (simp add: sched_key_def)

lemma sched_key_inj:
  "unat (svc_nps_index s) < 256 \<Longrightarrow> i < 256 \<Longrightarrow> unat (svc_nps_index t) < 256 \<Longrightarrow> j < 256 \<Longrightarrow>
   sched_key s i = sched_key t j \<longleftrightarrow> svc_nps_index s = svc_nps_index t \<and> i = j"
  by (simp add: sched_key_def sched_index_inj)

lemma filled_simps [simp]:
  "filled [] = 0" "filled (Some p # b) = Suc (filled b)" "filled (None # b) = filled b"
  by (simp_all add: filled_def)

lemma sched_populate_spec:
  assumes "all_calls_ok e" "unat (svc_nps_index s) < 256" "ind + length b \<le> 256"
  shows "\<exists>st'. sched_populate e L b ind s st =
      (ALVS_DB_OK, s\<lparr>svc_sched_entries_count := svc_sched_entries_count s + of_nat (filled b)\<rparr>, st') \<and>
    same_db st st' \<and>
    (\<forall>j < length b. nps st' (sched_key s (ind + j)) = sched_entry L (b ! j)) \<and>
    (\<forall>k. (\<forall>j < length b. k \<noteq> sched_key s (ind + j)) \<longrightarrow> nps st' k = nps st k)"
  using assms(2,3)
proof (induction b arbitrary: ind s st)
  case Nil
  then show ?case by simp
next
  case (Cons x b)
  define st1 where "st1 = st\<lparr>clock := Suc (clock st), nps := (nps st)(sched_key s ind := sched_entry L x)\<rparr>"
  define s1 where "s1 = s\<lparr>svc_sched_entries_count := svc_sched_entries_count s + of_nat (filled [x])\<rparr>"
  have step: "sched_populate e L (x # b) ind s st = sched_populate e L b (Suc ind) s1 st1"
    using assms(1) by (cases x) (simp_all add: infra_modify_entry_def infra_delete_entry_def db_simps
        st1_def s1_def sched_key_def sched_entry_def)
  have [simp]: "sched_key s1 i = sched_key s i" for i by (simp add: s1_def)
  obtain st' where st': "sched_populate e L b (Suc ind) s1 st1 =
      (ALVS_DB_OK, s1\<lparr>svc_sched_entries_count := svc_sched_entries_count s1 + of_nat (filled b)\<rparr>, st')"
    "same_db st1 st'" "\<forall>j < length b. nps st' (sched_key s (Suc ind + j)) = sched_entry L (b ! j)"
    "\<forall>k. (\<forall>j < length b. k \<noteq> sched_key s (Suc ind + j)) \<longrightarrow> nps st' k = nps st1 k"
    using Cons.IH [of s1 "Suc ind" st1] Cons.prems by (auto simp: s1_def)
  have neq: "sched_key s ind \<noteq> sched_key s (Suc ind + j)" if "j < length b" for j
    using that Cons.prems by (subst sched_key_inj) auto
  have here: "nps st' (sched_key s ind) = sched_entry L x"
    using st'(4) neq by (simp add: st1_def)
  have "nps st' (sched_key s (ind + j)) = sched_entry L ((x # b) ! j)" if "j < length (x # b)" for j
    using that here st'(3) by (cases j) auto
  moreover have "nps st' k = nps st k" if "\<forall>j < length (x # b). k \<noteq> sched_key s (ind + j)" for k
  proof -
    have "k \<noteq> sched_key s ind" "\<forall>j < length b. k \<noteq> sched_key s (Suc ind + j)"
      using that by (auto dest: spec [of _ 0] spec [of _ "Suc _"])
    then show ?thesis using st'(4) by (simp add: st1_def)
  qed
  moreover have "same_db st st'" using st'(2) by (simp add: same_db_def st1_def)
  moreover have "svc_sched_entries_count s1 + of_nat (filled b) =
      svc_sched_entries_count s + of_nat (filled (x # b))"
    by (cases x) (simp_all add: s1_def)
  ultimately show ?case
    unfolding step st'(1) by (auto simp: s1_def)
qed

subsection \<open>Recalculation\<close>

lemma get_server_list_ok [db_simps]:
  "all_calls_ok e \<Longrightarrow> internal_db_get_server_list e s exw exi st =
     (ALVS_DB_OK, map snd (select_order e (clock st) (filter (server_selected (svc_key s) exw exi) (servers st))),
      st\<lparr>clock := Suc (clock st)\<rparr>)"
  by (simp add: internal_db_get_server_list_def db_simps Let_def)

lemma get_server_count_ok [db_simps]:
  "all_calls_ok e \<Longrightarrow> internal_db_get_server_count e s exw exi old st =
     (ALVS_DB_OK, length (filter (server_selected (svc_key s) exw exi) (servers st)),
      st\<lparr>clock := Suc (clock st)\<rparr>)"
  by (simp add: internal_db_get_server_count_def db_simps)

definition active_servers :: "alvs_db_service \<Rightarrow> cp_state \<Rightarrow> server_row list" where
  "active_servers s st = filter (server_selected (svc_key s) True True) (servers st)"

lemma fill_supported:
  assumes "supported_sched_alg alg"
  shows "\<exists>b. fill_servers_buckets alg L n = Some b"
  using assms by (auto simp: fill_servers_buckets_def supported_sched_alg_def Let_def split: if_splits)

lemma length_rr_loop [simp]: "length (rr_loop k ind b L p) = length b"
  by (induction k arbitrary: ind b p) simp_all

lemma length_wrr_loop [simp]: "length (fst (wrr_loop k ind b L n)) = length b"
  by (induction k arbitrary: ind b L) (simp_all split: option.splits)

lemma length_sh_loop [simp]: "length (sh_loop k ind b L p w) = length b"
  by (induction k arbitrary: ind b p w) (simp_all add: Let_def)

lemma length_fill: "fill_servers_buckets alg L n = Some b \<Longrightarrow> length b = 256"
  by (auto simp: fill_servers_buckets_def alvs_db_rr_fill_buckets_def alvs_db_wrr_fill_buckets_def
      alvs_db_sh_fill_buckets_def empty_bucket_def ALVS_SIZE_OF_SCHED_BUCKET_def Let_def
      split: if_splits alvs_scheduler_type.splits)

lemma recalculate_spec:
  assumes "all_calls_ok e" "select_ok e" "unat (svc_nps_index s) < 256"
    and "supported_sched_alg (svc_sched_alg s)"
  shows "\<exists>L b st'. alvs_db_recalculate_scheduling_info e s st =
      (ALVS_DB_OK, s\<lparr>svc_sched_entries_count := of_nat (filled b)\<rparr>, st') \<and>
    mset L = mset (map snd (active_servers s st)) \<and>
    fill_servers_buckets (svc_sched_alg s) L (length L) = Some b \<and> length b = 256 \<and> same_db st st' \<and>
    (\<forall>j < 256. nps st' (sched_key s j) = sched_entry L (b ! j)) \<and>
    (\<forall>k. (\<forall>j < 256. k \<noteq> sched_key s j) \<longrightarrow> nps st' k = nps st k)"
proof -
  define L where "L = map snd (select_order e (clock st) (active_servers s st))"
  define st2 where "st2 = st\<lparr>clock := Suc (Suc (clock st))\<rparr>"
  have len: "length L = length (active_servers s st)" using assms(2) by (simp add: L_def)
  obtain b where b: "fill_servers_buckets (svc_sched_alg s) L (length L) = Some b"
    using fill_supported [OF assms(4)] by blast
  have lb: "length b = 256" using b by (rule length_fill)
  have run: "alvs_db_recalculate_scheduling_info e s st =
      sched_populate e L b 0 (s\<lparr>svc_sched_entries_count := 0\<rparr>) st2"
    using assms(1,2) b len
    by (simp add: alvs_db_recalculate_scheduling_info_def db_simps L_def [unfolded active_servers_def, symmetric]
        active_servers_def st2_def)
  obtain st' where st': "sched_populate e L b 0 (s\<lparr>svc_sched_entries_count := 0\<rparr>) st2 =
      (ALVS_DB_OK, s\<lparr>svc_sched_entries_count := of_nat (filled b)\<rparr>, st')" "same_db st2 st'"
    "\<forall>j < 256. nps st' (sched_key s j) = sched_entry L (b ! j)"
    "\<forall>k. (\<forall>j < 256. k \<noteq> sched_key s j) \<longrightarrow> nps st' k = nps st k"
    using sched_populate_spec [OF assms(1), of "s\<lparr>svc_sched_entries_count := 0\<rparr>" 0 b L st2] assms(3) lb
    by (auto simp: st2_def)
  have "mset L = mset (map snd (active_servers s st))"
    using assms(2) by (simp add: L_def mset_map [of snd "select_order _ _ _"])
  moreover have "same_db st st'" using st'(2) by (simp add: same_db_def st2_def)
  ultimately show ?thesis using run st' b lb by auto
qed

lemma active_schedulable:
  assumes "mset L = mset (map snd (active_servers s st))" "active_servers s st \<noteq> []"
  shows "schedulable L"
proof -
  have "set L = snd ` set (active_servers s st)" using assms(1) by (metis list.set_map mset_eq_setD)
  moreover have "L \<noteq> []" using assms by auto
  ultimately show ?thesis
    by (auto simp: schedulable_def active_servers_def server_selected_def)
qed

lemma filled_prefix: "filled (map Some ps @ replicate n None) = length ps"
  by (induction ps) (simp_all add: filled_def)

lemma unat_of_nat_u16_le: "n \<le> 256 \<Longrightarrow> unat (of_nat n :: u16) = n"
  by (simp add: unat_of_nat take_bit_eq_mod)

text \<open>The entries below the count name active servers, the others are absent.\<close>

lemma recalculate_entries:
  assumes "mset L = mset (map snd (active_servers s st))"
    and "fill_servers_buckets alg L (length L) = Some b"
  shows "filled b \<le> 256 \<and> (filled b = 0 \<longleftrightarrow> active_servers s st = []) \<and>
    (\<forall>j < filled b. \<exists>r \<in> set (active_servers s st).
       sched_entry L (b ! j) = Some (SchedInfo \<lparr>schr_server_index = bswap_32 (srv_nps_index (snd r))\<rparr>)) \<and>
    (\<forall>j. filled b \<le> j \<and> j < 256 \<longrightarrow> sched_entry L (b ! j) = None)"
proof (cases "active_servers s st = []")
  case True
  then have "L = []" using assms(1) by simp
  then have "b = empty_bucket" using assms(2) by (simp add: fill_servers_buckets_def)
  then show ?thesis using True by (simp add: empty_bucket_def filled_def sched_entry_def ALVS_SIZE_OF_SCHED_BUCKET_def)
next
  case False
  obtain ps where ps: "b = map Some ps @ replicate (256 - length ps) None" "ps \<noteq> []"
    "length ps \<le> 256" "set ps \<subseteq> {..<length L}"
    using fill_prefix [OF active_schedulable [OF assms(1) False] assms(2)] by blast
  have f: "filled b = length ps" unfolding ps(1) by (rule filled_prefix)
  have setL: "set L = snd ` set (active_servers s st)" using assms(1) by (metis list.set_map mset_eq_setD)
  have "\<exists>r \<in> set (active_servers s st).
      sched_entry L (b ! j) = Some (SchedInfo \<lparr>schr_server_index = bswap_32 (srv_nps_index (snd r))\<rparr>)"
    if "j < length ps" for j
  proof -
    have "L ! (ps ! j) \<in> set L" using that ps(4) by (intro nth_mem) (auto dest: nth_mem)
    then obtain r where "r \<in> set (active_servers s st)" "L ! (ps ! j) = snd r" using setL by auto
    then show ?thesis using that by (auto simp: ps(1) nth_append sched_entry_def intro!: bexI [of _ r])
  qed
  then show ?thesis
    using False ps f by (auto simp: nth_append sched_entry_def)
qed

subsection \<open>The invariant\<close>

text \<open>
  Every index of a pool is either free or owned by exactly one row, and the rows' keys are unique.
\<close>

definition owned :: "u32 list \<Rightarrow> index_pool \<Rightarrow> nat \<Rightarrow> bool" where
  "owned ixs pool n \<longleftrightarrow> pool_ok pool \<and> pool_cap pool = n \<and> distinct (ixs @ pool_free pool) \<and>
     (\<forall>i. unat i < n \<longleftrightarrow> i \<in> set (ixs @ pool_free pool))"

definition row_key :: "server_row \<Rightarrow> service_key \<times> in_addr_t \<times> u16" where
  "row_key r = (fst r, srv_ip (snd r), srv_port (snd r))"

definition service_rows_ok :: "cp_state \<Rightarrow> bool" where
  "service_rows_ok st \<longleftrightarrow> distinct (map svc_key (services st)) \<and>
     owned (map svc_nps_index (services st)) (service_index_pool st) ALVS_SERVICES_MAX_ENTRIES \<and>
     (\<forall>s \<in> set (services st). supported_sched_alg (svc_sched_alg s))"

definition server_rows_ok :: "cp_state \<Rightarrow> bool" where
  "server_rows_ok st \<longleftrightarrow> distinct (map row_key (servers st)) \<and>
     owned (map (\<lambda>r. srv_nps_index (snd r)) (servers st)) (server_index_pool st) 32768"

text \<open>
  The service classification structure of the NPS holds exactly the services of the internal
  database, and every service has a matching service information entry.
\<close>

definition service_class_ok :: "cp_state \<Rightarrow> bool" where
  "service_class_ok st \<longleftrightarrow>
     (\<forall>k. nps st (SERVICE_CLASSIFICATION k) = map_option
        (\<lambda>s. ServiceClassification (build_nps_service_classification_result s))
        (find (\<lambda>s. build_nps_service_classification_key s = SERVICE_CLASSIFICATION k) (services st)))"

definition service_info_ok :: "cp_env \<Rightarrow> cp_state \<Rightarrow> bool" where
  "service_info_ok e st \<longleftrightarrow> (\<forall>s \<in> set (services st). \<exists>c.
     nps st (build_nps_service_info_key s) =
       Some (ServiceInfo (build_nps_service_info_result e (s\<lparr>svc_sched_entries_count := c\<rparr>))))"

text \<open>Every active server has its server information entry.\<close>

definition server_info_ok :: "cp_state \<Rightarrow> bool" where
  "server_info_ok st \<longleftrightarrow> (\<forall>r \<in> set (servers st). srv_active (snd r) = 1 \<longrightarrow>
     nps st (build_nps_server_info_key (snd r)) = Some (ServerInfo (build_nps_server_info_result (snd r))))"

definition cp_inv :: "cp_env \<Rightarrow> cp_state \<Rightarrow> bool" where
  "cp_inv e st \<longleftrightarrow> service_rows_ok st \<and> server_rows_ok st \<and> service_class_ok st \<and>
     service_info_ok e st \<and> server_info_ok st"

subsection \<open>Ownership of indexes\<close>

lemma owned_alloc:
  assumes "owned ixs pool n" "index_pool_alloc pool = Some (i, pool')"
  shows "owned (ixs @ [i]) pool' n" "i \<notin> set ixs" "unat i < n"
  using assms pool.alloc_some [of pool i pool'] by (auto simp: owned_def)

lemma owned_release:
  assumes "owned ixs pool n" "i \<in> set ixs"
  shows "owned (removeAll i ixs) (index_pool_release pool i) n"
  using assms pool.release_spec [of pool i] by (auto simp: owned_def fifo_release_def distinct_removeAll)

lemma owned_bound: "owned ixs pool n \<Longrightarrow> i \<in> set ixs \<Longrightarrow> unat i < n"
  by (auto simp: owned_def)

lemma owned_cong: "mset ixs = mset ixs' \<Longrightarrow> owned ixs pool n = owned ixs' pool n"
  unfolding owned_def
  by (metis (no_types, opaque_lifting) distinct_append mset_eq_imp_distinct_iff mset_eq_setD set_append)

lemma owned_clock: "owned ixs pool n \<Longrightarrow> distinct ixs"
  by (simp add: owned_def)

subsection \<open>Finding services and servers\<close>

lemma requested_key [simp]:
  "svc_key (requested_service u) = (bswap_32 (ivs_addr u), bswap_16 (ivs_port u), ivs_protocol u)"
  by (simp add: svc_key_def requested_service_def)

lemma find_unique:
  assumes "distinct (map f xs)" "x \<in> set xs"
  shows "find (\<lambda>y. f y = f x) xs = Some x"
proof -
  obtain y where y: "find (\<lambda>y. f y = f x) xs = Some y"
    using assms(2) by (cases "find (\<lambda>y. f y = f x) xs") (auto simp: find_None_iff)
  then have "y \<in> set xs" "f y = f x" by (auto simp: find_Some_iff)
  then have "y = x" using assms by (auto simp: distinct_map inj_on_def)
  then show ?thesis using y by simp
qed

lemma get_service_some:
  assumes "all_calls_ok e" "distinct (map svc_key (services st))" "s \<in> set (services st)"
    and "svc_key (requested_service u) = svc_key s"
  shows "internal_db_get_service e (requested_service u) full st =
    (ALVS_DB_OK, if full then s else requested_service u, st\<lparr>clock := Suc (clock st)\<rparr>)"
proof -
  have "find (\<lambda>t. svc_key t = svc_key (requested_service u)) (services st) = Some s"
    unfolding assms(4) by (rule find_unique [OF assms(2,3)])
  then show ?thesis
    using assms(1,4)
    by (cases s) (auto simp: internal_db_get_service_def db_simps svc_key_def requested_service_def)
qed

lemma get_service_none:
  assumes "all_calls_ok e" "svc_key (requested_service u) \<notin> svc_key ` set (services st)"
  shows "internal_db_get_service e (requested_service u) full st =
    (ALVS_DB_FAILURE, requested_service u, st\<lparr>clock := Suc (clock st)\<rparr>)"
proof -
  have "find (\<lambda>t. svc_key t = svc_key (requested_service u)) (services st) = None"
    using assms(2) unfolding find_None_iff by (metis imageI)
  then show ?thesis using assms(1) by (simp add: internal_db_get_service_def db_simps)
qed

lemma with_service_some:
  assumes "all_calls_ok e" "distinct (map svc_key (services st))" "s \<in> set (services st)"
    and "svc_key (requested_service u) = svc_key s"
  shows "with_service e u body st = body s (st\<lparr>clock := Suc (clock st)\<rparr>)"
  using get_service_some [OF assms] by (simp add: with_service_def)

lemma with_service_none:
  assumes "all_calls_ok e" "svc_key (requested_service u) \<notin> svc_key ` set (services st)"
  shows "with_service e u body st = (ALVS_DB_FAILURE, st\<lparr>clock := Suc (clock st)\<rparr>)"
  using get_service_none [OF assms] by (simp add: with_service_def)

lemma same_server_row_key: "same_server k v r \<longleftrightarrow> row_key r = (k, srv_ip v, srv_port v)"
  by (auto simp: same_server_def row_key_def)

lemma get_server_some:
  assumes "all_calls_ok e" "distinct (map row_key (servers st))" "r \<in> set (servers st)"
    and "row_key r = (svc_key s, srv_ip (requested_server d), srv_port (requested_server d))"
  shows "internal_db_get_server e s (requested_server d) st =
    (ALVS_DB_OK, (snd r)\<lparr>srv_stats := srv_stats zero_server\<rparr>, st\<lparr>clock := Suc (clock st)\<rparr>)"
proof -
  have "find (same_server (svc_key s) (requested_server d)) (servers st) = Some r"
    unfolding same_server_row_key assms(4) [symmetric] by (rule find_unique [OF assms(2,3)])
  then show ?thesis
    using assms(1,4)
    by (cases "snd r") (auto simp: internal_db_get_server_def db_simps row_key_def requested_server_def zero_server_def)
qed

lemma get_server_none:
  assumes "all_calls_ok e"
    and "(svc_key s, srv_ip (requested_server d), srv_port (requested_server d)) \<notin> row_key ` set (servers st)"
  shows "internal_db_get_server e s (requested_server d) st =
    (ALVS_DB_FAILURE, requested_server d, st\<lparr>clock := Suc (clock st)\<rparr>)"
proof -
  have "find (same_server (svc_key s) (requested_server d)) (servers st) = None"
    using assms(2) unfolding find_None_iff same_server_row_key by (metis imageI)
  then show ?thesis using assms(1) by (simp add: internal_db_get_server_def db_simps)
qed

subsection \<open>Frame rules of the invariant\<close>

lemma class_key_inj [simp]:
  "build_nps_service_classification_key s = build_nps_service_classification_key t \<longleftrightarrow> svc_key s = svc_key t"
  by (simp add: build_nps_service_classification_key_def svc_key_def)

lemma class_key_cases: "\<exists>k. build_nps_service_classification_key s = SERVICE_CLASSIFICATION k"
  by (simp add: build_nps_service_classification_key_def)

lemma server_result_stats [simp]:
  "build_nps_server_info_result (v\<lparr>srv_stats := x\<rparr>) = build_nps_server_info_result v"
  "build_nps_server_info_key (v\<lparr>srv_stats := x\<rparr>) = build_nps_server_info_key v"
  by (simp_all add: build_nps_server_info_result_def build_nps_server_info_key_def)

lemma ucast_u8_inj:
  assumes "unat (a :: u32) < 256" "unat (b :: u32) < 256"
  shows "(ucast a :: u8) = ucast b \<longleftrightarrow> a = b"
proof
  assume "(ucast a :: u8) = ucast b"
  then have "unat (ucast a :: u8) = unat (ucast b :: u8)" by simp
  then show "a = b" using assms by (simp add: unsigned_ucast_eq take_bit_eq_mod word_unat_eq_iff)
qed simp

lemma info_key_inj:
  assumes "unat (svc_nps_index s) < 256" "unat (svc_nps_index t) < 256"
  shows "build_nps_service_info_key s = build_nps_service_info_key t \<longleftrightarrow> svc_nps_index s = svc_nps_index t"
  using ucast_u8_inj [OF assms] by (simp add: build_nps_service_info_key_def)

lemma server_key_inj [simp]:
  "build_nps_server_info_key v = build_nps_server_info_key w \<longleftrightarrow> srv_nps_index v = srv_nps_index w"
  by (simp add: build_nps_server_info_key_def)

lemma service_index_bound: "service_rows_ok st \<Longrightarrow> s \<in> set (services st) \<Longrightarrow> unat (svc_nps_index s) < 256"
  unfolding service_rows_ok_def ALVS_SERVICES_MAX_ENTRIES_def by (metis owned_bound image_eqI list.set_map)

lemma service_index_unique:
  "service_rows_ok st \<Longrightarrow> s \<in> set (services st) \<Longrightarrow> t \<in> set (services st) \<Longrightarrow>
   svc_nps_index s = svc_nps_index t \<Longrightarrow> s = t"
  using owned_clock [of "map svc_nps_index (services st)"]
  by (auto simp: service_rows_ok_def distinct_map inj_on_def)

lemma service_key_unique:
  "service_rows_ok st \<Longrightarrow> s \<in> set (services st) \<Longrightarrow> t \<in> set (services st) \<Longrightarrow> svc_key s = svc_key t \<Longrightarrow> s = t"
  by (auto simp: service_rows_ok_def distinct_map inj_on_def)

text \<open>Structures other than the scheduling structure are not touched by a recalculation.\<close>

definition same_but_sched :: "cp_state \<Rightarrow> cp_state \<Rightarrow> bool" where
  "same_but_sched st st' \<longleftrightarrow> same_db st st' \<and> (\<forall>k. struct_of k \<noteq> STRUCT_ID_ALVS_SCHED_INFO \<longrightarrow> nps st' k = nps st k)"

lemma struct_of_builders [simp]:
  "struct_of (sched_key s j) = STRUCT_ID_ALVS_SCHED_INFO"
  "struct_of (build_nps_service_classification_key s) = STRUCT_ID_ALVS_SERVICE_CLASSIFICATION"
  "struct_of (build_nps_service_info_key s) = STRUCT_ID_ALVS_SERVICE_INFO"
  "struct_of (build_nps_server_info_key v) = STRUCT_ID_ALVS_SERVER_INFO"
  "struct_of (build_nps_server_classification_key s v) = STRUCT_ID_ALVS_SERVER_CLASSIFICATION"
  by (simp_all add: sched_key_def build_nps_service_classification_key_def build_nps_service_info_key_def
      build_nps_server_info_key_def build_nps_server_classification_key_def)

lemma recalculate_frame:
  assumes "all_calls_ok e" "select_ok e" "unat (svc_nps_index s) < 256" "supported_sched_alg (svc_sched_alg s)"
  shows "\<exists>c st'. alvs_db_recalculate_scheduling_info e s st =
    (ALVS_DB_OK, s\<lparr>svc_sched_entries_count := c\<rparr>, st') \<and> same_but_sched st st'"
proof -
  obtain L b st' where r: "alvs_db_recalculate_scheduling_info e s st =
      (ALVS_DB_OK, s\<lparr>svc_sched_entries_count := of_nat (filled b)\<rparr>, st')" "same_db st st'"
    "\<forall>k. (\<forall>j < 256. k \<noteq> sched_key s j) \<longrightarrow> nps st' k = nps st k"
    using recalculate_spec [OF assms] by blast
  have "nps st' k = nps st k" if "struct_of k \<noteq> STRUCT_ID_ALVS_SCHED_INFO" for k
    using r(3) that struct_of_builders(1) by metis
  then show ?thesis using r(1,2) by (auto simp: same_but_sched_def)
qed

lemma cp_inv_same_but_sched:
  assumes "same_but_sched st st'"
  shows "cp_inv e st' = cp_inv e st"
  using assms
  unfolding cp_inv_def same_but_sched_def same_db_def service_rows_ok_def server_rows_ok_def
    service_class_ok_def service_info_ok_def server_info_ok_def
  by simp

lemma cp_inv_clock [simp]: "cp_inv e (st\<lparr>clock := c\<rparr>) = cp_inv e st"
  by (simp add: cp_inv_def service_rows_ok_def server_rows_ok_def service_class_ok_def
      service_info_ok_def server_info_ok_def)

subsection \<open>Adding a service\<close>

definition new_service :: "cp_env \<Rightarrow> ip_vs_service_user \<Rightarrow> u32 \<Rightarrow> alvs_db_service" where
  "new_service e u i = (requested_service u)\<lparr>svc_nps_index := i,
     svc_sched_alg := get_sched_alg (ivs_sched_name u), svc_flags := ivs_flags u,
     svc_sched_entries_count := 0,
     svc_stats_base := BUILD_SUM_ADDR (EZDP_EXTERNAL_MS e) USER_POSTED_STATS_MSID
       (of_nat EMEM_SERVICE_STATS_POSTED_OFFSET + i * of_nat ALVS_NUM_OF_SERVICE_STATS)\<rparr>"

lemma new_service_key [simp]: "svc_key (new_service e u i) = svc_key (requested_service u)"
  by (simp add: new_service_def svc_key_def)

lemma add_service_run:
  assumes "all_calls_ok e" "supported_protocol (ivs_protocol u)"
    and "supported_sched_alg (get_sched_alg (ivs_sched_name u))"
    and "svc_key (requested_service u) \<notin> svc_key ` set (services st)"
    and "index_pool_alloc (service_index_pool st) = Some (i, pool')"
  shows "\<exists>st'. alvs_db_add_service e u st = (ALVS_DB_OK, st') \<and>
    services st' = services st @ [new_service e u i] \<and> servers st' = servers st \<and>
    service_index_pool st' = pool' \<and> server_index_pool st' = server_index_pool st \<and>
    nps st' = (nps st)
      (build_nps_service_info_key (new_service e u i) \<mapsto>
         ServiceInfo (build_nps_service_info_result e (new_service e u i)),
       build_nps_service_classification_key (new_service e u i) \<mapsto>
         ServiceClassification (build_nps_service_classification_result (new_service e u i)))"
  using assms get_service_none [OF assms(1,4), of False]
  by (simp add: alvs_db_add_service_def Let_def alvs_db_clean_service_stats_def
      infra_clear_posted_counters_def internal_db_add_service_def infra_add_entry_def db_simps
      new_service_def [symmetric])

lemma find_append: "find P (xs @ ys) = (case find P xs of None \<Rightarrow> find P ys | Some x \<Rightarrow> Some x)"
  by (induction xs) simp_all

lemma service_class_add:
  assumes "service_class_ok st" "services st' = services st @ [s]" "svc_key s \<notin> svc_key ` set (services st)"
    and "nps st' = (nps st)(kk \<mapsto> rr, build_nps_service_classification_key s \<mapsto>
       ServiceClassification (build_nps_service_classification_result s))"
    and "struct_of kk \<noteq> STRUCT_ID_ALVS_SERVICE_CLASSIFICATION"
  shows "service_class_ok st'"
  unfolding service_class_ok_def
proof
  fix k
  have kk: "kk \<noteq> SERVICE_CLASSIFICATION k" using assms(5) by auto
  show "nps st' (SERVICE_CLASSIFICATION k) = map_option
        (\<lambda>s. ServiceClassification (build_nps_service_classification_result s))
        (find (\<lambda>s. build_nps_service_classification_key s = SERVICE_CLASSIFICATION k) (services st'))"
  proof (cases "build_nps_service_classification_key s = SERVICE_CLASSIFICATION k")
    case True
    have "find (\<lambda>t. build_nps_service_classification_key t = SERVICE_CLASSIFICATION k) (services st) = None"
      using assms(3) unfolding find_None_iff True [symmetric] class_key_inj by (metis imageI)
    then show ?thesis using True assms(2,4) by (simp add: find_append)
  next
    case False
    then show ?thesis
      using assms(1,2,4) kk by (auto simp: service_class_ok_def find_append fun_upd_apply split: option.splits)
  qed
qed

lemma add_service_inv:
  assumes "all_calls_ok e" "cp_inv e st" "alvs_db_add_service e u st = (rc, st')"
  shows "cp_inv e st' \<and> rc \<in> {ALVS_DB_OK, ALVS_DB_FAILURE, ALVS_DB_NOT_SUPPORTED}"
proof (cases "supported_protocol (ivs_protocol u) \<and> supported_sched_alg (get_sched_alg (ivs_sched_name u))")
  case False
  then show ?thesis using assms by (auto simp: alvs_db_add_service_def split: if_splits)
next
  case sup: True
  have rows: "service_rows_ok st" using assms(2) by (simp add: cp_inv_def)
  show ?thesis
  proof (cases "svc_key (requested_service u) \<in> svc_key ` set (services st)")
    case True
    then obtain s where "s \<in> set (services st)" "svc_key (requested_service u) = svc_key s" by auto
    then have "internal_db_get_service e (requested_service u) False st =
        (ALVS_DB_OK, requested_service u, st\<lparr>clock := Suc (clock st)\<rparr>)"
      using get_service_some [OF assms(1)] rows by (simp add: service_rows_ok_def)
    then show ?thesis using assms sup by (auto simp: alvs_db_add_service_def)
  next
    case new: False
    note none = get_service_none [OF assms(1) new, of False]
    show ?thesis
    proof (cases "index_pool_alloc (service_index_pool st)")
      case None
      then show ?thesis using assms sup none by (auto simp: alvs_db_add_service_def)
    next
      case (Some a)
      then obtain i pool' where al: "index_pool_alloc (service_index_pool st) = Some (i, pool')"
        by (cases a) auto
      let ?s = "new_service e u i"
      obtain st1 where st1: "alvs_db_add_service e u st = (ALVS_DB_OK, st1)"
        "services st1 = services st @ [?s]" "servers st1 = servers st"
        "service_index_pool st1 = pool'" "server_index_pool st1 = server_index_pool st"
        "nps st1 = (nps st)(build_nps_service_info_key ?s \<mapsto> ServiceInfo (build_nps_service_info_result e ?s),
           build_nps_service_classification_key ?s \<mapsto>
             ServiceClassification (build_nps_service_classification_result ?s))"
        using add_service_run [OF assms(1) _ _ new al] sup by blast
      have st': "st' = st1" using st1(1) assms(3) by simp
      have own: "owned (map svc_nps_index (services st)) (service_index_pool st) 256"
        using rows by (simp add: service_rows_ok_def ALVS_SERVICES_MAX_ENTRIES_def)
      note al' = owned_alloc [OF own al]
      have idx [simp]: "svc_nps_index ?s = i" by (simp add: new_service_def)
      have "service_rows_ok st1"
        using rows new al'(1) sup st1
        by (auto simp: service_rows_ok_def ALVS_SERVICES_MAX_ENTRIES_def) (simp add: new_service_def)
      moreover have "server_rows_ok st1" using assms(2) st1 by (simp add: cp_inv_def server_rows_ok_def)
      moreover have "service_class_ok st1"
        by (rule service_class_add [OF _ st1(2) _ st1(6)])
          (use assms(2) new in \<open>simp_all add: cp_inv_def\<close>)
      moreover have "service_info_ok e st1"
      proof -
        have keep: "build_nps_service_info_key t \<noteq> build_nps_service_info_key ?s" if "t \<in> set (services st)" for t
          using that al'(2,3) service_index_bound [OF rows that] by (subst info_key_inj) auto
        have "\<exists>c. ?s = ?s\<lparr>svc_sched_entries_count := c\<rparr>" by (rule exI [of _ 0]) (simp add: new_service_def)
        then show ?thesis
          using assms(2) keep unfolding cp_inv_def service_info_ok_def st1(2,6)
          by (auto simp: build_nps_service_classification_key_def build_nps_service_info_key_def) metis
      qed
      moreover have "server_info_ok st1"
        using assms(2) unfolding cp_inv_def server_info_ok_def st1(3,6)
        by (simp add: build_nps_server_info_key_def build_nps_service_info_key_def
            build_nps_service_classification_key_def)
      ultimately show ?thesis using st1(1) assms(3) by (auto simp: st' cp_inv_def)
    qed
  qed
qed

subsection \<open>Publishing a service\<close>

text \<open>Writing the service's NPS entry, with any count, keeps the invariant.\<close>

lemma publish_inv:
  assumes inv: "cp_inv e st" and s: "s \<in> set (services st)" and same: "same_db st st'"
    and nps': "nps st' = (nps st)(build_nps_service_info_key s \<mapsto>
      ServiceInfo (build_nps_service_info_result e (s\<lparr>svc_sched_entries_count := c\<rparr>)))"
  shows "cp_inv e st'"
proof -
  have rows: "service_rows_ok st" using inv by (simp add: cp_inv_def)
  have "service_info_ok e st'"
    unfolding service_info_ok_def
  proof
    fix t assume "t \<in> set (services st')"
    then have t: "t \<in> set (services st)" using same by (simp add: same_db_def)
    show "\<exists>c. nps st' (build_nps_service_info_key t) =
        Some (ServiceInfo (build_nps_service_info_result e (t\<lparr>svc_sched_entries_count := c\<rparr>)))"
    proof (cases "t = s")
      case True
      then show ?thesis by (auto simp: nps')
    next
      case False
      then have "build_nps_service_info_key t \<noteq> build_nps_service_info_key s"
        using info_key_inj service_index_bound [OF rows] service_index_unique [OF rows] s t by metis
      then show ?thesis using inv t by (simp add: nps' cp_inv_def service_info_ok_def)
    qed
  qed
  moreover have "service_class_ok st'" "server_info_ok st'"
    using inv same
    by (auto simp: cp_inv_def service_class_ok_def server_info_ok_def same_db_def nps'
        build_nps_service_info_key_def build_nps_server_info_key_def)
  ultimately show ?thesis
    using inv same by (simp add: cp_inv_def same_db_def service_rows_ok_def server_rows_ok_def)
qed

text \<open>The \<open>UPDATE\<close> of \<open>internal_db_modify_service\<close> together with the service's NPS entry.\<close>

definition update_service_row :: "alvs_db_service \<Rightarrow> alvs_db_service \<Rightarrow> alvs_db_service" where
  "update_service_row s' t = (if svc_key t = svc_key s'
     then t\<lparr>svc_flags := svc_flags s', svc_sched_alg := svc_sched_alg s',
            svc_sched_entries_count := svc_sched_entries_count s'\<rparr> else t)"

lemma update_service_row_fields [simp]:
  "svc_key (update_service_row s' t) = svc_key t" "svc_nps_index (update_service_row s' t) = svc_nps_index t"
  by (simp_all add: update_service_row_def svc_key_def)

lemma modify_service_ok [db_simps]:
  "all_calls_ok e \<Longrightarrow> internal_db_modify_service e s' st =
     (ALVS_DB_OK, st\<lparr>clock := Suc (clock st), services := map (update_service_row s') (services st)\<rparr>)"
  by (simp add: internal_db_modify_service_def db_simps update_service_row_def [abs_def])

lemma find_map_key:
  "(\<And>t. P (f t) = P t) \<Longrightarrow> find P (map f xs) = map_option f (find P xs)"
  by (induction xs) auto

lemma modify_rows_inv:
  assumes inv: "cp_inv e st" and s: "s \<in> set (services st)"
    and s': "s' = s\<lparr>svc_flags := fl, svc_sched_alg := alg, svc_sched_entries_count := c\<rparr>"
    and sup: "supported_sched_alg alg"
    and rows': "services st' = map (update_service_row s') (services st)"
    and same: "same_db (st\<lparr>services := services st'\<rparr>) st'"
    and nps': "nps st' = (nps st)(build_nps_service_info_key s' \<mapsto>
      ServiceInfo (build_nps_service_info_result e s'))"
  shows "cp_inv e st'"
proof -
  have rows: "service_rows_ok st" using inv by (simp add: cp_inv_def)
  have hit: "update_service_row s' s = s'" by (simp add: update_service_row_def s' svc_key_def)
  have other: "update_service_row s' t = t" if "t \<in> set (services st)" "t \<noteq> s" for t
    using service_key_unique [OF rows that(1) s] that(2) by (auto simp: update_service_row_def s' svc_key_def)
  have set': "set (services st') = insert s' (set (services st) - {s})"
  proof -
    have "update_service_row s' ` (set (services st) - {s}) = (\<lambda>t. t) ` (set (services st) - {s})"
      using other by (intro image_cong) auto
    then have "update_service_row s' ` insert s (set (services st) - {s}) = insert s' (set (services st) - {s})"
      by (simp only: image_insert hit image_ident)
    then show ?thesis using s by (simp add: rows' insert_absorb)
  qed
  have idx: "build_nps_service_info_key s' = build_nps_service_info_key s" "svc_nps_index s' = svc_nps_index s"
    by (simp_all add: s' build_nps_service_info_key_def)
  have "map svc_key (services st') = map svc_key (services st)"
    "map svc_nps_index (services st') = map svc_nps_index (services st)"
    by (simp_all add: rows')
  then have "service_rows_ok st'"
    using rows same sup set' by (auto simp: service_rows_ok_def same_db_def s')
  moreover have "server_rows_ok st'" "server_info_ok st'"
    using inv same by (auto simp: cp_inv_def server_rows_ok_def server_info_ok_def same_db_def nps'
        build_nps_server_info_key_def build_nps_service_info_key_def)
  moreover have "service_class_ok st'"
  proof -
    have key: "build_nps_service_classification_key (update_service_row s' t) = build_nps_service_classification_key t"
      "build_nps_service_classification_result (update_service_row s' t) = build_nps_service_classification_result t" for t
      by (simp_all add: build_nps_service_classification_result_def)
    show ?thesis
      using inv unfolding cp_inv_def service_class_ok_def nps' rows'
      by (simp add: find_map_key key option.map_comp comp_def build_nps_service_info_key_def)
  qed
  moreover have "service_info_ok e st'"
    unfolding service_info_ok_def
  proof
    fix t assume "t \<in> set (services st')"
    then consider "t = s'" | "t \<in> set (services st)" "t \<noteq> s" using set' by auto
    then show "\<exists>c. nps st' (build_nps_service_info_key t) =
        Some (ServiceInfo (build_nps_service_info_result e (t\<lparr>svc_sched_entries_count := c\<rparr>)))"
    proof cases
      case 1
      then show ?thesis by (intro exI [of _ c]) (simp add: nps' s')
    next
      case 2
      then have "build_nps_service_info_key t \<noteq> build_nps_service_info_key s"
        using info_key_inj service_index_bound [OF rows] service_index_unique [OF rows] s by metis
      then show ?thesis using inv 2 by (simp add: nps' idx cp_inv_def service_info_ok_def)
    qed
  qed
  ultimately show ?thesis by (simp add: cp_inv_def)
qed

lemma modify_info_ok [db_simps]:
  "all_calls_ok e \<Longrightarrow> modify_service_info_entry e s st = (True, st\<lparr>clock := Suc (clock st),
     nps := (nps st)(build_nps_service_info_key s \<mapsto> ServiceInfo (build_nps_service_info_result e s))\<rparr>)"
  "all_calls_ok e \<Longrightarrow> modify_server_info_entry e v st = (True, st\<lparr>clock := Suc (clock st),
     nps := (nps st)(build_nps_server_info_key v \<mapsto> ServerInfo (build_nps_server_info_result v))\<rparr>)"
  by (simp_all add: modify_service_info_entry_def modify_server_info_entry_def infra_modify_entry_def db_simps)

lemma same_but_sched_services: "same_but_sched st st' \<Longrightarrow> services st' = services st"
  by (simp add: same_but_sched_def same_db_def)

lemma modify_service_inv:
  assumes ok: "all_calls_ok e" "select_ok e" and inv: "cp_inv e st"
    and run: "alvs_db_modify_service e u st = (rc, st')"
  shows "cp_inv e st' \<and> rc \<in> {ALVS_DB_OK, ALVS_DB_FAILURE, ALVS_DB_NOT_SUPPORTED}"
proof (cases "supported_sched_alg (get_sched_alg (ivs_sched_name u)) \<and>
    svc_key (requested_service u) \<in> svc_key ` set (services st)")
  case False
  then show ?thesis
    using run inv with_service_none [OF ok(1), of u st]
    by (auto simp: alvs_db_modify_service_def split: if_splits)
next
  case True
  then obtain s where s: "s \<in> set (services st)" "svc_key (requested_service u) = svc_key s"
    and sup: "supported_sched_alg (get_sched_alg (ivs_sched_name u))" by auto
  have rows: "service_rows_ok st" using inv by (simp add: cp_inv_def)
  define s0 where "s0 = s\<lparr>svc_sched_alg := get_sched_alg (ivs_sched_name u), svc_flags := ivs_flags u\<rparr>"
  let ?st = "st\<lparr>clock := Suc (clock st)\<rparr>"
  obtain c st1 where st1: "(if svc_sched_alg s \<noteq> svc_sched_alg s0 then alvs_db_recalculate_scheduling_info e s0 ?st
      else (ALVS_DB_OK, s0, ?st)) = (ALVS_DB_OK, s0\<lparr>svc_sched_entries_count := c\<rparr>, st1)" "same_but_sched ?st st1"
  proof (cases "svc_sched_alg s \<noteq> svc_sched_alg s0")
    case True
    then show ?thesis
      using that recalculate_frame [OF ok, of s0 ?st] service_index_bound [OF rows s(1)] sup
      by (auto simp: s0_def)
  next
    case False
    then show ?thesis
      using that [of "svc_sched_entries_count s0" ?st] by (simp add: same_but_sched_def)
  qed
  let ?s1 = "s0\<lparr>svc_sched_entries_count := c\<rparr>"
  have inv1: "cp_inv e st1" using cp_inv_same_but_sched [OF st1(2)] inv by simp
  have s1: "s \<in> set (services st1)" using same_but_sched_services [OF st1(2)] s(1) by simp
  have "alvs_db_modify_service e u st =
      (case (if svc_sched_alg s \<noteq> svc_sched_alg s0 then alvs_db_recalculate_scheduling_info e s0 ?st
        else (ALVS_DB_OK, s0, ?st)) of (rc, cp_service, st) \<Rightarrow>
        if rc \<noteq> ALVS_DB_OK then (rc, st)
        else let (rc, st) = internal_db_modify_service e cp_service st in
          if rc = ALVS_DB_INTERNAL_ERROR then (ALVS_DB_INTERNAL_ERROR, st)
          else let (ok, st) = modify_service_info_entry e cp_service st in
            if \<not> ok then (ALVS_DB_NPS_ERROR, st) else (ALVS_DB_OK, st))"
    using with_service_some [OF ok(1) _ s] rows sup
    by (simp add: alvs_db_modify_service_def service_rows_ok_def s0_def Let_def)
  then have "alvs_db_modify_service e u st = (ALVS_DB_OK, st1\<lparr>
      services := map (update_service_row ?s1) (services st1), clock := Suc (Suc (clock st1)),
      nps := (nps st1)(build_nps_service_info_key ?s1 \<mapsto> ServiceInfo (build_nps_service_info_result e ?s1))\<rparr>)"
    unfolding st1(1) using ok(1) by (simp add: db_simps)
  then show ?thesis
    using run modify_rows_inv [OF inv1 s1 _ sup, where s' = ?s1 and fl = "ivs_flags u" and c = c and st' = st']
    by (auto simp: s0_def same_db_def)
qed

subsection \<open>Deleting a service\<close>

lemma deactivate_loop_frame:
  assumes "all_calls_ok e" "k > 0 \<longrightarrow> L \<noteq> []"
  shows "\<exists>st'. deactivate_loop k e L st = (True, st') \<and> same_db st st' \<and>
    (\<forall>key. (k > 0 \<longrightarrow> key \<noteq> build_nps_server_info_key (L ! 0)) \<longrightarrow> nps st' key = nps st key)"
  using assms(2)
proof (induction k arbitrary: L st)
  case (Suc k)
  let ?L = "L[0 := (L ! 0)\<lparr>srv_server_flags := not_available (srv_server_flags (L ! 0))\<rparr>]"
  define st1 where "st1 = st\<lparr>clock := Suc (clock st), nps := (nps st)(build_nps_server_info_key (?L ! 0) \<mapsto>
      ServerInfo (build_nps_server_info_result (?L ! 0)))\<rparr>"
  have key: "build_nps_server_info_key (?L ! 0) = build_nps_server_info_key (L ! 0)"
    using Suc.prems by (simp add: build_nps_server_info_key_def)
  obtain st' where "deactivate_loop k e ?L st1 = (True, st')" "same_db st1 st'"
    "\<forall>key. (k > 0 \<longrightarrow> key \<noteq> build_nps_server_info_key (?L ! 0)) \<longrightarrow> nps st' key = nps st1 key"
    using Suc.IH [of ?L st1] Suc.prems by (auto simp del: nth_list_update_eq)
  moreover have "deactivate_loop (Suc k) e L st = deactivate_loop k e ?L st1"
    using assms(1) by (simp add: db_simps st1_def Let_def)
  ultimately show ?case using key by (auto simp: same_db_def st1_def simp del: nth_list_update_eq)
qed simp

lemma row_key_deactivate [simp]: "row_key (deactivate_row r) = row_key r" "fst (deactivate_row r) = fst r"
  "srv_nps_index (snd (deactivate_row r)) = srv_nps_index (snd r)" "srv_active (snd (deactivate_row r)) = 0"
  by (simp_all add: deactivate_row_def row_key_def)

lemma server_index_unique:
  "server_rows_ok st \<Longrightarrow> r \<in> set (servers st) \<Longrightarrow> q \<in> set (servers st) \<Longrightarrow>
   srv_nps_index (snd r) = srv_nps_index (snd q) \<Longrightarrow> r = q"
  using owned_clock [of "map (\<lambda>r. srv_nps_index (snd r)) (servers st)"]
  by (auto simp: server_rows_ok_def distinct_map inj_on_def)

lemma map_filter_removeAll:
  assumes "distinct (map f xs)" "x \<in> set xs"
  shows "map f (filter (\<lambda>y. y \<noteq> x) xs) = removeAll (f x) (map f xs)"
proof -
  have "filter (\<lambda>y. y \<noteq> x) xs = filter (\<lambda>y. f x \<noteq> f y) xs"
    using assms by (intro filter_cong) (auto simp: distinct_map inj_on_def)
  then show ?thesis by (simp add: removeAll_filter_not_eq filter_map comp_def)
qed

lemma find_filter_keep: "\<forall>x \<in> set xs. P x \<longrightarrow> Q x \<Longrightarrow> find P (filter Q xs) = find P xs"
  by (induction xs) auto

lemma delete_rows_inv:
  assumes inv: "cp_inv e st" and s: "s \<in> set (services st)"
    and svcs: "services st' = filter (\<lambda>t. svc_key t \<noteq> svc_key s) (services st)"
    and srvs: "servers st' = map (\<lambda>r. if fst r = svc_key s then deactivate_row r else r) (servers st)"
    and pools: "service_index_pool st' = index_pool_release (service_index_pool st) (svc_nps_index s)"
      "server_index_pool st' = server_index_pool st"
    and cls: "nps st' (build_nps_service_classification_key s) = None"
    and keep: "\<And>k. k \<noteq> build_nps_service_classification_key s \<Longrightarrow> k \<noteq> build_nps_service_info_key s \<Longrightarrow>
      struct_of k \<noteq> STRUCT_ID_ALVS_SCHED_INFO \<Longrightarrow>
      (\<And>r. r \<in> set (servers st) \<Longrightarrow> fst r = svc_key s \<Longrightarrow> k \<noteq> build_nps_server_info_key (snd r)) \<Longrightarrow>
      nps st' k = nps st k"
  shows "cp_inv e st'"
proof -
  have rows: "service_rows_ok st" and srows: "server_rows_ok st" using inv by (simp_all add: cp_inv_def)
  have "filter (\<lambda>t. svc_key t \<noteq> svc_key s) (services st) = filter (\<lambda>t. t \<noteq> s) (services st)"
    using service_key_unique [OF rows _ s] by (intro filter_cong) auto
  moreover have "distinct (map svc_nps_index (services st))"
    using rows by (simp add: service_rows_ok_def owned_def)
  ultimately have idx: "map svc_nps_index (services st') = removeAll (svc_nps_index s) (map svc_nps_index (services st))"
    unfolding svcs using map_filter_removeAll s by metis
  have "service_rows_ok st'"
    using rows s owned_release [of "map svc_nps_index (services st)" "service_index_pool st" _ "svc_nps_index s"]
    by (auto simp: service_rows_ok_def idx pools(1)) (simp_all add: svcs distinct_map_filter)
  moreover have "server_rows_ok st'"
  proof -
    have "map row_key (servers st') = map row_key (servers st)"
      "map (\<lambda>r. srv_nps_index (snd r)) (servers st') = map (\<lambda>r. srv_nps_index (snd r)) (servers st)"
      by (auto simp: srvs)
    then show ?thesis using srows pools(2) by (simp add: server_rows_ok_def)
  qed
  moreover have "service_class_ok st'"
    unfolding service_class_ok_def
  proof
    fix k
    let ?P = "\<lambda>t. build_nps_service_classification_key t = SERVICE_CLASSIFICATION k"
    show "nps st' (SERVICE_CLASSIFICATION k) = map_option
        (\<lambda>s. ServiceClassification (build_nps_service_classification_result s)) (find ?P (services st'))"
    proof (cases "?P s")
      case True
      then have "find ?P (services st') = None"
        unfolding find_None_iff True [symmetric] by (auto simp: svcs)
      then show ?thesis using cls True by simp
    next
      case False
      then have "find ?P (services st') = find ?P (services st)"
        unfolding svcs by (intro find_filter_keep) (auto simp flip: class_key_inj)
      moreover have "nps st' (SERVICE_CLASSIFICATION k) = nps st (SERVICE_CLASSIFICATION k)"
        using False by (intro keep) (auto simp: build_nps_service_info_key_def build_nps_server_info_key_def)
      ultimately show ?thesis using inv by (simp add: cp_inv_def service_class_ok_def)
    qed
  qed
  moreover have "service_info_ok e st'"
    unfolding service_info_ok_def
  proof
    fix t assume "t \<in> set (services st')"
    then have t: "t \<in> set (services st)" "t \<noteq> s" by (auto simp: svcs)
    then have "build_nps_service_info_key t \<noteq> build_nps_service_info_key s"
      using info_key_inj service_index_bound [OF rows] service_index_unique [OF rows] s by metis
    then have "nps st' (build_nps_service_info_key t) = nps st (build_nps_service_info_key t)"
      by (intro keep) (auto simp: build_nps_service_info_key_def build_nps_server_info_key_def
          build_nps_service_classification_key_def)
    then show "\<exists>c. nps st' (build_nps_service_info_key t) =
        Some (ServiceInfo (build_nps_service_info_result e (t\<lparr>svc_sched_entries_count := c\<rparr>)))"
      using inv t by (simp add: cp_inv_def service_info_ok_def)
  qed
  moreover have "server_info_ok st'"
    unfolding server_info_ok_def
  proof (intro ballI impI)
    fix r assume "r \<in> set (servers st')" "srv_active (snd r) = 1"
    then have r: "r \<in> set (servers st)" "fst r \<noteq> svc_key s" "srv_active (snd r) = 1"
      by (auto simp: srvs split: if_splits)
    then have "nps st' (build_nps_server_info_key (snd r)) = nps st (build_nps_server_info_key (snd r))"
      using server_index_unique [OF srows r(1)]
      by (intro keep) (auto simp: build_nps_service_info_key_def build_nps_service_classification_key_def
          build_nps_server_info_key_def)
    then show "nps st' (build_nps_server_info_key (snd r)) = Some (ServerInfo (build_nps_server_info_result (snd r)))"
      using inv r by (simp add: cp_inv_def server_info_ok_def)
  qed
  ultimately show ?thesis by (simp add: cp_inv_def)
qed

lemma internal_delete_service_ok [db_simps]:
  "all_calls_ok e \<Longrightarrow> internal_db_delete_service e s st = (ALVS_DB_OK, st\<lparr>
     services := filter (\<lambda>t. svc_key t \<noteq> svc_key s) (services st), clock := Suc (Suc (clock st)),
     servers := map (\<lambda>r. if fst r = svc_key s then deactivate_row r else r) (servers st)\<rparr>)"
  by (simp add: internal_db_delete_service_def db_simps)

lemma delete_service_prefix:
  assumes "all_calls_ok e" "distinct (map svc_key (services st))" "s \<in> set (services st)"
    and "svc_key (requested_service u) = svc_key s"
  shows "\<exists>n st1. alvs_db_delete_service e u st =
      (case deactivate_loop (length (filter (server_selected (svc_key s) False True) (servers st))) e
         (map snd (select_order e n (filter (server_selected (svc_key s) False True) (servers st)))) st1 of
         (ok, st) \<Rightarrow> if \<not> ok then (ALVS_DB_NPS_ERROR, st)
           else let (rc, cp_service, st) = alvs_db_recalculate_scheduling_info e s st in (rc, st)) \<and>
    services st1 = filter (\<lambda>t. svc_key t \<noteq> svc_key s) (services st) \<and>
    servers st1 = map (\<lambda>r. if fst r = svc_key s then deactivate_row r else r) (servers st) \<and>
    service_index_pool st1 = index_pool_release (service_index_pool st) (svc_nps_index s) \<and>
    server_index_pool st1 = server_index_pool st \<and>
    nps st1 = (nps st)(build_nps_service_classification_key s := None, build_nps_service_info_key s := None)"
  unfolding alvs_db_delete_service_def with_service_some [OF assms]
  using assms(1)
  apply (simp add: db_simps infra_delete_entry_def Let_def)
  apply (intro exI conjI)
       apply (rule refl)
      apply simp_all
  done

lemma delete_service_run:
  assumes ok: "all_calls_ok e" "select_ok e" and inv: "cp_inv e st"
    and s: "s \<in> set (services st)" "svc_key (requested_service u) = svc_key s"
  shows "\<exists>st'. alvs_db_delete_service e u st = (ALVS_DB_OK, st') \<and>
    services st' = filter (\<lambda>t. svc_key t \<noteq> svc_key s) (services st) \<and>
    servers st' = map (\<lambda>r. if fst r = svc_key s then deactivate_row r else r) (servers st) \<and>
    service_index_pool st' = index_pool_release (service_index_pool st) (svc_nps_index s) \<and>
    server_index_pool st' = server_index_pool st \<and>
    nps st' (build_nps_service_classification_key s) = None \<and>
    nps st' (build_nps_service_info_key s) = None \<and>
    (\<forall>j < 256. nps st' (sched_key s j) = None) \<and>
    (\<forall>k. k \<noteq> build_nps_service_classification_key s \<longrightarrow> k \<noteq> build_nps_service_info_key s \<longrightarrow>
      struct_of k \<noteq> STRUCT_ID_ALVS_SCHED_INFO \<longrightarrow>
      (\<forall>r \<in> set (servers st). fst r = svc_key s \<longrightarrow> k \<noteq> build_nps_server_info_key (snd r)) \<longrightarrow>
      nps st' k = nps st k) \<and>
    (\<exists>i. \<forall>k. k \<noteq> build_nps_service_classification_key s \<longrightarrow> k \<noteq> build_nps_service_info_key s \<longrightarrow>
      struct_of k \<noteq> STRUCT_ID_ALVS_SCHED_INFO \<longrightarrow> k \<noteq> SERVER_INFO (bswap_32 i) \<longrightarrow> nps st' k = nps st k)"
proof -
  have rows: "service_rows_ok st" using inv by (simp add: cp_inv_def)
  have bound: "unat (svc_nps_index s) < 256" using service_index_bound [OF rows s(1)] .
  have sup: "supported_sched_alg (svc_sched_alg s)" using rows s(1) by (simp add: service_rows_ok_def)
  define act where "act = filter (server_selected (svc_key s) False True) (servers st)"
  obtain n st1 where pre: "alvs_db_delete_service e u st =
      (case deactivate_loop (length act) e (map snd (select_order e n act)) st1 of
         (ok, st) \<Rightarrow> if \<not> ok then (ALVS_DB_NPS_ERROR, st)
           else let (rc, cp_service, st) = alvs_db_recalculate_scheduling_info e s st in (rc, st))"
    and st1: "services st1 = filter (\<lambda>t. svc_key t \<noteq> svc_key s) (services st)"
      "servers st1 = map (\<lambda>r. if fst r = svc_key s then deactivate_row r else r) (servers st)"
      "service_index_pool st1 = index_pool_release (service_index_pool st) (svc_nps_index s)"
      "server_index_pool st1 = server_index_pool st"
      "nps st1 = (nps st)(build_nps_service_classification_key s := None, build_nps_service_info_key s := None)"
  proof -
    have "distinct (map svc_key (services st))" using rows by (simp add: service_rows_ok_def)
    from delete_service_prefix [OF ok(1) this s, folded act_def] show ?thesis
      by (elim exE conjE) (rule that)
  qed
  define L where "L = map snd (select_order e n act)"
  have L: "length act > 0 \<longrightarrow> L \<noteq> []"
    using length_select_order [OF ok(2), of n act] by (auto simp: L_def)
  obtain st2 where st2: "deactivate_loop (length act) e L st1 = (True, st2)" "same_db st1 st2"
    "\<forall>key. (length act > 0 \<longrightarrow> key \<noteq> build_nps_server_info_key (L ! 0)) \<longrightarrow> nps st2 key = nps st1 key"
    using deactivate_loop_frame [OF ok(1) L] by blast
  obtain M b st3 where st3: "alvs_db_recalculate_scheduling_info e s st2 =
      (ALVS_DB_OK, s\<lparr>svc_sched_entries_count := of_nat (filled b)\<rparr>, st3)"
    "mset M = mset (map snd (active_servers s st2))"
    "fill_servers_buckets (svc_sched_alg s) M (length M) = Some b" "same_db st2 st3"
    "\<forall>j < 256. nps st3 (sched_key s j) = sched_entry M (b ! j)"
    "\<forall>k. (\<forall>j < 256. k \<noteq> sched_key s j) \<longrightarrow> nps st3 k = nps st2 k"
    using recalculate_spec [OF ok bound sup, of st2] by blast
  have run: "alvs_db_delete_service e u st = (ALVS_DB_OK, st3)"
    using pre st2(1) st3(1) by (simp add: L_def)
  have none: "active_servers s st2 = []"
    using st2(2) by (auto simp: active_servers_def same_db_def st1 server_selected_def filter_empty_conv
        split: if_splits)
  have sched: "nps st3 (sched_key s j) = None" if "j < 256" for j
    using recalculate_entries [OF st3(2,3)] none st3(5) that by simp
  have L0: "\<exists>r \<in> set (servers st). fst r = svc_key s \<and> L ! 0 = snd r" if "length act > 0"
  proof -
    have "L ! 0 \<in> set L" using that L by (intro nth_mem) simp
    then show ?thesis using ok(2) by (auto simp: L_def act_def server_selected_def)
  qed
  have other: "nps st3 k = nps st1 k" if "struct_of k \<noteq> STRUCT_ID_ALVS_SCHED_INFO"
      "\<forall>r \<in> set (servers st). fst r = svc_key s \<longrightarrow> k \<noteq> build_nps_server_info_key (snd r)" for k
  proof -
    have "nps st3 k = nps st2 k" using st3(6) that(1) struct_of_builders(1) by metis
    also have "\<dots> = nps st1 k" using st2(3) that(2) L0 by metis
    finally show ?thesis .
  qed
  have keys: "nps st3 (build_nps_service_classification_key s) = None" "nps st3 (build_nps_service_info_key s) = None"
    using other [of "build_nps_service_classification_key s"] other [of "build_nps_service_info_key s"]
    by (simp_all add: st1 build_nps_service_classification_key_def build_nps_service_info_key_def
        build_nps_server_info_key_def)
  have db: "same_db st1 st3" using st2(2) st3(4) by (simp add: same_db_def)
  have "nps st3 k = nps st k" if "k \<noteq> build_nps_service_classification_key s" "k \<noteq> build_nps_service_info_key s"
    "struct_of k \<noteq> STRUCT_ID_ALVS_SCHED_INFO" "k \<noteq> SERVER_INFO (bswap_32 (srv_nps_index (L ! 0)))" for k
  proof -
    have "nps st3 k = nps st2 k" using st3(6) that(3) struct_of_builders(1) by metis
    also have "\<dots> = nps st1 k" using st2(3) that(4) by (simp add: build_nps_server_info_key_def)
    finally show ?thesis using that(1,2) by (simp add: st1)
  qed
  then have one: "\<exists>i. \<forall>k. k \<noteq> build_nps_service_classification_key s \<longrightarrow> k \<noteq> build_nps_service_info_key s \<longrightarrow>
      struct_of k \<noteq> STRUCT_ID_ALVS_SCHED_INFO \<longrightarrow> k \<noteq> SERVER_INFO (bswap_32 i) \<longrightarrow> nps st3 k = nps st k"
    by blast
  show ?thesis
    by (intro exI [of _ st3] conjI one run)
      (use sched other keys db in \<open>auto simp: same_db_def st1\<close>)
qed

lemma delete_service_inv:
  assumes ok: "all_calls_ok e" "select_ok e" and inv: "cp_inv e st"
    and run: "alvs_db_delete_service e u st = (rc, st')"
  shows "cp_inv e st' \<and> rc \<in> {ALVS_DB_OK, ALVS_DB_FAILURE, ALVS_DB_NOT_SUPPORTED}"
proof (cases "svc_key (requested_service u) \<in> svc_key ` set (services st)")
  case False
  then show ?thesis using run inv with_service_none [OF ok(1)] by (simp add: alvs_db_delete_service_def) auto
next
  case True
  then obtain s where s: "s \<in> set (services st)" "svc_key (requested_service u) = svc_key s" by auto
  then obtain st1 where st1: "alvs_db_delete_service e u st = (ALVS_DB_OK, st1)"
    "services st1 = filter (\<lambda>t. svc_key t \<noteq> svc_key s) (services st)"
    "servers st1 = map (\<lambda>r. if fst r = svc_key s then deactivate_row r else r) (servers st)"
    "service_index_pool st1 = index_pool_release (service_index_pool st) (svc_nps_index s)"
    "server_index_pool st1 = server_index_pool st"
    "nps st1 (build_nps_service_classification_key s) = None"
    "\<forall>k. k \<noteq> build_nps_service_classification_key s \<longrightarrow> k \<noteq> build_nps_service_info_key s \<longrightarrow>
      struct_of k \<noteq> STRUCT_ID_ALVS_SCHED_INFO \<longrightarrow>
      (\<forall>r \<in> set (servers st). fst r = svc_key s \<longrightarrow> k \<noteq> build_nps_server_info_key (snd r)) \<longrightarrow>
      nps st1 k = nps st k"
    using delete_service_run [OF ok inv] by blast
  have "cp_inv e st1"
    by (rule delete_rows_inv [OF inv s(1) st1(2-6)]) (use st1(7) in blast)
  then show ?thesis using st1(1) run by simp
qed

end
