(* ===== verification/Alvs_Server_Props.thy ===== *)
theory Alvs_Server_Props
  imports Alvs_DB_Props
begin

text \<open>
  The operations on servers keep the invariant of the application database, and the theorem that
  every sequence of requests does.
\<close>

subsection \<open>Changes of a server row\<close>

lemma server_row_unique:
  "server_rows_ok st \<Longrightarrow> r \<in> set (servers st) \<Longrightarrow> q \<in> set (servers st) \<Longrightarrow> row_key r = row_key q \<Longrightarrow> r = q"
  by (auto simp: server_rows_ok_def distinct_map inj_on_def)

lemma update_row_inv:
  assumes inv: "cp_inv e st" and r: "r \<in> set (servers st)"
    and f: "row_key (f r) = row_key r" "srv_nps_index (snd (f r)) = srv_nps_index (snd r)"
    and srvs: "servers st' = map (\<lambda>q. if row_key q = row_key r then f q else q) (servers st)"
    and same: "services st' = services st" "service_index_pool st' = service_index_pool st"
      "server_index_pool st' = server_index_pool st"
    and nps': "nps st' = (nps st)(build_nps_server_info_key (snd r) := x)"
    and x: "srv_active (snd (f r)) = 1 \<Longrightarrow> x = Some (ServerInfo (build_nps_server_info_result (snd (f r))))"
  shows "cp_inv e st'"
proof -
  have rows: "server_rows_ok st" using inv by (simp add: cp_inv_def)
  have upd: "(if row_key q = row_key r then f q else q) = (if q = r then f r else q)" if "q \<in> set (servers st)" for q
    using server_row_unique [OF rows that r] by auto
  have keys: "map row_key (servers st') = map row_key (servers st)"
    "map (\<lambda>r. srv_nps_index (snd r)) (servers st') = map (\<lambda>r. srv_nps_index (snd r)) (servers st)"
    using upd f by (auto simp: srvs)
  have "server_rows_ok st'" using rows same by (simp add: server_rows_ok_def keys same_db_def)
  moreover have "service_rows_ok st'" "service_class_ok st'" "service_info_ok e st'"
    using inv same by (auto simp: cp_inv_def service_rows_ok_def service_class_ok_def service_info_ok_def
        same_db_def nps' build_nps_server_info_key_def build_nps_service_info_key_def)
  moreover have "server_info_ok st'"
    unfolding server_info_ok_def
  proof (intro ballI impI)
    fix q assume "q \<in> set (servers st')" and act: "srv_active (snd q) = 1"
    then consider "q = f r" | "q \<in> set (servers st)" "q \<noteq> r" using upd r by (auto simp: srvs)
    then show "nps st' (build_nps_server_info_key (snd q)) = Some (ServerInfo (build_nps_server_info_result (snd q)))"
    proof cases
      case 1
      then show ?thesis using act x f(2) by (simp add: nps' build_nps_server_info_key_def)
    next
      case 2
      then have "srv_nps_index (snd q) \<noteq> srv_nps_index (snd r)" using server_index_unique [OF rows _ r] by blast
      then show ?thesis using inv 2 act by (simp add: nps' cp_inv_def server_info_ok_def)
    qed
  qed
  ultimately show ?thesis by (simp add: cp_inv_def)
qed

lemma new_row_inv:
  assumes inv: "cp_inv e st" and al: "index_pool_alloc (server_index_pool st) = Some (srv_nps_index v, pool')"
    and new: "row_key (k, v) \<notin> row_key ` set (servers st)"
    and srvs: "servers st' = servers st @ [(k, v)]" and pool': "server_index_pool st' = pool'"
    and same: "services st' = services st" "service_index_pool st' = service_index_pool st"
    and nps': "nps st' = (nps st)(build_nps_server_info_key v \<mapsto> ServerInfo (build_nps_server_info_result v))"
  shows "cp_inv e st'"
proof -
  have rows: "server_rows_ok st" using inv by (simp add: cp_inv_def)
  then have own: "owned (map (\<lambda>r. srv_nps_index (snd r)) (servers st)) (server_index_pool st) 32768"
    by (simp add: server_rows_ok_def)
  note al' = owned_alloc [OF own al]
  have "server_rows_ok st'" using rows new al'(1) by (auto simp: server_rows_ok_def srvs pool')
  moreover have "service_rows_ok st'" "service_class_ok st'" "service_info_ok e st'"
    using inv same by (auto simp: cp_inv_def service_rows_ok_def service_class_ok_def service_info_ok_def
        nps' build_nps_server_info_key_def build_nps_service_info_key_def)
  moreover have "server_info_ok st'"
    using inv al'(2) unfolding server_info_ok_def cp_inv_def srvs nps' set_append
    by (auto simp: image_iff)
  ultimately show ?thesis by (simp add: cp_inv_def)
qed

lemma cp_inv_server_class [simp]:
  "cp_inv e (st\<lparr>nps := (nps st)(SERVER_CLASSIFICATION k := x)\<rparr>) = cp_inv e st"
  "cp_inv e (st\<lparr>clock := c, nps := (nps st)(SERVER_CLASSIFICATION k := x)\<rparr>) = cp_inv e st"
  by (simp_all add: cp_inv_def service_rows_ok_def server_rows_ok_def service_class_ok_def
      service_info_ok_def server_info_ok_def build_nps_server_info_key_def build_nps_service_info_key_def)

lemma cp_inv_clock_nps: "cp_inv e (st\<lparr>clock := c, nps := m\<rparr>) = cp_inv e (st\<lparr>nps := m\<rparr>)"
  by (simp add: cp_inv_def service_rows_ok_def server_rows_ok_def service_class_ok_def
      service_info_ok_def server_info_ok_def)

lemma cp_inv_flags_mem [simp]: "cp_inv e (st\<lparr>server_flags_mem := m\<rparr>) = cp_inv e st"
  by (simp add: cp_inv_def service_rows_ok_def server_rows_ok_def service_class_ok_def
      service_info_ok_def server_info_ok_def)

subsection \<open>Recalculation followed by publication\<close>

text \<open>
  The server information entry \<open>R\<close> that is written after the publication may be thought of as
  written before it: the publication does not touch the server information structure.
\<close>

lemma recalculate_and_publish_inv:
  assumes ok: "all_calls_ok e" "select_ok e" and s: "s \<in> set (services st)"
    and inv: "cp_inv e (st\<lparr>nps := (nps st)(SERVER_INFO i := R)\<rparr>)"
  shows "\<exists>st'. recalculate_and_publish e s st = (ALVS_DB_OK, st') \<and>
    cp_inv e (st'\<lparr>nps := (nps st')(SERVER_INFO i := R)\<rparr>) \<and> same_db st st' \<and>
    (\<forall>k. struct_of k \<noteq> STRUCT_ID_ALVS_SCHED_INFO \<longrightarrow> struct_of k \<noteq> STRUCT_ID_ALVS_SERVICE_INFO \<longrightarrow> nps st' k = nps st k)"
proof -
  let ?v = "\<lambda>st. st\<lparr>nps := (nps st)(SERVER_INFO i := R)\<rparr>"
  have rows: "service_rows_ok (?v st)" using inv by (simp add: cp_inv_def)
  have bound: "unat (svc_nps_index s) < 256" using service_index_bound [OF rows] s by simp
  have sup: "supported_sched_alg (svc_sched_alg s)" using rows s by (simp add: service_rows_ok_def)
  obtain c st1 where st1: "alvs_db_recalculate_scheduling_info e s st =
      (ALVS_DB_OK, s\<lparr>svc_sched_entries_count := c\<rparr>, st1)" "same_but_sched st st1"
    using recalculate_frame [OF ok bound sup] by blast
  have "same_but_sched (?v st) (?v st1)" using st1(2) by (auto simp: same_but_sched_def same_db_def)
  then have inv1: "cp_inv e (?v st1)" using cp_inv_same_but_sched inv by blast
  let ?s = "s\<lparr>svc_sched_entries_count := c\<rparr>"
  define st2 where "st2 = st1\<lparr>clock := Suc (clock st1), nps := (nps st1)(build_nps_service_info_key ?s \<mapsto>
      ServiceInfo (build_nps_service_info_result e ?s))\<rparr>"
  have run: "recalculate_and_publish e s st = (ALVS_DB_OK, st2)"
    using st1(1) ok(1) by (simp add: recalculate_and_publish_def db_simps st2_def)
  have "cp_inv e (?v st2)"
  proof (rule publish_inv [OF inv1, of s _ c])
    show "s \<in> set (services (?v st1))" using s same_but_sched_services [OF st1(2)] by simp
    show "same_db (?v st1) (?v st2)" by (simp add: same_db_def st2_def)
    show "nps (?v st2) = (nps (?v st1))(build_nps_service_info_key s \<mapsto> ServiceInfo (build_nps_service_info_result e ?s))"
      by (simp add: st2_def build_nps_service_info_key_def fun_upd_twist)
  qed
  moreover have "same_db st st2" using st1(2) by (simp add: same_but_sched_def same_db_def st2_def)
  moreover have "nps st2 k = nps st k"
    if "struct_of k \<noteq> STRUCT_ID_ALVS_SCHED_INFO" "struct_of k \<noteq> STRUCT_ID_ALVS_SERVICE_INFO" for k
    using st1(2) that by (auto simp: same_but_sched_def st2_def)
  ultimately show ?thesis using run by blast
qed

lemma recalculate_and_publish_plain_inv:
  assumes "all_calls_ok e" "select_ok e" "s \<in> set (services st)" "cp_inv e st"
  shows "\<exists>st'. recalculate_and_publish e s st = (ALVS_DB_OK, st') \<and> cp_inv e st' \<and> same_db st st'"
proof -
  have "cp_inv e (st\<lparr>nps := (nps st)(SERVER_INFO 0 := nps st (SERVER_INFO 0))\<rparr>)" using assms(4) by simp
  from recalculate_and_publish_inv [OF assms(1-3) this] obtain st' where st':
    "recalculate_and_publish e s st = (ALVS_DB_OK, st')" "same_db st st'"
    "cp_inv e (st'\<lparr>nps := (nps st')(SERVER_INFO 0 := nps st (SERVER_INFO 0))\<rparr>)"
    "\<forall>k. struct_of k \<noteq> STRUCT_ID_ALVS_SCHED_INFO \<longrightarrow> struct_of k \<noteq> STRUCT_ID_ALVS_SERVICE_INFO \<longrightarrow> nps st' k = nps st k"
    by blast
  have "nps st (SERVER_INFO 0) = nps st' (SERVER_INFO 0)" using st'(4) by simp
  then have "cp_inv e st'" using st'(3) by simp
  then show ?thesis using st'(1,2) by blast
qed

lemma recalculate_store_and_publish_inv:
  assumes ok: "all_calls_ok e" "select_ok e" and s: "s \<in> set (services st)" and inv: "cp_inv e st"
  shows "\<exists>st'. recalculate_store_and_publish e s st = (ALVS_DB_OK, st') \<and> cp_inv e st' \<and>
    servers st' = servers st"
proof -
  have rows: "service_rows_ok st" using inv by (simp add: cp_inv_def)
  have bound: "unat (svc_nps_index s) < 256" using service_index_bound [OF rows s] .
  have sup: "supported_sched_alg (svc_sched_alg s)" using rows s by (simp add: service_rows_ok_def)
  obtain c st1 where st1: "alvs_db_recalculate_scheduling_info e s st =
      (ALVS_DB_OK, s\<lparr>svc_sched_entries_count := c\<rparr>, st1)" "same_but_sched st st1"
    using recalculate_frame [OF ok bound sup] by blast
  let ?s = "s\<lparr>svc_sched_entries_count := c\<rparr>"
  define st2 where "st2 = st1\<lparr>services := map (update_service_row ?s) (services st1), clock := Suc (Suc (clock st1)),
      nps := (nps st1)(build_nps_service_info_key ?s \<mapsto> ServiceInfo (build_nps_service_info_result e ?s))\<rparr>"
  have run: "recalculate_store_and_publish e s st = (ALVS_DB_OK, st2)"
    using st1(1) ok(1) by (simp add: recalculate_store_and_publish_def db_simps st2_def)
  have inv1: "cp_inv e st1" using cp_inv_same_but_sched [OF st1(2)] inv by blast
  have "cp_inv e st2"
    by (rule modify_rows_inv [OF inv1 _ _ sup, where s = s and s' = ?s and fl = "svc_flags s" and c = c])
      (use s same_but_sched_services [OF st1(2)] in \<open>simp_all add: st2_def same_db_def\<close>)
  moreover have "servers st2 = servers st" using st1(2) by (simp add: same_but_sched_def same_db_def st2_def)
  ultimately show ?thesis using run by blast
qed


subsection \<open>Finding the server\<close>

lemma with_active_server_some:
  assumes "all_calls_ok e" "server_rows_ok st" "r \<in> set (servers st)"
    and "row_key r = (svc_key s, srv_ip (requested_server d), srv_port (requested_server d))"
  shows "with_active_server e s d body st =
    (if srv_active (snd r) = 0 then (ALVS_DB_FAILURE, st\<lparr>clock := Suc (clock st)\<rparr>)
     else body ((snd r)\<lparr>srv_stats := srv_stats zero_server\<rparr>) (st\<lparr>clock := Suc (clock st)\<rparr>))"
  using get_server_some [OF assms(1) _ assms(3,4)] assms(2)
  by (simp add: with_active_server_def server_rows_ok_def)

lemma with_active_server_none:
  assumes "all_calls_ok e"
    and "(svc_key s, srv_ip (requested_server d), srv_port (requested_server d)) \<notin> row_key ` set (servers st)"
  shows "with_active_server e s d body st = (ALVS_DB_FAILURE, st\<lparr>clock := Suc (clock st)\<rparr>)"
  using get_server_none [OF assms] by (simp add: with_active_server_def)

lemma update_server_rows_ok [db_simps]:
  "all_calls_ok e \<Longrightarrow> update_server_rows e s v f st = (ALVS_DB_OK, st\<lparr>clock := Suc (clock st),
     servers := map (\<lambda>r. if row_key r = (svc_key s, srv_ip v, srv_port v) then f r else r) (servers st)\<rparr>)"
  by (simp add: update_server_rows_def db_simps same_server_row_key)

lemma clear_overloaded_ok [db_simps]:
  "all_calls_ok e \<Longrightarrow> alvs_clear_overloaded_flag_of_server e v st = (ALVS_DB_OK, st\<lparr>clock := Suc (clock st),
     server_flags_mem := (server_flags_mem st)(EMEM_SERVER_FLAGS_OFFSET_CP + unat (srv_nps_index v) * 4 := 0)\<rparr>)"
  by (simp add: alvs_clear_overloaded_flag_of_server_def write_server_flags_mem_def db_simps)

subsection \<open>Deleting a server\<close>

lemma server_entry_write_inv:
  assumes inv: "cp_inv e st" and r: "r \<in> set (servers st)" "srv_active (snd r) \<noteq> 1"
    and same: "same_db st st'" and nps': "nps st' = (nps st)(build_nps_server_info_key (snd r) := x)"
  shows "cp_inv e st'"
proof (rule update_row_inv [OF inv r(1), of "\<lambda>q. q"])
  show "servers st' = map (\<lambda>q. if row_key q = row_key r then q else q) (servers st)"
    using same by (simp add: same_db_def)
qed (use same nps' r in \<open>simp_all add: same_db_def\<close>)

text \<open>The row that a request for an active server of the service \<open>s\<close> is about.\<close>

definition active_row :: "alvs_db_service \<Rightarrow> ip_vs_dest_user \<Rightarrow> cp_state \<Rightarrow> server_row \<Rightarrow> bool" where
  "active_row s d st r \<longleftrightarrow> r \<in> set (servers st) \<and> srv_active (snd r) \<noteq> 0 \<and>
     row_key r = (svc_key s, srv_ip (requested_server d), srv_port (requested_server d))"

lemma with_active_server_fail:
  assumes "all_calls_ok e" "server_rows_ok st" "\<not> (\<exists>r. active_row s d st r)"
  shows "with_active_server e s d body st = (ALVS_DB_FAILURE, st\<lparr>clock := Suc (clock st)\<rparr>)"
proof (cases "\<exists>r \<in> set (servers st). row_key r = (svc_key s, srv_ip (requested_server d), srv_port (requested_server d))")
  case True
  then obtain r where r: "r \<in> set (servers st)"
    "row_key r = (svc_key s, srv_ip (requested_server d), srv_port (requested_server d))" by blast
  then have "srv_active (snd r) = 0" using assms(3) unfolding active_row_def by blast
  then show ?thesis using with_active_server_some [OF assms(1,2) r] by simp
next
  case False
  then show ?thesis by (intro with_active_server_none [OF assms(1)]) force
qed

text \<open>A request on an active server either fails without an effect or runs on that server's row.\<close>

lemma server_request_cases:
  assumes "all_calls_ok e" "cp_inv e st"
    and "op = with_service e u (\<lambda>s. with_active_server e s d (body s)) st"
  obtains (fail) c where "op = (ALVS_DB_FAILURE, st\<lparr>clock := c\<rparr>)"
  | (run) s r c where "s \<in> set (services st)" "svc_key (requested_service u) = svc_key s" "active_row s d st r"
      "op = body s ((snd r)\<lparr>srv_stats := srv_stats zero_server\<rparr>) (st\<lparr>clock := c\<rparr>)"
proof -
  let ?st = "st\<lparr>clock := Suc (clock st)\<rparr>"
  have rows: "distinct (map svc_key (services st))" "server_rows_ok ?st"
    using assms(2) by (simp_all add: cp_inv_def service_rows_ok_def server_rows_ok_def)
  show thesis
  proof (cases "svc_key (requested_service u) \<in> svc_key ` set (services st)")
    case False
    then show thesis using fail assms(3) with_service_none [OF assms(1) False] by simp
  next
    case True
    then obtain s where s: "s \<in> set (services st)" "svc_key (requested_service u) = svc_key s" by auto
    note op = assms(3) [unfolded with_service_some [OF assms(1) rows(1) s]]
    show thesis
    proof (cases "\<exists>r. active_row s d ?st r")
      case False
      then show thesis using fail op with_active_server_fail [OF assms(1) rows(2) False] by simp
    next
      case True
      then obtain r where r: "active_row s d ?st r" by blast
      then have "op = body s ((snd r)\<lparr>srv_stats := srv_stats zero_server\<rparr>) (st\<lparr>clock := Suc (Suc (clock st))\<rparr>)"
        using op with_active_server_some [OF assms(1) rows(2), of r s d "body s"] by (simp add: active_row_def)
      then show thesis using run [OF s] r by (simp add: active_row_def)
    qed
  qed
qed

lemma delete_server_inv:
  assumes ok: "all_calls_ok e" "select_ok e" and inv: "cp_inv e st"
    and run: "alvs_db_delete_server e u d st = (rc, st')"
  shows "cp_inv e st' \<and> rc \<in> {ALVS_DB_OK, ALVS_DB_FAILURE, ALVS_DB_NOT_SUPPORTED}"
  using ok(1) inv run [symmetric, unfolded alvs_db_delete_server_def]
proof (cases rule: server_request_cases)
  case (fail c)
  then show ?thesis using inv by simp
next
  case (run s r c)
  let ?v = "(snd r)\<lparr>srv_stats := srv_stats zero_server, srv_server_flags := not_available (srv_server_flags (snd r))\<rparr>"
  have r: "r \<in> set (servers st)" "row_key r = (svc_key s, srv_ip (snd r), srv_port (snd r))"
    using run(3) by (auto simp: active_row_def row_key_def)
  define st1 where "st1 = st\<lparr>clock := Suc c,
    servers := map (\<lambda>q. if row_key q = row_key r then deactivate_row q else q) (servers st)\<rparr>"
  have inv1: "cp_inv e st1"
    by (rule update_row_inv [OF inv r(1), of deactivate_row _ "nps st (build_nps_server_info_key (snd r))"])
      (simp_all add: st1_def same_db_def)
  obtain st2 where st2: "(if srv_weight (snd r) > 0 then recalculate_and_publish e s st1 else (ALVS_DB_OK, st1)) =
      (ALVS_DB_OK, st2)" "cp_inv e st2" "same_db st1 st2"
    using recalculate_and_publish_plain_inv [OF ok _ inv1, of s] run(1) inv1
    by (cases "srv_weight (snd r) > 0") (auto simp: st1_def same_db_def)
  define st3 where "st3 = st2\<lparr>clock := Suc (clock st2),
    nps := (nps st2)(build_nps_server_info_key ?v \<mapsto> ServerInfo (build_nps_server_info_result ?v))\<rparr>"
  have "cp_inv e st3"
  proof (rule server_entry_write_inv [OF st2(2), of "deactivate_row r"])
    have "deactivate_row r \<in> set (servers st1)" using r by (force simp: st1_def)
    then show "deactivate_row r \<in> set (servers st2)" using st2(3) by (simp add: same_db_def)
  qed (simp_all add: st3_def same_db_def build_nps_server_info_key_def)
  moreover have "(rc, st') = (ALVS_DB_OK, st3\<lparr>clock := Suc (clock st3),
      nps := (nps st3)(build_nps_server_classification_key s ?v := None)\<rparr>)"
    using run(4) ok(1) st2(1) r(2)
    by (cases "0 < srv_weight (snd r)")
      (auto simp: internal_db_deactivate_server_def infra_delete_entry_def db_simps Let_def st1_def st3_def)
  ultimately show ?thesis
    by (simp add: build_nps_server_classification_key_def)
qed

subsection \<open>Modifying a server\<close>

definition modified_server :: "ip_vs_dest_user \<Rightarrow> alvs_db_server \<Rightarrow> alvs_db_server" where
  "modified_server d v = v\<lparr>srv_conn_flags := ivd_conn_flags d, srv_weight := word_of_int (ivd_weight d),
     srv_u_thresh := ivd_u_threshold d, srv_l_thresh := ivd_l_threshold d\<rparr>"

lemma modified_server_fields [simp]:
  "srv_nps_index (modified_server d v) = srv_nps_index v" "srv_active (modified_server d v) = srv_active v"
  "srv_ip (modified_server d v) = srv_ip v" "srv_port (modified_server d v) = srv_port v"
  "build_nps_server_info_result (modified_server d (v\<lparr>srv_stats := x\<rparr>)) =
   build_nps_server_info_result (modified_server d v)"
  by (simp_all add: modified_server_def build_nps_server_info_result_def)

definition modified_row :: "ip_vs_dest_user \<Rightarrow> alvs_db_server \<Rightarrow> server_row \<Rightarrow> server_row" where
  "modified_row d v q = (fst q, (snd q)\<lparr>srv_weight := word_of_int (ivd_weight d),
     srv_conn_flags := ivd_conn_flags d, srv_server_flags := srv_server_flags v,
     srv_u_thresh := ivd_u_threshold d, srv_l_thresh := ivd_l_threshold d\<rparr>)"

lemma modified_row_fields [simp]:
  "row_key (modified_row d v q) = row_key q" "srv_nps_index (snd (modified_row d v q)) = srv_nps_index (snd q)"
  "build_nps_server_info_result (snd (modified_row d (snd r) r)) =
   build_nps_server_info_result (modified_server d (snd r))"
  by (simp_all add: modified_row_def row_key_def modified_server_def build_nps_server_info_result_def)

lemma modify_row_inv:
  assumes ok: "all_calls_ok e" "select_ok e" and inv: "cp_inv e st"
    and s: "s \<in> set (services st)" and r: "r \<in> set (servers st)"
    and st1: "st1 = st\<lparr>server_flags_mem := m, clock := c, servers := map (\<lambda>q.
        if row_key q = row_key r then modified_row d (snd r) q else q) (servers st)\<rparr>"
  shows "\<exists>st2. (if b then recalculate_and_publish e s st1 else (ALVS_DB_OK, st1)) = (ALVS_DB_OK, st2) \<and>
    cp_inv e (st2\<lparr>nps := (nps st2)(build_nps_server_info_key (snd r) \<mapsto>
      ServerInfo (build_nps_server_info_result (modified_server d (snd r))))\<rparr>)"
proof -
  let ?R = "Some (ServerInfo (build_nps_server_info_result (modified_server d (snd r))))"
  have "cp_inv e (st1\<lparr>nps := (nps st1)(build_nps_server_info_key (snd r) := ?R)\<rparr>)"
    by (rule update_row_inv [OF inv r, of "modified_row d (snd r)" _ ?R]) (simp_all add: st1)
  then have inv1: "cp_inv e (st1\<lparr>nps := (nps st1)(SERVER_INFO (bswap_32 (srv_nps_index (snd r))) := ?R)\<rparr>)"
    by (simp add: build_nps_server_info_key_def)
  have "s \<in> set (services st1)" using s by (simp add: st1)
  from recalculate_and_publish_inv [OF ok this inv1] inv1 show ?thesis
    by (auto simp: build_nps_server_info_key_def)
qed

lemma modify_server_inv:
  assumes ok: "all_calls_ok e" "select_ok e" and inv: "cp_inv e st"
    and run: "alvs_db_modify_server e u d st = (rc, st')"
  shows "cp_inv e st' \<and> rc \<in> {ALVS_DB_OK, ALVS_DB_FAILURE, ALVS_DB_NOT_SUPPORTED}"
proof (cases "supported_routing_alg (ivd_conn_flags d) \<and> \<not> ivd_l_threshold d > ivd_u_threshold d")
  case False
  then show ?thesis using run inv by (auto simp: alvs_db_modify_server_def split: if_splits)
next
  case True
  then have "(rc, st') = with_service e u (\<lambda>s. with_active_server e s d (modify_active_server e d s)) st"
    using run by (simp add: alvs_db_modify_server_def)
  with ok(1) inv show ?thesis
  proof (cases rule: server_request_cases)
    case (fail c)
    then show ?thesis using inv by simp
  next
    case (run s r c)
    have r: "r \<in> set (servers st)" "row_key r = (svc_key s, srv_ip (snd r), srv_port (snd r))"
      using run(3) by (auto simp: active_row_def row_key_def)
    let ?v = "(snd r)\<lparr>srv_stats := srv_stats zero_server\<rparr>"
    let ?clear = "ivd_u_threshold d = 0 \<or> ivd_u_threshold d > srv_u_thresh (snd r)"
    let ?b = "srv_weight (modified_server d (snd r)) \<noteq> ucast (ucast (srv_weight (snd r)) :: u8)"
    define st1 where "st1 = st\<lparr>server_flags_mem := (if ?clear then (server_flags_mem st)(EMEM_SERVER_FLAGS_OFFSET_CP +
        unat (srv_nps_index (snd r)) * 4 := 0) else server_flags_mem st),
      clock := (if ?clear then Suc (Suc c) else Suc c),
      servers := map (\<lambda>q. if row_key q = row_key r then modified_row d (snd r) q else q) (servers st)\<rparr>"
    obtain st2 where st2: "(if ?b then recalculate_and_publish e s st1 else (ALVS_DB_OK, st1)) = (ALVS_DB_OK, st2)"
      "cp_inv e (st2\<lparr>nps := (nps st2)(build_nps_server_info_key (snd r) \<mapsto>
        ServerInfo (build_nps_server_info_result (modified_server d (snd r))))\<rparr>)"
      using modify_row_inv [OF ok inv run(1) r(1) st1_def, where b = ?b] by blast
    have "modify_active_server e d s ?v (st\<lparr>clock := c\<rparr>) =
        (case (if ?b then recalculate_and_publish e s st1 else (ALVS_DB_OK, st1)) of (rc, st) \<Rightarrow>
          if rc \<noteq> ALVS_DB_OK then (rc, st)
          else case modify_server_info_entry e (modified_server d ?v) st of (ok, st) \<Rightarrow>
            if \<not> ok then (ALVS_DB_NPS_ERROR, st) else (ALVS_DB_OK, st))"
      unfolding modify_active_server_def internal_db_modify_server_def modified_server_def modified_row_def
        st1_def Let_def
      using ok(1) r(2) by (cases ?clear) (simp_all add: db_simps cong: if_cong)
    then have "rc = ALVS_DB_OK \<and> st' = st2\<lparr>clock := Suc (clock st2), nps := (nps st2)(build_nps_server_info_key (snd r) \<mapsto>
        ServerInfo (build_nps_server_info_result (modified_server d (snd r))))\<rparr>"
      unfolding st2(1) using run(4) ok(1) by (simp add: db_simps build_nps_server_info_key_def)
    then show ?thesis using st2(2) by (simp add: cp_inv_clock_nps)
  qed
qed

subsection \<open>Adding a server\<close>

definition activated_row :: "ip_vs_dest_user \<Rightarrow> server_row \<Rightarrow> server_row" where
  "activated_row d q = (fst q, (snd q)\<lparr>srv_weight := word_of_int (ivd_weight d), srv_active := 1,
     srv_server_flags := srv_server_flags (snd q) OR IP_VS_DEST_F_AVAILABLE,
     srv_u_thresh := ivd_u_threshold d, srv_l_thresh := ivd_l_threshold d, srv_conn_flags := ivd_conn_flags d\<rparr>)"

lemma activated_row_fields [simp]:
  "row_key (activated_row d q) = row_key q" "srv_nps_index (snd (activated_row d q)) = srv_nps_index (snd q)"
  by (simp_all add: activated_row_def row_key_def)

lemma reactivate_server_inv:
  assumes ok: "all_calls_ok e" and inv: "cp_inv e st" and r: "r \<in> set (servers st)" "fst r = svc_key s"
  shows "\<exists>v st'. reactivate_server e s ((snd r)\<lparr>srv_stats := x\<rparr>) d st = (ALVS_DB_OK, v, st') \<and>
    cp_inv e st' \<and> services st' = services st"
proof -
  let ?v = "(snd r)\<lparr>srv_stats := x, srv_server_flags := srv_server_flags (snd r) OR IP_VS_DEST_F_AVAILABLE,
    srv_conn_flags := ivd_conn_flags d, srv_weight := word_of_int (ivd_weight d),
    srv_u_thresh := ivd_u_threshold d, srv_l_thresh := ivd_l_threshold d\<rparr>"
  define st1 where "st1 = st\<lparr>servers := map (\<lambda>q. if row_key q = row_key r then activated_row d q else q) (servers st),
    clock := Suc (Suc (clock st)),
    nps := (nps st)(build_nps_server_info_key ?v \<mapsto> ServerInfo (build_nps_server_info_result ?v))\<rparr>"
  have k: "row_key r = (svc_key s, srv_ip (snd r), srv_port (snd r))" using r(2) by (simp add: row_key_def)
  have run: "reactivate_server e s ((snd r)\<lparr>srv_stats := x\<rparr>) d st = (ALVS_DB_OK, ?v, st1)"
    unfolding reactivate_server_def internal_db_activate_server_def st1_def activated_row_def Let_def k
    using ok by (simp add: db_simps cong: if_cong)
  have "cp_inv e st1"
    by (rule update_row_inv [OF inv r(1), of "activated_row d" _ "Some (ServerInfo (build_nps_server_info_result ?v))"])
      (simp_all add: st1_def activated_row_def row_key_def build_nps_server_info_key_def build_nps_server_info_result_def)
  then show ?thesis using run by (auto simp: st1_def)
qed

lemma create_server_inv:
  assumes ok: "all_calls_ok e" and inv: "cp_inv e st"
    and new: "(svc_key s, srv_ip (requested_server d), srv_port (requested_server d)) \<notin> row_key ` set (servers st)"
    and run: "create_server e s (requested_server d) d st = (rc, v, st')"
  shows "cp_inv e st' \<and> services st' = services st \<and> rc \<in> {ALVS_DB_OK, ALVS_DB_FAILURE, ALVS_DB_NOT_SUPPORTED}"
proof (cases "index_pool_alloc (server_index_pool st)")
  case None
  then show ?thesis using run inv by (simp add: create_server_def)
next
  case (Some a)
  then obtain i pool' where al: "index_pool_alloc (server_index_pool st) = Some (i, pool')" by (cases a) auto
  have fresh: "\<not> list_ex (same_server (svc_key s) w) (servers st)"
    if "srv_ip w = srv_ip (requested_server d)" "srv_port w = srv_port (requested_server d)" for w
    using new that by (auto simp: list_ex_iff same_server_row_key image_iff)
  have st': "servers st' = servers st @ [(svc_key s, v)]" "server_index_pool st' = pool'"
    "services st' = services st" "service_index_pool st' = service_index_pool st"
    "nps st' = (nps st)(build_nps_server_info_key v \<mapsto> ServerInfo (build_nps_server_info_result v))"
    "srv_nps_index v = i" "srv_ip v = srv_ip (requested_server d)" "srv_port v = srv_port (requested_server d)"
    "rc = ALVS_DB_OK"
    using run ok al fresh
    by (auto simp: create_server_def db_simps Let_def alvs_db_clean_server_stats_def infra_clear_long_counters_def
        infra_clear_posted_counters_def internal_db_add_server_def)
  have "cp_inv e st'"
    by (rule new_row_inv [OF inv, of v pool' "svc_key s"]) (use st' al new in \<open>simp_all add: row_key_def\<close>)
  then show ?thesis using st'(3,9) by simp
qed

lemma schedule_new_server_inv:
  assumes ok: "all_calls_ok e" "select_ok e" and s: "s \<in> set (services st)" and inv: "cp_inv e st"
    and run: "schedule_new_server e d s v st = (rc, st')"
  shows "cp_inv e st' \<and> rc \<in> {ALVS_DB_OK, ALVS_DB_FAILURE, ALVS_DB_NOT_SUPPORTED}"
proof -
  obtain st1 where st1: "(if ivd_weight d > 0 then recalculate_store_and_publish e s st else (ALVS_DB_OK, st)) =
      (ALVS_DB_OK, st1)" "cp_inv e st1"
    using recalculate_store_and_publish_inv [OF ok s inv] inv by (cases "ivd_weight d > 0") auto
  show ?thesis
    using run ok(1) st1(2) unfolding schedule_new_server_def st1(1) infra_add_entry_def
    by (auto simp: db_simps build_nps_server_classification_key_def)
qed

lemma add_server_inv:
  assumes ok: "all_calls_ok e" "select_ok e" and inv: "cp_inv e st"
    and run: "alvs_db_add_server e u d st = (rc, st')"
  shows "cp_inv e st' \<and> rc \<in> {ALVS_DB_OK, ALVS_DB_FAILURE, ALVS_DB_NOT_SUPPORTED}"
proof (cases "supported_routing_alg (ivd_conn_flags d) \<and> \<not> ivd_l_threshold d > ivd_u_threshold d \<and>
    svc_key (requested_service u) \<in> svc_key ` set (services st)")
  case False
  then show ?thesis using run inv with_service_none [OF ok(1), of u st]
    by (auto simp: alvs_db_add_server_def split: if_splits)
next
  case True': True
  then obtain s where s: "s \<in> set (services st)" "svc_key (requested_service u) = svc_key s" by auto
  have rows: "distinct (map svc_key (services st))" "distinct (map row_key (servers st))"
    using inv by (simp_all add: cp_inv_def service_rows_ok_def server_rows_ok_def)
  let ?k = "(svc_key s, srv_ip (requested_server d), srv_port (requested_server d))"
  note op = run [unfolded alvs_db_add_server_def with_service_some [OF ok(1) rows(1) s]]
  show ?thesis
  proof (cases "length (filter (server_selected (svc_key s) False True) (servers st)) = ALVS_SIZE_OF_SCHED_BUCKET")
    case True
    then show ?thesis using op inv True' ok(1) by (auto simp: db_simps)
  next
    case room: False
    define st0 where "st0 = st\<lparr>clock := Suc (Suc (Suc (clock st)))\<rparr>"
    have inv0: "cp_inv e st0" using inv by (simp add: st0_def)
    have s0: "s \<in> set (services st0)" using s by (simp add: st0_def)
    show ?thesis
    proof (cases "\<exists>r \<in> set (servers st). row_key r = ?k")
      case True
      then obtain r where r: "r \<in> set (servers st)" "row_key r = ?k" by blast
      let ?v = "(snd r)\<lparr>srv_stats := srv_stats zero_server\<rparr>"
      have get: "internal_db_get_server e s (requested_server d) (st\<lparr>clock := Suc (Suc (clock st))\<rparr>) =
          (ALVS_DB_OK, ?v, st0)"
        using get_server_some [OF ok(1), of "st\<lparr>clock := Suc (Suc (clock st))\<rparr>" r s d] rows(2) r by (simp add: st0_def)
      obtain v st1 where st1: "reactivate_server e s ?v d st0 = (ALVS_DB_OK, v, st1)" "cp_inv e st1"
        "services st1 = services st0"
        using reactivate_server_inv [OF ok(1) inv0, of r s "srv_stats zero_server" d] r
        by (auto simp: st0_def row_key_def)
      show ?thesis
      proof (cases "srv_active (snd r) = 1")
        case True
        then show ?thesis using op True' ok(1) room get inv0 by (simp add: db_simps)
      next
        case False
        then have "schedule_new_server e d s v st1 = (rc, st')"
          using op True' ok(1) room get st1(1) by (simp add: db_simps)
        then show ?thesis using schedule_new_server_inv [OF ok _ st1(2)] s0 st1(3) by simp
      qed
    next
      case False
      then have new: "?k \<notin> row_key ` set (servers st)" by auto
      have get: "internal_db_get_server e s (requested_server d) (st\<lparr>clock := Suc (Suc (clock st))\<rparr>) =
          (ALVS_DB_FAILURE, requested_server d, st0)"
        using get_server_none [OF ok(1), of s d "st\<lparr>clock := Suc (Suc (clock st))\<rparr>"] new by (simp add: st0_def)
      obtain rc1 v st1 where st1: "create_server e s (requested_server d) d st0 = (rc1, v, st1)"
        by (cases "create_server e s (requested_server d) d st0") auto
      have inv1: "cp_inv e st1" "services st1 = services st0"
        "rc1 \<in> {ALVS_DB_OK, ALVS_DB_FAILURE, ALVS_DB_NOT_SUPPORTED}"
        using create_server_inv [OF ok(1) inv0 _ st1] new by (simp_all add: st0_def)
      have "(if rc1 \<noteq> ALVS_DB_OK then (rc1, st1) else schedule_new_server e d s v st1) = (rc, st')"
        using op True' ok(1) room get st1(1) by (simp add: db_simps)
      then show ?thesis
        using schedule_new_server_inv [OF ok _ inv1(1)] s0 inv1 by (cases "rc1 = ALVS_DB_OK") auto
    qed
  qed
qed

end
