(* ===== verification/Alvs_DB_Admin.thy ===== *)
theory Alvs_DB_Admin
  imports Alvs_DB
begin

text \<open>
  The rest of \<^verbatim>\<open>src/cp/alvs_db.c\<close>: creating and closing the database, clearing it, saving and
  printing the statistics, the aging of deleted servers and the state-sync daemon.

  The printing operations return the values that they write to the log.  The aging thread runs
  beside the manager thread; one pass over the deleted servers is one operation here.
\<close>

subsection \<open>Creation\<close>

text \<open>
  \<open>mem_srv\<close> and \<open>mem_svc\<close> are the blocks \<open>malloc\<close> returns for the two pools, \<open>thread_ok\<close> the result
  of \<open>pthread_create\<close>.  Opening the file and creating each of the three tables is one SQL call;
  a new database file has empty tables.
\<close>

definition destroy_pools :: "cp_state \<Rightarrow> cp_state" where
  "destroy_pools st = st\<lparr>server_index_pool := index_pool_destroy (server_index_pool st),
     service_index_pool := index_pool_destroy (service_index_pool st)\<rparr>"

primrec create_tables :: "nat \<Rightarrow> cp_env \<Rightarrow> cp_state \<Rightarrow> bool \<times> cp_state" where
  "create_tables 0 e st = (True, st)"
| "create_tables (Suc k) e st =
     (let (ok, st) = sql_call e st in if \<not> ok then (False, st) else create_tables k e st)"

definition alvs_db_init ::
  "cp_env \<Rightarrow> u32 list option \<times> u8 list option \<Rightarrow> u32 list option \<times> u8 list option \<Rightarrow> bool \<Rightarrow>
   cp_state \<Rightarrow> alvs_db_rc \<times> cp_state" where
  "alvs_db_init e mem_srv mem_svc thread_ok st =
     (let (ok, pool) = index_pool_init (fst mem_srv) (snd mem_srv) (server_index_pool st) 32768;
          st = st\<lparr>server_index_pool := pool\<rparr>
      in if \<not> ok then (ALVS_DB_INTERNAL_ERROR, st)
         else
           let (ok, pool) = index_pool_init (fst mem_svc) (snd mem_svc) (service_index_pool st) 256;
               st = st\<lparr>service_index_pool := pool\<rparr>
           in if \<not> ok then (ALVS_DB_INTERNAL_ERROR,
                  st\<lparr>server_index_pool := index_pool_destroy (server_index_pool st)\<rparr>)
              else
                let (ok, st) = create_tables 4 e st in
                if \<not> ok then (ALVS_DB_INTERNAL_ERROR, destroy_pools st)
                else
                  let st = st\<lparr>services := [], servers := [], application_infos := []\<rparr> in
                  if \<not> thread_ok then (ALVS_DB_FATAL_ERROR, st) else (ALVS_DB_OK, st))"

definition alvs_db_destroy :: "cp_state \<Rightarrow> cp_state" where
  "alvs_db_destroy st = st\<lparr>service_index_pool := index_pool_destroy (service_index_pool st),
     server_index_pool := index_pool_destroy (server_index_pool st)\<rparr>"

subsection \<open>Clearing\<close>

text \<open>The circular list of the services: \<open>service_list->next\<close> is the rotated list.\<close>

primrec clear_loop :: "nat \<Rightarrow> cp_env \<Rightarrow> alvs_db_service list \<Rightarrow> cp_state \<Rightarrow> bool \<times> cp_state" where
  "clear_loop 0 e service_list st = (True, st)"
| "clear_loop (Suc k) e service_list st =
     (let (ok, st) = infra_delete_entry e (build_nps_service_classification_key (service_list ! 0)) st
      in if \<not> ok then (False, st) else clear_loop k e (rotate1 service_list) st)"

definition alvs_db_clear :: "cp_env \<Rightarrow> cp_state \<Rightarrow> alvs_db_rc \<times> cp_state" where
  "alvs_db_clear e st =
     (let (rc, service_count, st) = internal_db_get_service_count e st in
      if rc \<noteq> ALVS_DB_OK then (ALVS_DB_INTERNAL_ERROR, st)
      else let (rc, service_list, st) = internal_db_get_service_list e st in
        if rc \<noteq> ALVS_DB_OK then (ALVS_DB_INTERNAL_ERROR, st)
        else let (ok, st) = clear_loop service_count e service_list st in
          if \<not> ok then (ALVS_DB_NPS_ERROR, st)
          else let (ok, st) = infra_delete_all_entries e STRUCT_ID_ALVS_SERVICE_INFO st in
            if \<not> ok then (ALVS_DB_NPS_ERROR, st)
            else let (ok, st) = infra_delete_all_entries e STRUCT_ID_ALVS_SCHED_INFO st in
              if \<not> ok then (ALVS_DB_NPS_ERROR, st)
              else let (rc, st) = internal_db_clear_all e st in
                if rc = ALVS_DB_INTERNAL_ERROR then (ALVS_DB_INTERNAL_ERROR, st)
                else (ALVS_DB_OK, st\<lparr>service_index_pool := index_pool_rewind (service_index_pool st)\<rparr>))"

subsection \<open>Statistics\<close>

text \<open>
  The loops step through the rows of \<open>SELECT * FROM services\<close>.  A step that fails is taken for the
  end of the rows.  \<open>server_count\<close> is not initialised and keeps its value when counting fails.
\<close>

primrec save_servers_loop ::
  "nat \<Rightarrow> cp_env \<Rightarrow> alvs_db_server list \<Rightarrow> cp_state \<Rightarrow> alvs_db_rc \<times> cp_state" where
  "save_servers_loop 0 e server_list st = (ALVS_DB_OK, st)"
| "save_servers_loop (Suc k) e server_list st =
     (let (rc, st) = internal_db_save_server_stats e (server_list ! 0) st
      in if rc \<noteq> ALVS_DB_OK then (rc, st) else save_servers_loop k e (rotate1 server_list) st)"

fun save_services_loop ::
  "cp_env \<Rightarrow> alvs_db_service list \<Rightarrow> nat \<Rightarrow> cp_state \<Rightarrow> alvs_db_rc \<times> cp_state" where
  "save_services_loop e [] server_count st = (ALVS_DB_OK, st)"
| "save_services_loop e (service # rows) server_count st =
     (let (row, st) = sql_call e st in
      if \<not> row then (ALVS_DB_OK, st)
      else let (rc, st) = internal_db_save_service_stats e service st in
        if rc \<noteq> ALVS_DB_OK then (ALVS_DB_INTERNAL_ERROR, st)
        else
          let (rc, server_count, st) = internal_db_get_server_count e service False False server_count st;
              (rc, server_list, st) = internal_db_get_server_list e service False False st
          in if rc \<noteq> ALVS_DB_OK then (ALVS_DB_INTERNAL_ERROR, st)
             else let (rc, st) = save_servers_loop server_count e server_list st in
               if rc \<noteq> ALVS_DB_OK then (rc, st)
               else save_services_loop e rows server_count st)"

definition alvs_db_clear_stats :: "cp_env \<Rightarrow> cp_state \<Rightarrow> alvs_db_rc \<times> cp_state" where
  "alvs_db_clear_stats e st =
     (let n = clock st; (ok, st) = sql_call e st in
      if \<not> ok then (ALVS_DB_INTERNAL_ERROR, st)
      else let (rc, st) = save_services_loop e (select_order e n (services st))
             (unat (ucast (stack_garbage e) :: u32)) st
        in if rc \<noteq> ALVS_DB_OK then (rc, st)
           else let (rc, st) = alvs_db_clean_error_stats e st in
             if rc \<noteq> ALVS_DB_OK then (ALVS_DB_NPS_ERROR, st)
             else let (rc, st) = alvs_db_clean_interface_stats e st in
               if rc \<noteq> ALVS_DB_OK then (ALVS_DB_NPS_ERROR, st) else (ALVS_DB_OK, st))"

text \<open>What is printed of a service and of a server.\<close>

record service_line =
  svl_ip :: in_addr_t
  svl_port :: u16
  svl_protocol :: u16
  svl_stats :: alvs_db_service_stats

record server_line =
  srl_ip :: in_addr_t
  srl_port :: u16
  srl_stats :: alvs_db_server_stats

definition service_stats_diff :: "alvs_db_service_stats \<Rightarrow> alvs_db_service_stats \<Rightarrow> alvs_db_service_stats" where
  "service_stats_diff counters saved = \<lparr>
     sst_connection_scheduled = sst_connection_scheduled counters - sst_connection_scheduled saved,
     sst_in_packet = sst_in_packet counters - sst_in_packet saved,
     sst_in_byte = sst_in_byte counters - sst_in_byte saved,
     sst_out_packet = sst_out_packet counters - sst_out_packet saved,
     sst_out_byte = sst_out_byte counters - sst_out_byte saved\<rparr>"

definition server_stats_diff :: "alvs_db_server_stats \<Rightarrow> alvs_db_server_stats \<Rightarrow> alvs_db_server_stats" where
  "server_stats_diff counters saved = counters\<lparr>
     vst_connection_scheduled := vst_connection_scheduled counters - vst_connection_scheduled saved,
     vst_in_packet := vst_in_packet counters - vst_in_packet saved,
     vst_in_byte := vst_in_byte counters - vst_in_byte saved,
     vst_out_packet := vst_out_packet counters - vst_out_packet saved,
     vst_out_byte := vst_out_byte counters - vst_out_byte saved\<rparr>"

fun print_services_loop ::
  "cp_env \<Rightarrow> alvs_db_service list \<Rightarrow> service_line list \<Rightarrow> cp_state \<Rightarrow>
   alvs_db_rc \<times> service_line list \<times> cp_state" where
  "print_services_loop e [] out st = (ALVS_DB_OK, out, st)"
| "print_services_loop e (service # rows) out st =
     (let (row, st) = sql_call e st in
      if \<not> row then (ALVS_DB_OK, out, st)
      else let (rc, counters, st) = alvs_db_get_service_counters e (svc_nps_index service)
             (svc_stats zero_service) st
        in if rc \<noteq> ALVS_DB_OK then (ALVS_DB_NPS_ERROR, out, st)
           else print_services_loop e rows (out @ [\<lparr>svl_ip = svc_ip service, svl_port = svc_port service,
             svl_protocol = svc_protocol service,
             svl_stats = service_stats_diff counters (svc_stats service)\<rparr>]) st)"

definition alvs_db_print_services_stats ::
  "cp_env \<Rightarrow> cp_state \<Rightarrow> alvs_db_rc \<times> service_line list \<times> cp_state" where
  "alvs_db_print_services_stats e st =
     (let n = clock st; (ok, st) = sql_call e st in
      if \<not> ok then (ALVS_DB_INTERNAL_ERROR, [], st)
      else print_services_loop e (select_order e n (services st)) [] st)"

text \<open>\<open>server_counters\<close> is reused from one server to the next.\<close>

primrec print_servers_loop ::
  "nat \<Rightarrow> cp_env \<Rightarrow> alvs_db_server list \<Rightarrow> alvs_db_server_stats \<Rightarrow> server_line list \<Rightarrow> cp_state \<Rightarrow>
   alvs_db_rc \<times> server_line list \<times> cp_state" where
  "print_servers_loop 0 e server_list counters out st = (ALVS_DB_OK, out, st)"
| "print_servers_loop (Suc k) e server_list counters out st =
     (let (rc, counters, st) = alvs_db_get_server_counters e (srv_nps_index (server_list ! 0)) counters True st
      in if rc \<noteq> ALVS_DB_OK then (rc, out, st)
         else print_servers_loop k e (rotate1 server_list) counters
           (out @ [\<lparr>srl_ip = srv_ip (server_list ! 0), srl_port = srv_port (server_list ! 0),
              srl_stats = server_stats_diff counters (srv_stats (server_list ! 0))\<rparr>]) st)"

definition alvs_db_print_servers_stats ::
  "cp_env \<Rightarrow> ip_vs_service_user \<Rightarrow> cp_state \<Rightarrow> alvs_db_rc \<times> server_line list \<times> cp_state" where
  "alvs_db_print_servers_stats e ip_vs_service st =
     (let (rc, service, st) = internal_db_get_service e (requested_service ip_vs_service) False st in
      if rc = ALVS_DB_FAILURE then (ALVS_DB_INTERNAL_ERROR, [], st)
      else
        let (rc, server_count, st) = internal_db_get_server_count e service False False
              (unat (ucast (stack_garbage e) :: u32)) st;
            (rc, server_list, st) = internal_db_get_server_list e service False False st
        in if rc \<noteq> ALVS_DB_OK then (ALVS_DB_INTERNAL_ERROR, [], st)
           else print_servers_loop server_count e server_list (srv_stats zero_server) [] st)"

text \<open>The counters that are printed (those above zero) and whether the line for no errors is.\<close>

definition alvs_db_print_global_error_stats ::
  "cp_env \<Rightarrow> cp_state \<Rightarrow> alvs_db_rc \<times> (nat \<times> u64) list \<times> bool \<times> cp_state" where
  "alvs_db_print_global_error_stats e st =
     (case infra_get_posted_counters e EMEM_ALVS_ERROR_STATS_POSTED_OFFSET ALVS_NUM_OF_ALVS_ERROR_STATS st of
        (None, st) \<Rightarrow> (ALVS_DB_NPS_ERROR, [], False, st)
      | (Some global_error_counters, st) \<Rightarrow>
          (ALVS_DB_OK, filter (\<lambda>p. snd p > 0) (enumerate 0 global_error_counters),
           sum_list global_error_counters = 0, st))"

subsection \<open>Aging of deleted servers\<close>

text \<open>
  One pass of the aging thread.  \<open>value\<close> is not initialised before the first server and keeps the
  value of the server before when its counter cannot be read: that error is \<open>ALVS_DB_NPS_ERROR\<close>,
  the code tests for \<open>ALVS_DB_INTERNAL_ERROR\<close>.  Each row, and the end of the rows, is a step of the
  statement; one that fails is an error.  The result \<open>False\<close> ends the application.
\<close>

fun server_aging_loop :: "cp_env \<Rightarrow> server_row list \<Rightarrow> u64 \<Rightarrow> cp_state \<Rightarrow> bool \<times> u64 \<times> cp_state" where
  "server_aging_loop e [] value st = (let (done, st) = sql_call e st in (done, value, st))"
| "server_aging_loop e (row # rows) value st =
     (let (stepped, st) = sql_call e st in
      if \<not> stepped then (False, value, st)
      else
      let (rc, value, st) = alvs_db_get_num_conn_total e (srv_nps_index (snd row)) value st in
      if rc = ALVS_DB_INTERNAL_ERROR then (False, value, st)
      else if value = 0 then
        let cp_service = zero_service\<lparr>svc_ip := fst (fst row), svc_port := fst (snd (fst row)),
              svc_protocol := snd (snd (fst row))\<rparr>;
            cp_server = zero_server\<lparr>srv_ip := srv_ip (snd row), srv_port := srv_port (snd row),
              srv_nps_index := srv_nps_index (snd row)\<rparr>;
            (rc, st) = internal_db_delete_server e cp_service cp_server st
        in if rc = ALVS_DB_INTERNAL_ERROR then (False, value, st)
           else let (ok, st) = infra_delete_entry e (build_nps_server_info_key cp_server) st in
             if \<not> ok then (False, value, st)
             else server_aging_loop e rows value (st\<lparr>server_index_pool :=
               index_pool_release (server_index_pool st) (srv_nps_index cp_server)\<rparr>)
      else server_aging_loop e rows value st)"

definition server_db_aging_pass :: "cp_env \<Rightarrow> u64 \<Rightarrow> cp_state \<Rightarrow> bool \<times> u64 \<times> cp_state" where
  "server_db_aging_pass e value st =
     (let n = clock st; (ok, st) = sql_call e st in
      if \<not> ok then (False, value, st)
      else server_aging_loop e (select_order e n (filter (\<lambda>r. srv_active (snd r) = 0) (servers st))) value st)"

subsection \<open>State-sync daemon\<close>

record ip_vs_daemon_user =
  idu_state :: u32
  idu_mcast_ifn :: string
  idu_syncid :: u32

text \<open>
  An element of the list \<open>getifaddrs\<close> delivers: the family is absent when \<open>ifa_addr\<close> is \<open>NULL\<close>,
  and \<open>ifa_nameinfo_ok\<close> says whether \<open>getnameinfo\<close> accepts the address.
\<close>

record ifaddrs =
  ifa_name :: string
  ifa_family :: "u16 option"
  ifa_s_addr :: u32
  ifa_nameinfo_ok :: bool

definition build_nps_application_info_key :: "u8 \<Rightarrow> nps_key" where
  "build_nps_application_info_key app_index = APPLICATION_INFO app_index"

definition build_nps_application_info_result :: "alvs_db_application_info \<Rightarrow> alvs_app_info_result" where
  "build_nps_application_info_result cp_daemon_info =
     \<lparr>air_master_bit = app_is_master cp_daemon_info, air_backup_bit = app_is_backup cp_daemon_info,
      air_m_sync_id = app_m_sync_id cp_daemon_info, air_b_sync_id = app_b_sync_id cp_daemon_info,
      air_source_ip = bswap_32 (app_source_ip cp_daemon_info)\<rparr>"

definition build_cp_state_sync_daemon ::
  "alvs_db_application_info \<Rightarrow> ip_vs_daemon_user \<Rightarrow> bool \<Rightarrow> alvs_db_application_info" where
  "build_cp_state_sync_daemon cp_daemon_info ip_vs_daemon_info start_ss =
     (if idu_state ip_vs_daemon_info = IP_VS_STATE_MASTER then
        if start_ss then cp_daemon_info\<lparr>app_is_master := True,
          app_m_sync_id := ucast (idu_syncid ip_vs_daemon_info)\<rparr>
        else cp_daemon_info\<lparr>app_is_master := False, app_m_sync_id := 0, app_source_ip := 0\<rparr>
      else if idu_state ip_vs_daemon_info = IP_VS_STATE_BACKUP then
        if start_ss then cp_daemon_info\<lparr>app_is_backup := True,
          app_b_sync_id := ucast (idu_syncid ip_vs_daemon_info)\<rparr>
        else cp_daemon_info\<lparr>app_is_backup := False, app_b_sync_id := 0\<rparr>
      else cp_daemon_info)"

text \<open>The two elements of the array of daemons are the two arguments.\<close>

definition build_cp_state_sync_daemons ::
  "alvs_db_application_info \<Rightarrow> ip_vs_daemon_user \<Rightarrow> ip_vs_daemon_user \<Rightarrow> alvs_db_application_info" where
  "build_cp_state_sync_daemons cp_daemon_info first second =
     (let cp_daemon_info = cp_daemon_info\<lparr>app_application_index := ALVS_APPLICATION_INFO_INDEX\<rparr> in
      if idu_state first \<noteq> IP_VS_STATE_MASTER \<and> idu_state first \<noteq> IP_VS_STATE_BACKUP then
        cp_daemon_info\<lparr>app_is_master := False, app_m_sync_id := 0, app_is_backup := False,
          app_b_sync_id := 0, app_source_ip := 0\<rparr>
      else build_cp_state_sync_daemon (build_cp_state_sync_daemon cp_daemon_info first True) second True)"

fun mcast_if_loop :: "ip_vs_daemon_user \<Rightarrow> ifaddrs list \<Rightarrow> bool \<Rightarrow> alvs_db_application_info \<Rightarrow>
    bool \<times> alvs_db_application_info" where
  "mcast_if_loop d [] res info = (res, info)"
| "mcast_if_loop d (iter # ifs) res info =
     (if ifa_family iter = None then mcast_if_loop d ifs res info
      else if ifa_family iter = Some AF_INET then
        if \<not> ifa_nameinfo_ok iter then (False, info)
        else if ifa_name iter = idu_mcast_ifn d then
          mcast_if_loop d ifs True
            (if idu_state d = IP_VS_STATE_MASTER
             then info\<lparr>app_source_ip := bswap_32 (ifa_s_addr iter)\<rparr> else info)
        else mcast_if_loop d ifs res info
      else mcast_if_loop d ifs res info)"

definition alvs_db_handle_mcast_if ::
  "ifaddrs list option \<Rightarrow> ip_vs_daemon_user \<Rightarrow> alvs_db_application_info \<Rightarrow>
   bool \<times> alvs_db_application_info" where
  "alvs_db_handle_mcast_if ifs ip_vs_daemon_info cp_daemon_info =
     (if idu_state ip_vs_daemon_info \<noteq> IP_VS_STATE_MASTER \<and>
         idu_state ip_vs_daemon_info \<noteq> IP_VS_STATE_BACKUP then (True, cp_daemon_info)
      else case ifs of
        None \<Rightarrow> (False, cp_daemon_info)
      | Some l \<Rightarrow> mcast_if_loop ip_vs_daemon_info l False cp_daemon_info)"

definition zero_application_info :: alvs_db_application_info where
  "zero_application_info = \<lparr>app_application_index = 0, app_is_master = False, app_is_backup = False,
     app_m_sync_id = 0, app_b_sync_id = 0, app_source_ip = 0\<rparr>"

definition alvs_db_init_daemon ::
  "cp_env \<Rightarrow> ifaddrs list option \<Rightarrow> ip_vs_daemon_user \<Rightarrow> ip_vs_daemon_user \<Rightarrow> cp_state \<Rightarrow>
   alvs_db_rc \<times> cp_state" where
  "alvs_db_init_daemon e ifs first second st =
     (let (rc, info, st) = internal_db_get_application_info e zero_application_info st;
          store = (\<lambda>write st.
            let (ok, info) = alvs_db_handle_mcast_if ifs first (build_cp_state_sync_daemons info first second) in
            if \<not> ok then (ALVS_DB_FAILURE, st)
            else let (rc, st) = write info st in
              if rc = ALVS_DB_INTERNAL_ERROR then (ALVS_DB_INTERNAL_ERROR, st)
              else let (ok, st) = infra_add_entry e (build_nps_application_info_key ALVS_APPLICATION_INFO_INDEX)
                     (ApplicationInfo (build_nps_application_info_result info)) st in
                if \<not> ok then (ALVS_DB_NPS_ERROR, st) else (ALVS_DB_OK, st))
      in case rc of
           ALVS_DB_OK \<Rightarrow> store (internal_db_modify_application_info e) st
         | ALVS_DB_FAILURE \<Rightarrow> store (internal_db_add_application_info e) st
         | _ \<Rightarrow> (ALVS_DB_INTERNAL_ERROR, st))"

text \<open>The steps that end both starting and stopping: the internal database, then the NPS.\<close>

definition update_daemon ::
  "cp_env \<Rightarrow> alvs_db_application_info \<Rightarrow> cp_state \<Rightarrow> alvs_db_rc \<times> cp_state" where
  "update_daemon e info st =
     (let (rc, st) = internal_db_modify_application_info e info st in
      if rc = ALVS_DB_INTERNAL_ERROR then (ALVS_DB_INTERNAL_ERROR, st)
      else let (ok, st) = infra_modify_entry e (build_nps_application_info_key ALVS_APPLICATION_INFO_INDEX)
             (ApplicationInfo (build_nps_application_info_result info)) st in
        if \<not> ok then (ALVS_DB_NPS_ERROR, st) else (ALVS_DB_OK, st))"

definition alvs_db_start_daemon ::
  "cp_env \<Rightarrow> ifaddrs list option \<Rightarrow> ip_vs_daemon_user \<Rightarrow> cp_state \<Rightarrow> alvs_db_rc \<times> cp_state" where
  "alvs_db_start_daemon e ifs d st =
     (let (rc, info, st) = internal_db_get_application_info e
            (zero_application_info\<lparr>app_application_index := ALVS_APPLICATION_INFO_INDEX\<rparr>) st
      in case rc of
           ALVS_DB_OK \<Rightarrow>
             if app_is_master info \<and> idu_state d = IP_VS_STATE_MASTER then (ALVS_DB_FAILURE, st)
             else if app_is_backup info \<and> idu_state d = IP_VS_STATE_BACKUP then (ALVS_DB_FAILURE, st)
             else let (ok, info) = alvs_db_handle_mcast_if ifs d info in
               if \<not> ok then (ALVS_DB_FAILURE, st)
               else update_daemon e (build_cp_state_sync_daemon info d True) st
         | _ \<Rightarrow> (ALVS_DB_INTERNAL_ERROR, st))"

definition alvs_db_stop_daemon ::
  "cp_env \<Rightarrow> ip_vs_daemon_user \<Rightarrow> cp_state \<Rightarrow> alvs_db_rc \<times> cp_state" where
  "alvs_db_stop_daemon e d st =
     (let (rc, info, st) = internal_db_get_application_info e
            (zero_application_info\<lparr>app_application_index := ALVS_APPLICATION_INFO_INDEX\<rparr>) st
      in case rc of
           ALVS_DB_OK \<Rightarrow>
             if \<not> app_is_master info \<and> idu_state d = IP_VS_STATE_MASTER then (ALVS_DB_FAILURE, st)
             else if \<not> app_is_backup info \<and> idu_state d = IP_VS_STATE_BACKUP then (ALVS_DB_FAILURE, st)
             else update_daemon e (build_cp_state_sync_daemon info d False) st
         | _ \<Rightarrow> (ALVS_DB_INTERNAL_ERROR, st))"

text \<open>The flags say which of the lines for the master, the backup and no daemon are logged.\<close>

definition alvs_db_log_daemon ::
  "cp_env \<Rightarrow> cp_state \<Rightarrow> alvs_db_rc \<times> (bool \<times> bool \<times> bool) \<times> cp_state" where
  "alvs_db_log_daemon e st =
     (let (rc, info, st) = internal_db_get_application_info e
            (zero_application_info\<lparr>app_application_index := ALVS_APPLICATION_INFO_INDEX\<rparr>) st
      in case rc of
           ALVS_DB_FAILURE \<Rightarrow> (ALVS_DB_OK, (False, False, True), st)
         | ALVS_DB_OK \<Rightarrow> (ALVS_DB_OK, (app_is_master info, app_is_backup info,
             \<not> app_is_master info \<and> \<not> app_is_backup info), st)
         | _ \<Rightarrow> (ALVS_DB_INTERNAL_ERROR, (False, False, False), st))"

end
