(* ===== verification/Alvs_Manager.thy ===== *)
theory Alvs_Manager
  imports Alvs_DB_Admin
begin

text \<open>
  The database manager of \<^verbatim>\<open>src/cp/alvs_db_manager.c\<close>: the IPVS requests that the kernel's netlink
  socket carries are decoded and handed to the application database, and at start-up the kernel's
  current configuration is read.

  The netlink library is a parameter: what it makes of a message, its attributes decoded under the
  policies of the source, is the input of the definitions.
\<close>

subsection \<open>Attributes\<close>

text \<open>A nested attribute: missing, rejected by the parser, or parsed.\<close>

datatype 'a nested = Absent | Malformed | Parsed 'a

record svc_attrs =
  sa_af :: "u16 option"
  sa_protocol :: "u16 option"
  sa_addr :: "u32 option"
  sa_port :: "u16 option"
  sa_fwmark :: "u32 option"
  sa_sched_name :: "string option"
  sa_flags :: "(u32 \<times> u32) option"
  sa_timeout :: "u32 option"
  sa_netmask :: "u32 option"

record dest_attrs =
  da_addr :: "u32 option"
  da_port :: "u16 option"
  da_fwd_method :: "u32 option"
  da_weight :: "u32 option"
  da_u_thresh :: "u32 option"
  da_l_thresh :: "u32 option"
  da_active_conns :: "u32 option"
  da_inact_conns :: "u32 option"
  da_persist_conns :: "u32 option"

record daemon_attrs =
  dma_state :: "u32 option"
  dma_mcast_ifn :: "string option"
  dma_sync_id :: "u32 option"

text \<open>
  The result of a parser: an error code below zero, a fault (the null pointer of a missing
  attribute is read), or the parsed structure.
\<close>

datatype 'a parse = Skip | Fault | Done 'a

datatype ipvs_cmd =
    IPVS_CMD_NEW_SERVICE | IPVS_CMD_SET_SERVICE | IPVS_CMD_DEL_SERVICE
  | IPVS_CMD_NEW_DEST | IPVS_CMD_SET_DEST | IPVS_CMD_DEL_DEST
  | IPVS_CMD_NEW_DAEMON | IPVS_CMD_DEL_DAEMON | IPVS_CMD_GET_DAEMON
  | IPVS_CMD_ZERO | IPVS_CMD_GET_DEST | IPVS_CMD_GET_SERVICE | IPVS_CMD_GET_INFO | IPVS_CMD_FLUSH
  | IPVS_CMD_OTHER nat

record genl_info =
  gi_cmd :: ipvs_cmd
  gi_dump :: bool
  gi_service :: "svc_attrs nested"
  gi_dest :: "dest_attrs nested"
  gi_daemon :: "daemon_attrs nested"

record manager_env =
  me_cp :: cp_env
  me_ifs :: "ifaddrs list option"
  me_print_stats_enabled :: bool
  me_family :: u16

subsection \<open>Parsers of requests\<close>

text \<open>
  Of the request, the fields the database reads: the firewall mark, the timeout and the netmask
  are stored by the parser and never read.  The optional attributes of a full request are not
  tested: without the flags an uninitialised structure is used, without one of the others the null
  pointer is read.
\<close>

definition alvs_genl_parse_service ::
  "cp_env \<Rightarrow> svc_attrs nested \<Rightarrow> bool \<Rightarrow> cp_state \<Rightarrow> ip_vs_service_user parse \<times> cp_state" where
  "alvs_genl_parse_service e nla need_full_svc st =
     (case nla of
        Absent \<Rightarrow> (Skip, st)
      | Malformed \<Rightarrow> (Skip, st)
      | Parsed attrs \<Rightarrow>
          if \<not> (sa_af attrs \<noteq> None \<and> (sa_fwmark attrs \<noteq> None \<or>
                (sa_port attrs \<noteq> None \<and> sa_protocol attrs \<noteq> None \<and> sa_addr attrs \<noteq> None)))
          then (Skip, st)
          else if the (sa_af attrs) \<noteq> AF_INET then (Skip, st)
          else
            let ret_svc =
                  (if sa_fwmark attrs \<noteq> None
                   then \<lparr>ivs_protocol = IPPROTO_TCP, ivs_addr = 0, ivs_port = 0, ivs_sched_name = [], ivs_flags = 0\<rparr>
                   else \<lparr>ivs_protocol = the (sa_protocol attrs), ivs_addr = the (sa_addr attrs),
                         ivs_port = the (sa_port attrs), ivs_sched_name = [], ivs_flags = 0\<rparr>)
            in if \<not> need_full_svc then (Done ret_svc, st)
               else
                 let (flags, mask) = (case sa_flags attrs of Some fm \<Rightarrow> fm
                        | None \<Rightarrow> (ucast (stack_garbage e), ucast (stack_garbage e)));
                     (rc, ret_svc, st) = alvs_db_get_service_flags e ret_svc st;
                     ret_svc = ret_svc\<lparr>ivs_flags := (ivs_flags ret_svc AND NOT mask) OR (flags AND mask)\<rparr>
                 in case sa_sched_name attrs of
                      None \<Rightarrow> (Fault, st)
                    | Some sched_name \<Rightarrow>
                        if sa_timeout attrs = None \<or> sa_netmask attrs = None then (Fault, st)
                        else (Done (ret_svc\<lparr>ivs_sched_name := sched_name\<rparr>), st))"

definition alvs_genl_parse_dest :: "dest_attrs nested \<Rightarrow> bool \<Rightarrow> ip_vs_dest_user parse" where
  "alvs_genl_parse_dest nla need_full_dest =
     (case nla of
        Absent \<Rightarrow> Skip
      | Malformed \<Rightarrow> Skip
      | Parsed attrs \<Rightarrow>
          (case (da_addr attrs, da_port attrs) of
             (Some addr, Some port) \<Rightarrow>
               let ret_dest = \<lparr>ivd_addr = addr, ivd_port = port, ivd_conn_flags = 0, ivd_weight = 0,
                     ivd_u_threshold = 0, ivd_l_threshold = 0\<rparr>
               in if \<not> need_full_dest then Done ret_dest
                  else (case (da_fwd_method attrs, da_weight attrs, da_u_thresh attrs, da_l_thresh attrs) of
                      (Some fwd, Some weight, Some u, Some l) \<Rightarrow>
                        Done (ret_dest\<lparr>ivd_conn_flags := fwd AND IP_VS_CONN_F_FWD_MASK,
                          ivd_weight := sint weight, ivd_u_threshold := u, ivd_l_threshold := l\<rparr>)
                    | _ \<Rightarrow> Fault)
           | _ \<Rightarrow> Skip))"

text \<open>
  The array of two daemons: the first element is filled unless it already describes a daemon.
  \<open>strncpy\<close> keeps at most \<open>IP_VS_IFNAME_MAXLEN\<close> characters.
\<close>

definition IP_VS_IFNAME_MAXLEN :: nat where "IP_VS_IFNAME_MAXLEN = 16"

definition zero_daemon :: ip_vs_daemon_user where
  "zero_daemon = \<lparr>idu_state = 0, idu_mcast_ifn = [], idu_syncid = 0\<rparr>"

definition alvs_genl_parse_daemon_from_msghdr ::
  "daemon_attrs nested \<Rightarrow> ip_vs_daemon_user \<times> ip_vs_daemon_user \<Rightarrow>
   (ip_vs_daemon_user \<times> ip_vs_daemon_user) parse" where
  "alvs_genl_parse_daemon_from_msghdr nlh ret_daemon =
     (case nlh of
        Absent \<Rightarrow> Fault
      | Malformed \<Rightarrow> Skip
      | Parsed attrs \<Rightarrow>
          (case (dma_state attrs, dma_mcast_ifn attrs, dma_sync_id attrs) of
             (Some state, Some mcast_ifn, Some sync_id) \<Rightarrow>
               let d = \<lparr>idu_state = state, idu_mcast_ifn = take IP_VS_IFNAME_MAXLEN mcast_ifn, idu_syncid = sync_id\<rparr>
               in Done (if idu_state (fst ret_daemon) = IP_VS_STATE_MASTER \<or>
                           idu_state (fst ret_daemon) = IP_VS_STATE_BACKUP
                        then (fst ret_daemon, d) else (d, snd ret_daemon))
           | _ \<Rightarrow> Skip))"

subsection \<open>Requests\<close>

text \<open>
  How the handling of a message ends: the parser's two return values, the end of the application
  (\<open>alvs_db_manager_exit_with_error\<close>, which closes the database) or a fault.
\<close>

datatype outcome = NL_OK | NL_SKIP | Exited | Faulted

definition alvs_db_manager_exit_with_error :: "cp_state \<Rightarrow> outcome \<times> cp_state" where
  "alvs_db_manager_exit_with_error st = (Exited, alvs_db_destroy st)"

definition finish_request :: "alvs_db_rc \<times> cp_state \<Rightarrow> outcome \<times> cp_state" where
  "finish_request r = (case r of (alvs_ret, st) \<Rightarrow>
     if alvs_ret = ALVS_DB_INTERNAL_ERROR \<or> alvs_ret = ALVS_DB_NPS_ERROR
     then alvs_db_manager_exit_with_error st else (NL_OK, st))"

definition with_parsed :: "'a parse \<times> cp_state \<Rightarrow> ('a \<Rightarrow> cp_state \<Rightarrow> outcome \<times> cp_state) \<Rightarrow> outcome \<times> cp_state" where
  "with_parsed r body = (case r of
     (Skip, st) \<Rightarrow> (NL_SKIP, st) | (Fault, st) \<Rightarrow> (Faulted, st) | (Done x, st) \<Rightarrow> body x st)"

definition service_request ::
  "cp_env \<Rightarrow> genl_info \<Rightarrow> bool \<Rightarrow> (ip_vs_service_user \<Rightarrow> cp_state \<Rightarrow> alvs_db_rc \<times> cp_state) \<Rightarrow>
   cp_state \<Rightarrow> outcome \<times> cp_state" where
  "service_request e info need_full_svc op st =
     with_parsed (alvs_genl_parse_service e (gi_service info) need_full_svc st)
       (\<lambda>svc st. finish_request (op svc st))"

definition dest_request ::
  "cp_env \<Rightarrow> genl_info \<Rightarrow> bool \<Rightarrow>
   (ip_vs_service_user \<Rightarrow> ip_vs_dest_user \<Rightarrow> cp_state \<Rightarrow> alvs_db_rc \<times> cp_state) \<Rightarrow>
   cp_state \<Rightarrow> outcome \<times> cp_state" where
  "dest_request e info need_full_dest op st =
     with_parsed (alvs_genl_parse_service e (gi_service info) False st)
       (\<lambda>svc st. with_parsed (alvs_genl_parse_dest (gi_dest info) need_full_dest, st)
         (\<lambda>dest st. finish_request (op svc dest st)))"

definition daemon_request ::
  "genl_info \<Rightarrow> (ip_vs_daemon_user \<Rightarrow> cp_state \<Rightarrow> alvs_db_rc \<times> cp_state) \<Rightarrow> cp_state \<Rightarrow> outcome \<times> cp_state" where
  "daemon_request info op st =
     with_parsed (alvs_genl_parse_daemon_from_msghdr (gi_daemon info) (zero_daemon, zero_daemon), st)
       (\<lambda>d st. finish_request (op (fst d) st))"

text \<open>
  Listing: the global error counters, then, when a dump is asked for, the services, whose return
  code replaces the first one.  The interface statistics printed in between only write to the log.
\<close>

definition get_service_request :: "cp_env \<Rightarrow> bool \<Rightarrow> cp_state \<Rightarrow> alvs_db_rc \<times> cp_state" where
  "get_service_request e dump st =
     (let (alvs_ret, lines, none, st) = alvs_db_print_global_error_stats e st in
      if dump then let (alvs_ret, lines, st) = alvs_db_print_services_stats e st in (alvs_ret, st)
      else (alvs_ret, st))"

definition alvs_msg_parser :: "manager_env \<Rightarrow> genl_info \<Rightarrow> cp_state \<Rightarrow> outcome \<times> cp_state" where
  "alvs_msg_parser m info st =
     (let e = me_cp m in
      case gi_cmd info of
        IPVS_CMD_GET_DAEMON \<Rightarrow>
          let (alvs_ret, lines, st) = alvs_db_log_daemon e st in
          if alvs_ret = ALVS_DB_INTERNAL_ERROR then alvs_db_manager_exit_with_error st else (NL_OK, st)
      | IPVS_CMD_NEW_DAEMON \<Rightarrow> daemon_request info (alvs_db_start_daemon e (me_ifs m)) st
      | IPVS_CMD_DEL_DAEMON \<Rightarrow> daemon_request info (alvs_db_stop_daemon e) st
      | IPVS_CMD_NEW_SERVICE \<Rightarrow> service_request e info True (alvs_db_add_service e) st
      | IPVS_CMD_SET_SERVICE \<Rightarrow> service_request e info True (alvs_db_modify_service e) st
      | IPVS_CMD_DEL_SERVICE \<Rightarrow> service_request e info False (alvs_db_delete_service e) st
      | IPVS_CMD_NEW_DEST \<Rightarrow> dest_request e info True (alvs_db_add_server e) st
      | IPVS_CMD_SET_DEST \<Rightarrow> dest_request e info True (alvs_db_modify_server e) st
      | IPVS_CMD_DEL_DEST \<Rightarrow> dest_request e info False (alvs_db_delete_server e) st
      | IPVS_CMD_ZERO \<Rightarrow> finish_request (alvs_db_clear_stats e st)
      | IPVS_CMD_GET_DEST \<Rightarrow>
          if me_print_stats_enabled m then
            service_request e info False (\<lambda>svc st.
              let (alvs_ret, lines, st) = alvs_db_print_servers_stats e svc st in (alvs_ret, st)) st
          else (NL_OK, st)
      | IPVS_CMD_GET_SERVICE \<Rightarrow>
          if me_print_stats_enabled m then finish_request (get_service_request e (gi_dump info) st)
          else (NL_OK, st)
      | IPVS_CMD_GET_INFO \<Rightarrow> (NL_OK, st)
      | IPVS_CMD_FLUSH \<Rightarrow> finish_request (alvs_db_clear e st)
      | IPVS_CMD_OTHER c \<Rightarrow> finish_request (ALVS_DB_NOT_SUPPORTED, st))"

text \<open>
  \<open>convert_ok\<close> is the result of \<open>nlmsg_convert\<close>; \<open>hdr\<close> holds the type of the message and whether
  it is a request.  Messages of other families are ignored.
\<close>

definition process_packet ::
  "manager_env \<Rightarrow> u16 \<times> bool \<Rightarrow> bool \<Rightarrow> genl_info \<Rightarrow> cp_state \<Rightarrow> outcome \<times> cp_state" where
  "process_packet m hdr convert_ok info st =
     (if fst hdr = me_family m \<and> snd hdr then
        if \<not> convert_ok then (NL_OK, st) else alvs_msg_parser m info st
      else (NL_OK, st))"

text \<open>
  The polling loop over the messages that arrive, until the application is cancelled: a message
  that ends the thread or faults is the last one.
\<close>

fun alvs_db_manager_poll ::
  "manager_env \<Rightarrow> ((u16 \<times> bool) \<times> bool \<times> genl_info) list \<Rightarrow> cp_state \<Rightarrow> outcome \<times> cp_state" where
  "alvs_db_manager_poll m [] st = (NL_OK, st)"
| "alvs_db_manager_poll m ((hdr, convert_ok, info) # msgs) st =
     (case process_packet m hdr convert_ok info st of
        (Exited, st) \<Rightarrow> (Exited, st)
      | (Faulted, st) \<Rightarrow> (Faulted, st)
      | (_, st) \<Rightarrow> alvs_db_manager_poll m msgs st)"

subsection \<open>Reading the kernel's configuration\<close>

definition alvs_services_parse_cb :: "svc_attrs nested \<Rightarrow> ip_vs_service_user option" where
  "alvs_services_parse_cb msg =
     (case msg of
        Parsed a \<Rightarrow>
          if \<not> (sa_af a \<noteq> None \<and>
                (sa_fwmark a \<noteq> None \<or> (sa_protocol a \<noteq> None \<and> sa_addr a \<noteq> None \<and> sa_port a \<noteq> None)) \<and>
                sa_sched_name a \<noteq> None \<and> sa_netmask a \<noteq> None \<and> sa_timeout a \<noteq> None \<and> sa_flags a \<noteq> None)
          then None
          else Some \<lparr>
            ivs_protocol = (if sa_fwmark a \<noteq> None then 0 else the (sa_protocol a)),
            ivs_addr = (if sa_fwmark a \<noteq> None then 0 else the (sa_addr a)),
            ivs_port = (if sa_fwmark a \<noteq> None then 0 else the (sa_port a)),
            ivs_sched_name = the (sa_sched_name a),
            ivs_flags = fst (the (sa_flags a)) AND snd (the (sa_flags a))\<rparr>
      | _ \<Rightarrow> None)"

definition alvs_dests_parse_cb :: "dest_attrs nested \<Rightarrow> ip_vs_dest_user option" where
  "alvs_dests_parse_cb msg =
     (case msg of
        Parsed a \<Rightarrow>
          if \<not> (da_addr a \<noteq> None \<and> da_port a \<noteq> None \<and> da_fwd_method a \<noteq> None \<and> da_weight a \<noteq> None \<and>
                da_u_thresh a \<noteq> None \<and> da_l_thresh a \<noteq> None \<and> da_active_conns a \<noteq> None \<and>
                da_inact_conns a \<noteq> None \<and> da_persist_conns a \<noteq> None)
          then None
          else Some \<lparr>ivd_addr = the (da_addr a), ivd_port = the (da_port a),
            ivd_conn_flags = the (da_fwd_method a), ivd_weight = sint (the (da_weight a)),
            ivd_u_threshold = the (da_u_thresh a), ivd_l_threshold = the (da_l_thresh a)\<rparr>
      | _ \<Rightarrow> None)"

text \<open>
  The answers of the kernel: \<open>None\<close> when a request could not be sent or received.  A callback that
  returns -1 makes the request fail.
\<close>

definition collect :: "('a \<Rightarrow> 'b option) \<Rightarrow> 'a list option \<Rightarrow> 'b list option" where
  "collect parse_cb answer = (case answer of None \<Rightarrow> None
     | Some msgs \<Rightarrow> if list_all (\<lambda>m. parse_cb m \<noteq> None) msgs then Some (map (\<lambda>m. the (parse_cb m)) msgs) else None)"

fun collect_daemons :: "daemon_attrs nested list \<Rightarrow> ip_vs_daemon_user \<times> ip_vs_daemon_user \<Rightarrow>
    (ip_vs_daemon_user \<times> ip_vs_daemon_user) parse" where
  "collect_daemons [] ds = Done ds"
| "collect_daemons (msg # msgs) ds =
     (case alvs_genl_parse_daemon_from_msghdr msg ds of Done ds' \<Rightarrow> collect_daemons msgs ds' | r \<Rightarrow> r)"

record kernel_config =
  kc_daemons :: "daemon_attrs nested list option"
  kc_services :: "svc_attrs nested list option"
  kc_dests :: "ip_vs_service_user \<Rightarrow> dest_attrs nested list option"

fun init_dests :: "cp_env \<Rightarrow> ip_vs_service_user \<Rightarrow> ip_vs_dest_user list \<Rightarrow> cp_state \<Rightarrow> outcome \<times> cp_state" where
  "init_dests e svc [] st = (NL_OK, st)"
| "init_dests e svc (dest # dests) st =
     (let (rc, st) = alvs_db_add_server e svc dest st in
      if rc = ALVS_DB_INTERNAL_ERROR then alvs_db_manager_exit_with_error st else init_dests e svc dests st)"

fun init_services ::
  "cp_env \<Rightarrow> kernel_config \<Rightarrow> ip_vs_service_user list \<Rightarrow> cp_state \<Rightarrow> outcome \<times> cp_state" where
  "init_services e k [] st = (NL_OK, st)"
| "init_services e k (svc # svcs) st =
     (let (rc, st) = alvs_db_add_service e svc st in
      if rc = ALVS_DB_INTERNAL_ERROR then alvs_db_manager_exit_with_error st
      else case collect alvs_dests_parse_cb (kc_dests k svc) of
        None \<Rightarrow> alvs_db_manager_exit_with_error st
      | Some dests \<Rightarrow>
          (case init_dests e svc dests st of
             (NL_OK, st) \<Rightarrow> init_services e k svcs st
           | r \<Rightarrow> r))"

definition alvs_db_manager_table_init :: "manager_env \<Rightarrow> kernel_config \<Rightarrow> cp_state \<Rightarrow> outcome \<times> cp_state" where
  "alvs_db_manager_table_init m k st =
     (let e = me_cp m in
      case kc_daemons k of
        None \<Rightarrow> alvs_db_manager_exit_with_error st
      | Some msgs \<Rightarrow>
          (case collect_daemons msgs (zero_daemon, zero_daemon) of
             Fault \<Rightarrow> (Faulted, st)
           | Skip \<Rightarrow> alvs_db_manager_exit_with_error st
           | Done ds \<Rightarrow>
               let (alvs_ret, st) = alvs_db_init_daemon e (me_ifs m) (fst ds) (snd ds) st in
               if alvs_ret = ALVS_DB_INTERNAL_ERROR \<or> alvs_ret = ALVS_DB_NPS_ERROR
               then alvs_db_manager_exit_with_error st
               else case collect alvs_services_parse_cb (kc_services k) of
                 None \<Rightarrow> alvs_db_manager_exit_with_error st
               | Some svcs \<Rightarrow> init_services e k svcs st))"

end
