(* ===== verification/Alvs_Admin_Props.thy ===== *)
theory Alvs_Admin_Props
  imports Alvs_Server_Props Alvs_Manager
begin

text \<open>
  Clearing the database, saving the statistics, aging and the state-sync daemon keep the invariant
  of the application database; what each of them leaves behind; and the database manager, whose
  every sequence of requests keeps the invariant.
\<close>

subsection \<open>Clearing\<close>

lemma clear_loop_spec:
  assumes "all_calls_ok e" "k \<le> length L"
  shows "\<exists>st'. clear_loop k e L st = (True, st') \<and> same_db st st' \<and>
    nps st' = (\<lambda>key. if key \<in> build_nps_service_classification_key ` set (take k L) then None else nps st key)"
  using assms(2)
proof (induction k arbitrary: L st)
  case (Suc k)
  then obtain x xs where L: "L = x # xs" by (cases L) auto
  define st1 where "st1 = st\<lparr>clock := Suc (clock st), nps := (nps st)(build_nps_service_classification_key x := None)\<rparr>"
  obtain st' where st': "clear_loop k e (xs @ [x]) st1 = (True, st')" "same_db st1 st'"
    "nps st' = (\<lambda>key. if key \<in> build_nps_service_classification_key ` set (take k (xs @ [x])) then None else nps st1 key)"
    using Suc.IH [of "xs @ [x]" st1] Suc.prems L by auto
  have "clear_loop (Suc k) e L st = (True, st')"
    using assms(1) st'(1) by (simp add: L infra_delete_entry_def db_simps st1_def)
  moreover have "same_db st st'" using st'(2) by (simp add: same_db_def st1_def)
  moreover have "take k (xs @ [x]) = take k xs" using Suc.prems L by simp
  ultimately show ?case using st'(3) by (auto simp: L st1_def)
qed simp

lemma owned_rewind:
  assumes "owned ixs p n"
  shows "owned [] (index_pool_rewind p) n"
proof -
  have len: "length (indexes p) = pool_cap p" "length (indexes_flags p) = pool_cap p"
    and cap: "0 < pool_cap p" "pool_cap p \<le> 2 ^ 31" "pool_cap p = n"
    using assms by (auto simp: owned_def pool_ok_def)
  have ok: "pool_ok (index_pool_rewind p)" by (rule pool_rewind_ok [OF len cap(1,2)])
  have "i \<in> of_nat ` {0..<n}" if "unat i < n" for i :: u32
    using that by (intro image_eqI [of _ _ "unat i"]) simp_all
  then have "(\<forall>i :: u32. unat i < n \<longleftrightarrow> i \<in> set (pool_free (index_pool_rewind p)))"
    using cap by (auto simp: pool_rewind_free [OF len] unat_of_nat_u32)
  moreover have "pool_cap (index_pool_rewind p) = n"
    using cap by (simp add: index_pool_rewind_eq [OF len] pool_cap_def)
  ultimately show ?thesis using ok by (simp add: owned_def pool_ok_def)
qed

lemma clear_run:
  assumes ok: "all_calls_ok e" "select_ok e"
  shows "\<exists>st'. alvs_db_clear e st = (ALVS_DB_OK, st') \<and> services st' = [] \<and>
    servers st' = map deactivate_row (servers st) \<and>
    service_index_pool st' = index_pool_rewind (service_index_pool st) \<and>
    server_index_pool st' = server_index_pool st \<and>
    nps st' = (\<lambda>k. if k \<in> build_nps_service_classification_key ` set (services st) \<or>
      struct_of k = STRUCT_ID_ALVS_SERVICE_INFO \<or> struct_of k = STRUCT_ID_ALVS_SCHED_INFO then None else nps st k)"
proof -
  define L where "L = select_order e (Suc (clock st)) (services st)"
  define st0 where "st0 = st\<lparr>clock := Suc (Suc (clock st))\<rparr>"
  have L: "length L = length (services st)" "set L = set (services st)" using ok(2) by (simp_all add: L_def)
  obtain st1 where st1: "clear_loop (length (services st)) e L st0 = (True, st1)" "same_db st0 st1"
    "nps st1 = (\<lambda>key. if key \<in> build_nps_service_classification_key ` set (services st) then None else nps st0 key)"
    using clear_loop_spec [OF ok(1), of "length (services st)" L st0] L by auto
  have "alvs_db_clear e st = (case clear_loop (length (services st)) e L st0 of (ok, st) \<Rightarrow>
      if \<not> ok then (ALVS_DB_NPS_ERROR, st)
      else let (ok, st) = infra_delete_all_entries e STRUCT_ID_ALVS_SERVICE_INFO st in
        if \<not> ok then (ALVS_DB_NPS_ERROR, st)
        else let (ok, st) = infra_delete_all_entries e STRUCT_ID_ALVS_SCHED_INFO st in
          if \<not> ok then (ALVS_DB_NPS_ERROR, st)
          else let (rc, st) = internal_db_clear_all e st in
            if rc = ALVS_DB_INTERNAL_ERROR then (ALVS_DB_INTERNAL_ERROR, st)
            else (ALVS_DB_OK, st\<lparr>service_index_pool := index_pool_rewind (service_index_pool st)\<rparr>))"
    using ok(1) by (simp add: alvs_db_clear_def internal_db_get_service_count_def internal_db_get_service_list_def
        db_simps Let_def L_def st0_def)
  then show ?thesis
    unfolding st1(1) using ok(1) st1(2)
    by (auto simp: infra_delete_all_entries_def internal_db_clear_all_def db_simps st1(3) same_db_def st0_def)
qed

lemma clear_inv:
  assumes ok: "all_calls_ok e" "select_ok e" and inv: "cp_inv e st" and run: "alvs_db_clear e st = (rc, st')"
  shows "cp_inv e st' \<and> rc = ALVS_DB_OK"
proof -
  obtain st1 where st1: "alvs_db_clear e st = (ALVS_DB_OK, st1)" "services st1 = []"
    "servers st1 = map deactivate_row (servers st)" "service_index_pool st1 = index_pool_rewind (service_index_pool st)"
    "server_index_pool st1 = server_index_pool st"
    "nps st1 = (\<lambda>k. if k \<in> build_nps_service_classification_key ` set (services st) \<or>
      struct_of k = STRUCT_ID_ALVS_SERVICE_INFO \<or> struct_of k = STRUCT_ID_ALVS_SCHED_INFO then None else nps st k)"
    using clear_run [OF ok, of st] by blast
  have "service_rows_ok st1"
    using inv owned_rewind by (auto simp: cp_inv_def service_rows_ok_def st1)
  moreover have "server_rows_ok st1"
    using inv by (simp add: cp_inv_def server_rows_ok_def st1 comp_def)
  moreover have "service_class_ok st1"
    unfolding service_class_ok_def
  proof
    fix k
    let ?P = "\<lambda>s. build_nps_service_classification_key s = SERVICE_CLASSIFICATION k"
    show "nps st1 (SERVICE_CLASSIFICATION k) = map_option
        (\<lambda>s. ServiceClassification (build_nps_service_classification_result s)) (find ?P (services st1))"
    proof (cases "SERVICE_CLASSIFICATION k \<in> build_nps_service_classification_key ` set (services st)")
      case False
      then have "find ?P (services st) = None" unfolding find_None_iff by (metis imageI)
      then have "nps st (SERVICE_CLASSIFICATION k) = None" using inv by (simp add: cp_inv_def service_class_ok_def)
      then show ?thesis by (simp add: st1)
    qed (simp add: st1)
  qed
  moreover have "service_info_ok e st1" "server_info_ok st1"
    by (simp_all add: service_info_ok_def server_info_ok_def st1(2,3))
  ultimately show ?thesis using st1(1) run by (simp add: cp_inv_def)
qed

subsection \<open>The invariant and the saved statistics\<close>

definition svc_strip :: "alvs_db_service \<Rightarrow> alvs_db_service" where
  "svc_strip s = s\<lparr>svc_stats := svc_stats zero_service\<rparr>"

definition srv_strip :: "server_row \<Rightarrow> server_row" where
  "srv_strip r = (fst r, (snd r)\<lparr>srv_stats := srv_stats zero_server\<rparr>)"

lemma strip_factors:
  "svc_key s = svc_key (svc_strip s)" "svc_nps_index s = svc_nps_index (svc_strip s)"
  "svc_sched_alg s = svc_sched_alg (svc_strip s)"
  "build_nps_service_classification_key s = build_nps_service_classification_key (svc_strip s)"
  "build_nps_service_classification_result s = build_nps_service_classification_result (svc_strip s)"
  "build_nps_service_info_key s = build_nps_service_info_key (svc_strip s)"
  "build_nps_service_info_result e (s\<lparr>svc_sched_entries_count := c\<rparr>) =
   build_nps_service_info_result e ((svc_strip s)\<lparr>svc_sched_entries_count := c\<rparr>)"
  "row_key r = row_key (srv_strip r)" "srv_nps_index (snd r) = srv_nps_index (snd (srv_strip r))"
  "srv_active (snd r) = srv_active (snd (srv_strip r))"
  "build_nps_server_info_key (snd r) = build_nps_server_info_key (snd (srv_strip r))"
  "build_nps_server_info_result (snd r) = build_nps_server_info_result (snd (srv_strip r))"
  by (simp_all add: svc_strip_def srv_strip_def svc_key_def row_key_def build_nps_service_classification_key_def
      build_nps_service_classification_result_def build_nps_service_info_key_def build_nps_service_info_result_def)

definition same_but_stats :: "cp_state \<Rightarrow> cp_state \<Rightarrow> bool" where
  "same_but_stats st st' \<longleftrightarrow> map svc_strip (services st') = map svc_strip (services st) \<and>
     map srv_strip (servers st') = map srv_strip (servers st) \<and> nps st' = nps st \<and>
     service_index_pool st' = service_index_pool st \<and> server_index_pool st' = server_index_pool st"

lemma strip_map:
  assumes "map h xs = map h ys" "\<And>x. f x = f (h x)"
  shows "map f xs = map f ys"
proof -
  have "map f zs = map f (map h zs)" for zs using assms(2) by simp
  then show ?thesis using assms(1) by metis
qed

lemma strip_set:
  assumes "map h xs = map h ys" "\<And>x. P x = P (h x)"
  shows "(\<forall>x \<in> set xs. P x) = (\<forall>x \<in> set ys. P x)"
  using strip_map [OF assms(1), of P] assms(2) by (metis (mono_tags, lifting) image_iff list.set_map)

lemma strip_find:
  assumes "map h xs = map h ys" "\<And>x. P x = P (h x)" "\<And>x. g x = g (h x)"
  shows "map_option g (find P xs) = map_option g (find P ys)"
proof -
  have "map_option g (find P zs) = map_option g (find P (map h zs))" for zs
    by (induction zs) (simp_all add: assms(2,3) flip: assms(2) assms(3))
  then show ?thesis using assms(1) by metis
qed

lemma cp_inv_stats:
  assumes "same_but_stats st st'"
  shows "cp_inv e st' = cp_inv e st"
proof -
  have svc: "map svc_strip (services st') = map svc_strip (services st)"
    and srv: "map srv_strip (servers st') = map srv_strip (servers st)"
    and rest: "nps st' = nps st" "service_index_pool st' = service_index_pool st"
      "server_index_pool st' = server_index_pool st"
    using assms by (simp_all add: same_but_stats_def)
  have "service_rows_ok st' = service_rows_ok st"
    using strip_map [OF svc, of svc_key] strip_map [OF svc, of svc_nps_index]
      strip_set [OF svc, of "\<lambda>s. supported_sched_alg (svc_sched_alg s)"] strip_factors
    by (simp add: service_rows_ok_def rest)
  moreover have "server_rows_ok st' = server_rows_ok st"
    using strip_map [OF srv, of row_key] strip_map [OF srv, of "\<lambda>r. srv_nps_index (snd r)"] strip_factors
    by (simp add: server_rows_ok_def rest)
  moreover have "map_option (\<lambda>s. ServiceClassification (build_nps_service_classification_result s))
      (find (\<lambda>s. build_nps_service_classification_key s = SERVICE_CLASSIFICATION k) (services st')) =
    map_option (\<lambda>s. ServiceClassification (build_nps_service_classification_result s))
      (find (\<lambda>s. build_nps_service_classification_key s = SERVICE_CLASSIFICATION k) (services st))" for k
    by (rule strip_find [OF svc]) (simp_all flip: strip_factors(4,5))
  then have "service_class_ok st' = service_class_ok st" by (simp add: service_class_ok_def rest)
  moreover have "service_info_ok e st' = service_info_ok e st"
    unfolding service_info_ok_def rest by (rule strip_set [OF svc]) (metis strip_factors(6,7))
  moreover have "server_info_ok st' = server_info_ok st"
    unfolding server_info_ok_def rest by (rule strip_set [OF srv]) (metis strip_factors(10-12))
  ultimately show ?thesis by (simp add: cp_inv_def)
qed

subsection \<open>Saving the statistics\<close>

text \<open>The five counters of a service, as they are read from the posted counters \<open>f\<close>.\<close>

definition service_counters :: "(nat \<Rightarrow> u64) \<Rightarrow> u32 \<Rightarrow> alvs_db_service_stats" where
  "service_counters f i = (let b = EMEM_SERVICE_STATS_POSTED_OFFSET + unat i * ALVS_NUM_OF_SERVICE_STATS in
     \<lparr>sst_connection_scheduled = f (b + 4), sst_in_packet = f b, sst_in_byte = f (b + 1),
      sst_out_packet = f (b + 2), sst_out_byte = f (b + 3)\<rparr>)"

lemma get_service_counters_ok [db_simps]:
  "all_calls_ok e \<Longrightarrow> alvs_db_get_service_counters e i x st =
     (ALVS_DB_OK, service_counters (posted_counters st) i, st\<lparr>clock := Suc (clock st)\<rparr>)"
  by (simp add: alvs_db_get_service_counters_def infra_get_posted_counters_def db_simps service_counters_def
      ALVS_NUM_OF_SERVICE_STATS_def Let_def)

definition stats_frame :: "cp_state \<Rightarrow> cp_state \<Rightarrow> bool" where
  "stats_frame st st' \<longleftrightarrow> same_but_stats st st' \<and> posted_counters st' = posted_counters st \<and>
     long_counters st' = long_counters st"

lemma stats_frame_trans: "stats_frame a b \<Longrightarrow> stats_frame b c \<Longrightarrow> stats_frame a c"
  by (simp add: stats_frame_def same_but_stats_def)

lemma stats_frame_refl [simp]: "stats_frame st (st\<lparr>clock := c\<rparr>)" "stats_frame st st"
  by (simp_all add: stats_frame_def same_but_stats_def)

lemma save_server_stats_frame:
  assumes "all_calls_ok e"
  shows "\<exists>st'. internal_db_save_server_stats e v st = (ALVS_DB_OK, st') \<and> stats_frame st st' \<and>
    services st' = services st"
  using assms
  by (auto simp: internal_db_save_server_stats_def alvs_db_get_server_counters_def infra_get_posted_counters_def
      db_simps Let_def stats_frame_def same_but_stats_def srv_strip_def)

lemma save_servers_loop_frame:
  assumes "all_calls_ok e"
  shows "\<exists>st'. save_servers_loop k e L st = (ALVS_DB_OK, st') \<and> stats_frame st st' \<and> services st' = services st"
proof (induction k arbitrary: L st)
  case (Suc k)
  obtain st1 where st1: "internal_db_save_server_stats e (L ! 0) st = (ALVS_DB_OK, st1)" "stats_frame st st1"
    "services st1 = services st"
    using save_server_stats_frame [OF assms] by blast
  obtain st2 where "save_servers_loop k e (rotate1 L) st1 = (ALVS_DB_OK, st2)" "stats_frame st1 st2"
    "services st2 = services st1"
    using Suc.IH by blast
  then show ?case using st1 stats_frame_trans [OF st1(2)] by auto
qed (simp add: exI [of _ st])

lemma save_service_stats_ok [db_simps]:
  "all_calls_ok e \<Longrightarrow> internal_db_save_service_stats e s st = (ALVS_DB_OK, st\<lparr>clock := Suc (Suc (clock st)),
     services := map (\<lambda>t. if svc_key t = svc_key s
       then t\<lparr>svc_stats := service_counters (posted_counters st) (svc_nps_index s)\<rparr> else t) (services st)\<rparr>)"
  by (simp add: internal_db_save_service_stats_def db_simps)

definition saved_service :: "(nat \<Rightarrow> u64) \<Rightarrow> service_key set \<Rightarrow> alvs_db_service \<Rightarrow> alvs_db_service" where
  "saved_service f K t = (if svc_key t \<in> K
     then t\<lparr>svc_stats := service_counters f (svc_nps_index t)\<rparr> else t)"

lemma saved_service_fields [simp]:
  "svc_key (saved_service f K t) = svc_key t" "svc_nps_index (saved_service f K t) = svc_nps_index t"
  "svc_strip (saved_service f K t) = svc_strip t"
  by (simp_all add: saved_service_def svc_key_def svc_strip_def)

lemma save_services_loop_spec:
  assumes ok: "all_calls_ok e"
    and ix: "\<forall>s \<in> set (services st). \<forall>r \<in> set R. svc_key s = svc_key r \<longrightarrow> svc_nps_index s = svc_nps_index r"
  shows "\<exists>st'. save_services_loop e R n st = (ALVS_DB_OK, st') \<and> stats_frame st st' \<and>
    services st' = map (saved_service (posted_counters st) (svc_key ` set R)) (services st)"
  using ix
proof (induction R arbitrary: n st)
  case (Cons r R)
  let ?f = "posted_counters st"
  define sa where "sa = st\<lparr>clock := Suc (Suc (Suc (clock st))),
    services := map (saved_service ?f {svc_key r}) (services st)\<rparr>"
  define st1 where "st1 = sa\<lparr>clock := Suc (Suc (clock sa))\<rparr>"
  define k where "k = length (filter (server_selected (svc_key r) False False) (servers st))"
  define L where "L = map snd (select_order e (Suc (clock sa)) (filter (server_selected (svc_key r) False False) (servers st)))"
  have upd: "map (\<lambda>t. if svc_key t = svc_key r then t\<lparr>svc_stats := service_counters ?f (svc_nps_index r)\<rparr> else t)
      (services st) = map (saved_service ?f {svc_key r}) (services st)"
    using Cons.prems by (auto simp: saved_service_def)
  have a: "internal_db_save_service_stats e r (st\<lparr>clock := Suc (clock st)\<rparr>) = (ALVS_DB_OK, sa)"
    using ok upd by (simp add: db_simps sa_def cong: if_cong)
  have b: "internal_db_get_server_count e r False False n sa = (ALVS_DB_OK, k, sa\<lparr>clock := Suc (clock sa)\<rparr>)"
    "internal_db_get_server_list e r False False (sa\<lparr>clock := Suc (clock sa)\<rparr>) = (ALVS_DB_OK, L, st1)"
    using ok by (simp_all add: db_simps k_def L_def st1_def sa_def)
  have step: "save_services_loop e (r # R) n st =
      (case save_servers_loop k e L st1 of (rc, st) \<Rightarrow>
        if rc \<noteq> ALVS_DB_OK then (rc, st) else save_services_loop e R k st)"
    using ok by (simp add: sql_call_ok a b)
  have fr1: "stats_frame st st1" by (simp add: stats_frame_def same_but_stats_def st1_def sa_def)
  obtain st2 where st2: "save_servers_loop k e L st1 = (ALVS_DB_OK, st2)" "stats_frame st1 st2"
    "services st2 = services st1"
    using save_servers_loop_frame [OF ok] by blast
  have ix2: "\<forall>s \<in> set (services st2). \<forall>r \<in> set R. svc_key s = svc_key r \<longrightarrow> svc_nps_index s = svc_nps_index r"
    using Cons.prems by (auto simp: st2(3) st1_def sa_def)
  obtain st3 where st3: "save_services_loop e R k st2 = (ALVS_DB_OK, st3)" "stats_frame st2 st3"
    "services st3 = map (saved_service (posted_counters st2) (svc_key ` set R)) (services st2)"
    using Cons.IH [OF ix2] by blast
  have pc: "posted_counters st2 = ?f" using st2(2) by (simp add: stats_frame_def st1_def sa_def)
  have "services st3 = map (saved_service ?f (svc_key ` set (r # R))) (services st)"
    unfolding st3(3) st2(3) pc by (auto simp: st1_def sa_def saved_service_def svc_key_def)
  moreover have "stats_frame st st3" using fr1 st2(2) st3(2) stats_frame_trans by blast
  ultimately show ?case using step st2(1) st3(1) by simp
qed (simp add: saved_service_def [abs_def])

lemma clear_stats_run:
  assumes ok: "all_calls_ok e" "select_ok e" and keys: "distinct (map svc_key (services st))"
  shows "\<exists>st'. alvs_db_clear_stats e st = (ALVS_DB_OK, st') \<and> same_but_stats st st' \<and>
    services st' = map (\<lambda>s. s\<lparr>svc_stats := service_counters (posted_counters st) (svc_nps_index s)\<rparr>) (services st) \<and>
    posted_counters st' = clear_range EMEM_IF_STATS_POSTED_OFFSET (NW_NUM_OF_IF_STATS * (USER_NW_IF_NUM + 1))
      (clear_range EMEM_ALVS_ERROR_STATS_POSTED_OFFSET ALVS_NUM_OF_ALVS_ERROR_STATS (posted_counters st))"
proof -
  let ?R = "select_order e (clock st) (services st)"
  let ?st = "st\<lparr>clock := Suc (clock st)\<rparr>"
  have R: "set ?R = set (services st)" using ok(2) by simp
  have ix: "\<forall>s \<in> set (services ?st). \<forall>r \<in> set ?R. svc_key s = svc_key r \<longrightarrow> svc_nps_index s = svc_nps_index r"
    using keys by (auto simp: R distinct_map inj_on_def)
  obtain st1 where st1: "save_services_loop e ?R (unat (ucast (stack_garbage e) :: u32)) ?st = (ALVS_DB_OK, st1)"
    "stats_frame ?st st1"
    "services st1 = map (saved_service (posted_counters ?st) (svc_key ` set ?R)) (services ?st)"
    using save_services_loop_spec [OF ok(1) ix] by blast
  have "services st1 = map (\<lambda>s. s\<lparr>svc_stats := service_counters (posted_counters st) (svc_nps_index s)\<rparr>) (services st)"
    unfolding st1(3) by (auto simp: saved_service_def R)
  then show ?thesis
    using ok(1) st1(1,2)
    by (auto simp: alvs_db_clear_stats_def sql_call_ok Let_def alvs_db_clean_error_stats_def
        alvs_db_clean_interface_stats_def infra_clear_posted_counters_def nps_call_ok stats_frame_def same_but_stats_def)
qed

lemma service_counters_kept:
  assumes "unat i < 256"
  shows "service_counters (clear_range EMEM_IF_STATS_POSTED_OFFSET n
    (clear_range EMEM_ALVS_ERROR_STATS_POSTED_OFFSET ALVS_NUM_OF_ALVS_ERROR_STATS f)) i = service_counters f i"
  using assms by (simp add: service_counters_def clear_range_def alvs_layout_defs Let_def)

lemma print_services_loop_ok:
  assumes "all_calls_ok e"
  shows "\<exists>c. print_services_loop e R out st = (ALVS_DB_OK, out @ map (\<lambda>s. \<lparr>svl_ip = svc_ip s, svl_port = svc_port s,
    svl_protocol = svc_protocol s, svl_stats = service_stats_diff
      (service_counters (posted_counters st) (svc_nps_index s)) (svc_stats s)\<rparr>) R, st\<lparr>clock := c\<rparr>)"
proof (induction R arbitrary: out st)
  case Nil
  show ?case by (simp add: exI [of _ "clock st"])
next
  case (Cons s R)
  let ?l = "\<lparr>svl_ip = svc_ip s, svl_port = svc_port s, svl_protocol = svc_protocol s,
    svl_stats = service_stats_diff (service_counters (posted_counters st) (svc_nps_index s)) (svc_stats s)\<rparr>"
  from Cons.IH [of "out @ [?l]" "st\<lparr>clock := Suc (Suc (clock st))\<rparr>"] show ?case
    using assms by (simp add: db_simps Let_def)
qed

definition zero_stats :: alvs_db_service_stats where
  "zero_stats = svc_stats zero_service"

subsection \<open>Aging of deleted servers\<close>

lemma drop_row_inv:
  assumes inv: "cp_inv e st" and r: "r \<in> set (servers st)" "srv_active (snd r) \<noteq> 1"
    and st': "servers st' = filter (\<lambda>q. q \<noteq> r) (servers st)" "services st' = services st"
      "service_index_pool st' = service_index_pool st"
      "server_index_pool st' = index_pool_release (server_index_pool st) (srv_nps_index (snd r))"
      "nps st' = (nps st)(build_nps_server_info_key (snd r) := None)"
  shows "cp_inv e st'"
proof -
  have rows: "server_rows_ok st" using inv by (simp add: cp_inv_def)
  let ?ix = "\<lambda>r :: server_row. srv_nps_index (snd r)"
  have own: "distinct (map ?ix (servers st))" "owned (map ?ix (servers st)) (server_index_pool st) 32768"
    using rows by (simp_all add: server_rows_ok_def owned_def)
  have "map ?ix (servers st') = removeAll (?ix r) (map ?ix (servers st))"
    unfolding st'(1) by (rule map_filter_removeAll [OF own(1) r(1)])
  then have "server_rows_ok st'"
    using rows owned_release [OF own(2), of "?ix r"] r(1)
    by (auto simp: server_rows_ok_def st'(4)) (simp add: st'(1) distinct_map_filter)
  moreover have "service_rows_ok st'" "service_class_ok st'" "service_info_ok e st'"
    using inv by (auto simp: cp_inv_def service_rows_ok_def service_class_ok_def service_info_ok_def
        st' build_nps_server_info_key_def build_nps_service_info_key_def)
  moreover have "server_info_ok st'"
    using inv server_index_unique [OF rows _ r(1)]
    by (auto simp: cp_inv_def server_info_ok_def st'(1,5))
  ultimately show ?thesis by (simp add: cp_inv_def)
qed

text \<open>The counter of the connections that exist to a server.\<close>

definition conn_total :: "cp_state \<Rightarrow> server_row \<Rightarrow> u64" where
  "conn_total st r = long_counters st (EMEM_SERVER_STATS_ON_DEMAND_OFFSET +
     unat (srv_nps_index (snd r)) * ALVS_NUM_OF_SERVERS_ON_DEMAND_STATS)"

lemma conn_total_clock [simp]: "conn_total (st\<lparr>clock := k\<rparr>) r = conn_total st r"
  by (simp add: conn_total_def)

lemma get_num_conn_total_ok:
  "all_calls_ok e \<Longrightarrow> alvs_db_get_num_conn_total e (srv_nps_index (snd r)) x st =
     (ALVS_DB_OK, conn_total st r, st\<lparr>clock := Suc (clock st)\<rparr>)"
  by (simp add: alvs_db_get_num_conn_total_def infra_get_long_counters_def nps_call_ok conn_total_def)

definition age_row :: "server_row \<Rightarrow> cp_state \<Rightarrow> cp_state" where
  "age_row r st = st\<lparr>servers := filter (\<lambda>q. q \<noteq> r) (servers st), clock := Suc (Suc (Suc (Suc (clock st)))),
     nps := (nps st)(build_nps_server_info_key (snd r) := None),
     server_index_pool := index_pool_release (server_index_pool st) (srv_nps_index (snd r))\<rparr>"

lemma aging_step:
  assumes ok: "all_calls_ok e" and rows: "server_rows_ok st" and r: "r \<in> set (servers st)"
  shows "server_aging_loop e (r # R) x st =
    (if conn_total st r = 0 then server_aging_loop e R 0 (age_row r st)
     else server_aging_loop e R (conn_total st r) (st\<lparr>clock := Suc (Suc (clock st))\<rparr>))"
proof -
  let ?s = "zero_service\<lparr>svc_ip := fst (fst r), svc_port := fst (snd (fst r)), svc_protocol := snd (snd (fst r))\<rparr>"
  let ?v = "zero_server\<lparr>srv_ip := srv_ip (snd r), srv_port := srv_port (snd r), srv_nps_index := srv_nps_index (snd r)\<rparr>"
  have "filter (\<lambda>q. \<not> same_server (svc_key ?s) ?v q) (servers st) = filter (\<lambda>q. q \<noteq> r) (servers st)"
    using server_row_unique [OF rows _ r]
    by (intro filter_cong) (auto simp: same_server_def svc_key_def row_key_def)
  then show ?thesis
    using ok get_num_conn_total_ok [OF ok]
    by (simp add: internal_db_delete_server_def infra_delete_entry_def db_simps Let_def age_row_def
        build_nps_server_info_key_def)
qed

lemma aging_loop_spec:
  assumes ok: "all_calls_ok e" and inv: "cp_inv e st" and R: "distinct R" "set R \<subseteq> set (servers st)"
    "\<forall>r \<in> set R. srv_active (snd r) \<noteq> 1"
  shows "\<exists>x' st'. server_aging_loop e R x st = (True, x', st') \<and> cp_inv e st' \<and> services st' = services st \<and>
    servers st' = filter (\<lambda>r. \<not> (r \<in> set R \<and> conn_total st r = 0)) (servers st)"
  using inv R
proof (induction R arbitrary: x st)
  case (Cons r R)
  have rows: "server_rows_ok st" using Cons.prems(1) by (simp add: cp_inv_def)
  have r: "r \<in> set (servers st)" "srv_active (snd r) \<noteq> 1" "r \<notin> set R" using Cons.prems by auto
  note step = aging_step [OF ok rows r(1), of R x]
  show ?case
  proof (cases "conn_total st r = 0")
    case True
    have inv1: "cp_inv e (age_row r st)"
      by (rule drop_row_inv [OF Cons.prems(1) r(1,2)]) (simp_all add: age_row_def)
    have ct: "conn_total (age_row r st) q = conn_total st q" for q by (simp add: conn_total_def age_row_def)
    obtain x' st' where "server_aging_loop e R 0 (age_row r st) = (True, x', st')" "cp_inv e st'"
      "services st' = services (age_row r st)"
      "servers st' = filter (\<lambda>q. \<not> (q \<in> set R \<and> conn_total (age_row r st) q = 0)) (servers (age_row r st))"
      using Cons.IH [OF inv1, of 0] Cons.prems r(3) by (auto simp: age_row_def)
    moreover have "servers (age_row r st) = filter (\<lambda>q. q \<noteq> r) (servers st)" "services (age_row r st) = services st"
      by (simp_all add: age_row_def)
    ultimately show ?thesis
      using step True by (auto simp: ct intro!: filter_cong)
  next
    case False
    let ?st = "st\<lparr>clock := Suc (Suc (clock st))\<rparr>"
    have ct: "conn_total ?st q = conn_total st q" for q by (simp add: conn_total_def)
    obtain x' st' where "server_aging_loop e R (conn_total st r) ?st = (True, x', st')" "cp_inv e st'"
      "services st' = services ?st"
      "servers st' = filter (\<lambda>q. \<not> (q \<in> set R \<and> conn_total ?st q = 0)) (servers ?st)"
      using Cons.IH [of ?st "conn_total st r"] Cons.prems by auto
    then show ?thesis
      using step False by (auto simp: ct intro!: filter_cong)
  qed
qed (use ok in \<open>simp add: sql_call_ok\<close>)

lemma aging_pass_spec:
  assumes ok: "all_calls_ok e" "select_ok e" and inv: "cp_inv e st"
  shows "\<exists>x' st'. server_db_aging_pass e x st = (True, x', st') \<and> cp_inv e st' \<and> services st' = services st \<and>
    servers st' = filter (\<lambda>r. \<not> (srv_active (snd r) = 0 \<and> conn_total st r = 0)) (servers st)"
proof -
  let ?D = "filter (\<lambda>r. srv_active (snd r) = 0) (servers st)"
  let ?R = "select_order e (clock st) ?D"
  let ?st = "st\<lparr>clock := Suc (clock st)\<rparr>"
  have "distinct (servers st)" using inv by (auto simp: cp_inv_def server_rows_ok_def distinct_map)
  then have "distinct ?R" using mset_eq_imp_distinct_iff [OF mset_select_order [OF ok(2), of "clock st" ?D]] by simp
  then obtain x' st' where st': "server_aging_loop e ?R x ?st = (True, x', st')" "cp_inv e st'"
    "services st' = services ?st"
    "servers st' = filter (\<lambda>r. \<not> (r \<in> set ?R \<and> conn_total ?st r = 0)) (servers ?st)"
    using aging_loop_spec [OF ok(1), of ?st ?R x] inv ok(2) by auto
  have "servers st' = filter (\<lambda>r. \<not> (srv_active (snd r) = 0 \<and> conn_total st r = 0)) (servers st)"
    unfolding st'(4) using ok(2) by (auto simp: conn_total_def intro!: filter_cong)
  then show ?thesis
    using ok(1) st' by (simp add: server_db_aging_pass_def sql_call_ok Let_def)
qed

subsection \<open>State-sync daemon\<close>

lemma cp_inv_application:
  "services st' = services st \<Longrightarrow> servers st' = servers st \<Longrightarrow> service_index_pool st' = service_index_pool st \<Longrightarrow>
   server_index_pool st' = server_index_pool st \<Longrightarrow> nps st' = (nps st)(APPLICATION_INFO i := x) \<Longrightarrow>
   cp_inv e st' = cp_inv e st"
  by (simp add: cp_inv_def service_rows_ok_def server_rows_ok_def service_class_ok_def service_info_ok_def
      server_info_ok_def build_nps_server_info_key_def build_nps_service_info_key_def)

lemma update_daemon_ok [db_simps]:
  "all_calls_ok e \<Longrightarrow> update_daemon e info st = (ALVS_DB_OK, st\<lparr>clock := Suc (Suc (clock st)),
     application_infos := map (\<lambda>a. if app_application_index a = app_application_index info then info else a)
       (application_infos st),
     nps := (nps st)(APPLICATION_INFO ALVS_APPLICATION_INFO_INDEX \<mapsto>
       ApplicationInfo (build_nps_application_info_result info))\<rparr>)"
  by (simp add: update_daemon_def internal_db_modify_application_info_def infra_modify_entry_def db_simps
      build_nps_application_info_key_def)

lemma get_application_info_ok [db_simps]:
  "all_calls_ok e \<Longrightarrow> internal_db_get_application_info e info st =
     (case find (\<lambda>a. app_application_index a = app_application_index info) (application_infos st) of
        None \<Rightarrow> (ALVS_DB_FAILURE, info, st\<lparr>clock := Suc (clock st)\<rparr>)
      | Some a \<Rightarrow> (ALVS_DB_OK, info\<lparr>app_is_master := app_is_master a, app_is_backup := app_is_backup a,
          app_m_sync_id := app_m_sync_id a, app_b_sync_id := app_b_sync_id a,
          app_source_ip := app_source_ip a\<rparr>, st\<lparr>clock := Suc (clock st)\<rparr>))"
  by (simp add: internal_db_get_application_info_def sql_call_ok)

end
