(* ===== verification/Alvs_Manager_Props.thy ===== *)
theory Alvs_Manager_Props
  imports Alvs_Admin_Props
begin

text \<open>
  Properties of the database manager: the contract every operation of the application database
  keeps towards it, the invariant over whole sequences of requests, and when a request ends the
  application.
\<close>

subsection \<open>The contract of a database operation\<close>

locale db_operation =
  fixes e :: cp_env and op :: "cp_state \<Rightarrow> alvs_db_rc \<times> cp_state"
  assumes keeps: "all_calls_ok e \<Longrightarrow> select_ok e \<Longrightarrow> cp_inv e st \<Longrightarrow> op st = (rc, st') \<Longrightarrow>
    cp_inv e st' \<and> rc \<in> {ALVS_DB_OK, ALVS_DB_FAILURE, ALVS_DB_NOT_SUPPORTED}"
begin

lemma finish:
  assumes "all_calls_ok e" "select_ok e" "cp_inv e st"
  shows "fst (finish_request (op st)) = NL_OK \<and> cp_inv e (snd (finish_request (op st)))"
proof -
  obtain rc st' where "op st = (rc, st')" by fastforce
  with keeps [OF assms this] show ?thesis by (auto simp: finish_request_def)
qed

end

interpretation add_service: db_operation e "alvs_db_add_service e u" for e u
  by unfold_locales (rule add_service_inv)

interpretation modify_service: db_operation e "alvs_db_modify_service e u" for e u
  by unfold_locales (rule modify_service_inv)

interpretation delete_service: db_operation e "alvs_db_delete_service e u" for e u
  by unfold_locales (rule delete_service_inv)

interpretation add_server: db_operation e "alvs_db_add_server e u d" for e u d
  by unfold_locales (rule add_server_inv)

interpretation modify_server: db_operation e "alvs_db_modify_server e u d" for e u d
  by unfold_locales (rule modify_server_inv)

interpretation delete_server: db_operation e "alvs_db_delete_server e u d" for e u d
  by unfold_locales (rule delete_server_inv)

interpretation clear: db_operation e "alvs_db_clear e" for e
  by unfold_locales (use clear_inv in blast)

interpretation clear_stats: db_operation e "alvs_db_clear_stats e" for e
proof unfold_locales
  fix st rc st'
  assume ok: "all_calls_ok e" "select_ok e" and inv: "cp_inv e st" and run: "alvs_db_clear_stats e st = (rc, st')"
  have "distinct (map svc_key (services st))" using inv by (simp add: cp_inv_def service_rows_ok_def)
  from clear_stats_run [OF ok this] run inv cp_inv_stats
  show "cp_inv e st' \<and> rc \<in> {ALVS_DB_OK, ALVS_DB_FAILURE, ALVS_DB_NOT_SUPPORTED}" by auto
qed

interpretation get_service: db_operation e "get_service_request e dump" for e dump
proof unfold_locales
  fix st rc st'
  assume ok: "all_calls_ok e" and inv: "cp_inv e st" and run: "get_service_request e dump st = (rc, st')"
  let ?R = "select_order e (Suc (clock st)) (services st)"
  obtain c l where "print_services_loop e ?R [] (st\<lparr>clock := Suc (Suc (clock st))\<rparr>) = (ALVS_DB_OK, l, st\<lparr>clock := c\<rparr>)"
    using print_services_loop_ok [OF ok, of ?R "[]" "st\<lparr>clock := Suc (Suc (clock st))\<rparr>"] by auto
  then have "alvs_db_print_services_stats e (st\<lparr>clock := Suc (clock st)\<rparr>) = (ALVS_DB_OK, l, st\<lparr>clock := c\<rparr>)"
    using ok by (simp add: alvs_db_print_services_stats_def sql_call_ok Let_def)
  then show "cp_inv e st' \<and> rc \<in> {ALVS_DB_OK, ALVS_DB_FAILURE, ALVS_DB_NOT_SUPPORTED}"
    using run ok inv by (auto simp: get_service_request_def alvs_db_print_global_error_stats_def
        infra_get_posted_counters_def nps_call_ok split: if_splits)
qed

subsection \<open>Requests\<close>

lemma parse_service_clock:
  assumes "all_calls_ok e"
  obtains r c where "alvs_genl_parse_service e nla full st = (r, st\<lparr>clock := c\<rparr>)"
proof -
  have flags: "\<exists>rc u'. alvs_db_get_service_flags e u st = (rc, u', st\<lparr>clock := Suc (clock st)\<rparr>)" for u
    using assms by (auto simp: alvs_db_get_service_flags_def internal_db_get_service_def sql_call_ok
        split: option.splits alvs_db_rc.splits)
  have id: "st = st\<lparr>clock := clock st\<rparr>" by simp
  show thesis
  proof (cases nla)
    case (Parsed a)
    let ?u = "if sa_fwmark a \<noteq> None
      then \<lparr>ivs_protocol = IPPROTO_TCP, ivs_addr = 0, ivs_port = 0, ivs_sched_name = [], ivs_flags = 0\<rparr>
      else \<lparr>ivs_protocol = the (sa_protocol a), ivs_addr = the (sa_addr a), ivs_port = the (sa_port a),
        ivs_sched_name = [], ivs_flags = 0\<rparr>"
    obtain rc u' where fl: "alvs_db_get_service_flags e ?u st = (rc, u', st\<lparr>clock := Suc (clock st)\<rparr>)"
      using flags by blast
    have "snd (alvs_genl_parse_service e nla full st) \<in> {st, st\<lparr>clock := Suc (clock st)\<rparr>}"
      unfolding alvs_genl_parse_service_def Parsed nested.case Let_def fl
      by (simp split: option.splits prod.splits)
    then show thesis using that id by (metis insertE prod.collapse singletonD)
  qed (use that [of Skip "clock st"] in \<open>simp_all add: alvs_genl_parse_service_def\<close>)
qed

lemma service_request_inv:
  assumes "all_calls_ok e" "select_ok e" "cp_inv e st" "\<And>u. db_operation e (op u)"
  shows "fst (service_request e info full op st) \<noteq> Exited \<and> cp_inv e (snd (service_request e info full op st))"
proof -
  obtain r c where r: "alvs_genl_parse_service e (gi_service info) full st = (r, st\<lparr>clock := c\<rparr>)"
    using parse_service_clock [OF assms(1)] by blast
  have "fst (finish_request (op u (st\<lparr>clock := c\<rparr>))) = NL_OK \<and> cp_inv e (snd (finish_request (op u (st\<lparr>clock := c\<rparr>))))" for u
    using db_operation.finish [OF assms(4) assms(1,2)] assms(3) by simp
  then show ?thesis
    using assms(3) by (cases r) (auto simp: service_request_def with_parsed_def r)
qed

lemma dest_request_inv:
  assumes "all_calls_ok e" "select_ok e" "cp_inv e st" "\<And>u d. db_operation e (op u d)"
  shows "fst (dest_request e info full op st) \<noteq> Exited \<and> cp_inv e (snd (dest_request e info full op st))"
proof -
  obtain r c where r: "alvs_genl_parse_service e (gi_service info) False st = (r, st\<lparr>clock := c\<rparr>)"
    using parse_service_clock [OF assms(1)] by blast
  have "fst (finish_request (op u d (st\<lparr>clock := c\<rparr>))) = NL_OK \<and> cp_inv e (snd (finish_request (op u d (st\<lparr>clock := c\<rparr>))))" for u d
    using db_operation.finish [OF assms(4) assms(1,2)] assms(3) by simp
  then show ?thesis
    using assms(3) by (cases r; cases "alvs_genl_parse_dest (gi_dest info) full")
      (auto simp: dest_request_def with_parsed_def r)
qed

text \<open>The application information row a daemon request works on.\<close>

definition app_row :: "cp_state \<Rightarrow> alvs_db_application_info option" where
  "app_row st = find (\<lambda>a. app_application_index a = ALVS_APPLICATION_INFO_INDEX) (application_infos st)"

lemma update_daemon_inv:
  "all_calls_ok e \<Longrightarrow> cp_inv e st \<Longrightarrow> fst (update_daemon e info st) = ALVS_DB_OK \<and> cp_inv e (snd (update_daemon e info st))"
  by (simp add: update_daemon_ok) (subst cp_inv_application [where st = st], simp_all)

lemma start_daemon_inv:
  assumes "all_calls_ok e" "cp_inv e st" "alvs_db_start_daemon e ifs d st = (rc, st')"
  shows "cp_inv e st' \<and> (rc \<in> {ALVS_DB_OK, ALVS_DB_FAILURE} \<or> rc = ALVS_DB_INTERNAL_ERROR \<and> app_row st = None)"
proof -
  have "fst (update_daemon e info (st\<lparr>clock := c\<rparr>)) = ALVS_DB_OK \<and> cp_inv e (snd (update_daemon e info (st\<lparr>clock := c\<rparr>)))" for info c
    using update_daemon_inv [OF assms(1)] assms(2) by simp
  then show ?thesis
    using assms by (auto simp: alvs_db_start_daemon_def get_application_info_ok app_row_def Let_def
        split: option.splits if_splits prod.splits) (metis fst_conv snd_conv)+
qed

lemma stop_daemon_inv:
  assumes "all_calls_ok e" "cp_inv e st" "alvs_db_stop_daemon e d st = (rc, st')"
  shows "cp_inv e st' \<and> (rc \<in> {ALVS_DB_OK, ALVS_DB_FAILURE} \<or> rc = ALVS_DB_INTERNAL_ERROR \<and> app_row st = None)"
proof -
  have "fst (update_daemon e info (st\<lparr>clock := c\<rparr>)) = ALVS_DB_OK \<and> cp_inv e (snd (update_daemon e info (st\<lparr>clock := c\<rparr>)))" for info c
    using update_daemon_inv [OF assms(1)] assms(2) by simp
  then show ?thesis
    using assms by (auto simp: alvs_db_stop_daemon_def get_application_info_ok app_row_def Let_def
        split: option.splits if_splits prod.splits) (metis fst_conv snd_conv)+
qed

lemma daemon_request_inv:
  assumes inv: "cp_inv e st"
    and op: "\<And>d rc st'. op d st = (rc, st') \<Longrightarrow> cp_inv e st' \<and>
      (rc \<in> {ALVS_DB_OK, ALVS_DB_FAILURE} \<or> rc = ALVS_DB_INTERNAL_ERROR \<and> app_row st = None)"
  shows "(fst (daemon_request info op st) = Exited \<longrightarrow> app_row st = None) \<and>
    (fst (daemon_request info op st) \<noteq> Exited \<longrightarrow> cp_inv e (snd (daemon_request info op st)))"
proof -
  have "(fst (finish_request (op d st)) = Exited \<longrightarrow> app_row st = None) \<and>
    (fst (finish_request (op d st)) \<noteq> Exited \<longrightarrow> cp_inv e (snd (finish_request (op d st))))" for d
    using op [of d] by (cases "op d st") (auto simp: finish_request_def alvs_db_manager_exit_with_error_def)
  then show ?thesis
    using inv by (auto simp: daemon_request_def with_parsed_def split: parse.splits)
qed

text \<open>The service a request names.\<close>

definition unknown_service :: "cp_env \<Rightarrow> genl_info \<Rightarrow> cp_state \<Rightarrow> bool" where
  "unknown_service e info st \<longleftrightarrow> (case fst (alvs_genl_parse_service e (gi_service info) False st) of
     Done u \<Rightarrow> svc_key (requested_service u) \<notin> svc_key ` set (services st) | _ \<Rightarrow> False)"

lemma print_servers_loop_ok:
  assumes "all_calls_ok e"
  shows "\<exists>l c. print_servers_loop k e L x out st = (ALVS_DB_OK, l, st\<lparr>clock := c\<rparr>)"
proof (induction k arbitrary: L x out st)
  case 0
  show ?case by (simp add: exI [of _ "clock st"])
next
  case (Suc k)
  have "\<exists>y c. alvs_db_get_server_counters e i x True st = (ALVS_DB_OK, y, st\<lparr>clock := c\<rparr>)" for i
    using assms by (auto simp: alvs_db_get_server_counters_def infra_get_posted_counters_def
        infra_get_long_counters_def nps_call_ok Let_def)
  then obtain y c where "alvs_db_get_server_counters e (srv_nps_index (L ! 0)) x True st = (ALVS_DB_OK, y, st\<lparr>clock := c\<rparr>)"
    by blast
  then show ?case using Suc.IH [of _ _ _ "st\<lparr>clock := c\<rparr>"] by simp
qed

lemma print_servers_stats_ok:
  assumes ok: "all_calls_ok e" and inv: "cp_inv e st"
  shows "\<exists>l c. alvs_db_print_servers_stats e u st =
    (if svc_key (requested_service u) \<in> svc_key ` set (services st) then ALVS_DB_OK else ALVS_DB_INTERNAL_ERROR,
     l, st\<lparr>clock := c\<rparr>)"
proof (cases "svc_key (requested_service u) \<in> svc_key ` set (services st)")
  case True
  then obtain s where s: "s \<in> set (services st)" "svc_key (requested_service u) = svc_key s" by auto
  have keys: "distinct (map svc_key (services st))" using inv by (simp add: cp_inv_def service_rows_ok_def)
  show ?thesis
    using True get_service_some [OF ok keys s, of False] ok
      print_servers_loop_ok [OF ok, where st = "st\<lparr>clock := Suc (Suc (Suc (clock st)))\<rparr>"]
    by (simp add: alvs_db_print_servers_stats_def db_simps Let_def)
next
  case False
  then show ?thesis
    using get_service_none [OF ok False, of False]
    by (auto simp: alvs_db_print_servers_stats_def intro: exI [of _ "Suc (clock st)"])
qed

lemma get_dest_request:
  assumes ok: "all_calls_ok e" and inv: "cp_inv e st"
    and r: "r = service_request e info False (\<lambda>svc st.
      let (alvs_ret, lines, st) = alvs_db_print_servers_stats e svc st in (alvs_ret, st)) st"
  shows "(fst r = Exited \<longleftrightarrow> unknown_service e info st) \<and> (fst r \<noteq> Exited \<longrightarrow> cp_inv e (snd r))"
proof -
  obtain p c where p: "alvs_genl_parse_service e (gi_service info) False st = (p, st\<lparr>clock := c\<rparr>)"
    using parse_service_clock [OF ok] by blast
  show ?thesis
  proof (cases p)
    case (Done u)
    obtain l c' where "alvs_db_print_servers_stats e u (st\<lparr>clock := c\<rparr>) =
      (if svc_key (requested_service u) \<in> svc_key ` set (services st) then ALVS_DB_OK else ALVS_DB_INTERNAL_ERROR,
       l, st\<lparr>clock := c'\<rparr>)"
      using print_servers_stats_ok [OF ok, of "st\<lparr>clock := c\<rparr>" u] inv by auto
    then show ?thesis
      unfolding r service_request_def p with_parsed_def unknown_service_def Done
      using inv by (auto simp: finish_request_def alvs_db_manager_exit_with_error_def)
  qed (use inv in \<open>simp_all add: r service_request_def p with_parsed_def unknown_service_def\<close>)
qed

lemma log_daemon_ok:
  "all_calls_ok e \<Longrightarrow> \<exists>l. alvs_db_log_daemon e st = (ALVS_DB_OK, l, st\<lparr>clock := Suc (clock st)\<rparr>)"
  by (auto simp: alvs_db_log_daemon_def get_application_info_ok split: option.splits)

lemma msg_parser_inv:
  assumes ok: "all_calls_ok (me_cp m)" "select_ok (me_cp m)" and inv: "cp_inv (me_cp m) st"
    and run: "alvs_msg_parser m info st = (out, st')"
  shows "(out \<noteq> Exited \<longrightarrow> cp_inv (me_cp m) st') \<and> (out = Exited \<longrightarrow>
    gi_cmd info \<in> {IPVS_CMD_NEW_DAEMON, IPVS_CMD_DEL_DAEMON} \<and> app_row st = None \<or>
    gi_cmd info = IPVS_CMD_GET_DEST \<and> me_print_stats_enabled m \<and> unknown_service (me_cp m) info st)"
proof -
  note svc = service_request_inv [OF ok inv]
  note dest = dest_request_inv [OF ok inv]
  show ?thesis
  proof (cases "gi_cmd info")
    case IPVS_CMD_NEW_SERVICE
    then show ?thesis using run svc [of "alvs_db_add_service (me_cp m)" info True, OF add_service.db_operation_axioms]
      by (simp add: alvs_msg_parser_def Let_def)
  next
    case IPVS_CMD_SET_SERVICE
    then show ?thesis using run svc [of "alvs_db_modify_service (me_cp m)" info True, OF modify_service.db_operation_axioms]
      by (simp add: alvs_msg_parser_def Let_def)
  next
    case IPVS_CMD_DEL_SERVICE
    then show ?thesis using run svc [of "alvs_db_delete_service (me_cp m)" info False, OF delete_service.db_operation_axioms]
      by (simp add: alvs_msg_parser_def Let_def)
  next
    case IPVS_CMD_NEW_DEST
    then show ?thesis using run dest [of "alvs_db_add_server (me_cp m)" info True, OF add_server.db_operation_axioms]
      by (simp add: alvs_msg_parser_def Let_def)
  next
    case IPVS_CMD_SET_DEST
    then show ?thesis using run dest [of "alvs_db_modify_server (me_cp m)" info True, OF modify_server.db_operation_axioms]
      by (simp add: alvs_msg_parser_def Let_def)
  next
    case IPVS_CMD_DEL_DEST
    then show ?thesis using run dest [of "alvs_db_delete_server (me_cp m)" info False, OF delete_server.db_operation_axioms]
      by (simp add: alvs_msg_parser_def Let_def)
  next
    case IPVS_CMD_NEW_DAEMON
    then show ?thesis
      using run daemon_request_inv [OF inv, of "alvs_db_start_daemon (me_cp m) (me_ifs m)" info]
        start_daemon_inv [OF ok(1) inv] by (simp add: alvs_msg_parser_def Let_def)
  next
    case IPVS_CMD_DEL_DAEMON
    then show ?thesis
      using run daemon_request_inv [OF inv, of "alvs_db_stop_daemon (me_cp m)" info]
        stop_daemon_inv [OF ok(1) inv] by (simp add: alvs_msg_parser_def Let_def)
  next
    case IPVS_CMD_GET_DAEMON
    then show ?thesis using run log_daemon_ok [OF ok(1), of st] inv by (auto simp: alvs_msg_parser_def Let_def)
  next
    case IPVS_CMD_ZERO
    then show ?thesis using run clear_stats.finish [OF ok inv] by (simp add: alvs_msg_parser_def Let_def)
  next
    case IPVS_CMD_FLUSH
    then show ?thesis using run clear.finish [OF ok inv] by (simp add: alvs_msg_parser_def Let_def)
  next
    case IPVS_CMD_GET_SERVICE
    then show ?thesis using run get_service.finish [OF ok inv, of "gi_dump info"] inv
      by (cases "me_print_stats_enabled m") (simp_all add: alvs_msg_parser_def Let_def)
  next
    case IPVS_CMD_GET_DEST
    then show ?thesis using run get_dest_request [OF ok(1) inv refl, of info] inv
      by (cases "me_print_stats_enabled m") (simp_all add: alvs_msg_parser_def Let_def)
  qed (use run inv in \<open>auto simp: alvs_msg_parser_def finish_request_def\<close>)
qed

lemma poll_inv:
  assumes ok: "all_calls_ok (me_cp m)" "select_ok (me_cp m)" and inv: "cp_inv (me_cp m) st"
    and run: "alvs_db_manager_poll m msgs st = (out, st')" "out \<noteq> Exited"
  shows "cp_inv (me_cp m) st'"
  using inv run
proof (induction msgs arbitrary: st)
  case (Cons msg msgs)
  obtain hdr convert_ok info where msg: "msg = (hdr, convert_ok, info)" by (cases msg) auto
  obtain o1 st1 where st1: "process_packet m hdr convert_ok info st = (o1, st1)" by fastforce
  have "o1 \<noteq> Exited \<Longrightarrow> cp_inv (me_cp m) st1"
    using st1 msg_parser_inv [OF ok Cons.prems(1), of info] Cons.prems(1)
    by (auto simp: process_packet_def split: if_splits)
  then show ?case using Cons msg st1 by (cases o1) auto
qed simp

subsection \<open>The two threads\<close>

text \<open>
  The manager's thread handles messages, the aging thread makes its passes; an execution is a
  sequence of both.  It ends with the first event that ends the application or faults.
\<close>

datatype cp_event = Message "u16 \<times> bool" bool genl_info | Aging_Pass

fun cp_run :: "manager_env \<Rightarrow> cp_event list \<Rightarrow> u64 \<Rightarrow> cp_state \<Rightarrow> outcome \<times> cp_state" where
  "cp_run m [] value st = (NL_OK, st)"
| "cp_run m (Message hdr convert_ok info # evs) value st =
     (case process_packet m hdr convert_ok info st of
        (Exited, st) \<Rightarrow> (Exited, st)
      | (Faulted, st) \<Rightarrow> (Faulted, st)
      | (_, st) \<Rightarrow> cp_run m evs value st)"
| "cp_run m (Aging_Pass # evs) value st =
     (case server_db_aging_pass (me_cp m) value st of
        (False, value, st) \<Rightarrow> (Exited, st)
      | (True, value, st) \<Rightarrow> cp_run m evs value st)"

lemma cp_run_inv:
  assumes ok: "all_calls_ok (me_cp m)" "select_ok (me_cp m)" and inv: "cp_inv (me_cp m) st"
    and run: "cp_run m evs x st = (out, st')" "out \<noteq> Exited"
  shows "cp_inv (me_cp m) st'"
  using inv run
proof (induction evs arbitrary: x st)
  case (Cons ev evs)
  show ?case
  proof (cases ev)
    case (Message hdr convert_ok info)
    obtain o1 st1 where st1: "process_packet m hdr convert_ok info st = (o1, st1)" by fastforce
    have "o1 \<noteq> Exited \<Longrightarrow> cp_inv (me_cp m) st1"
      using st1 msg_parser_inv [OF ok Cons.prems(1), of info] Cons.prems(1)
      by (auto simp: process_packet_def split: if_splits)
    then show ?thesis using Cons Message st1 by (cases o1) auto
  next
    case Aging_Pass
    obtain x' st1 where "server_db_aging_pass (me_cp m) x st = (True, x', st1)" "cp_inv (me_cp m) st1"
      using aging_pass_spec [OF ok Cons.prems(1)] by blast
    then show ?thesis using Cons Aging_Pass by auto
  qed
qed simp

subsection \<open>Start\<close>

lemma create_tables_ok: "all_calls_ok e \<Longrightarrow> \<exists>c. create_tables k e st = (True, st\<lparr>clock := c\<rparr>)"
proof (induction k arbitrary: st)
  case 0
  show ?case by (simp add: exI [of _ "clock st"])
next
  case (Suc k)
  then show ?case using Suc.IH [of "st\<lparr>clock := Suc (clock st)\<rparr>"] by (simp add: sql_call_ok)
qed

lemma owned_init:
  assumes "index_pool_init (Some xs) (Some fs) pool n = (r, pool')" "0 < n" "n \<le> 2 ^ 31"
    "length xs = nat n" "length fs = nat n"
  shows "r" "owned [] pool' (nat n)"
proof -
  note i = init_ok [OF assms(2-5,1)]
  show r by (rule i(1))
  have "i \<in> of_nat ` {0..<nat n}" if "unat i < nat n" for i :: u32
    using that by (intro image_eqI [of _ _ "unat i"]) simp_all
  moreover have "unat (of_nat k :: u32) < nat n" if "k < nat n" for k
    using that assms(3) by (simp add: unat_of_nat_u32)
  ultimately have "\<forall>i :: u32. unat i < nat n \<longleftrightarrow> i \<in> set (pool_free pool')" by (auto simp: i(4))
  moreover have "distinct (pool_free pool')" using i(2) by (simp add: pool_ok_def)
  ultimately show "owned [] pool' (nat n)" using i(2,3) by (simp add: owned_def)
qed

definition pool_blocks :: "nat \<Rightarrow> u32 list option \<times> u8 list option \<Rightarrow> bool" where
  "pool_blocks n mem \<longleftrightarrow> (case mem of (Some xs, Some fs) \<Rightarrow> length xs = n \<and> length fs = n | _ \<Rightarrow> False)"

lemma init_inv:
  assumes ok: "all_calls_ok e" and mem: "pool_blocks 32768 mem_srv" "pool_blocks 256 mem_svc"
    and empty: "\<forall>k. nps st (SERVICE_CLASSIFICATION k) = None"
    and run: "alvs_db_init e mem_srv mem_svc True st = (rc, st')"
  shows "rc = ALVS_DB_OK \<and> cp_inv e st' \<and> services st' = [] \<and> servers st' = []"
proof -
  obtain xs fs ys gs where m: "mem_srv = (Some xs, Some fs)" "mem_svc = (Some ys, Some gs)"
    "length xs = 32768" "length fs = 32768" "length ys = 256" "length gs = 256"
    using mem by (cases mem_srv; cases mem_svc) (auto simp: pool_blocks_def split: option.splits)
  obtain r p where p: "index_pool_init (Some xs) (Some fs) (server_index_pool st) 32768 = (r, p)" by fastforce
  obtain r' p' where p': "index_pool_init (Some ys) (Some gs) (service_index_pool st) 256 = (r', p')" by fastforce
  have own: "r" "owned [] p 32768" "r'" "owned [] p' 256"
    using owned_init [OF p] owned_init [OF p'] m by simp_all
  obtain c where c: "create_tables 4 e (st\<lparr>server_index_pool := p, service_index_pool := p'\<rparr>) =
      (True, st\<lparr>server_index_pool := p, service_index_pool := p', clock := c\<rparr>)"
    using create_tables_ok [OF ok, of 4 "st\<lparr>server_index_pool := p, service_index_pool := p'\<rparr>"] by auto
  have "rc = ALVS_DB_OK" "services st' = []" "servers st' = []" "service_index_pool st' = p'"
    "server_index_pool st' = p" "nps st' = nps st"
    using run p p' own(1,3) c by (auto simp: alvs_db_init_def m Let_def)
  then show ?thesis
    using own empty by (simp add: cp_inv_def service_rows_ok_def server_rows_ok_def service_class_ok_def
        service_info_ok_def server_info_ok_def ALVS_SERVICES_MAX_ENTRIES_def)
qed

subsection \<open>An example\<close>

definition ok_env :: cp_env where
  "ok_env = \<lparr>sql_ok = \<lambda>n. True, nps_ok = \<lambda>n. True, sql_perm = \<lambda>n k. [0..<k], stack_garbage = 0,
     EZDP_EXTERNAL_MS = 1, EZDP_INTERNAL_MS = 0, EZDP_ALL_CLUSTER_DATA = 4\<rparr>"

definition example_manager :: manager_env where
  "example_manager = \<lparr>me_cp = ok_env, me_ifs = Some [], me_print_stats_enabled = True, me_family = 28\<rparr>"

definition blank_pool :: index_pool where
  "blank_pool = \<lparr>indexes = [], indexes_flags = [], head = 0, max_size = 0, pool_length = 0\<rparr>"

definition blank_state :: cp_state where
  "blank_state = \<lparr>services = [], servers = [], application_infos = [], service_index_pool = blank_pool,
     server_index_pool = blank_pool, nps = \<lambda>k. None, posted_counters = \<lambda>i. of_nat i,
     long_counters = \<lambda>i. 0, server_flags_mem = \<lambda>i. 0, clock = 0\<rparr>"

definition example_blocks :: "nat \<Rightarrow> u32 list option \<times> u8 list option" where
  "example_blocks n = (Some (replicate n 0), Some (replicate n 0))"

definition example_start :: cp_state where
  "example_start = snd (alvs_db_init ok_env (example_blocks 32768) (example_blocks 256) True blank_state)"

definition example_attrs :: svc_attrs where
  "example_attrs = \<lparr>sa_af = Some 2, sa_protocol = Some 6, sa_addr = Some 0x0a000001, sa_port = Some 80,
     sa_fwmark = None, sa_sched_name = Some ''rr'', sa_flags = Some (0, 0), sa_timeout = Some 0,
     sa_netmask = Some 0\<rparr>"

definition example_request :: "ipvs_cmd \<Rightarrow> genl_info" where
  "example_request c = \<lparr>gi_cmd = c, gi_dump = True, gi_service = Parsed example_attrs, gi_dest = Absent,
     gi_daemon = Absent\<rparr>"

definition example_service :: ip_vs_service_user where
  "example_service = \<lparr>ivs_protocol = 6, ivs_addr = 0x0a000001, ivs_port = 80, ivs_sched_name = ''rr'', ivs_flags = 0\<rparr>"

lemma ok_env_ok: "all_calls_ok ok_env" "select_ok ok_env"
  by (simp_all add: all_calls_ok_def select_ok_def ok_env_def)

lemma example_start_inv: "cp_inv ok_env example_start" and example_start_services: "services example_start = []"
  and example_start_servers: "servers example_start = []"
proof -
  obtain rc st where run: "alvs_db_init ok_env (example_blocks 32768) (example_blocks 256) True blank_state = (rc, st)"
    by fastforce
  then show "cp_inv ok_env example_start" "services example_start = []" "servers example_start = []"
    using init_inv [OF ok_env_ok(1) _ _ _ run]
    by (simp_all add: example_start_def pool_blocks_def example_blocks_def blank_state_def)
qed

subsection \<open>Properties\<close>

text \<open>
  C1. From a fresh start of the database, whatever requests arrive and whatever aging passes run
  between them, as long as the application has not ended, the invariant of the control plane holds:
  every service and server owns its NPS index alone and no index is lost, the keys are unique, the
  service classification structure of the NPS holds exactly the services of the internal database
  with their indexes, and every service and every active server has its NPS entry.
\<close>

theorem control_plane_invariant:
  assumes "all_calls_ok (me_cp m)" "select_ok (me_cp m)"
    and "pool_blocks 32768 mem_srv" "pool_blocks 256 mem_svc"
    and "\<forall>k. nps st (SERVICE_CLASSIFICATION k) = None"
    and "alvs_db_init (me_cp m) mem_srv mem_svc True st = (rc, st0)"
    and "cp_run m evs value st0 = (out, st1)" "out \<noteq> Exited"
  shows "rc = ALVS_DB_OK \<and> cp_inv (me_cp m) st1"
  using init_inv [OF assms(1,3-6)] cp_run_inv [OF assms(1,2) _ assms(7,8)] by blast

theorem control_plane_invariant_witness:
  "cp_inv ok_env (snd (cp_run example_manager
     [Message (28, True) True (example_request IPVS_CMD_NEW_SERVICE), Aging_Pass] 0 example_start))"
proof -
  let ?evs = "[Message (28, True) True (example_request IPVS_CMD_NEW_SERVICE), Aging_Pass]"
  obtain out st1 where run: "cp_run example_manager ?evs 0 example_start = (out, st1)" by fastforce
  obtain rc st0 where init: "alvs_db_init ok_env (example_blocks 32768) (example_blocks 256) True blank_state = (rc, st0)"
    by fastforce
  have e: "me_cp example_manager = ok_env" by (simp add: example_manager_def)
  obtain o1 s1 where o1: "alvs_msg_parser example_manager (example_request IPVS_CMD_NEW_SERVICE) example_start = (o1, s1)"
    by fastforce
  have "o1 \<noteq> Exited" "cp_inv ok_env s1"
    using msg_parser_inv [OF ok_env_ok [folded e] _ o1] example_start_inv by (auto simp: e example_request_def)
  then have "out \<noteq> Exited"
    using run o1 aging_pass_spec [OF ok_env_ok, of s1 0]
    by (cases o1) (auto simp: process_packet_def example_manager_def)
  then show ?thesis
    using control_plane_invariant [of example_manager "example_blocks 32768" "example_blocks 256" blank_state rc st0
        ?evs 0 out st1] run init ok_env_ok
    by (simp add: e example_start_def pool_blocks_def example_blocks_def blank_state_def)
qed

text \<open>
  The requests that read a null pointer, told from the message alone: a request that names an IPv4
  service, and for a destination its address and port, and then lacks an optional attribute the
  handler needs; a daemon request without daemon attributes.
\<close>

definition service_named :: "svc_attrs nested \<Rightarrow> bool" where
  "service_named nla = (case nla of
     Parsed a \<Rightarrow> sa_af a = Some AF_INET \<and>
       (sa_fwmark a \<noteq> None \<or> sa_port a \<noteq> None \<and> sa_protocol a \<noteq> None \<and> sa_addr a \<noteq> None)
   | _ \<Rightarrow> False)"

definition service_incomplete :: "svc_attrs nested \<Rightarrow> bool" where
  "service_incomplete nla = (case nla of
     Parsed a \<Rightarrow> sa_sched_name a = None \<or> sa_timeout a = None \<or> sa_netmask a = None | _ \<Rightarrow> False)"

definition dest_incomplete :: "dest_attrs nested \<Rightarrow> bool" where
  "dest_incomplete nla = (case nla of
     Parsed a \<Rightarrow> da_addr a \<noteq> None \<and> da_port a \<noteq> None \<and>
       (da_fwd_method a = None \<or> da_weight a = None \<or> da_u_thresh a = None \<or> da_l_thresh a = None)
   | _ \<Rightarrow> False)"

definition attribute_missing :: "genl_info \<Rightarrow> bool" where
  "attribute_missing info \<longleftrightarrow>
     gi_cmd info \<in> {IPVS_CMD_NEW_SERVICE, IPVS_CMD_SET_SERVICE} \<and>
       service_named (gi_service info) \<and> service_incomplete (gi_service info) \<or>
     gi_cmd info \<in> {IPVS_CMD_NEW_DEST, IPVS_CMD_SET_DEST} \<and>
       service_named (gi_service info) \<and> dest_incomplete (gi_dest info) \<or>
     gi_cmd info \<in> {IPVS_CMD_NEW_DAEMON, IPVS_CMD_DEL_DAEMON} \<and> gi_daemon info = Absent"

lemma parse_service_fault:
  "fst (alvs_genl_parse_service e nla full st) = Fault \<longleftrightarrow> full \<and> service_named nla \<and> service_incomplete nla"
  "(\<exists>x. fst (alvs_genl_parse_service e nla False st) = Done x) \<longleftrightarrow> service_named nla"
  by (auto simp: alvs_genl_parse_service_def service_named_def service_incomplete_def Let_def
      split: nested.splits option.splits prod.splits)

lemma parse_dest_fault: "alvs_genl_parse_dest nla full = Fault \<longleftrightarrow> full \<and> dest_incomplete nla"
  by (auto simp: alvs_genl_parse_dest_def dest_incomplete_def Let_def split: nested.splits option.splits)

lemma finish_no_fault [simp]: "fst (finish_request r) \<noteq> Faulted"
  by (simp add: finish_request_def alvs_db_manager_exit_with_error_def split: prod.splits)

lemma with_parsed_fault:
  assumes "\<And>x st'. r = (Done x, st') \<Longrightarrow> fst (body x st') = Faulted \<longleftrightarrow> P"
  shows "fst (with_parsed r body) = Faulted \<longleftrightarrow> fst r = Fault \<or> (\<exists>x. fst r = Done x) \<and> P"
  using assms by (cases r; cases "fst r") (simp_all add: with_parsed_def)

lemma service_request_fault:
  "fst (service_request e info full op st) = Faulted \<longleftrightarrow>
   full \<and> service_named (gi_service info) \<and> service_incomplete (gi_service info)"
  unfolding service_request_def by (subst with_parsed_fault [where P = False]) (simp_all add: parse_service_fault)

lemma dest_request_fault:
  "fst (dest_request e info full op st) = Faulted \<longleftrightarrow>
   service_named (gi_service info) \<and> full \<and> dest_incomplete (gi_dest info)"
proof -
  have "fst (with_parsed (alvs_genl_parse_dest (gi_dest info) full, st')
      (\<lambda>dest st. finish_request (op svc dest st))) = Faulted \<longleftrightarrow> full \<and> dest_incomplete (gi_dest info)" for svc st'
    by (subst with_parsed_fault [where P = False]) (simp_all add: parse_dest_fault)
  then show ?thesis unfolding dest_request_def
    by (subst with_parsed_fault [where P = "full \<and> dest_incomplete (gi_dest info)"])
      (simp_all add: parse_service_fault)
qed

lemma daemon_request_fault: "fst (daemon_request info op st) = Faulted \<longleftrightarrow> gi_daemon info = Absent"
  by (auto simp: daemon_request_def with_parsed_def alvs_genl_parse_daemon_from_msghdr_def Let_def
      split: nested.splits option.splits)

lemma msg_parser_fault: "fst (alvs_msg_parser m info st) = Faulted \<longleftrightarrow> attribute_missing info"
  by (cases "gi_cmd info")
    (simp_all add: alvs_msg_parser_def attribute_missing_def Let_def service_request_fault dest_request_fault
      daemon_request_fault alvs_db_manager_exit_with_error_def split: prod.splits)

text \<open>
  C11. When every call to SQLite and the NPS succeeds, a message makes the application exit in two
  cases only: a daemon is started or stopped while the application information does not exist, or
  the servers of a service that does not exist are listed while the printing of statistics is
  enabled.  A message crashes it, by reading a null pointer, exactly when it adds or changes a
  service it names without the scheduler, the timeout or the netmask, adds or changes a destination
  it names without the forwarding method, the weight or a threshold, or starts or stops a daemon
  without daemon attributes.  Any other message is handled and the next one is waited for.
\<close>

theorem manager_exit_reasons:
  assumes "all_calls_ok (me_cp m)" "select_ok (me_cp m)" "cp_inv (me_cp m) st"
    and "alvs_msg_parser m info st = (out, st')"
  shows "(out = Exited \<longrightarrow>
      gi_cmd info \<in> {IPVS_CMD_NEW_DAEMON, IPVS_CMD_DEL_DAEMON} \<and> app_row st = None \<or>
      gi_cmd info = IPVS_CMD_GET_DEST \<and> me_print_stats_enabled m \<and> unknown_service (me_cp m) info st) \<and>
    (out = Faulted \<longleftrightarrow> attribute_missing info) \<and>
    (out \<in> {NL_OK, NL_SKIP} \<longrightarrow> cp_inv (me_cp m) st')"
  using msg_parser_inv [OF assms] msg_parser_fault [of m info st] assms(4) by auto

lemma example_unknown: "unknown_service ok_env (example_request IPVS_CMD_GET_DEST) example_start"
  by (simp add: unknown_service_def example_request_def alvs_genl_parse_service_def example_attrs_def AF_INET_def
      example_start_services)

theorem manager_exit_reasons_witness:
  "fst (alvs_msg_parser example_manager (example_request IPVS_CMD_GET_DEST) example_start) = Exited \<and>
   unknown_service ok_env (example_request IPVS_CMD_GET_DEST) example_start \<and>
   fst (alvs_msg_parser example_manager ((example_request IPVS_CMD_NEW_DAEMON)\<lparr>gi_daemon := Absent\<rparr>) example_start) = Faulted"
proof -
  have e: "me_cp example_manager = ok_env" "me_print_stats_enabled example_manager"
    by (simp_all add: example_manager_def)
  have "fst (alvs_msg_parser example_manager (example_request IPVS_CMD_GET_DEST) example_start) = Exited"
    using get_dest_request [OF ok_env_ok(1) example_start_inv refl, of "example_request IPVS_CMD_GET_DEST"]
      example_unknown by (simp add: alvs_msg_parser_def e example_request_def Let_def)
  then obtain st' where
    st': "alvs_msg_parser example_manager (example_request IPVS_CMD_GET_DEST) example_start = (Exited, st')"
    by (cases "alvs_msg_parser example_manager (example_request IPVS_CMD_GET_DEST) example_start") simp
  let ?crash = "(example_request IPVS_CMD_NEW_DAEMON)\<lparr>gi_daemon := Absent\<rparr>"
  obtain out st2 where crash: "alvs_msg_parser example_manager ?crash example_start = (out, st2)" by fastforce
  have "attribute_missing ?crash" by (simp add: attribute_missing_def example_request_def)
  then have "out = Faulted"
    using manager_exit_reasons [OF ok_env_ok [folded e(1)] example_start_inv [folded e(1)] crash] by simp
  then show ?thesis
    using manager_exit_reasons [OF ok_env_ok [folded e(1)] example_start_inv [folded e(1)] st'] st' crash
    by (simp add: e(1)) (simp add: example_request_def)
qed

text \<open>A state with one service, reached by a request.\<close>

definition example_one :: cp_state where
  "example_one = snd (alvs_db_add_service ok_env example_service example_start)"

lemma example_one_facts:
  shows example_one_inv: "cp_inv ok_env example_one"
    and example_one_services: "\<exists>i. services example_one = [new_service ok_env example_service i]"
    and example_one_servers: "servers example_one = servers example_start"
proof -
  obtain rc st where st: "alvs_db_add_service ok_env example_service example_start = (rc, st)" by fastforce
  show "cp_inv ok_env example_one"
    using add_service_inv [OF ok_env_ok(1) example_start_inv st] by (simp add: example_one_def st)
  have own: "owned [] (service_index_pool example_start) 256"
    using example_start_inv by (simp add: cp_inv_def service_rows_ok_def example_start_services ALVS_SERVICES_MAX_ENTRIES_def)
  have "pool_free (service_index_pool example_start) \<noteq> []"
    using own unfolding owned_def by (metis append_Nil empty_iff empty_set unat_0 zero_less_numeral)
  then obtain i pool' where "index_pool_alloc (service_index_pool example_start) = Some (i, pool')"
    using own pool.alloc_none [of "service_index_pool example_start"]
    by (cases "index_pool_alloc (service_index_pool example_start)") (auto simp: owned_def)
  from add_service_run [OF ok_env_ok(1) _ _ _ this, of example_service]
  show "\<exists>i. services example_one = [new_service ok_env example_service i]"
    "servers example_one = servers example_start"
    by (auto simp: example_one_def example_start_services supported_protocol_def IPPROTO_TCP_def example_service_def
        supported_sched_alg_def get_sched_alg_def)
qed

text \<open>
  C12. Zeroing the statistics and then listing the services prints one line per service, in which
  every one of the five statistics is zero, whatever the counters of the NPS hold: the saved values
  are those the listing subtracts, and clearing the error and interface counters does not touch
  the counters of a service.
\<close>

theorem zero_then_list_prints_zero:
  assumes ok: "all_calls_ok e" "select_ok e" and inv: "cp_inv e st"
    and zero: "alvs_db_clear_stats e st = (rc, st1)"
    and list: "alvs_db_print_services_stats e st1 = (rc', lines, st2)"
  shows "rc = ALVS_DB_OK \<and> rc' = ALVS_DB_OK \<and> length lines = length (services st) \<and>
    (\<forall>l \<in> set lines. svl_stats l = zero_stats) \<and>
    (\<forall>s \<in> set (services st). \<exists>l \<in> set lines. (svl_ip l, svl_port l, svl_protocol l) = svc_key s)"
proof -
  have rows: "service_rows_ok st" using inv by (simp add: cp_inv_def)
  then have keys: "distinct (map svc_key (services st))" by (simp add: service_rows_ok_def)
  have st1: "rc = ALVS_DB_OK"
    "services st1 = map (\<lambda>s. s\<lparr>svc_stats := service_counters (posted_counters st) (svc_nps_index s)\<rparr>) (services st)"
    "posted_counters st1 = clear_range EMEM_IF_STATS_POSTED_OFFSET (NW_NUM_OF_IF_STATS * (USER_NW_IF_NUM + 1))
      (clear_range EMEM_ALVS_ERROR_STATS_POSTED_OFFSET ALVS_NUM_OF_ALVS_ERROR_STATS (posted_counters st))"
    using clear_stats_run [OF ok keys] zero by auto
  define R where "R = select_order e (clock st1) (services st1)"
  have R: "set R = set (services st1)" "length R = length (services st)"
    using ok(2) by (simp_all add: R_def st1(2))
  have lines: "rc' = ALVS_DB_OK" "lines = map (\<lambda>s. \<lparr>svl_ip = svc_ip s, svl_port = svc_port s,
      svl_protocol = svc_protocol s, svl_stats = service_stats_diff
        (service_counters (posted_counters st1) (svc_nps_index s)) (svc_stats s)\<rparr>) R"
    using list print_services_loop_ok [OF ok(1), of R "[]" "st1\<lparr>clock := Suc (clock st1)\<rparr>"] ok(1)
    by (auto simp: alvs_db_print_services_stats_def sql_call_ok Let_def R_def)
  have "service_stats_diff (service_counters (posted_counters st1) (svc_nps_index s)) (svc_stats s) = zero_stats"
    if "s \<in> set (services st1)" for s
    using that service_counters_kept service_index_bound [OF rows]
    by (auto simp: st1(2,3) service_stats_diff_def zero_stats_def zero_service_def)
  then show ?thesis
    using lines R st1(1) by (auto simp: st1(2) svc_key_def)
qed

theorem zero_then_list_prints_zero_witness:
  "map svl_stats (fst (snd (alvs_db_print_services_stats ok_env (snd (alvs_db_clear_stats ok_env example_one)))))
     = [zero_stats]"
proof -
  obtain rc st1 where z: "alvs_db_clear_stats ok_env example_one = (rc, st1)" by fastforce
  obtain rc' lines st2 where l: "alvs_db_print_services_stats ok_env st1 = (rc', lines, st2)" by (rule prod_cases3)
  show ?thesis
    using zero_then_list_prints_zero [OF ok_env_ok example_one_inv z l] example_one_services
    by (cases lines) (auto simp: z l)
qed

text \<open>
  C13. One pass of the aging thread removes exactly the servers that are inactive and have no
  connection left, keeps every other server and every service, and keeps the invariant, so that the
  indexes of the removed servers, and no others, return to the pool.
\<close>

theorem aging_removes_unused_servers:
  assumes "all_calls_ok e" "select_ok e" "cp_inv e st" "server_db_aging_pass e x st = (ok, x', st')"
  shows "ok \<and> cp_inv e st' \<and> services st' = services st \<and>
    servers st' = filter (\<lambda>r. \<not> (srv_active (snd r) = 0 \<and> conn_total st r = 0)) (servers st)"
  using aging_pass_spec [OF assms(1-3), of x] assms(4) by auto

theorem aging_removes_unused_servers_witness:
  "fst (server_db_aging_pass ok_env 7 example_one) \<and>
   services (snd (snd (server_db_aging_pass ok_env 7 example_one))) = services example_one"
proof -
  obtain ok v st' where r: "server_db_aging_pass ok_env 7 example_one = (ok, v, st')" by (rule prod_cases3)
  show ?thesis
    using aging_removes_unused_servers [OF ok_env_ok example_one_inv r] by (simp add: r)
qed

text \<open>
  C14. Flushing empties the database and the NPS: no service is left, no entry is left in the
  service classification, service information and scheduling structures, every service index is
  free again, and every server is inactive.
\<close>

theorem flush_leaves_no_service:
  assumes "all_calls_ok e" "select_ok e" "cp_inv e st" "alvs_db_clear e st = (rc, st')"
  shows "rc = ALVS_DB_OK \<and> services st' = [] \<and>
    (\<forall>k. struct_of k \<in> {STRUCT_ID_ALVS_SERVICE_CLASSIFICATION, STRUCT_ID_ALVS_SERVICE_INFO,
      STRUCT_ID_ALVS_SCHED_INFO} \<longrightarrow> nps st' k = None) \<and>
    (\<forall>i :: u32. unat i < 256 \<longleftrightarrow> i \<in> set (pool_free (service_index_pool st'))) \<and>
    (\<forall>r \<in> set (servers st'). srv_active (snd r) = 0 \<and> srv_server_flags (snd r) AND IP_VS_DEST_F_AVAILABLE = 0) \<and>
    map row_key (servers st') = map row_key (servers st)"
proof -
  obtain st1 where st1: "alvs_db_clear e st = (ALVS_DB_OK, st1)" "services st1 = []"
    "servers st1 = map deactivate_row (servers st)"
    "nps st1 = (\<lambda>k. if k \<in> build_nps_service_classification_key ` set (services st) \<or>
      struct_of k = STRUCT_ID_ALVS_SERVICE_INFO \<or> struct_of k = STRUCT_ID_ALVS_SCHED_INFO then None else nps st k)"
    using clear_run [OF assms(1,2), of st] by blast
  have st': "rc = ALVS_DB_OK" "st' = st1" using st1(1) assms(4) by simp_all
  have inv: "cp_inv e st'" using clear_inv [OF assms] by blast
  have "nps st' k = None" if "struct_of k = STRUCT_ID_ALVS_SERVICE_CLASSIFICATION" for k
    using inv that by (cases k) (auto simp: cp_inv_def service_class_ok_def st'(2) st1(2))
  then have "\<forall>k. struct_of k \<in> {STRUCT_ID_ALVS_SERVICE_CLASSIFICATION, STRUCT_ID_ALVS_SERVICE_INFO,
      STRUCT_ID_ALVS_SCHED_INFO} \<longrightarrow> nps st' k = None"
    by (auto simp: st'(2) st1(4))
  moreover have "\<forall>i :: u32. unat i < 256 \<longleftrightarrow> i \<in> set (pool_free (service_index_pool st'))"
    using inv by (simp add: cp_inv_def service_rows_ok_def st'(2) st1(2) owned_def ALVS_SERVICES_MAX_ENTRIES_def)
  moreover have "not_available w AND IP_VS_DEST_F_AVAILABLE = 0" for w
    by (simp add: not_available_def word_bw_assocs)
  ultimately show ?thesis using st' st1(2,3) by (auto simp: deactivate_row_def row_key_def)
qed

theorem flush_leaves_no_service_witness:
  "services example_one \<noteq> [] \<and> services (snd (alvs_db_clear ok_env example_one)) = []"
proof -
  obtain rc st where r: "alvs_db_clear ok_env example_one = (rc, st)" by fastforce
  show ?thesis
    using flush_leaves_no_service [OF ok_env_ok example_one_inv r] example_one_services by (auto simp: r)
qed

end
