(* ===== verification/Alvs_DB_Behaviour.thy ===== *)
theory Alvs_DB_Behaviour
  imports Alvs_Manager_Props
begin

text \<open>
  What a recalculation publishes, and two situations in which the NPS and the internal database drift
  apart: a weight change that is not published, and a deleted service whose servers stay available.
\<close>

subsection \<open>Scheduling\<close>

text \<open>
  What the 256 entries owe to the servers, stated over the weights \<open>w\<close> of the servers and the
  list \<open>ps\<close> of the servers' positions the entries name, without the code's loops.  Round robin
  gives every server one entry as long as the bucket has room.  Weighted round robin gives server
  \<open>i\<close> its reduced weight; when the reduced weights do not fit, nobody gets more than that and the
  unserved remainders of the served servers stay level.  Source hash repeats the pattern of the
  reduced weights over all entries.
\<close>

definition reduced_weights :: "nat list \<Rightarrow> nat list" where
  "reduced_weights w = map (\<lambda>x. x div Gcd (set w)) w"

definition fair_entries :: "alvs_scheduler_type \<Rightarrow> nat list \<Rightarrow> nat list \<Rightarrow> bool" where
  "fair_entries alg w ps \<longleftrightarrow> (let r = reduced_weights w in
     case alg of
       ALVS_ROUND_ROBIN_SCHEDULER \<Rightarrow> ps = [0..<min (length w) 256]
     | ALVS_WEIGHTED_ROUND_ROBIN_SCHEDULER \<Rightarrow>
         length ps = min 256 (sum_list r) \<and> (\<forall>i < length w. count_list ps i \<le> r ! i) \<and>
         (sum_list r \<le> 256 \<longrightarrow> (\<forall>i < length w. count_list ps i = r ! i)) \<and>
         (\<forall>i \<in> set ps. \<forall>j < length w. r ! j - count_list ps j \<le> r ! i - count_list ps i + 1)
     | ALVS_SOURCE_HASH_SCHEDULER \<Rightarrow>
         ps = map (\<lambda>j. concat (map (\<lambda>i. replicate (r ! i) i) [0..<length w]) ! (j mod sum_list r)) [0..<256]
     | _ \<Rightarrow> False)"

text \<open>The bucket has room for all the servers.\<close>

definition bucket_fits :: "alvs_scheduler_type \<Rightarrow> nat list \<Rightarrow> bool" where
  "bucket_fits alg w \<longleftrightarrow>
     (if alg = ALVS_ROUND_ROBIN_SCHEDULER then length w else sum_list (reduced_weights w)) \<le> 256"

lemma reduced_weights_perm: "mset v = mset w \<Longrightarrow> mset (reduced_weights v) = mset (reduced_weights w)"
  using mset_eq_setD [of v w] by (simp add: reduced_weights_def)

lemma bucket_fits_perm:
  assumes "mset v = mset w"
  shows "bucket_fits alg v = bucket_fits alg w"
  using reduced_weights_perm [OF assms] mset_eq_length [OF assms]
  by (simp add: bucket_fits_def flip: sum_mset_sum_list)

lemma weights_reduced:
  "schedulable ss \<Longrightarrow> weights (alvs_db_reduce_weights ss (length ss)) = reduced_weights (weights ss)"
  by (simp add: weights_reduce reduced_weights_def schedulable_def)

lemma fill_fair:
  assumes "schedulable ss" "fill_servers_buckets alg ss (length ss) = Some b"
    and "b = map Some ps @ replicate (256 - length ps) None"
  shows "fair_entries alg (weights ss) ps"
proof -
  let ?r = "alvs_db_reduce_weights ss (length ss)"
  have r: "schedulable ?r" "length ?r = length ss" "weights ?r = reduced_weights (weights ss)"
    "length (reduced_weights (weights ss)) = length ss"
    using assms(1) schedulable_reduced weights_reduced by (simp_all add: reduced_weights_def)
  have uniq: "ps = qs" if "b = map Some qs @ replicate n None" for qs n
    using arg_cong [OF that, of "\<lambda>b. map the (filter (\<lambda>x. x \<noteq> None) b)"] assms(3) by (simp add: comp_def)
  have ss: "0 < length ss" using assms(1) by (simp add: schedulable_def)
  consider "alg = ALVS_SOURCE_HASH_SCHEDULER" | "alg = ALVS_ROUND_ROBIN_SCHEDULER"
    | "alg = ALVS_WEIGHTED_ROUND_ROBIN_SCHEDULER"
    using assms(2) ss by (auto simp: fill_servers_buckets_def split: alvs_scheduler_type.splits)
  then show ?thesis
  proof cases
    case 1
    have "b = map Some (map (\<lambda>ind. sh_pattern ?r ! (ind mod total_weight ?r)) [0..<256]) @ replicate 0 None"
      using assms(2) ss 1 r(1) sh_fill_eq [of ?r empty_bucket]
      by (simp add: fill_servers_buckets_def Let_def schedulable_def empty_bucket_def
          ALVS_SIZE_OF_SCHED_BUCKET_def comp_def)
    from uniq [OF this] show ?thesis
      using 1 r by (simp add: fair_entries_def sh_pattern_def total_weight_def Let_def del: nth_weights)
  next
    case 2
    then have "b = map Some [0..<min (length ss) 256] @ replicate (256 - length ss) None"
      using assms(2) ss by (simp add: fill_servers_buckets_def rr_fill_eq)
    from uniq [OF this] show ?thesis using 2 by (simp add: fair_entries_def)
  next
    case 3
    then have "b = map Some (wrr_picks 256 ?r) @ replicate (256 - total_weight ?r) None"
      using assms(2) ss wrr_fill_eq [of ?r] r(2) by (simp add: fill_servers_buckets_def Let_def)
    from uniq [OF this] show ?thesis
      using 3 r wrr_picks_length [of 256 ?r] wrr_picks_count_le [of _ ?r 256]
        wrr_picks_exact [of ?r 256] wrr_picks_level [of _ 256 ?r]
      by (simp add: fair_entries_def Let_def total_weight_def del: nth_weights)
  qed
qed

lemma fair_covers:
  assumes "schedulable ss" "fair_entries alg (weights ss) ps" "bucket_fits alg (weights ss)" "i < length ss"
  shows "i \<in> set ps"
proof -
  let ?r = "reduced_weights (weights ss)"
  have len: "length ?r = length ss" by (simp add: reduced_weights_def)
  have pos: "0 < ?r ! i"
    using schedulable_reduced [OF assms(1)] weights_reduced [OF assms(1)] assms(1,4)
    by (metis nth_mem nth_weights reduced_length schedulable_def unat_gt_0)
  consider "alg = ALVS_SOURCE_HASH_SCHEDULER" | "alg = ALVS_ROUND_ROBIN_SCHEDULER"
    | "alg = ALVS_WEIGHTED_ROUND_ROBIN_SCHEDULER"
    using assms(2) by (auto simp: fair_entries_def Let_def split: alvs_scheduler_type.splits)
  then show ?thesis
  proof cases
    case 1
    let ?p = "concat (map (\<lambda>i. replicate (?r ! i) i) [0..<length ss])"
    have plen: "length ?p = sum_list ?r"
      using len by (simp add: length_concat comp_def) (metis map_nth)
    have "i \<in> set ?p" using assms(4) pos by auto
    then obtain k where k: "k < sum_list ?r" "?p ! k = i" by (metis in_set_conv_nth plen)
    moreover have "sum_list ?r \<le> 256" using assms(3) 1 by (simp add: bucket_fits_def)
    ultimately have "ps ! k = i" "k < length ps"
      using assms(2) 1 by (simp_all add: fair_entries_def Let_def)
    then show ?thesis by (metis nth_mem)
  next
    case 2
    then show ?thesis using assms by (simp add: fair_entries_def bucket_fits_def)
  next
    case 3
    then have "0 < count_list ps i" using assms pos by (simp add: fair_entries_def bucket_fits_def Let_def)
    then show ?thesis by (metis count_notin less_irrefl)
  qed
qed

lemma fair_distribution:
  assumes "mset L = mset (map snd (active_servers s st))" "active_servers s st \<noteq> []"
    and "fill_servers_buckets alg L (length L) = Some b"
  shows "\<exists>ps. fair_entries alg (weights L) ps \<and> length ps = filled b \<and> set ps \<subseteq> {..<length L} \<and>
    (\<forall>j < filled b. b ! j = Some (ps ! j)) \<and>
    (bucket_fits alg (weights (map snd (active_servers s st))) \<longrightarrow> set ps = {..<length L})"
proof -
  note ok = active_schedulable [OF assms(1,2)]
  obtain ps where ps: "b = map Some ps @ replicate (256 - length ps) None" "set ps \<subseteq> {..<length L}"
    using fill_prefix [OF ok assms(3)] by blast
  have n: "filled b = length ps" unfolding ps(1) by (rule filled_prefix)
  note fair = fill_fair [OF ok assms(3) ps(1)]
  have "mset (weights L) = mset (weights (map snd (active_servers s st)))"
    using arg_cong [OF assms(1), of "image_mset (\<lambda>s. unat (srv_weight s))"]
    by (simp add: weights_def multiset.map_comp comp_def)
  note fits = bucket_fits_perm [OF this, of alg]
  have "{..<length L} \<subseteq> set ps" if "bucket_fits alg (weights (map snd (active_servers s st)))"
    using fair_covers [OF ok fair] that fits by blast
  then show ?thesis using ps n fair by (intro exI [of _ ps]) (auto simp: nth_append)
qed

text \<open>
  C3. A recalculation publishes exactly the active servers of positive weight, shared as the
  service's algorithm promises.  The servers in some order are \<open>L\<close>; entry \<open>j\<close> below the new count
  names server \<open>ps ! j\<close> of \<open>L\<close>, and \<open>ps\<close> is a fair distribution over their weights: one entry each
  for round robin, the weights divided by their greatest common divisor for weighted round robin,
  the repeated pattern of these for source hash.  When the bucket has room for all of them every
  active server has an entry.  The entries of the service above the count are absent, the count is
  zero only when there is no active server, and nothing else in the NPS, in particular no entry of
  another service, is changed.
\<close>

theorem recalculation_publishes_active_servers:
  assumes "all_calls_ok e" "select_ok e" "unat (svc_nps_index s) < 256" "supported_sched_alg (svc_sched_alg s)"
    and "alvs_db_recalculate_scheduling_info e s st = (rc, s', st')"
  shows "rc = ALVS_DB_OK \<and> same_db st st' \<and> unat (svc_sched_entries_count s') \<le> 256 \<and>
    (svc_sched_entries_count s' = 0 \<longleftrightarrow> active_servers s st = []) \<and>
    (active_servers s st \<noteq> [] \<longrightarrow> (\<exists>L ps. mset L = mset (map snd (active_servers s st)) \<and>
       fair_entries (svc_sched_alg s) (weights L) ps \<and> length ps = unat (svc_sched_entries_count s') \<and>
       (\<forall>j < length ps. ps ! j < length L \<and> nps st' (sched_key s j) =
          Some (SchedInfo \<lparr>schr_server_index = bswap_32 (srv_nps_index (L ! (ps ! j)))\<rparr>)))) \<and>
    (bucket_fits (svc_sched_alg s) (weights (map snd (active_servers s st))) \<longrightarrow>
       (\<forall>r \<in> set (active_servers s st). \<exists>j < unat (svc_sched_entries_count s').
          nps st' (sched_key s j) = Some (SchedInfo \<lparr>schr_server_index = bswap_32 (srv_nps_index (snd r))\<rparr>))) \<and>
    (\<forall>j < unat (svc_sched_entries_count s'). \<exists>r \<in> set (active_servers s st).
       nps st' (sched_key s j) = Some (SchedInfo \<lparr>schr_server_index = bswap_32 (srv_nps_index (snd r))\<rparr>)) \<and>
    (\<forall>j. unat (svc_sched_entries_count s') \<le> j \<and> j < 256 \<longrightarrow> nps st' (sched_key s j) = None) \<and>
    (\<forall>k. (\<forall>j < 256. k \<noteq> sched_key s j) \<longrightarrow> nps st' k = nps st k)"
proof -
  obtain L b where r: "rc = ALVS_DB_OK" "s' = s\<lparr>svc_sched_entries_count := of_nat (filled b)\<rparr>" "same_db st st'"
    "mset L = mset (map snd (active_servers s st))" "fill_servers_buckets (svc_sched_alg s) L (length L) = Some b"
    "\<forall>j < 256. nps st' (sched_key s j) = sched_entry L (b ! j)"
    "\<forall>k. (\<forall>j < 256. k \<noteq> sched_key s j) \<longrightarrow> nps st' k = nps st k"
    using recalculate_spec [OF assms(1-4), of st] assms(5) by auto
  note ent = recalculate_entries [OF r(4,5)]
  have n: "unat (svc_sched_entries_count s') = filled b" using ent by (simp add: r(2) unat_of_nat_u16_le)
  then have zero: "svc_sched_entries_count s' = 0 \<longleftrightarrow> active_servers s st = []"
    using ent by (simp add: unat_eq_0 [symmetric])
  let ?e = "\<lambda>x. Some (SchedInfo \<lparr>schr_server_index = bswap_32 (srv_nps_index x)\<rparr>)"
  have at: "nps st' (sched_key s j) = ?e (L ! p)" if "j < filled b" "b ! j = Some p" for j p
    using r(6) ent that by (simp add: sched_entry_def)
  have share: "\<exists>ps. fair_entries (svc_sched_alg s) (weights L) ps \<and> length ps = filled b \<and>
      (\<forall>j < length ps. ps ! j < length L \<and> nps st' (sched_key s j) = ?e (L ! (ps ! j))) \<and>
      (bucket_fits (svc_sched_alg s) (weights (map snd (active_servers s st))) \<longrightarrow> set ps = {..<length L})"
    if act: "active_servers s st \<noteq> []"
  proof -
    obtain ps where ps: "fair_entries (svc_sched_alg s) (weights L) ps" "length ps = filled b"
      "set ps \<subseteq> {..<length L}" "\<forall>j < filled b. b ! j = Some (ps ! j)"
      "bucket_fits (svc_sched_alg s) (weights (map snd (active_servers s st))) \<longrightarrow> set ps = {..<length L}"
      using fair_distribution [OF r(4) act r(5)] by blast
    have "ps ! j < length L" if "j < length ps" for j using ps(3) nth_mem [OF that] by auto
    then show ?thesis using at ps by (intro exI [of _ ps]) auto
  qed
  have cover: "\<exists>j < filled b. nps st' (sched_key s j) = ?e (snd q)"
    if q: "bucket_fits (svc_sched_alg s) (weights (map snd (active_servers s st)))" "q \<in> set (active_servers s st)" for q
  proof -
    have act: "active_servers s st \<noteq> []" using q(2) by auto
    obtain ps where ps: "length ps = filled b" "set ps = {..<length L}"
      "\<forall>j < length ps. nps st' (sched_key s j) = ?e (L ! (ps ! j))"
      using share [OF act] q(1) by blast
    have "snd q \<in> set L" using q(2) mset_eq_setD [OF r(4)] by auto
    then obtain i where "i < length L" "L ! i = snd q" by (meson in_set_conv_nth)
    then show ?thesis using ps by (metis in_set_conv_nth lessThan_iff)
  qed
  have full: "\<forall>j. filled b \<le> j \<and> j < 256 \<longrightarrow> nps st' (sched_key s j) = None"
    "\<forall>j < filled b. \<exists>q \<in> set (active_servers s st). nps st' (sched_key s j) = ?e (snd q)"
    using r(6) ent by auto
  have dist: "active_servers s st \<noteq> [] \<longrightarrow> (\<exists>L ps. mset L = mset (map snd (active_servers s st)) \<and>
      fair_entries (svc_sched_alg s) (weights L) ps \<and> length ps = filled b \<and>
      (\<forall>j < length ps. ps ! j < length L \<and> nps st' (sched_key s j) = ?e (L ! (ps ! j))))"
    using share r(4) by blast
  show ?thesis unfolding n using r(1,3,7) ent zero dist cover full by blast
qed

definition example_row :: "u16 \<Rightarrow> u32 \<Rightarrow> server_row" where
  "example_row w i = ((1, 80, 6), zero_server\<lparr>srv_weight := w, srv_active := 1, srv_nps_index := i\<rparr>)"

definition example_svc :: alvs_db_service where
  "example_svc = zero_service\<lparr>svc_ip := 1, svc_port := 80, svc_protocol := 6,
     svc_sched_alg := ALVS_WEIGHTED_ROUND_ROBIN_SCHEDULER\<rparr>"

definition example_servers :: cp_state where
  "example_servers = blank_state\<lparr>servers := [example_row 6 5, example_row 2 7]\<rparr>"

lemma example_svc_facts: "unat (svc_nps_index example_svc) < 256" "supported_sched_alg (svc_sched_alg example_svc)"
  "active_servers example_svc example_servers = [example_row 6 5, example_row 2 7]"
  "weights (map snd [example_row 6 5, example_row 2 7]) = [6, 2]"
  "svc_sched_alg example_svc = ALVS_WEIGHTED_ROUND_ROBIN_SCHEDULER"
  by (simp_all add: example_svc_def zero_service_def supported_sched_alg_def active_servers_def server_selected_def
      example_row_def example_servers_def zero_server_def svc_key_def weights_def)

lemma example_weights: "reduced_weights [6, 2] = [3, 1]" "reduced_weights [2, 6] = [1, 3]"
  by code_simp+

theorem recalculation_publishes_active_servers_witness:
  "svc_sched_entries_count (fst (snd (alvs_db_recalculate_scheduling_info ok_env example_svc example_servers))) = 4 \<and>
   (\<exists>j. nps (snd (snd (alvs_db_recalculate_scheduling_info ok_env example_svc example_servers)))
     (sched_key example_svc j) = Some (SchedInfo \<lparr>schr_server_index = bswap_32 5\<rparr>)) \<and>
   (\<exists>j. nps (snd (snd (alvs_db_recalculate_scheduling_info ok_env example_svc example_servers)))
     (sched_key example_svc j) = Some (SchedInfo \<lparr>schr_server_index = bswap_32 7\<rparr>))"
proof -
  obtain rc s' st' where r: "alvs_db_recalculate_scheduling_info ok_env example_svc example_servers = (rc, s', st')"
    by (rule prod_cases3)
  note p = recalculation_publishes_active_servers [OF ok_env_ok example_svc_facts(1,2) r, unfolded example_svc_facts(3-5)]
  obtain L ps where L: "mset L = mset (map snd [example_row 6 5, example_row 2 7])"
    "fair_entries ALVS_WEIGHTED_ROUND_ROBIN_SCHEDULER (weights L) ps"
    "length ps = unat (svc_sched_entries_count s')"
    using p by blast
  have "mset (weights L) = mset [6, 2]"
    using arg_cong [OF L(1), of "image_mset (\<lambda>s. unat (srv_weight s))"]
    by (simp add: weights_def example_row_def zero_server_def)
  from reduced_weights_perm [OF this] have "sum_list (reduced_weights (weights L)) = 4"
    by (simp add: example_weights flip: sum_mset_sum_list)
  then have "unat (svc_sched_entries_count s') = 4" using L(2,3) by (simp add: fair_entries_def Let_def)
  then have "svc_sched_entries_count s' = 4" by (simp add: word_unat_eq_iff)
  moreover have "bucket_fits ALVS_WEIGHTED_ROUND_ROBIN_SCHEDULER [6, 2]"
    by (simp add: bucket_fits_def example_weights)
  ultimately have "\<forall>r \<in> {example_row 6 5, example_row 2 7}. \<exists>j.
      nps st' (sched_key example_svc j) = Some (SchedInfo \<lparr>schr_server_index = bswap_32 (srv_nps_index (snd r))\<rparr>)"
    using p by fastforce
  with \<open>svc_sched_entries_count s' = 4\<close> show ?thesis by (simp add: r example_row_def)
qed

text \<open>
  C16. Changing the weight of an active server to the value of its old weight modulo 256 is stored
  in the internal database and in the server's own entry, but the scheduling structure and the
  service's entry of the NPS keep the old weight's entries: the old weight is remembered in eight
  bits and the comparison takes the weight for unchanged.
\<close>

theorem weight_change_not_published:
  assumes ok: "all_calls_ok e"
    and keys: "distinct (map svc_key (services st))" "distinct (map row_key (servers st))"
    and req: "supported_routing_alg (ivd_conn_flags d)" "ivd_l_threshold d \<le> ivd_u_threshold d"
    and s: "s \<in> set (services st)" "svc_key (requested_service u) = svc_key s"
    and r: "active_row s d st r"
    and weight: "unat (word_of_int (ivd_weight d) :: u16) = unat (srv_weight (snd r)) mod 256"
    and run: "alvs_db_modify_server e u d st = (rc, st')"
  shows "rc = ALVS_DB_OK \<and> (\<forall>k. struct_of k \<noteq> STRUCT_ID_ALVS_SERVER_INFO \<longrightarrow> nps st' k = nps st k) \<and>
    (\<exists>q \<in> set (servers st'). row_key q = row_key r \<and> srv_weight (snd q) = word_of_int (ivd_weight d))"
proof -
  have r': "r \<in> set (servers st)" "srv_active (snd r) \<noteq> 0"
    "row_key r = (svc_key s, srv_ip (requested_server d), srv_port (requested_server d))"
    using r by (simp_all add: active_row_def)
  have eq: "(word_of_int (ivd_weight d) :: u16) = ucast (ucast (srv_weight (snd r)) :: u8)"
    using weight by (simp add: word_unat_eq_iff unsigned_ucast_eq take_bit_eq_mod unat_mod_distrib)
  let ?f = "\<lambda>q. if row_key q = (svc_key s, srv_ip (snd r), srv_port (snd r)) then modified_row d (snd r) q else q"
  have "alvs_db_modify_server e u d st = modify_active_server e d s ((snd r)\<lparr>srv_stats := srv_stats zero_server\<rparr>)
      (st\<lparr>clock := Suc (Suc (clock st))\<rparr>)"
    using with_service_some [OF ok keys(1) s] get_server_some [OF ok, of "st\<lparr>clock := Suc (clock st)\<rparr>" r s d] keys(2)
      r' req(1) leD [OF req(2)]
    by (simp add: alvs_db_modify_server_def with_active_server_def)
  then have "rc = ALVS_DB_OK \<and> (\<exists>x. nps st' = (nps st)(build_nps_server_info_key (snd r) := x)) \<and>
    servers st' = map ?f (servers st)"
    using run ok eq unfolding modify_active_server_def internal_db_modify_server_def modified_row_def Let_def
    by (cases "ivd_u_threshold d = 0 \<or> ivd_u_threshold d > srv_u_thresh (snd r)")
      (auto simp: db_simps build_nps_server_info_key_def cong: if_cong)
  then obtain x where st': "rc = ALVS_DB_OK" "nps st' = (nps st)(build_nps_server_info_key (snd r) := x)"
    "servers st' = map ?f (servers st)" by blast
  have "modified_row d (snd r) r \<in> set (servers st')"
    unfolding st'(3) using r' by (auto simp: row_key_def intro!: image_eqI [of _ _ r])
  moreover have "srv_weight (snd (modified_row d (snd r) r)) = word_of_int (ivd_weight d)"
    by (simp add: modified_row_def)
  moreover have "nps st' k = nps st k" if "struct_of k \<noteq> STRUCT_ID_ALVS_SERVER_INFO" for k
    using that by (auto simp: st'(2))
  ultimately show ?thesis using st'(1) modified_row_fields(1) by blast
qed

definition example_dest :: "int \<Rightarrow> ip_vs_dest_user" where
  "example_dest w = \<lparr>ivd_addr = 0x0a000002, ivd_port = 80, ivd_conn_flags = 3, ivd_weight = w,
     ivd_u_threshold = 0, ivd_l_threshold = 0\<rparr>"

definition example_weighted :: "u16 list \<Rightarrow> cp_state" where
  "example_weighted ws = blank_state\<lparr>services := [new_service ok_env example_service 0],
     servers := map (\<lambda>(i, w). (svc_key (requested_service example_service),
       (requested_server (example_dest 0))\<lparr>srv_ip := 0x0200000a + i, srv_weight := w, srv_active := 1,
         srv_nps_index := i\<rparr>)) (zip (map of_nat [0..<length ws]) ws)\<rparr>"

theorem weight_change_not_published_witness:
  "nps (snd (alvs_db_modify_server ok_env example_service (example_dest 44) (example_weighted [300])))
     (SCHED_INFO 0) = nps (example_weighted [300]) (SCHED_INFO 0) \<and>
   (\<exists>q \<in> set (servers (snd (alvs_db_modify_server ok_env example_service (example_dest 44) (example_weighted [300])))).
      srv_weight (snd q) = 44)"
proof -
  let ?st = "example_weighted [300]"
  let ?s = "new_service ok_env example_service 0"
  let ?r = "(svc_key ?s, (requested_server (example_dest 0))\<lparr>srv_ip := 0x0200000a, srv_weight := 300,
    srv_active := 1, srv_nps_index := 0\<rparr>)"
  have ip: "bswap_32 0x0a000002 = 0x0200000a" by code_simp
  have st: "services ?st = [?s]" "servers ?st = [?r]"
    by (simp_all add: example_weighted_def)
  have row: "active_row ?s (example_dest 44) ?st ?r"
    by (simp add: active_row_def st row_key_def requested_server_def example_dest_def ip)
  obtain rc st' where run: "alvs_db_modify_server ok_env example_service (example_dest 44) ?st = (rc, st')"
    by fastforce
  have "rc = ALVS_DB_OK \<and> (\<forall>k. struct_of k \<noteq> STRUCT_ID_ALVS_SERVER_INFO \<longrightarrow> nps st' k = nps ?st k) \<and>
    (\<exists>q \<in> set (servers st'). row_key q = row_key ?r \<and> srv_weight (snd q) = word_of_int (ivd_weight (example_dest 44)))"
    by (rule weight_change_not_published [OF ok_env_ok(1) _ _ _ _ _ _ row _ run])
      (simp_all add: st example_dest_def supported_routing_alg_def IP_VS_CONN_F_FWD_MASK_def IP_VS_CONN_F_DROUTE_def)
  moreover have "ivd_weight (example_dest 44) = 44" by (simp add: example_dest_def)
  ultimately show ?thesis unfolding run by auto
qed

text \<open>
  C17. Deleting a service that has servers succeeds and makes all of its servers inactive in the
  internal database, but at most one server information entry of the NPS is written: the entries of
  all other servers of the service still say that the server is available.
\<close>

theorem delete_service_updates_one_server_entry:
  assumes ok: "all_calls_ok e" "select_ok e" and inv: "cp_inv e st"
    and s: "s \<in> set (services st)" "svc_key (requested_service u) = svc_key s"
    and run: "alvs_db_delete_service e u st = (rc, st')"
  shows "rc = ALVS_DB_OK \<and>
    (\<forall>r \<in> set (servers st'). fst r = svc_key s \<longrightarrow> srv_active (snd r) = 0) \<and>
    (\<exists>i. \<forall>r \<in> set (servers st). fst r = svc_key s \<and> srv_active (snd r) = 1 \<and> srv_nps_index (snd r) \<noteq> i \<longrightarrow>
      nps st' (build_nps_server_info_key (snd r)) = Some (ServerInfo (build_nps_server_info_result (snd r))))"
proof -
  obtain st1 i where st1: "alvs_db_delete_service e u st = (ALVS_DB_OK, st1)"
    "servers st1 = map (\<lambda>r. if fst r = svc_key s then deactivate_row r else r) (servers st)"
    "\<forall>k. k \<noteq> build_nps_service_classification_key s \<longrightarrow> k \<noteq> build_nps_service_info_key s \<longrightarrow>
      struct_of k \<noteq> STRUCT_ID_ALVS_SCHED_INFO \<longrightarrow> k \<noteq> SERVER_INFO (bswap_32 i) \<longrightarrow> nps st1 k = nps st k"
    using delete_service_run [OF ok inv s] by blast
  have "nps st1 (build_nps_server_info_key (snd r)) = nps st (build_nps_server_info_key (snd r))"
    if "srv_nps_index (snd r) \<noteq> i" for r :: server_row
    using st1(3) that by (simp add: build_nps_server_info_key_def build_nps_service_classification_key_def
        build_nps_service_info_key_def)
  then have "\<forall>r \<in> set (servers st). fst r = svc_key s \<and> srv_active (snd r) = 1 \<and> srv_nps_index (snd r) \<noteq> i \<longrightarrow>
      nps st1 (build_nps_server_info_key (snd r)) = Some (ServerInfo (build_nps_server_info_result (snd r)))"
    using inv by (simp add: cp_inv_def server_info_ok_def)
  then show ?thesis using run st1(1,2) by auto
qed

theorem delete_service_updates_one_server_entry_witness:
  "fst (alvs_db_delete_service ok_env example_service example_one) = ALVS_DB_OK"
proof -
  obtain i where i: "services example_one = [new_service ok_env example_service i]"
    using example_one_services by blast
  obtain rc st where r: "alvs_db_delete_service ok_env example_service example_one = (rc, st)" by fastforce
  show ?thesis
    using delete_service_updates_one_server_entry [OF ok_env_ok example_one_inv, of "new_service ok_env example_service i"
        example_service rc st] r by (simp add: i)
qed

end
