(* ===== verification/Sync_Daemon_Props.thy ===== *)
theory Sync_Daemon_Props
  imports Alvs_Manager_Props
begin

text \<open>
  The state-sync daemon in the control plane: starting and stopping a daemon are inverse to each
  other, both keep the NPS entry equal to the internal one, and initialising with a backup daemon
  listed before a master daemon leaves the master without its source address.
\<close>

lemma bswap_32_0 [simp]: "bswap_32 0 = 0"
  by code_simp

text \<open>The role \<open>d\<close> asks for is not taken.\<close>

definition role_idle :: "ip_vs_daemon_user \<Rightarrow> alvs_db_application_info \<Rightarrow> bool" where
  "role_idle d a \<longleftrightarrow>
     idu_state d = IP_VS_STATE_MASTER \<and> \<not> app_is_master a \<and> app_m_sync_id a = 0 \<and> app_source_ip a = 0 \<or>
     idu_state d = IP_VS_STATE_BACKUP \<and> \<not> app_is_backup a \<and> app_b_sync_id a = 0"

lemma mcast_if_loop_frame:
  "mcast_if_loop d ifs res a = (ok, a') \<Longrightarrow> \<exists>x. a' = a\<lparr>app_source_ip := x\<rparr> \<and>
     (idu_state d \<noteq> IP_VS_STATE_MASTER \<longrightarrow> a' = a)"
proof (induction ifs arbitrary: res a)
  case Nil
  then show ?case by (auto intro: exI [of _ "app_source_ip a"])
next
  case (Cons i ifs)
  have "\<exists>x. a = a\<lparr>app_source_ip := x\<rparr>" by (rule exI [of _ "app_source_ip a"]) simp
  with Cons show ?case by (fastforce split: if_splits)
qed

lemma handle_mcast_if_frame:
  assumes "alvs_db_handle_mcast_if ifs d a = (ok, a')"
  shows "\<exists>x. a' = a\<lparr>app_source_ip := x\<rparr> \<and> (idu_state d \<noteq> IP_VS_STATE_MASTER \<longrightarrow> a' = a)"
proof -
  have "\<exists>x. a = a\<lparr>app_source_ip := x\<rparr>" by (rule exI [of _ "app_source_ip a"]) simp
  then show ?thesis
    using assms mcast_if_loop_frame
    by (auto simp: alvs_db_handle_mcast_if_def split: if_splits option.splits)
qed

lemma get_app_row:
  assumes "all_calls_ok e" "application_infos st = [a]" "app_application_index a = ALVS_APPLICATION_INFO_INDEX"
  shows "internal_db_get_application_info e (zero_application_info\<lparr>app_application_index := ALVS_APPLICATION_INFO_INDEX\<rparr>) st =
    (ALVS_DB_OK, a, st\<lparr>clock := Suc (clock st)\<rparr>)"
  using assms by (cases a) (simp add: get_application_info_ok zero_application_info_def)

lemma state_codes: "IP_VS_STATE_MASTER \<noteq> IP_VS_STATE_BACKUP"
  by (simp add: IP_VS_STATE_MASTER_def IP_VS_STATE_BACKUP_def)

text \<open>
  C15. When the role is free and its multicast interface is configured, starting a daemon succeeds
  and publishes the role with its sync id, and stopping it succeeds and brings the application
  information of the internal database and of the NPS back to what it was.
\<close>

theorem daemon_start_stop_roundtrip:
  assumes ok: "all_calls_ok e"
    and row: "application_infos st = [a]" "app_application_index a = ALVS_APPLICATION_INFO_INDEX"
    and idle: "role_idle d a" and ifs: "fst (alvs_db_handle_mcast_if ifs d a)"
    and start: "alvs_db_start_daemon e ifs d st = (rc1, st1)"
    and stop: "alvs_db_stop_daemon e d st1 = (rc2, st2)"
  shows "rc1 = ALVS_DB_OK \<and> rc2 = ALVS_DB_OK \<and>
    (\<exists>r. nps st1 (APPLICATION_INFO ALVS_APPLICATION_INFO_INDEX) = Some (ApplicationInfo r) \<and>
      (idu_state d = IP_VS_STATE_MASTER \<longrightarrow> air_master_bit r \<and> air_m_sync_id r = ucast (idu_syncid d)) \<and>
      (idu_state d = IP_VS_STATE_BACKUP \<longrightarrow> air_backup_bit r \<and> air_b_sync_id r = ucast (idu_syncid d))) \<and>
    application_infos st2 = application_infos st \<and>
    nps st2 (APPLICATION_INFO ALVS_APPLICATION_INFO_INDEX) = Some (ApplicationInfo (build_nps_application_info_result a)) \<and>
    (\<forall>k. k \<noteq> APPLICATION_INFO ALVS_APPLICATION_INFO_INDEX \<longrightarrow> nps st2 k = nps st k)"
proof -
  obtain a1 where h: "alvs_db_handle_mcast_if ifs d a = (True, a1)"
    using ifs by (cases "alvs_db_handle_mcast_if ifs d a") auto
  obtain x where a1: "alvs_db_handle_mcast_if ifs d a = (True, a1)" "a1 = a\<lparr>app_source_ip := x\<rparr>"
    "idu_state d \<noteq> IP_VS_STATE_MASTER \<longrightarrow> a1 = a"
    using h handle_mcast_if_frame [OF h] by blast
  define b where "b = build_cp_state_sync_daemon a1 d True"
  have b: "app_application_index b = ALVS_APPLICATION_INFO_INDEX"
    using row(2) by (simp add: b_def a1(2) build_cp_state_sync_daemon_def)
  have run1: "rc1 = ALVS_DB_OK" "application_infos st1 = [b]"
    "nps st1 = (nps st)(APPLICATION_INFO ALVS_APPLICATION_INFO_INDEX \<mapsto> ApplicationInfo (build_nps_application_info_result b))"
    using start ok idle a1(1) b row state_codes
    by (auto simp: alvs_db_start_daemon_def get_app_row [OF ok row] role_idle_def update_daemon_ok b_def)
  have undo: "build_cp_state_sync_daemon b d False = a"
    using idle a1 state_codes
    by (cases a) (auto simp: b_def build_cp_state_sync_daemon_def role_idle_def)
  have taken: "idu_state d = IP_VS_STATE_MASTER \<longrightarrow> app_is_master b" "idu_state d = IP_VS_STATE_BACKUP \<longrightarrow> app_is_backup b"
    using state_codes by (auto simp: b_def build_cp_state_sync_daemon_def)
  have run2: "rc2 = ALVS_DB_OK" "application_infos st2 = [a]"
    "nps st2 = (nps st1)(APPLICATION_INFO ALVS_APPLICATION_INFO_INDEX \<mapsto> ApplicationInfo (build_nps_application_info_result a))"
    using stop ok b row(2) taken
    by (auto simp: alvs_db_stop_daemon_def get_app_row [OF ok run1(2) b] update_daemon_ok run1(2) undo)
  show ?thesis
    using run1 run2 row(1) idle state_codes
    by (auto simp: build_nps_application_info_result_def b_def build_cp_state_sync_daemon_def role_idle_def)
qed

definition example_daemon :: ip_vs_daemon_user where
  "example_daemon = \<lparr>idu_state = 1, idu_mcast_ifn = ''eth0'', idu_syncid = 7\<rparr>"

definition example_ifs :: "ifaddrs list option" where
  "example_ifs = Some [\<lparr>ifa_name = ''lo'', ifa_family = None, ifa_s_addr = 0, ifa_nameinfo_ok = True\<rparr>,
     \<lparr>ifa_name = ''eth0'', ifa_family = Some 2, ifa_s_addr = 0x0a0a0a0a, ifa_nameinfo_ok = True\<rparr>]"

theorem daemon_start_stop_roundtrip_witness:
  "application_infos (snd (alvs_db_stop_daemon ok_env example_daemon
     (snd (alvs_db_start_daemon ok_env example_ifs example_daemon
       (blank_state\<lparr>application_infos := [zero_application_info]\<rparr>))))) = [zero_application_info]"
proof -
  let ?st = "blank_state\<lparr>application_infos := [zero_application_info]\<rparr>"
  obtain rc1 st1 where s1: "alvs_db_start_daemon ok_env example_ifs example_daemon ?st = (rc1, st1)" by fastforce
  obtain rc2 st2 where s2: "alvs_db_stop_daemon ok_env example_daemon st1 = (rc2, st2)" by fastforce
  have "fst (alvs_db_handle_mcast_if example_ifs example_daemon zero_application_info)"
    by (simp add: alvs_db_handle_mcast_if_def example_ifs_def example_daemon_def AF_INET_def IP_VS_STATE_MASTER_def)
  moreover have "role_idle example_daemon zero_application_info"
    by (simp add: role_idle_def example_daemon_def zero_application_info_def IP_VS_STATE_MASTER_def)
  moreover have "app_application_index zero_application_info = ALVS_APPLICATION_INFO_INDEX"
    by (simp add: zero_application_info_def ALVS_APPLICATION_INFO_INDEX_def)
  ultimately show ?thesis
    using daemon_start_stop_roundtrip [OF ok_env_ok(1) _ _ _ _ s1 s2, of zero_application_info] by (simp add: s1 s2)
qed

text \<open>
  C19. Initialising the daemons from the kernel's configuration with the backup daemon listed first
  and the master second, on an empty database, publishes a master whose source address is zero,
  whatever addresses the interfaces have: only the first daemon's interface is looked at.
\<close>

theorem init_daemon_master_without_source:
  assumes ok: "all_calls_ok e" and row: "app_row st = None"
    and roles: "idu_state first = IP_VS_STATE_BACKUP" "idu_state second = IP_VS_STATE_MASTER"
    and run: "alvs_db_init_daemon e ifs first second st = (ALVS_DB_OK, st')"
  shows "\<exists>r. nps st' (APPLICATION_INFO ALVS_APPLICATION_INFO_INDEX) = Some (ApplicationInfo r) \<and>
    air_master_bit r \<and> air_backup_bit r \<and> air_source_ip r = 0"
proof -
  have get: "internal_db_get_application_info e zero_application_info st =
      (ALVS_DB_FAILURE, zero_application_info, st\<lparr>clock := Suc (clock st)\<rparr>)"
    using ok row by (simp add: get_application_info_ok app_row_def zero_application_info_def ALVS_APPLICATION_INFO_INDEX_def)
  define a where "a = build_cp_state_sync_daemons zero_application_info first second"
  have a: "app_is_master a" "app_is_backup a" "app_source_ip a = 0"
    using roles state_codes
    by (simp_all add: a_def build_cp_state_sync_daemons_def build_cp_state_sync_daemon_def zero_application_info_def Let_def)
  obtain k a' where h: "alvs_db_handle_mcast_if ifs first a = (k, a')" by fastforce
  have "a' = a" using handle_mcast_if_frame [OF h] roles state_codes by auto
  then show ?thesis
    using run ok get h a
    by (auto simp: alvs_db_init_daemon_def Let_def a_def internal_db_add_application_info_def infra_add_entry_def
        db_simps build_nps_application_info_key_def build_nps_application_info_result_def split: if_splits)
qed

theorem init_daemon_master_without_source_witness:
  "\<exists>r. nps (snd (alvs_db_init_daemon ok_env example_ifs (example_daemon\<lparr>idu_state := 2\<rparr>) example_daemon blank_state))
      (APPLICATION_INFO ALVS_APPLICATION_INFO_INDEX) = Some (ApplicationInfo r) \<and> air_source_ip r = 0"
proof -
  obtain rc st' where r: "alvs_db_init_daemon ok_env example_ifs (example_daemon\<lparr>idu_state := 2\<rparr>) example_daemon
      blank_state = (rc, st')" by fastforce
  moreover have "fst (alvs_db_init_daemon ok_env example_ifs (example_daemon\<lparr>idu_state := 2\<rparr>) example_daemon
      blank_state) = ALVS_DB_OK" by code_simp
  ultimately have "rc = ALVS_DB_OK" by simp
  then show ?thesis
    using init_daemon_master_without_source [OF ok_env_ok(1), of blank_state "example_daemon\<lparr>idu_state := 2\<rparr>"
        example_daemon example_ifs st'] r
    by (auto simp: app_row_def blank_state_def example_daemon_def IP_VS_STATE_MASTER_def IP_VS_STATE_BACKUP_def)
qed

end
