(* ===== verification/Dp_State.thy ===== *)
theory Dp_State
  imports Alvs_Defs
begin

text \<open>
  The state of one thread of the data plane and the operations it uses of the network processor:
  the search structures, the counters, the pool of connection indexes, the spin locks and the frame
  (\<^verbatim>\<open>ezdp.h\<close>, \<^verbatim>\<open>ezframe.h\<close>), and the helpers of \<^verbatim>\<open>src/dp/alvs_utils.h\<close> and \<^verbatim>\<open>src/dp/nw_utils.h\<close>.

  \<^item> \<open>dp_shared\<close> is the memory all threads share: the search structures, the counters, the 32-bit
    words of external memory and the pool of free connection indexes.
  \<^item> \<open>dp_state\<close> is one thread: its private memory (\<open>cmem_alvs\<close>, \<open>cmem_nw\<close>, \<open>frame_data\<close>), the
    frame it processes, the locks it holds, and the shared memory as it is at this moment.
  \<^item> \<open>dp_env\<close> holds what the sources do not fix: which calls into the library fail, the hash
    functions and the decoders of the chip, the size of a frame buffer, and what other threads do to
    the shared memory while this one waits for a lock.

  A work area of \<open>cmem_wa\<close> is always read right after the call that fills it, so its contents are
  the value of that call.  Keys that are built and used in one place are values as well.

  The calls that write a log message are left out of the operations of the data plane, here and in
  the theories above, also those on an error path, such as the \<open>LOG_CRIT\<close> of \<open>nw_host_do_route\<close>
  when the lookup of the host interface fails.  What such a call does is in Dp_Log; by its last
  property a call need not return, and then the operation it is in does not go on.
\<close>

subsection \<open>Counters and interfaces\<close>

definition ALVS_SERVICE_STATS_IN_PKTS_BYTES_OFFSET :: u32 where
  "ALVS_SERVICE_STATS_IN_PKTS_BYTES_OFFSET = 0"
definition ALVS_SERVICE_STATS_CONN_SCHED_OFFSET :: u32 where
  "ALVS_SERVICE_STATS_CONN_SCHED_OFFSET = 4"
definition ALVS_SERVER_STATS_IN_PKTS_BYTES_OFFSET :: u32 where
  "ALVS_SERVER_STATS_IN_PKTS_BYTES_OFFSET = 0"
definition ALVS_SERVER_STATS_CONN_SCHED_OFFSET :: u32 where
  "ALVS_SERVER_STATS_CONN_SCHED_OFFSET = 4"
definition ALVS_SERVER_STATS_INACTIVE_CONN_OFFSET :: u32 where
  "ALVS_SERVER_STATS_INACTIVE_CONN_OFFSET = 6"
definition ALVS_SERVER_STATS_ACTIVE_CONN_OFFSET :: u32 where
  "ALVS_SERVER_STATS_ACTIVE_CONN_OFFSET = 7"
definition ALVS_SERVER_STATS_CONNECTION_TOTAL_OFFSET :: u32 where
  "ALVS_SERVER_STATS_CONNECTION_TOTAL_OFFSET = 0"
definition ALVS_CONN_LOCK_ELEMENTS_MASK :: u32 where
  "ALVS_CONN_LOCK_ELEMENTS_MASK = of_nat ALVS_CONN_LOCK_ELEMENTS_COUNT - 1"
definition USER_BASE_LOGICAL_ID :: u32 where "USER_BASE_LOGICAL_ID = 0"
definition ALVS_AGING_TIMER_LOGICAL_ID :: u32 where "ALVS_AGING_TIMER_LOGICAL_ID = 96"

fun error_offset :: "alvs_error_stat \<Rightarrow> u32" where
  "error_offset ALVS_ERROR_UNSUPPORTED_ROUTING_ALGO = 0"
| "error_offset ALVS_ERROR_CANT_EXPIRE_CONNECTION = 1"
| "error_offset ALVS_ERROR_CANT_UPDATE_CONNECTION_STATE = 2"
| "error_offset ALVS_ERROR_CONN_INFO_LKUP_FAIL = 3"
| "error_offset ALVS_ERROR_CONN_CLASS_ALLOC_FAIL = 4"
| "error_offset ALVS_ERROR_CONN_INFO_ALLOC_FAIL = 5"
| "error_offset ALVS_ERROR_CONN_INDEX_ALLOC_FAIL = 6"
| "error_offset ALVS_ERROR_SERVICE_CLASS_LKUP_FAIL = 7"
| "error_offset ALVS_ERROR_SCHEDULING_FAIL = 8"
| "error_offset ALVS_ERROR_SERVER_INFO_LKUP_FAIL = 9"
| "error_offset ALVS_ERROR_SERVER_IS_UNAVAILABLE = 10"
| "error_offset ALVS_ERROR_SERVER_INDEX_LKUP_FAIL = 11"
| "error_offset ALVS_ERROR_CONN_CLASS_LKUP_FAIL = 12"
| "error_offset ALVS_ERROR_SERVICE_INFO_LOOKUP = 13"
| "error_offset ALVS_ERROR_UNSUPPORTED_SCHED_ALGO = 14"
| "error_offset ALVS_ERROR_CANT_MARK_DELETE = 15"
| "error_offset ALVS_ERROR_DEST_SERVER_IS_NOT_AVAIL = 16"
| "error_offset ALVS_ERROR_SEND_FRAME_FAIL = 17"
| "error_offset ALVS_ERROR_CONN_MARK_TO_DELETE = 18"
| "error_offset ALVS_ERROR_SERVICE_CLASS_LOOKUP = 19"
| "error_offset ALVS_ERROR_UNSUPPORTED_PROTOCOL = 20"
| "error_offset ALVS_ERROR_NO_ACTIVE_SERVERS = 21"
| "error_offset ALVS_ERROR_CREATE_CONN_MEM_ERROR = 22"
| "error_offset ALVS_ERROR_STATE_SYNC = 23"
| "error_offset ALVS_ERROR_STATE_SYNC_LOOKUP_FAIL = 24"
| "error_offset ALVS_ERROR_STATE_SYNC_BACKUP_DOWN = 25"
| "error_offset ALVS_ERROR_STATE_SYNC_BAD_HEADER_SIZE = 26"
| "error_offset ALVS_ERROR_STATE_SYNC_BACKUP_NOT_MY_SYNCID = 27"
| "error_offset ALVS_ERROR_STATE_SYNC_BAD_BUFFER = 28"
| "error_offset ALVS_ERROR_STATE_SYNC_DECODE_CONN = 29"
| "error_offset ALVS_ERROR_STATE_SYNC_BAD_MESSAGE_VERSION = 30"

fun if_stat_offset :: "nw_if_stat \<Rightarrow> u32" where
  "if_stat_offset NW_IF_STATS_FRAME_VALIDATION_FAIL = 0"
| "if_stat_offset NW_IF_STATS_MAC_ERROR = 1"
| "if_stat_offset NW_IF_STATS_IPV4_ERROR = 2"
| "if_stat_offset NW_IF_STATS_NOT_MY_MAC = 3"
| "if_stat_offset NW_IF_STATS_NOT_IPV4 = 4"
| "if_stat_offset NW_IF_STATS_NOT_TCP = 5"
| "if_stat_offset NW_IF_STATS_NO_VALID_ROUTE = 6"
| "if_stat_offset NW_IF_STATS_FAIL_ARP_LOOKUP = 7"
| "if_stat_offset NW_IF_STATS_FAIL_INTERFACE_LOOKUP = 8"
| "if_stat_offset NW_IF_STATS_FAIL_FIB_LOOKUP = 9"
| "if_stat_offset NW_IF_STATS_REJECT_BY_FIB = 10"
| "if_stat_offset NW_IF_STATS_UNKNOWN_FIB_RESULT = 11"

text \<open>Error numbers of \<^verbatim>\<open>errno.h\<close> the library returns.\<close>

definition ENOENT :: u32 where "ENOENT = 2"
definition EIO :: u32 where "EIO = 5"

subsection \<open>State\<close>

record dp_shared =
  conn_class :: "alvs_conn_classification_key \<rightharpoonup> alvs_conn_classification_result"
  conn_info :: "u32 \<rightharpoonup> alvs_conn_info_result"
  server_class :: "alvs_server_classification_key \<rightharpoonup> alvs_server_classification_result"
  server_info :: "u32 \<rightharpoonup> alvs_server_info_result"
  service_class :: "alvs_service_classification_key \<rightharpoonup> alvs_service_classification_result"
  service_info :: "u8 \<rightharpoonup> alvs_service_info_result"
  sched_info :: "u16 \<rightharpoonup> alvs_sched_info_result"
  app_info :: "u8 \<rightharpoonup> alvs_app_info_result"
  interfaces :: "u32 \<rightharpoonup> nw_if_result"
  arp :: "in_addr_t \<rightharpoonup> nw_arp_result"
  fib :: "in_addr_t \<rightharpoonup> nw_fib_result"
  conn_pool :: "u32 list"
  posted_ctr :: "ezdp_sum_addr \<Rightarrow> u64"
  on_demand_ctr :: "ezdp_sum_addr \<Rightarrow> u64"
  mem32 :: "ezdp_sum_addr \<Rightarrow> u32"

text \<open>
  The frame of a thread: whether the thread owns it, its buffers, the buffer it stands at, and the
  length in its descriptor, which stays readable after the frame is sent or freed.
\<close>

record ezframe =
  fr_live :: bool
  fr_bufs :: "u8 list list"
  fr_pos :: nat
  fr_length :: u32

record alvs_conn_sync_state =
  conn_sync_status :: alvs_conn_sync_status
  amount_buffers :: "4 word"
  current_base :: nat
  current_len :: u8
  conn_count :: u8

text \<open>
  \<open>tx\<close> collects the frames the thread has handed to an output channel, \<open>frame_faults\<close> counts the
  operations on a frame the thread does not own and \<open>blocked\<close> records that the thread has waited for
  a lock it already holds: from then on it makes no step, and the rest of the state has no meaning.
\<close>

record dp_state =
  conn_class_key :: alvs_conn_classification_key
  conn_info_result :: alvs_conn_info_result
  server_info_result :: alvs_server_info_result
  service_info_result :: alvs_service_info_result
  sched_info_result :: alvs_sched_info_result
  conn_result :: alvs_conn_classification_result
  conn_sync_state :: alvs_conn_sync_state
  interface_result :: nw_if_result
  host_interface_result :: nw_if_result
  frame_data :: "u8 list"
  frame :: ezframe
  tx :: "(u8 \<times> u8 list list) list"
  frame_faults :: nat
  held :: "u32 list"
  blocked :: bool
  dp_clock :: nat
  sh :: dp_shared

record mac_decode_result =
  mdr_decode_error :: bool
  mdr_my_mac :: bool
  mdr_ipv4_multicast :: bool
  mdr_ipv4 :: bool
  mdr_layer2_size :: nat

record ipv4_decode_result =
  idr_decode_error :: bool
  idr_tcp :: bool
  idr_udp :: bool

text \<open>
  A result code of 0 in \<open>lookup_rc\<close>, \<open>table_update_rc\<close>, \<open>hash_add_rc\<close>, \<open>hash_delete_rc\<close> and \<open>frame_rc\<close> means that the
  call numbered so does what the library documents; any other code is returned and the call has no
  effect.  \<open>others\<close> is what the other threads have done to the shared memory when a lock is granted.
\<close>

record dp_env =
  lookup_rc :: "nat \<Rightarrow> u32"
  table_update_rc :: "nat \<Rightarrow> u32"
  hash_add_rc :: "nat \<Rightarrow> u32"
  hash_delete_rc :: "nat \<Rightarrow> u32"
  frame_rc :: "nat \<Rightarrow> u32"
  frame_valid_rc :: "nat \<Rightarrow> u32"
  pick_index :: "nat \<Rightarrow> nat"
  others :: "nat \<Rightarrow> dp_shared \<Rightarrow> dp_shared"
  EZDP_NULL_INDEX :: u32
  EZDP_EXTERNAL_MS :: u32
  EZFRAME_BUF_DATA_SIZE :: nat
  stale_byte :: "nat \<Rightarrow> u8"
  ezdp_hash :: "u32 \<Rightarrow> u32 \<Rightarrow> nat \<Rightarrow> nat \<Rightarrow> nat \<Rightarrow> nat \<Rightarrow> u32"
  ezdp_bulk_hash :: "alvs_conn_classification_key \<Rightarrow> u32"
  ezdp_mod :: "u32 \<Rightarrow> u32 \<Rightarrow> nat \<Rightarrow> u32"
  ezdp_count_bits :: "u32 \<Rightarrow> nat \<Rightarrow> nat \<Rightarrow> u32"
  ezdp_decode_mac :: "u8 list \<Rightarrow> mac_decode_result"
  ezdp_decode_ipv4 :: "u8 list \<Rightarrow> u32 \<Rightarrow> ipv4_decode_result"
  ipv4_checksum :: "u8 list \<Rightarrow> u16"

subsection \<open>Search structures, index pool, counters and locks\<close>

definition dp_tick :: "dp_state \<Rightarrow> dp_state" where
  "dp_tick st = st\<lparr>dp_clock := Suc (dp_clock st)\<rparr>"

definition ezdp_lookup :: "dp_env \<Rightarrow> 'v option \<Rightarrow> dp_state \<Rightarrow> u32 + 'v" where
  "ezdp_lookup e found st =
     (if lookup_rc e (dp_clock st) \<noteq> 0 then Inl (lookup_rc e (dp_clock st))
      else case found of None \<Rightarrow> Inl ENOENT | Some v \<Rightarrow> Inr v)"

definition ezdp_modify_conn_info :: "dp_env \<Rightarrow> u32 \<Rightarrow> dp_state \<Rightarrow> u32 \<times> dp_state" where
  "ezdp_modify_conn_info e conn_index st =
     (if table_update_rc e (dp_clock st) \<noteq> 0 then (table_update_rc e (dp_clock st), dp_tick st)
      else if conn_info (sh st) conn_index = None then (ENOENT, dp_tick st)
      else (0, sh_update (conn_info_update (\<lambda>m. m(conn_index \<mapsto> conn_info_result st))) (dp_tick st)))"

definition ezdp_add_conn_info :: "dp_env \<Rightarrow> u32 \<Rightarrow> dp_state \<Rightarrow> dp_state" where
  "ezdp_add_conn_info e conn_index st =
     (if table_update_rc e (dp_clock st) \<noteq> 0 then dp_tick st
      else sh_update (conn_info_update (\<lambda>m. m(conn_index \<mapsto> conn_info_result st))) (dp_tick st))"

definition ezdp_delete_conn_info :: "dp_env \<Rightarrow> u32 \<Rightarrow> dp_state \<Rightarrow> u32 \<times> dp_state" where
  "ezdp_delete_conn_info e conn_index st =
     (if table_update_rc e (dp_clock st) \<noteq> 0 then (table_update_rc e (dp_clock st), dp_tick st)
      else if conn_info (sh st) conn_index = None then (ENOENT, dp_tick st)
      else (0, sh_update (conn_info_update (\<lambda>m. m(conn_index := None))) (dp_tick st)))"

definition ezdp_add_conn_class :: "dp_env \<Rightarrow> alvs_conn_classification_key \<Rightarrow> alvs_conn_classification_result \<Rightarrow>
    dp_state \<Rightarrow> u32 \<times> dp_state" where
  "ezdp_add_conn_class e key result st =
     (if hash_add_rc e (dp_clock st) \<noteq> 0 then (hash_add_rc e (dp_clock st), dp_tick st)
      else (0, sh_update (conn_class_update (\<lambda>m. m(key \<mapsto> result))) (dp_tick st)))"

definition ezdp_delete_conn_class :: "dp_env \<Rightarrow> alvs_conn_classification_key \<Rightarrow> dp_state \<Rightarrow> u32 \<times> dp_state" where
  "ezdp_delete_conn_class e key st =
     (if hash_delete_rc e (dp_clock st) \<noteq> 0 then (hash_delete_rc e (dp_clock st), dp_tick st)
      else if conn_class (sh st) key = None then (ENOENT, dp_tick st)
      else (0, sh_update (conn_class_update (\<lambda>m. m(key := None))) (dp_tick st)))"

definition ezdp_alloc_index :: "dp_env \<Rightarrow> dp_state \<Rightarrow> u32 \<times> dp_state" where
  "ezdp_alloc_index e st =
     (let pool = conn_pool (sh st) in
      if pool = [] then (EZDP_NULL_INDEX e, dp_tick st)
      else let i = pool ! (pick_index e (dp_clock st) mod length pool)
           in (i, sh_update (conn_pool_update (remove1 i)) (dp_tick st)))"

definition ezdp_free_index :: "u32 \<Rightarrow> dp_state \<Rightarrow> dp_state" where
  "ezdp_free_index i = sh_update (conn_pool_update (Cons i))"

definition ezdp_add_posted_ctr :: "ezdp_sum_addr \<Rightarrow> u64 \<Rightarrow> dp_state \<Rightarrow> dp_state" where
  "ezdp_add_posted_ctr addr v = sh_update (posted_ctr_update (\<lambda>c. c(addr := c addr + v)))"

definition ezdp_dual_add_posted_ctr :: "ezdp_sum_addr \<Rightarrow> u64 \<Rightarrow> u64 \<Rightarrow> dp_state \<Rightarrow> dp_state" where
  "ezdp_dual_add_posted_ctr addr v w =
     ezdp_add_posted_ctr (addr + 1) w \<circ> ezdp_add_posted_ctr addr v"

definition ezdp_add_single_ctr :: "ezdp_sum_addr \<Rightarrow> u64 \<Rightarrow> dp_state \<Rightarrow> dp_state" where
  "ezdp_add_single_ctr addr v = sh_update (on_demand_ctr_update (\<lambda>c. c(addr := c addr + v)))"

definition ezdp_atomic_set32 :: "ezdp_sum_addr \<Rightarrow> (u32 \<Rightarrow> u32) \<Rightarrow> dp_state \<Rightarrow> dp_state" where
  "ezdp_atomic_set32 addr f = sh_update (mem32_update (\<lambda>m. m(addr := f (m addr))))"

definition ezdp_lock_spinlock :: "dp_env \<Rightarrow> u32 \<Rightarrow> dp_state \<Rightarrow> dp_state" where
  "ezdp_lock_spinlock e addr st =
     (if addr \<in> set (held st) then st\<lparr>blocked := True\<rparr>
      else sh_update (others e (dp_clock st)) (dp_tick st)\<lparr>held := addr # held st\<rparr>)"

definition ezdp_unlock_spinlock :: "u32 \<Rightarrow> dp_state \<Rightarrow> dp_state" where
  "ezdp_unlock_spinlock addr st = st\<lparr>held := remove1 addr (held st)\<rparr>"

subsection \<open>Frames\<close>

definition ezframe_free :: "dp_state \<Rightarrow> dp_state" where
  "ezframe_free st =
     (if fr_live (frame st) then frame_update (fr_live_update (\<lambda>_. False)) st
      else st\<lparr>frame_faults := Suc (frame_faults st)\<rparr>)"

definition ezframe_send_to_if :: "u8 \<Rightarrow> dp_state \<Rightarrow> dp_state" where
  "ezframe_send_to_if channel st =
     (if fr_live (frame st)
      then frame_update (fr_live_update (\<lambda>_. False)) st\<lparr>tx := tx st @ [(channel, fr_bufs (frame st))]\<rparr>
      else st\<lparr>frame_faults := Suc (frame_faults st)\<rparr>)"

definition ezframe_store_buf :: "u8 list \<Rightarrow> dp_state \<Rightarrow> dp_state" where
  "ezframe_store_buf buf st =
     (if fr_live (frame st)
      then frame_update (\<lambda>f. f\<lparr>fr_bufs := (fr_bufs f)[fr_pos f := buf]\<rparr>) st
      else st\<lparr>frame_faults := Suc (frame_faults st)\<rparr>)"

text \<open>Loading copies the current buffer over the beginning of \<open>frame_data\<close>.\<close>

definition overwrite :: "nat \<Rightarrow> u8 list \<Rightarrow> u8 list \<Rightarrow> u8 list" where
  "overwrite off bs data = take off data @ bs @ drop (off + length bs) data"

definition ezframe_load_buf :: "dp_state \<Rightarrow> u8 list \<times> dp_state" where
  "ezframe_load_buf st =
     (if fr_live (frame st) \<and> fr_pos (frame st) < length (fr_bufs (frame st))
      then let b = fr_bufs (frame st) ! fr_pos (frame st) in (b, st\<lparr>frame_data := overwrite 0 b (frame_data st)\<rparr>)
      else ([], st\<lparr>frame_faults := Suc (frame_faults st)\<rparr>))"

definition ezframe_next_buf :: "dp_state \<Rightarrow> u32 \<times> dp_state" where
  "ezframe_next_buf st =
     (if Suc (fr_pos (frame st)) < length (fr_bufs (frame st))
      then (0, frame_update (fr_pos_update Suc) st) else (ENOENT, st))"

definition ezframe_first_buf :: "dp_env \<Rightarrow> dp_state \<Rightarrow> u32 \<times> dp_state" where
  "ezframe_first_buf e st =
     (if frame_rc e (dp_clock st) \<noteq> 0 then (frame_rc e (dp_clock st), dp_tick st)
      else (0, frame_update (fr_pos_update (\<lambda>_. 0)) (dp_tick st)))"

text \<open>A new frame takes the first \<open>len\<close> bytes of \<open>frame_data\<close>.  Creating one over a frame the
  thread still owns would lose that frame.\<close>

definition ezframe_new :: "dp_env \<Rightarrow> nat \<Rightarrow> dp_state \<Rightarrow> u32 \<times> dp_state" where
  "ezframe_new e len st =
     (if frame_rc e (dp_clock st) \<noteq> 0 then (frame_rc e (dp_clock st), dp_tick st)
      else (0, (dp_tick st)\<lparr>frame := \<lparr>fr_live = True, fr_bufs = [take len (frame_data st)], fr_pos = 0,
                                   fr_length = of_nat len\<rparr>,
                   frame_faults := (if fr_live (frame st) then Suc else id) (frame_faults st)\<rparr>))"

definition ezframe_append_buf :: "dp_env \<Rightarrow> nat \<Rightarrow> dp_state \<Rightarrow> u32 \<times> dp_state" where
  "ezframe_append_buf e len st =
     (if frame_rc e (dp_clock st) \<noteq> 0 then (frame_rc e (dp_clock st), dp_tick st)
      else if fr_live (frame st)
      then (0, frame_update (\<lambda>f. f\<lparr>fr_bufs := fr_bufs f @ [take len (frame_data st)],
              fr_pos := length (fr_bufs f), fr_length := fr_length f + of_nat len\<rparr>) (dp_tick st))
      else (0, (dp_tick st)\<lparr>frame_faults := Suc (frame_faults st)\<rparr>))"

subsection \<open>Helpers of \<^verbatim>\<open>alvs_utils.h\<close>\<close>

definition alvs_util_get_conn_iterations :: "u32 \<Rightarrow> u32" where
  "alvs_util_get_conn_iterations alvs_state =
     (if alvs_state = ucast IP_VS_TCP_S_ESTABLISHED then ucast ALVS_TCP_CONN_ITER_ESTABLISHED
      else if alvs_state = ucast IP_VS_TCP_S_CLOSE_WAIT then ucast ALVS_TCP_CONN_ITER_CLOSE_WAIT
      else 1)"

definition alvs_util_app_info_lookup :: "dp_env \<Rightarrow> dp_state \<Rightarrow> (u32 + alvs_app_info_result) \<times> dp_state" where
  "alvs_util_app_info_lookup e st =
     (ezdp_lookup e (app_info (sh st) ALVS_APPLICATION_INFO_INDEX) st, dp_tick st)"

definition alvs_update_incoming_traffic_stats :: "dp_state \<Rightarrow> dp_state" where
  "alvs_update_incoming_traffic_stats st =
     ezdp_dual_add_posted_ctr (svr_server_stats_base (server_info_result st) +
         ALVS_SERVER_STATS_IN_PKTS_BYTES_OFFSET) 1 (ucast (fr_length (frame st)))
       (ezdp_dual_add_posted_ctr (svr_service_stats_base (server_info_result st) +
         ALVS_SERVICE_STATS_IN_PKTS_BYTES_OFFSET) 1 (ucast (fr_length (frame st))) st)"

definition alvs_update_incoming_port_stats :: "u32 \<Rightarrow> dp_state \<Rightarrow> dp_state" where
  "alvs_update_incoming_port_stats counter_id st =
     ezdp_add_posted_ctr (nir_stats_base (interface_result st) + counter_id) 1 st"

definition alvs_update_connection_statistics :: "int \<Rightarrow> int \<Rightarrow> int \<Rightarrow> dp_state \<Rightarrow> dp_state" where
  "alvs_update_connection_statistics sched_conn active_conn inactive_conn st =
     (let service = svr_service_stats_base (server_info_result st);
          server = svr_server_stats_base (server_info_result st) in
      ezdp_add_posted_ctr (server + ALVS_SERVER_STATS_CONN_SCHED_OFFSET) (of_int sched_conn)
        (ezdp_add_posted_ctr (server + ALVS_SERVER_STATS_INACTIVE_CONN_OFFSET) (of_int inactive_conn)
          (ezdp_add_posted_ctr (server + ALVS_SERVER_STATS_ACTIVE_CONN_OFFSET) (of_int active_conn)
            (ezdp_add_posted_ctr (service + ALVS_SERVICE_STATS_CONN_SCHED_OFFSET) (of_int sched_conn) st))))"

definition alvs_update_discard_statistics :: "dp_env \<Rightarrow> alvs_error_stat \<Rightarrow> dp_state \<Rightarrow> dp_state" where
  "alvs_update_discard_statistics e error_id =
     ezdp_add_posted_ctr (push_bit 31 (EZDP_EXTERNAL_MS e) OR push_bit 27 USER_POSTED_STATS_MSID OR
       (of_nat EMEM_ALVS_ERROR_STATS_POSTED_OFFSET + error_offset error_id)) 1"

definition alvs_discard_frame :: "dp_state \<Rightarrow> dp_state" where
  "alvs_discard_frame = ezframe_free"

definition alvs_discard_and_stats :: "dp_env \<Rightarrow> alvs_error_stat \<Rightarrow> dp_state \<Rightarrow> dp_state" where
  "alvs_discard_and_stats e error_id st = alvs_discard_frame (alvs_update_discard_statistics e error_id st)"

definition alvs_lock_connection :: "dp_env \<Rightarrow> dp_state \<Rightarrow> u32 \<times> dp_state" where
  "alvs_lock_connection e st =
     (let hash_value = ezdp_bulk_hash e (conn_class_key st)
      in (hash_value, ezdp_lock_spinlock e (hash_value AND ALVS_CONN_LOCK_ELEMENTS_MASK) st))"

text \<open>\<open>ezdp_try_lock_spinlock\<close> does not wait: it fails when the lock is taken, by this thread or by
  another one (\<open>busy\<close>).\<close>

definition ezdp_try_lock_spinlock :: "dp_env \<Rightarrow> bool \<Rightarrow> u32 \<Rightarrow> dp_state \<Rightarrow> u32 \<times> dp_state" where
  "ezdp_try_lock_spinlock e busy addr st =
     (if busy \<or> addr \<in> set (held st) then (1, dp_tick st) else (0, ezdp_lock_spinlock e addr st))"

definition alvs_try_lock_connection :: "dp_env \<Rightarrow> bool \<Rightarrow> dp_state \<Rightarrow> u32 \<times> u32 \<times> dp_state" where
  "alvs_try_lock_connection e busy st =
     (let hash_value = ezdp_bulk_hash e (conn_class_key st);
          (rc, st) = ezdp_try_lock_spinlock e busy (hash_value AND ALVS_CONN_LOCK_ELEMENTS_MASK) st
      in (rc, hash_value, st))"

definition alvs_unlock_connection :: "u32 \<Rightarrow> dp_state \<Rightarrow> dp_state" where
  "alvs_unlock_connection hash_value =
     ezdp_unlock_spinlock (hash_value AND ALVS_CONN_LOCK_ELEMENTS_MASK)"

subsection \<open>Helpers of \<^verbatim>\<open>nw_utils.h\<close>\<close>

definition nw_interface_inc_counter :: "nw_if_stat \<Rightarrow> dp_state \<Rightarrow> dp_state" where
  "nw_interface_inc_counter counter_id st =
     ezdp_add_posted_ctr (nir_stats_base (interface_result st) + if_stat_offset counter_id) 1 st"

definition nw_interface_lookup :: "dp_env \<Rightarrow> u32 \<Rightarrow> dp_state \<Rightarrow> u32 \<times> dp_state" where
  "nw_interface_lookup e logical_id st =
     (case ezdp_lookup e (interfaces (sh st) logical_id) st of
        Inl rc \<Rightarrow> (rc, dp_tick st)
      | Inr r \<Rightarrow> (0, (dp_tick st)\<lparr>interface_result := r\<rparr>))"

definition nw_interface_lookup_host :: "dp_env \<Rightarrow> dp_state \<Rightarrow> u32 \<times> dp_state" where
  "nw_interface_lookup_host e st =
     (case ezdp_lookup e (interfaces (sh st) (ucast USER_HOST_LOGICAL_ID)) st of
        Inl rc \<Rightarrow> (rc, dp_tick st)
      | Inr r \<Rightarrow> (0, (dp_tick st)\<lparr>host_interface_result := r\<rparr>))"

definition nw_discard_frame :: "dp_state \<Rightarrow> dp_state" where
  "nw_discard_frame = ezframe_free"

definition nw_host_do_route :: "dp_env \<Rightarrow> dp_state \<Rightarrow> dp_state" where
  "nw_host_do_route e st =
     (let (rc, st) = nw_interface_lookup_host e st in
      if rc \<noteq> 0 then nw_discard_frame st
      else ezframe_send_to_if (nir_output_channel (host_interface_result st)) st)"

end
