(* ===== verification/Nw_Routing.thy ===== *)
theory Nw_Routing
  imports Dp_Sched
begin

text \<open>
  Access to the bytes of a frame and the routing of \<^verbatim>\<open>src/dp/nw_routing.h\<close>: the choice of a link of
  the aggregate by a hash of the destination address, the ARP table and the forwarding table.

  The pointers \<open>frame_base\<close> and \<open>buffer_base\<close> of the sources point to the beginning of \<open>frame_data\<close>,
  the thread's copy of the current buffer, so the operations read and write \<open>frame_data\<close>.  The
  processor is big-endian, and so are the accesses to several bytes.
\<close>

subsection \<open>Bytes\<close>

definition bytes16 :: "u16 \<Rightarrow> u8 list" where
  "bytes16 w = [ucast (drop_bit 8 w), ucast w]"

definition bytes32 :: "u32 \<Rightarrow> u8 list" where
  "bytes32 w = [ucast (drop_bit 24 w), ucast (drop_bit 16 w), ucast (drop_bit 8 w), ucast w]"

definition u16_at :: "u8 list \<Rightarrow> nat \<Rightarrow> u16" where
  "u16_at bs i = push_bit 8 (ucast (bs ! i)) OR ucast (bs ! Suc i)"

definition u32_at :: "u8 list \<Rightarrow> nat \<Rightarrow> u32" where
  "u32_at bs i = push_bit 24 (ucast (bs ! i)) OR push_bit 16 (ucast (bs ! (i + 1))) OR
     push_bit 8 (ucast (bs ! (i + 2))) OR ucast (bs ! (i + 3))"

text \<open>The \<open>n\<close> bytes from offset \<open>off\<close> of \<open>frame_data\<close>; beyond the array the memory holds unknown bytes.\<close>

definition bytes_at :: "dp_env \<Rightarrow> dp_state \<Rightarrow> nat \<Rightarrow> nat \<Rightarrow> u8 list" where
  "bytes_at e st off n =
     map (\<lambda>i. if i < length (frame_data st) then frame_data st ! i else stale_byte e i) [off..<off + n]"

definition write_data :: "nat \<Rightarrow> u8 list \<Rightarrow> dp_state \<Rightarrow> dp_state" where
  "write_data off bs = frame_data_update (overwrite off bs)"

subsection \<open>Routing\<close>

definition nw_send_frame_to_network :: "dp_env \<Rightarrow> u32 \<Rightarrow> dp_state \<Rightarrow> dp_state" where
  "nw_send_frame_to_network e port_id st =
     (let bs = bytes_at e st 0 8;
          hash_value = ezdp_hash e (u32_at bs 0) (u32_at bs 4) 2 6 0 0;
          (rc, st) = nw_interface_lookup e (port_id + hash_value) st
      in if rc \<noteq> 0 then alvs_discard_and_stats e ALVS_ERROR_SEND_FRAME_FAIL st
         else ezframe_send_to_if (nir_output_channel (interface_result st)) st)"

definition nw_arp_processing :: "dp_env \<Rightarrow> in_addr_t \<Rightarrow> nat \<Rightarrow> dp_state \<Rightarrow> dp_state" where
  "nw_arp_processing e dest_ip frame_buff_size st =
     (case ezdp_lookup e (arp (sh st) dest_ip) st of
        Inr r \<Rightarrow>
          (let st = write_data 0 (nar_dest_mac_addr r) (dp_tick st);
               st = write_data 6 (nir_mac_address (interface_result st)) st;
               st = ezframe_store_buf (take frame_buff_size (frame_data st)) st
           in nw_send_frame_to_network e (ucast (nar_base_logical_id r)) st)
      | Inl rc \<Rightarrow> nw_discard_frame (nw_interface_inc_counter NW_IF_STATS_FAIL_ARP_LOOKUP (dp_tick st)))"

text \<open>
  The lookup in the TCAM is \<open>fib\<close>.  The last branch of the source, for a result of no known type, is
  not taken by the values of the enumeration.
\<close>

definition nw_fib_processing :: "in_addr_t \<Rightarrow> dp_state \<Rightarrow> in_addr_t \<times> dp_state" where
  "nw_fib_processing dest_ip st =
     (case fib (sh st) dest_ip of
        None \<Rightarrow> (0, nw_interface_inc_counter NW_IF_STATS_FAIL_FIB_LOOKUP st)
      | Some r \<Rightarrow>
          (case nfr_result_type r of
             NW_FIB_NEIGHBOR \<Rightarrow> (dest_ip, st)
           | NW_FIB_GW \<Rightarrow> (nfr_dest_ip r, st)
           | NW_FIB_DROP \<Rightarrow> (0, nw_interface_inc_counter NW_IF_STATS_REJECT_BY_FIB st)))"

definition nw_do_route :: "dp_env \<Rightarrow> in_addr_t \<Rightarrow> nat \<Rightarrow> dp_state \<Rightarrow> dp_state" where
  "nw_do_route e dest_ip frame_buff_size st =
     (let (fib_dest_ip, st) = nw_fib_processing dest_ip st in
      if fib_dest_ip = 0 then nw_discard_frame st
      else nw_arp_processing e fib_dest_ip frame_buff_size st)"

end
