(* ===== verification/Sync_Master.thy ===== *)
theory Sync_Master
  imports Nw_Routing
begin

text \<open>
  The sending side of the synchronisation of connections, \<^verbatim>\<open>src/dp/alvs_state_sync_master.h\<close>: the
  layout of a synchronisation message, the single message sent when a connection changes, and the
  aggregation of the connections the aging scan meets into frames of several buffers.

  A message is an Ethernet header (14 bytes), an IPv4 and a UDP header (20 and 8), a synchronisation
  header (8) and one block of 36 bytes for each connection.  All positions are offsets in \<open>frame_data\<close>.
  A failed assertion stops the thread (\<open>blocked\<close>).
\<close>

subsection \<open>Layout of a message\<close>

definition ETHER_HEADER_SIZE :: nat where "ETHER_HEADER_SIZE = 14"
definition IPHDR_SIZE :: nat where "IPHDR_SIZE = 20"
definition UDPHDR_SIZE :: nat where "UDPHDR_SIZE = 8"
definition NET_HDR_SIZE :: nat where "NET_HDR_SIZE = IPHDR_SIZE + UDPHDR_SIZE"
definition SYNC_HEADER_SIZE :: nat where "SYNC_HEADER_SIZE = 8"
definition SYNC_CONN_SIZE :: nat where "SYNC_CONN_SIZE = 36"
definition ALVS_TIMER_INTERVAL_SEC :: u32 where "ALVS_TIMER_INTERVAL_SEC = 16"
definition ALVS_STATE_SYNC_DST_MAC :: "u8 list" where
  "ALVS_STATE_SYNC_DST_MAC = [0x01, 0x00, 0x5e, 0x00, 0x00, 0x51]"

lemmas sync_size_defs = ETHER_HEADER_SIZE_def IPHDR_SIZE_def UDPHDR_SIZE_def NET_HDR_SIZE_def
  SYNC_HEADER_SIZE_def SYNC_CONN_SIZE_def ALVS_STATE_SYNC_HEADROOM_def ALVS_STATE_SYNC_BUFFERS_LIMIT_def

record alvs_state_sync_header =
  ssh_reserved :: u8
  ssh_syncid :: u8
  ssh_size :: u16
  ssh_conn_count :: u8
  ssh_version :: u8
  ssh_spare :: u16

record alvs_state_sync_conn =
  ssc_type :: u8
  ssc_protocol :: u8
  ssc_version :: "4 word"
  ssc_size :: "12 word"
  ssc_flags :: u32
  ssc_state :: u16
  ssc_client_port :: u16
  ssc_virtual_port :: u16
  ssc_server_port :: u16
  ssc_fwmark :: u32
  ssc_timeout :: u32
  ssc_client_addr :: in_addr_t
  ssc_virtual_addr :: in_addr_t
  ssc_server_addr :: in_addr_t

definition sync_conn_bytes :: "alvs_state_sync_conn \<Rightarrow> u8 list" where
  "sync_conn_bytes c =
     [ssc_type c, ssc_protocol c] @
     bytes16 (push_bit 12 (ucast (ssc_version c)) OR ucast (ssc_size c)) @
     bytes32 (ssc_flags c) @ bytes16 (ssc_state c) @
     bytes16 (ssc_client_port c) @ bytes16 (ssc_virtual_port c) @ bytes16 (ssc_server_port c) @
     bytes32 (ssc_fwmark c) @ bytes32 (ssc_timeout c) @
     bytes32 (ssc_client_addr c) @ bytes32 (ssc_virtual_addr c) @ bytes32 (ssc_server_addr c)"

definition sync_conn_of_bytes :: "u8 list \<Rightarrow> alvs_state_sync_conn" where
  "sync_conn_of_bytes bs =
     \<lparr>ssc_type = bs ! 0, ssc_protocol = bs ! 1,
      ssc_version = ucast (drop_bit 12 (u16_at bs 2)), ssc_size = ucast (u16_at bs 2),
      ssc_flags = u32_at bs 4, ssc_state = u16_at bs 8,
      ssc_client_port = u16_at bs 10, ssc_virtual_port = u16_at bs 12, ssc_server_port = u16_at bs 14,
      ssc_fwmark = u32_at bs 16, ssc_timeout = u32_at bs 20,
      ssc_client_addr = u32_at bs 24, ssc_virtual_addr = u32_at bs 28, ssc_server_addr = u32_at bs 32\<rparr>"

definition sync_header_of_bytes :: "u8 list \<Rightarrow> alvs_state_sync_header" where
  "sync_header_of_bytes bs =
     \<lparr>ssh_reserved = bs ! 0, ssh_syncid = bs ! 1, ssh_size = u16_at bs 2, ssh_conn_count = bs ! 4,
      ssh_version = bs ! 5, ssh_spare = u16_at bs 6\<rparr>"

subsection \<open>Headers\<close>

definition alvs_state_sync_update_net_hdr_len :: "dp_env \<Rightarrow> nat \<Rightarrow> dp_state \<Rightarrow> dp_state" where
  "alvs_state_sync_update_net_hdr_len e n st =
     (let ip = ETHER_HEADER_SIZE; udp = ip + IPHDR_SIZE;
          len = UDPHDR_SIZE + SYNC_HEADER_SIZE + n * SYNC_CONN_SIZE;
          st = write_data (udp + 4) (bytes16 (of_nat len)) st;
          st = write_data (ip + 2) (bytes16 (of_nat IPHDR_SIZE + of_nat len)) st
      in write_data (ip + 10) (bytes16 (ipv4_checksum e (bytes_at e st ip IPHDR_SIZE))) st)"

definition alvs_state_sync_set_net_hdr :: "dp_env \<Rightarrow> nat \<Rightarrow> in_addr_t \<Rightarrow> dp_state \<Rightarrow> dp_state" where
  "alvs_state_sync_set_net_hdr e n source_ip st =
     (let ip = ETHER_HEADER_SIZE; udp = ip + IPHDR_SIZE;
          st = write_data udp (bytes16 ALVS_STATE_SYNC_DST_PORT @ bytes16 ALVS_STATE_SYNC_DST_PORT) st;
          st = write_data (udp + 6) (bytes16 0) st;
          st = write_data ip [0x45, 0] st;
          st = write_data (ip + 4) (bytes16 0 @ bytes16 0x4000 @ [1, ucast IPPROTO_UDP] @ bytes16 0 @
                 bytes32 source_ip @ bytes32 ALVS_STATE_SYNC_DST_IP) st
      in alvs_state_sync_update_net_hdr_len e n st)"

definition alvs_state_sync_set_eth_hdr :: "dp_env \<Rightarrow> dp_state \<Rightarrow> dp_state" where
  "alvs_state_sync_set_eth_hdr e st =
     (let (rc, st) = nw_interface_lookup e USER_BASE_LOGICAL_ID st in
      if rc \<noteq> 0 then st
      else let st = write_data 6 (nir_mac_address (interface_result st)) st;
               st = write_data 12 (bytes16 0x0800) st
           in write_data 0 ALVS_STATE_SYNC_DST_MAC st)"

text \<open>The byte \<open>reserved\<close> at the beginning of the header is not written.\<close>

definition alvs_state_sync_update_sync_hdr_len :: "nat \<Rightarrow> dp_state \<Rightarrow> dp_state" where
  "alvs_state_sync_update_sync_hdr_len n st =
     (let hdr = ETHER_HEADER_SIZE + NET_HDR_SIZE in
      write_data (hdr + 4) [of_nat n]
        (write_data (hdr + 2) (bytes16 (of_nat (SYNC_HEADER_SIZE + n * SYNC_CONN_SIZE))) st))"

definition alvs_state_sync_set_sync_hdr :: "nat \<Rightarrow> u8 \<Rightarrow> dp_state \<Rightarrow> dp_state" where
  "alvs_state_sync_set_sync_hdr n sync_id st =
     (let hdr = ETHER_HEADER_SIZE + NET_HDR_SIZE;
          st = write_data (hdr + 1) [sync_id] st;
          st = write_data (hdr + 5) [ALVS_STATE_SYNC_PROTO_VER] st;
          st = write_data (hdr + 6) (bytes16 0) st
      in alvs_state_sync_update_sync_hdr_len n st)"

subsection \<open>Connections\<close>

definition current_sync_conn :: "dp_state \<Rightarrow> alvs_state_sync_conn" where
  "current_sync_conn st =
     (let c = conn_info_result st; key = cir_conn_class_key c; s = server_info_result st in
      \<lparr>ssc_type = 0, ssc_protocol = ucast (cck_protocol key),
       ssc_version = 0, ssc_size = of_nat SYNC_CONN_SIZE,
       ssc_flags = cir_conn_flags c, ssc_state = ucast (cir_conn_state c),
       ssc_client_port = cck_client_port key, ssc_virtual_port = cck_virtual_port key,
       ssc_server_port = (if cir_bound c then svr_server_port s else cir_server_port c),
       ssc_fwmark = 0,
       ssc_timeout = alvs_util_get_conn_iterations (ucast (cir_conn_state c)) * ALVS_TIMER_INTERVAL_SEC,
       ssc_client_addr = cck_client_ip key, ssc_virtual_addr = cck_virtual_ip key,
       ssc_server_addr = (if cir_bound c then svr_server_ip s else cir_server_word c)\<rparr>)"

definition alvs_state_sync_set_sync_conn :: "nat \<Rightarrow> dp_state \<Rightarrow> dp_state" where
  "alvs_state_sync_set_sync_conn off st = write_data off (sync_conn_bytes (current_sync_conn st)) st"

definition alvs_state_sync_first :: "dp_env \<Rightarrow> in_addr_t \<Rightarrow> u8 \<Rightarrow> dp_state \<Rightarrow> dp_state" where
  "alvs_state_sync_first e source_ip sync_id st =
     (let hdr = ETHER_HEADER_SIZE + NET_HDR_SIZE;
          conn = hdr + SYNC_HEADER_SIZE;
          st = conn_sync_state_update (\<lambda>s. s\<lparr>amount_buffers := 1, conn_count := 1,
                 current_base := conn + SYNC_CONN_SIZE, current_len := of_nat (conn + SYNC_CONN_SIZE)\<rparr>) st;
          st = alvs_state_sync_set_eth_hdr e st;
          st = alvs_state_sync_set_net_hdr e 1 source_ip st;
          st = alvs_state_sync_set_sync_hdr 1 sync_id st
      in alvs_state_sync_set_sync_conn conn st)"

definition alvs_state_sync_send_single :: "dp_env \<Rightarrow> in_addr_t \<Rightarrow> u8 \<Rightarrow> dp_state \<Rightarrow> dp_state" where
  "alvs_state_sync_send_single e source_ip sync_id st =
     (let st = alvs_state_sync_first e source_ip sync_id st;
          len = unat (current_len (conn_sync_state st))
      in if \<not> int len \<le> int (EZFRAME_BUF_DATA_SIZE e) - int ALVS_STATE_SYNC_HEADROOM then st\<lparr>blocked := True\<rparr>
         else let (rc, st) = ezframe_new e len st in
           if rc \<noteq> 0 then st else nw_send_frame_to_network e USER_BASE_LOGICAL_ID st)"

subsection \<open>Aggregation\<close>

definition alvs_state_sync_add_buffer :: "dp_env \<Rightarrow> dp_state \<Rightarrow> u32 \<times> dp_state" where
  "alvs_state_sync_add_buffer e st =
     (let s = conn_sync_state st in
      if \<not> (0 < amount_buffers s \<and> unat (amount_buffers s) \<le> ALVS_STATE_SYNC_BUFFERS_LIMIT)
      then (EIO, st\<lparr>blocked := True\<rparr>)
      else
        let (rc, st) =
          (if amount_buffers s = 1
           then ezframe_new e (unat (current_len s) - ALVS_STATE_SYNC_HEADROOM) st
           else let (rc, st) = ezframe_append_buf e (unat (current_len s)) st
                in (rc, if rc \<noteq> 0 then ezframe_free st else st));
          st = conn_sync_state_update (\<lambda>s.
            (if rc = 0 then s\<lparr>amount_buffers := amount_buffers s + 1\<rparr>
             else s\<lparr>amount_buffers := 0, conn_count := 0\<rparr>)\<lparr>current_base := 0, current_len := 0\<rparr>) st
        in (rc, st))"

definition alvs_state_sync_send_aggr :: "dp_env \<Rightarrow> dp_state \<Rightarrow> dp_state" where
  "alvs_state_sync_send_aggr e st =
     (if amount_buffers (conn_sync_state st) = 0 then st
      else
        let (rc, st) = (if current_len (conn_sync_state st) > 0 then alvs_state_sync_add_buffer e st else (0, st)) in
        if rc \<noteq> 0 then st
        else
          let (rc, st) = (if amount_buffers (conn_sync_state st) > 1 then ezframe_first_buf e st else (0, st)) in
          if rc \<noteq> 0 then ezframe_free st
          else
            let n = unat (conn_count (conn_sync_state st));
                st = (if n > 1 then
                        let (b, st) = ezframe_load_buf st;
                            st = alvs_state_sync_update_net_hdr_len e n st;
                            st = alvs_state_sync_update_sync_hdr_len n st
                        in ezframe_store_buf (take (length b) (frame_data st)) st
                      else st)
            in nw_send_frame_to_network e USER_BASE_LOGICAL_ID st)"

definition sync_new_frame :: "dp_env \<Rightarrow> in_addr_t \<Rightarrow> u8 \<Rightarrow> dp_state \<Rightarrow> dp_state" where
  "sync_new_frame e source_ip sync_id st =
     conn_sync_state_update (\<lambda>s. s\<lparr>current_len := current_len s + of_nat ALVS_STATE_SYNC_HEADROOM\<rparr>)
       (alvs_state_sync_first e source_ip sync_id st)"

definition sync_add_conn :: "dp_state \<Rightarrow> dp_state" where
  "sync_add_conn st =
     conn_sync_state_update (\<lambda>s. s\<lparr>current_base := current_base s + SYNC_CONN_SIZE,
         current_len := current_len s + of_nat SYNC_CONN_SIZE, conn_count := conn_count s + 1\<rparr>)
       (alvs_state_sync_set_sync_conn (current_base (conn_sync_state st)) st)"

definition alvs_state_sync_aggr :: "dp_env \<Rightarrow> in_addr_t \<Rightarrow> u8 \<Rightarrow> dp_state \<Rightarrow> dp_state" where
  "alvs_state_sync_aggr e source_ip sync_id st =
     (let (rc, st) = (if cir_bound (conn_info_result st)
                      then alvs_server_info_lookup e (cir_server_word (conn_info_result st)) st else (0, st)) in
      if rc \<noteq> 0 then st
      else
        let s = conn_sync_state st in
        if amount_buffers s = 0 then sync_new_frame e source_ip sync_id st
        else if unat (current_len s) + SYNC_CONN_SIZE > EZFRAME_BUF_DATA_SIZE e then
          if unat (amount_buffers s) = ALVS_STATE_SYNC_BUFFERS_LIMIT
          then sync_new_frame e source_ip sync_id (alvs_state_sync_send_aggr e st)
          else let (rc, st) = alvs_state_sync_add_buffer e st
               in if rc \<noteq> 0 then st else sync_add_conn st
        else sync_add_conn st)"

end
