(* ===== verification/Dp_Conn.thy ===== *)
theory Dp_Conn
  imports Sync_Master
begin

text \<open>
  Connections, \<^verbatim>\<open>src/dp/alvs_conn.h\<close>, the creation of connections for a service,
  \<^verbatim>\<open>src/dp/alvs_service.h\<close>, and the slow path of \<^verbatim>\<open>src/dp/alvs_packet_processing.h\<close>.

  Every change of a connection is made under the spin lock of its key.  What other threads did before
  the lock was granted is visible after it: \<open>ezdp_lock_spinlock\<close> applies \<open>others\<close> to the shared
  memory, and the second lookup of each operation sees the result.  Between the lock and the unlock
  the entries of the connection belong to the thread.
\<close>

subsection \<open>Headers of a packet\<close>

record iphdr =
  iph_ihl :: u8
  iph_protocol :: u8
  iph_saddr :: in_addr_t
  iph_daddr :: in_addr_t

record tcphdr =
  tcp_source :: u16
  tcp_dest :: u16
  tcp_fin :: bool
  tcp_rst :: bool

subsection \<open>Connection entries\<close>

definition alvs_conn_info_lookup :: "dp_env \<Rightarrow> u32 \<Rightarrow> dp_state \<Rightarrow> u32 \<times> dp_state" where
  "alvs_conn_info_lookup e conn_index st =
     (case ezdp_lookup e (conn_info (sh st) conn_index) st of
        Inl rc \<Rightarrow> (rc, dp_tick st)
      | Inr r \<Rightarrow> (0, (dp_tick st)\<lparr>conn_info_result := r\<rparr>))"

text \<open>The entry a new connection gets; \<open>conn_state\<close> is as wide as the parameter of the function and
  is stored in eight bits.\<close>

definition new_conn_info :: "alvs_conn_classification_key \<Rightarrow> bool \<Rightarrow> u32 \<Rightarrow> u16 \<Rightarrow> u32 \<Rightarrow> u32 \<Rightarrow> bool \<Rightarrow>
    alvs_conn_info_result" where
  "new_conn_info key bound server port conn_state flags reset =
     \<lparr>cir_reset_bit = reset, cir_delete_bit = reset, cir_aging_bit = True, cir_bound = bound,
      cir_server_port = port, cir_server_word = server, cir_conn_class_key = key,
      cir_conn_state = ucast conn_state, cir_age_iteration = 0,
      cir_conn_flags = (if conn_state = ucast IP_VS_TCP_S_ESTABLISHED
        then flags AND NOT IP_VS_CONN_F_INACTIVE else flags OR IP_VS_CONN_F_INACTIVE)\<rparr>"

definition new_conn_statistics :: "bool \<Rightarrow> u32 \<Rightarrow> dp_state \<Rightarrow> dp_state" where
  "new_conn_statistics bound conn_state st =
     (if conn_state = ucast IP_VS_TCP_S_ESTABLISHED
      then if bound then alvs_update_connection_statistics 1 1 0 st else st
      else if bound then alvs_update_connection_statistics 1 0 1 st else st)"

definition alvs_conn_create_new_entry :: "dp_env \<Rightarrow> bool \<Rightarrow> u32 \<Rightarrow> u16 \<Rightarrow> u32 \<Rightarrow> u32 \<Rightarrow> bool \<Rightarrow> dp_state \<Rightarrow>
    alvs_service_output_result \<times> dp_state" where
  "alvs_conn_create_new_entry e bound server port conn_state flags reset st =
     (let (conn_index, st) = ezdp_alloc_index e st in
      if conn_index = EZDP_NULL_INDEX e then
        (ALVS_SERVICE_DATA_PATH_IGNORE,
         alvs_discard_and_stats e ALVS_ERROR_CONN_INDEX_ALLOC_FAIL (alvs_server_overload_on_delete_conn st))
      else
        let st = st\<lparr>conn_info_result := new_conn_info (conn_class_key st) bound server port conn_state flags reset\<rparr>;
            st = ezdp_add_conn_info e conn_index st;
            st = st\<lparr>conn_result := \<lparr>ccr_conn_index = conn_index\<rparr>\<rparr>;
            (rc, st) = ezdp_add_conn_class e (conn_class_key st) (conn_result st) st
        in if rc \<noteq> 0 then
             let (_, st) = ezdp_delete_conn_info e conn_index st;
                 st = alvs_server_overload_on_delete_conn st;
                 st = ezdp_free_index conn_index st
             in (ALVS_SERVICE_DATA_PATH_IGNORE, alvs_discard_and_stats e ALVS_ERROR_CONN_CLASS_ALLOC_FAIL st)
           else
             (ALVS_SERVICE_DATA_PATH_SUCCESS, new_conn_statistics bound conn_state st))"

definition alvs_conn_update_state :: "dp_env \<Rightarrow> u32 \<Rightarrow> alvs_tcp_conn_state \<Rightarrow> dp_state \<Rightarrow> u32 \<times> dp_state" where
  "alvs_conn_update_state e conn_index new_state st =
     (let (hash_value, st) = alvs_lock_connection e st;
          (rc, st) = alvs_conn_info_lookup e conn_index st
      in if rc \<noteq> 0 then (rc, alvs_unlock_connection hash_value st)
         else if cir_conn_state (conn_info_result st) = new_state \<or> cir_delete_bit (conn_info_result st)
         then (rc, alvs_unlock_connection hash_value st)
         else
           let st = alvs_update_connection_statistics 0 (- 1) 1 st;
               st = conn_info_result_update (\<lambda>c. c\<lparr>cir_delete_bit := False, cir_aging_bit := True,
                      cir_conn_state := new_state,
                      cir_conn_flags := cir_conn_flags c OR IP_VS_CONN_F_INACTIVE\<rparr>) st;
               (rc, st) = ezdp_modify_conn_info e conn_index st;
               st = conn_sync_state_update (conn_sync_status_update (\<lambda>_. ALVS_CONN_SYNC_NEED)) st
           in (rc, alvs_unlock_connection hash_value st))"

definition alvs_conn_mark_to_delete :: "dp_env \<Rightarrow> u32 \<Rightarrow> bool \<Rightarrow> dp_state \<Rightarrow> u32 \<times> dp_state" where
  "alvs_conn_mark_to_delete e conn_index reset st =
     (let (hash_value, st) = alvs_lock_connection e st;
          (rc, st) = alvs_conn_info_lookup e conn_index st
      in if rc \<noteq> 0 then (rc, alvs_unlock_connection hash_value st)
         else if cir_delete_bit (conn_info_result st) then (rc, alvs_unlock_connection hash_value st)
         else
           let st = conn_info_result_update (\<lambda>c. c\<lparr>cir_aging_bit := False, cir_delete_bit := True,
                      cir_reset_bit := reset\<rparr>) st;
               st = (if reset \<and> cir_conn_state (conn_info_result st) = IP_VS_TCP_S_ESTABLISHED then
                       conn_info_result_update (\<lambda>c. c\<lparr>cir_conn_flags := cir_conn_flags c OR IP_VS_CONN_F_INACTIVE\<rparr>)
                         (alvs_update_connection_statistics 0 (- 1) 1
                           (conn_info_result_update (\<lambda>c. c\<lparr>cir_conn_state := IP_VS_TCP_S_CLOSE_WAIT\<rparr>) st))
                     else st);
               (rc, st) = ezdp_modify_conn_info e conn_index st
           in (rc, alvs_unlock_connection hash_value st))"

definition alvs_conn_delete_without_lock :: "dp_env \<Rightarrow> u32 \<Rightarrow> dp_state \<Rightarrow> dp_state" where
  "alvs_conn_delete_without_lock e conn_index st =
     (let (rc, st) = ezdp_delete_conn_class e (cir_conn_class_key (conn_info_result st)) st in
      if rc \<noteq> 0 then st
      else let (rc, st) = ezdp_delete_conn_info e conn_index st in
        if rc \<noteq> 0 then st
        else
          let (rc, st) = alvs_server_info_lookup e (cir_server_word (conn_info_result st)) st;
              st = (if rc = 0 then
                      alvs_server_overload_on_delete_conn
                        (if cir_conn_state (conn_info_result st) = IP_VS_TCP_S_ESTABLISHED
                         then alvs_update_connection_statistics 0 (- 1) 0 st
                         else alvs_update_connection_statistics 0 0 (- 1) st)
                    else st)
          in ezdp_free_index conn_index st)"

definition alvs_conn_delete :: "dp_env \<Rightarrow> u32 \<Rightarrow> dp_state \<Rightarrow> dp_state" where
  "alvs_conn_delete e conn_index st =
     (let (hash_value, st) = alvs_lock_connection e st;
          st = alvs_conn_delete_without_lock e conn_index st
      in alvs_unlock_connection hash_value st)"

definition alvs_conn_refresh :: "dp_env \<Rightarrow> u32 \<Rightarrow> dp_state \<Rightarrow> u32 \<times> dp_state" where
  "alvs_conn_refresh e conn_index st =
     (let (hash_value, st) = alvs_lock_connection e st;
          (rc, st) = alvs_conn_info_lookup e conn_index st
      in if rc \<noteq> 0 then (rc, alvs_unlock_connection hash_value st)
         else
           let st = conn_info_result_update (\<lambda>c. c\<lparr>cir_aging_bit := True, cir_delete_bit := False\<rparr>) st;
               (rc, st) = ezdp_modify_conn_info e conn_index st
           in (rc, alvs_unlock_connection hash_value st))"

text \<open>The early return for a connection that is bound already keeps the lock, as the source does.\<close>

definition alvs_conn_bind :: "dp_env \<Rightarrow> u32 \<Rightarrow> u32 \<Rightarrow> dp_state \<Rightarrow> u32 \<times> dp_state" where
  "alvs_conn_bind e conn_index server_index st =
     (let (hash_value, st) = alvs_lock_connection e st;
          (rc, st) = alvs_conn_info_lookup e conn_index st
      in if rc \<noteq> 0 then (rc, alvs_unlock_connection hash_value st)
         else if cir_bound (conn_info_result st) then (0, st)
         else
           let st = conn_info_result_update (\<lambda>c. c\<lparr>cir_server_word := server_index, cir_bound := True\<rparr>) st;
               (rc, st) = ezdp_modify_conn_info e conn_index st
           in (rc, alvs_unlock_connection hash_value st))"

definition alvs_conn_age_out :: "dp_env \<Rightarrow> u32 \<Rightarrow> u8 \<Rightarrow> dp_state \<Rightarrow> u32 \<times> dp_state" where
  "alvs_conn_age_out e conn_index iteration_num st =
     (let (hash_value, st) = alvs_lock_connection e st;
          (rc, st) = alvs_conn_info_lookup e conn_index st
      in if rc \<noteq> 0 then (rc, alvs_unlock_connection hash_value st)
         else
           let st = conn_info_result_update (\<lambda>c. c\<lparr>cir_aging_bit := False,
                      cir_age_iteration := ucast (ezdp_mod e (ucast iteration_num)
                        (alvs_util_get_conn_iterations (ucast (cir_conn_state c))) 0)\<rparr>) st;
               (rc, st) = ezdp_modify_conn_info e conn_index st
           in (rc, alvs_unlock_connection hash_value st))"

subsection \<open>Fast path\<close>

definition frame_buf_len :: "dp_state \<Rightarrow> nat" where
  "frame_buf_len st =
     (if fr_pos (frame st) < length (fr_bufs (frame st)) then length (fr_bufs (frame st) ! fr_pos (frame st)) else 0)"

definition send_conn_sync :: "dp_env \<Rightarrow> dp_state \<Rightarrow> dp_state" where
  "send_conn_sync e st =
     (if conn_sync_status (conn_sync_state st) = ALVS_CONN_SYNC_NEED then
        let (res, st) = alvs_util_app_info_lookup e st in
        case res of
          Inl rc \<Rightarrow> st
        | Inr app \<Rightarrow> if air_master_bit app
            then alvs_state_sync_send_single e (air_source_ip app) (air_m_sync_id app) st else st
      else st)"

definition alvs_conn_do_route :: "dp_env \<Rightarrow> dp_state \<Rightarrow> dp_state" where
  "alvs_conn_do_route e st =
     (if svr_conn_flags (server_info_result st) AND IP_VS_CONN_F_FWD_MASK = IP_VS_CONN_F_DROUTE then
        let dest_ip = (if cir_bound (conn_info_result st) then svr_server_ip (server_info_result st)
                       else cir_server_word (conn_info_result st));
            st = nw_do_route e dest_ip (frame_buf_len st) st;
            st = alvs_update_incoming_traffic_stats st
        in send_conn_sync e st
      else alvs_discard_and_stats e ALVS_ERROR_UNSUPPORTED_ROUTING_ALGO st)"

definition try_bind :: "dp_env \<Rightarrow> u32 \<Rightarrow> dp_state \<Rightarrow> dp_state" where
  "try_bind e conn_index st =
     (if cir_bound (conn_info_result st) then st
      else
        let key = conn_class_key st;
            (found, st) = alvs_find_server_index e (cir_server_word (conn_info_result st)) (cck_virtual_ip key)
              (cir_server_port (conn_info_result st)) (cck_virtual_port key) (cck_protocol key) st
        in case found of
             None \<Rightarrow> st
           | Some server_index \<Rightarrow> snd (alvs_conn_bind e conn_index server_index st))"

text \<open>The check of the server of a bound connection: \<open>False\<close> when the frame has been disposed of.\<close>

definition check_bound_server :: "dp_env \<Rightarrow> u32 \<Rightarrow> dp_state \<Rightarrow> bool \<times> dp_state" where
  "check_bound_server e conn_index st =
     (if cir_bound (conn_info_result st) then
        let (rc, st) = alvs_server_info_lookup e (cir_server_word (conn_info_result st)) st in
        if rc \<noteq> 0 then (False, alvs_discard_and_stats e ALVS_ERROR_SERVER_INFO_LKUP_FAIL st)
        else if ucast (svr_server_flags (server_info_result st)) AND IP_VS_DEST_F_AVAILABLE = 0 then
          let (rc, st) = alvs_conn_mark_to_delete e conn_index False st in
          if rc \<noteq> 0 then (False, alvs_discard_and_stats e ALVS_ERROR_CANT_MARK_DELETE st)
          else (False, alvs_discard_and_stats e ALVS_ERROR_DEST_SERVER_IS_NOT_AVAIL st)
        else (True, st)
      else (True, st))"

text \<open>The change of state a packet causes: \<open>False\<close> when the frame has been disposed of.\<close>

definition check_conn_state :: "dp_env \<Rightarrow> tcphdr \<Rightarrow> u32 \<Rightarrow> dp_state \<Rightarrow> bool \<times> dp_state" where
  "check_conn_state e tcp_hdr conn_index st =
     (if tcp_rst tcp_hdr then (True, snd (alvs_conn_mark_to_delete e conn_index True st))
      else if cir_conn_state (conn_info_result st) = IP_VS_TCP_S_ESTABLISHED \<and> tcp_fin tcp_hdr then
        let (rc, st) = alvs_conn_update_state e conn_index IP_VS_TCP_S_CLOSE_WAIT st in
        if rc \<noteq> 0 then (False, alvs_discard_and_stats e ALVS_ERROR_CANT_UPDATE_CONNECTION_STATE st)
        else (True, st)
      else if \<not> cir_aging_bit (conn_info_result st) then
        let (rc, st) = alvs_conn_refresh e conn_index st in
        if rc \<noteq> 0 then (False, alvs_discard_and_stats e ALVS_ERROR_CANT_UPDATE_CONNECTION_STATE st)
        else (True, st)
      else (True, st))"

definition alvs_conn_data_path :: "dp_env \<Rightarrow> tcphdr \<Rightarrow> u32 \<Rightarrow> dp_state \<Rightarrow> dp_state" where
  "alvs_conn_data_path e tcp_hdr conn_index st =
     (let (rc, st) = alvs_conn_info_lookup e conn_index st in
      if rc = 0 then
        let st = try_bind e conn_index st in
        if cir_reset_bit (conn_info_result st) then alvs_discard_and_stats e ALVS_ERROR_CONN_MARK_TO_DELETE st
        else
          let (go_on, st) = check_bound_server e conn_index st in
          if \<not> go_on then st
          else
            let (go_on, st) = check_conn_state e tcp_hdr conn_index st in
            if \<not> go_on then st else alvs_conn_do_route e st
      else alvs_discard_and_stats e ALVS_ERROR_CONN_INFO_LKUP_FAIL st)"

subsection \<open>Slow path\<close>

definition alvs_service_info_lookup :: "dp_env \<Rightarrow> u8 \<Rightarrow> dp_state \<Rightarrow> u32 \<times> dp_state" where
  "alvs_service_info_lookup e service_index st =
     (case ezdp_lookup e (service_info (sh st) service_index) st of
        Inl rc \<Rightarrow> (rc, dp_tick st)
      | Inr r \<Rightarrow> (0, (dp_tick st)\<lparr>service_info_result := r\<rparr>))"

definition schedule_connection :: "dp_env \<Rightarrow> u8 \<Rightarrow> iphdr \<Rightarrow> tcphdr \<Rightarrow> dp_state \<Rightarrow> bool \<times> dp_state" where
  "schedule_connection e service_index ip_hdr tcp_hdr st =
     (case sir_sched_alg (service_info_result st) of
        ALVS_SOURCE_HASH_SCHEDULER \<Rightarrow>
          alvs_sched_sh_schedule_connection e service_index (iph_saddr ip_hdr) (tcp_source tcp_hdr) st
      | ALVS_ROUND_ROBIN_SCHEDULER \<Rightarrow> alvs_sched_rr_schedule_connection e service_index st
      | ALVS_WEIGHTED_ROUND_ROBIN_SCHEDULER \<Rightarrow> alvs_sched_rr_schedule_connection e service_index st
      | _ \<Rightarrow> (False, alvs_discard_and_stats e ALVS_ERROR_UNSUPPORTED_SCHED_ALGO st))"

definition create_scheduled_connection :: "dp_env \<Rightarrow> tcphdr \<Rightarrow> dp_state \<Rightarrow>
    alvs_service_output_result \<times> dp_state" where
  "create_scheduled_connection e tcp_hdr st =
     (let (result, st) = alvs_conn_create_new_entry e True (schr_server_index (sched_info_result st)) 0
        (if tcp_fin tcp_hdr \<or> tcp_rst tcp_hdr then ucast IP_VS_TCP_S_CLOSE_WAIT else ucast IP_VS_TCP_S_ESTABLISHED)
        (svr_conn_flags (server_info_result st)) (tcp_rst tcp_hdr) st
      in (result, if result = ALVS_SERVICE_DATA_PATH_SUCCESS
                  then conn_sync_state_update (conn_sync_status_update (\<lambda>_. ALVS_CONN_SYNC_NEED)) st else st))"

definition alvs_tcp_schedule_new_connection :: "dp_env \<Rightarrow> u8 \<Rightarrow> iphdr \<Rightarrow> tcphdr \<Rightarrow> dp_state \<Rightarrow>
    alvs_service_output_result \<times> dp_state" where
  "alvs_tcp_schedule_new_connection e service_index ip_hdr tcp_hdr st =
     (let (active, st) = alvs_sched_check_active_servers e st in
      if \<not> active then (ALVS_SERVICE_DATA_PATH_IGNORE, st)
      else
        let (hash_value, st) = alvs_lock_connection e st;
            found = ezdp_lookup e (conn_class (sh st) (conn_class_key st)) st;
            st = dp_tick st;
            (result, st) =
              (case found of
                 Inr r \<Rightarrow> (ALVS_SERVICE_DATA_PATH_RETRY, st\<lparr>conn_result := r\<rparr>)
               | Inl rc \<Rightarrow>
                   if rc = EIO
                   then (ALVS_SERVICE_DATA_PATH_IGNORE, alvs_discard_and_stats e ALVS_ERROR_CREATE_CONN_MEM_ERROR st)
                   else
                     let (scheduled, st) = schedule_connection e service_index ip_hdr tcp_hdr st in
                     if \<not> scheduled then (ALVS_SERVICE_DATA_PATH_IGNORE, st)
                     else create_scheduled_connection e tcp_hdr st)
        in (result, alvs_unlock_connection hash_value st))"

definition alvs_service_data_path :: "dp_env \<Rightarrow> u8 \<Rightarrow> iphdr \<Rightarrow> tcphdr \<Rightarrow> dp_state \<Rightarrow>
    alvs_service_output_result \<times> dp_state" where
  "alvs_service_data_path e service_index ip_hdr tcp_hdr st =
     (let (rc, st) = alvs_service_info_lookup e service_index st in
      if rc = 0 then
        if ucast (iph_protocol ip_hdr) = IPPROTO_TCP
        then alvs_tcp_schedule_new_connection e service_index ip_hdr tcp_hdr st
        else (ALVS_SERVICE_DATA_PATH_IGNORE, alvs_discard_and_stats e ALVS_ERROR_UNSUPPORTED_PROTOCOL st)
      else (ALVS_SERVICE_DATA_PATH_IGNORE, alvs_discard_and_stats e ALVS_ERROR_SERVICE_INFO_LOOKUP st))"

definition alvs_unknown_packet_processing :: "dp_env \<Rightarrow> iphdr \<Rightarrow> tcphdr \<Rightarrow> dp_state \<Rightarrow> dp_state" where
  "alvs_unknown_packet_processing e ip_hdr tcp_hdr st =
     (let key = \<lparr>sck_address = iph_daddr ip_hdr, sck_port = tcp_dest tcp_hdr,
                 sck_protocol = ucast (iph_protocol ip_hdr)\<rparr> in
      case ezdp_lookup e (service_class (sh st) key) st of
        Inr r \<Rightarrow>
          (let (res, st) = alvs_service_data_path e (scr_service_index r) ip_hdr tcp_hdr (dp_tick st) in
           case res of
             ALVS_SERVICE_DATA_PATH_SUCCESS \<Rightarrow> alvs_conn_do_route e st
           | ALVS_SERVICE_DATA_PATH_RETRY \<Rightarrow> alvs_conn_data_path e tcp_hdr (ccr_conn_index (conn_result st)) st
           | ALVS_SERVICE_DATA_PATH_IGNORE \<Rightarrow> st)
      | Inl rc \<Rightarrow>
          nw_host_do_route e (alvs_update_discard_statistics e ALVS_ERROR_SERVICE_CLASS_LOOKUP (dp_tick st)))"

definition tcp_conn_key :: "iphdr \<Rightarrow> tcphdr \<Rightarrow> alvs_conn_classification_key" where
  "tcp_conn_key ip_hdr tcp_hdr =
     \<lparr>cck_client_ip = iph_saddr ip_hdr, cck_virtual_ip = iph_daddr ip_hdr,
      cck_client_port = tcp_source tcp_hdr, cck_virtual_port = tcp_dest tcp_hdr,
      cck_protocol = ucast (iph_protocol ip_hdr)\<rparr>"

definition alvs_tcp_processing :: "dp_env \<Rightarrow> iphdr \<Rightarrow> tcphdr \<Rightarrow> dp_state \<Rightarrow> dp_state" where
  "alvs_tcp_processing e ip_hdr tcp_hdr st =
     (let st = st\<lparr>conn_class_key := tcp_conn_key ip_hdr tcp_hdr\<rparr> in
      case ezdp_lookup e (conn_class (sh st) (conn_class_key st)) st of
        Inr r \<Rightarrow> alvs_conn_data_path e tcp_hdr (ccr_conn_index r) (dp_tick st)
      | Inl rc \<Rightarrow> alvs_unknown_packet_processing e ip_hdr tcp_hdr (dp_tick st))"

end
