(* ===== verification/Sync_Backup.thy ===== *)
theory Sync_Backup
  imports Dp_Conn
begin

text \<open>
  The receiving side of the synchronisation of connections, \<^verbatim>\<open>src/dp/alvs_state_sync_backup.h\<close>: the
  processing of one connection of a message, and the reading of a message whose header and
  connections may be split over the buffers of the frame.
\<close>

subsection \<open>One connection\<close>

definition sync_conn_key :: "alvs_state_sync_conn \<Rightarrow> alvs_conn_classification_key" where
  "sync_conn_key conn =
     \<lparr>cck_client_ip = ssc_client_addr conn, cck_virtual_ip = ssc_virtual_addr conn,
      cck_client_port = ssc_client_port conn, cck_virtual_port = ssc_virtual_port conn,
      cck_protocol = ucast (ssc_protocol conn)\<rparr>"

datatype existing_conn = EC_Ignore int | EC_Update | EC_Create

text \<open>
  What becomes of the entry a message finds: it is to be updated, or it has been deleted because
  the connection moved to another server, or the message is ignored with the given result.
\<close>

definition sync_existing_conn :: "dp_env \<Rightarrow> alvs_state_sync_conn \<Rightarrow> u32 \<Rightarrow> dp_state \<Rightarrow> existing_conn \<times> dp_state" where
  "sync_existing_conn e conn conn_index st =
     (let (rc, st) = alvs_conn_info_lookup e conn_index st in
      if rc \<noteq> 0 then (EC_Ignore 1, st)
      else
        let c = conn_info_result st;
            (rc, st) = (if cir_bound c then alvs_server_info_lookup e (cir_server_word c) st else (0, st))
        in if rc \<noteq> 0 then (EC_Ignore 1, st)
           else
             let server_addr = (if cir_bound c then svr_server_ip (server_info_result st) else cir_server_word c);
                 server_port = (if cir_bound c then svr_server_port (server_info_result st) else cir_server_port c)
             in if ssc_server_port conn \<noteq> server_port \<or> ssc_server_addr conn \<noteq> server_addr then
                  if ssc_flags conn AND IP_VS_CONN_F_INACTIVE = 0
                  then (EC_Create, alvs_conn_delete_without_lock e conn_index st)
                  else (EC_Ignore 0, st)
                else (EC_Update, st))"

definition sync_update_conn :: "dp_env \<Rightarrow> alvs_state_sync_conn \<Rightarrow> u32 \<Rightarrow> u32 \<Rightarrow> dp_state \<Rightarrow> dp_state" where
  "sync_update_conn e conn flags conn_index st =
     (let c = conn_info_result st;
          st = (if (cir_conn_flags c XOR flags) AND IP_VS_CONN_F_INACTIVE \<noteq> 0 \<and> cir_bound c then
                  if flags AND IP_VS_CONN_F_INACTIVE \<noteq> 0
                  then alvs_update_connection_statistics 0 (- 1) 1 st
                  else alvs_update_connection_statistics 0 1 (- 1) st
                else st);
          st = (if \<not> cir_bound c then
                  let (found, st) = alvs_find_server_index e (ssc_server_addr conn) (ssc_virtual_addr conn)
                        (ssc_server_port conn) (ssc_virtual_port conn) (ucast (ssc_protocol conn)) st
                  in case found of
                       None \<Rightarrow> st
                     | Some server_index \<Rightarrow>
                         conn_info_result_update (\<lambda>c. c\<lparr>cir_server_word := server_index, cir_bound := True\<rparr>) st
                else st);
          st = conn_info_result_update (\<lambda>c. c\<lparr>
                 cir_conn_flags := (flags AND IP_VS_CONN_F_BACKUP_UPD_MASK) OR
                   (cir_conn_flags c AND NOT IP_VS_CONN_F_BACKUP_UPD_MASK),
                 cir_conn_state := ucast (ssc_state conn), cir_aging_bit := True, cir_age_iteration := 0\<rparr>) st
      in snd (ezdp_modify_conn_info e conn_index st))"

definition sync_create_conn :: "dp_env \<Rightarrow> alvs_state_sync_conn \<Rightarrow> u32 \<Rightarrow> dp_state \<Rightarrow> int \<times> dp_state" where
  "sync_create_conn e conn flags st =
     (let (found, st) = alvs_find_server_index e (ssc_server_addr conn) (ssc_virtual_addr conn)
            (ssc_server_port conn) (ssc_virtual_port conn) (ucast (ssc_protocol conn)) st
      in case found of
           Some server_index \<Rightarrow>
             (let (rc, st) = alvs_server_info_lookup e server_index st in
              if rc \<noteq> 0 then (sint rc, st)
              else let (res, st) = alvs_conn_create_new_entry e True server_index 0 (ucast (ssc_state conn)) flags False st
                   in (if res = ALVS_SERVICE_DATA_PATH_IGNORE then - 1 else 0, st))
         | None \<Rightarrow>
             (let (res, st) = alvs_conn_create_new_entry e False (ssc_server_addr conn) (ssc_server_port conn)
                    (ucast (ssc_state conn)) flags False st
              in (if res = ALVS_SERVICE_DATA_PATH_IGNORE then - 1 else 0, st)))"

definition sync_flags :: "alvs_state_sync_conn \<Rightarrow> u32" where
  "sync_flags conn = (ssc_flags conn AND IP_VS_CONN_F_BACKUP_MASK) OR IP_VS_CONN_F_SYNC"

text \<open>The part of the processing that runs under the lock of the connection.\<close>

definition sync_locked_conn :: "dp_env \<Rightarrow> alvs_state_sync_conn \<Rightarrow> dp_state \<Rightarrow> int \<times> dp_state" where
  "sync_locked_conn e conn st =
     (case ezdp_lookup e (conn_class (sh st) (conn_class_key st)) st of
        Inl rc \<Rightarrow> sync_create_conn e conn (sync_flags conn) (dp_tick st)
      | Inr r \<Rightarrow>
          (case sync_existing_conn e conn (ccr_conn_index r) (dp_tick st) of
             (EC_Ignore v, st) \<Rightarrow> (v, st)
           | (EC_Create, st) \<Rightarrow> sync_create_conn e conn (sync_flags conn) st
           | (EC_Update, st) \<Rightarrow> (0, sync_update_conn e conn (sync_flags conn) (ccr_conn_index r) st)))"

definition alvs_state_sync_process_conn :: "dp_env \<Rightarrow> alvs_state_sync_conn \<Rightarrow> dp_state \<Rightarrow> int \<times> dp_state" where
  "alvs_state_sync_process_conn e conn st =
     (if ssc_version conn \<noteq> 0 then (- 1, st)
      else if ssc_type conn \<noteq> 0 then (- 1, st)
      else if ucast (ssc_protocol conn) \<noteq> IPPROTO_TCP \<and> ucast (ssc_protocol conn) \<noteq> IPPROTO_UDP then (1, st)
      else
        let st = st\<lparr>conn_class_key := sync_conn_key conn\<rparr>;
            (hash_value, st) = alvs_lock_connection e st;
            (res, st) = sync_locked_conn e conn st
        in (res, alvs_unlock_connection hash_value st))"

subsection \<open>A message\<close>

text \<open>
  The two loops of the source that collect the bytes of a structure: as long as fewer than \<open>need\<close>
  bytes are at hand, the rest of the buffer is saved in \<open>tail\<close> and the next buffer is loaded.
  \<open>off\<close> and \<open>buflen\<close> are the position in the current buffer and the bytes left in it.
\<close>

function load_tail :: "dp_env \<Rightarrow> nat \<Rightarrow> nat \<Rightarrow> u32 \<Rightarrow> u8 list \<Rightarrow> dp_state \<Rightarrow> (nat \<times> u32 \<times> u8 list) option \<times> dp_state" where
  "load_tail e need off buflen tail st =
     (if unat (buflen + of_nat (length tail)) < need then
        let (rc, st') = ezframe_next_buf st in
        if rc \<noteq> 0 then (None, st')
        else let (b, st'') = ezframe_load_buf st'
             in load_tail e need 0 (of_nat (length b)) (tail @ bytes_at e st off (unat buflen)) st''
      else (Some (off, buflen, tail), st))"
  by pat_completeness auto
termination
  by (relation "measure (\<lambda>(e, need, off, buflen, tail, st). length (fr_bufs (frame st)) - fr_pos (frame st))")
    (auto simp: ezframe_next_buf_def ezframe_load_buf_def ENOENT_def Let_def split: if_splits)

declare load_tail.simps [simp del]

text \<open>The bytes of a structure of \<open>need\<close> bytes, with the position after it; \<open>None\<close> when the frame ends too early.\<close>

definition load_struct :: "dp_env \<Rightarrow> nat \<Rightarrow> nat \<Rightarrow> u32 \<Rightarrow> dp_state \<Rightarrow> (u8 list \<times> nat \<times> u32) option \<times> dp_state" where
  "load_struct e need off buflen st =
     (case load_tail e need off buflen [] st of
        (None, st) \<Rightarrow> (None, st)
      | (Some (off, buflen, tail), st) \<Rightarrow>
          (let size = need - length tail in
           (Some (tail @ bytes_at e st off size, off + size, buflen - of_nat size), st)))"

fun backup_conns :: "dp_env \<Rightarrow> nat \<Rightarrow> nat \<Rightarrow> u32 \<Rightarrow> dp_state \<Rightarrow> dp_state" where
  "backup_conns e 0 off buflen st = alvs_discard_frame st"
| "backup_conns e (Suc n) off buflen st =
     (case load_struct e SYNC_CONN_SIZE off buflen st of
        (None, st) \<Rightarrow> alvs_discard_and_stats e ALVS_ERROR_STATE_SYNC_BAD_BUFFER st
      | (Some (bs, off, buflen), st) \<Rightarrow>
          (let (rc, st) = alvs_state_sync_process_conn e (sync_conn_of_bytes bs) st in
           if rc < 0 then alvs_discard_and_stats e ALVS_ERROR_STATE_SYNC_DECODE_CONN st
           else backup_conns e n off buflen st))"

definition alvs_state_sync_backup :: "dp_env \<Rightarrow> nat \<Rightarrow> u32 \<Rightarrow> dp_state \<Rightarrow> dp_state" where
  "alvs_state_sync_backup e off buflen st =
     (let (res, st) = alvs_util_app_info_lookup e st in
      case res of
        Inl rc \<Rightarrow> alvs_discard_and_stats e ALVS_ERROR_STATE_SYNC_LOOKUP_FAIL st
      | Inr app \<Rightarrow>
          if \<not> air_backup_bit app then alvs_discard_and_stats e ALVS_ERROR_STATE_SYNC_BACKUP_DOWN st
          else
            (case load_struct e SYNC_HEADER_SIZE off buflen st of
               (None, st) \<Rightarrow> alvs_discard_and_stats e ALVS_ERROR_STATE_SYNC_BAD_HEADER_SIZE st
             | (Some (bs, off, buflen), st) \<Rightarrow>
                 (let hdr = sync_header_of_bytes bs in
                  if air_b_sync_id app \<noteq> 0 \<and> ssh_syncid hdr \<noteq> air_b_sync_id app
                  then alvs_discard_and_stats e ALVS_ERROR_STATE_SYNC_BACKUP_NOT_MY_SYNCID st
                  else if ssh_version hdr = ALVS_STATE_SYNC_PROTO_VER \<and> ssh_reserved hdr = 0 \<and> ssh_spare hdr = 0
                  then backup_conns e (unat (ssh_conn_count hdr)) off buflen st
                  else alvs_discard_and_stats e ALVS_ERROR_STATE_SYNC_BAD_MESSAGE_VERSION st)))"

end
