(* ===== verification/Dp_Example.thy ===== *)
theory Dp_Example
  imports Dp_State
begin

text \<open>
  A concrete environment and a concrete state of the data plane, on which the properties are shown to
  apply: the library never fails, no other thread interferes, the modulo and bit-counting operations
  are the arithmetic ones, a frame buffer has 256 bytes, and every table is empty.
\<close>

definition plain_env :: dp_env where
  "plain_env =
     \<lparr>lookup_rc = (\<lambda>_. 0), table_update_rc = (\<lambda>_. 0), hash_add_rc = (\<lambda>_. 0), hash_delete_rc = (\<lambda>_. 0), frame_rc = (\<lambda>_. 0),
      frame_valid_rc = (\<lambda>_. 0), pick_index = (\<lambda>_. 0), others = (\<lambda>_ s. s), EZDP_NULL_INDEX = - 1,
      EZDP_EXTERNAL_MS = 1, EZFRAME_BUF_DATA_SIZE = 256, stale_byte = (\<lambda>_. 0),
      ezdp_hash = (\<lambda>a b w size off perm. take_bit w (a XOR b)),
      ezdp_bulk_hash = (\<lambda>k. cck_client_ip k XOR ucast (cck_client_port k)),
      ezdp_mod = (\<lambda>x n k. drop_bit k x mod n),
      ezdp_count_bits = (\<lambda>w off size. of_nat (length (filter (bit w) [off..<off + size]))),
      ezdp_decode_mac = (\<lambda>bs. \<lparr>mdr_decode_error = False, mdr_my_mac = True, mdr_ipv4_multicast = False,
        mdr_ipv4 = True, mdr_layer2_size = 14\<rparr>),
      ezdp_decode_ipv4 = (\<lambda>bs len. \<lparr>idr_decode_error = False, idr_tcp = True, idr_udp = False\<rparr>),
      ipv4_checksum = (\<lambda>bs. 0)\<rparr>"

definition empty_shared :: dp_shared where
  "empty_shared =
     \<lparr>conn_class = (\<lambda>_. None), conn_info = (\<lambda>_. None), server_class = (\<lambda>_. None), server_info = (\<lambda>_. None),
      service_class = (\<lambda>_. None), service_info = (\<lambda>_. None), sched_info = (\<lambda>_. None), app_info = (\<lambda>_. None),
      interfaces = (\<lambda>_. None), arp = (\<lambda>_. None), fib = (\<lambda>_. None), conn_pool = [], posted_ctr = (\<lambda>_. 0),
      on_demand_ctr = (\<lambda>_. 0), mem32 = (\<lambda>_. 0)\<rparr>"

definition zero_key :: alvs_conn_classification_key where
  "zero_key = \<lparr>cck_client_ip = 0, cck_virtual_ip = 0, cck_client_port = 0, cck_virtual_port = 0, cck_protocol = 0\<rparr>"

definition zero_conn_info :: alvs_conn_info_result where
  "zero_conn_info =
     \<lparr>cir_reset_bit = False, cir_delete_bit = False, cir_aging_bit = False, cir_bound = False, cir_server_port = 0,
      cir_server_word = 0, cir_conn_class_key = zero_key, cir_conn_state = 0, cir_age_iteration = 0, cir_conn_flags = 0\<rparr>"

definition zero_server_info :: alvs_server_info_result where
  "zero_server_info =
     \<lparr>svr_server_flags = 0, svr_server_port = 0, svr_server_stats_base = 0, svr_server_ip = 0,
      svr_server_on_demand_stats_base = 0, svr_service_stats_base = 0, svr_u_thresh = 0, svr_l_thresh = 0,
      svr_conn_flags = 0, svr_server_flags_dp_base = 0\<rparr>"

definition zero_service_info :: alvs_service_info_result where
  "zero_service_info =
     \<lparr>sir_sched_alg = ALVS_ROUND_ROBIN_SCHEDULER, sir_sched_entries_count = 0, sir_service_sched_ctr = 0,
      sir_service_stats_base = 0, sir_service_flags = 0\<rparr>"

definition zero_if :: nw_if_result where
  "zero_if = \<lparr>nir_oper_status = False, nir_path_type = DP_PATH_FROM_NW_PATH, nir_is_vlan = False, nir_lag_id = 0,
     nir_default_vlan = 0, nir_mac_address = [0, 0, 0, 0, 0, 0], nir_output_channel = 0, nir_stats_base = 0\<rparr>"

definition idle_state :: dp_state where
  "idle_state =
     \<lparr>conn_class_key = zero_key, conn_info_result = zero_conn_info, server_info_result = zero_server_info,
      service_info_result = zero_service_info, sched_info_result = \<lparr>schr_server_index = 0\<rparr>,
      conn_result = \<lparr>ccr_conn_index = 0\<rparr>,
      conn_sync_state = \<lparr>conn_sync_status = ALVS_CONN_SYNC_NO_NEED, amount_buffers = 0, current_base = 0,
        current_len = 0, conn_count = 0\<rparr>,
      interface_result = zero_if, host_interface_result = zero_if, frame_data = replicate 256 0,
      frame = \<lparr>fr_live = False, fr_bufs = [], fr_pos = 0, fr_length = 0\<rparr>, tx = [], frame_faults = 0,
      held = [], blocked = False, dp_clock = 0, sh = empty_shared\<rparr>"

lemmas example_defs = plain_env_def empty_shared_def zero_key_def zero_conn_info_def zero_server_info_def
  zero_service_info_def zero_if_def idle_state_def

end
