(* ===== verification/Dp_Sched_Props.thy ===== *)
theory Dp_Sched_Props
  imports Dp_Sched Dp_Example
begin

text \<open>
  Properties of the choice of a server: the overload control on machine words implements an
  admission control on natural numbers, it never lets a server exceed its upper threshold, and both
  schedulers find a server whenever the scheduling table offers one.
\<close>

subsection \<open>Admission control\<close>

record admission =
  adm_conns :: nat
  adm_overloaded :: bool

text \<open>
  A new connection is refused when it would exceed the upper threshold \<open>u\<close>, or when the server is
  overloaded and the connections are above the lower threshold \<open>l\<close>; a server becomes overloaded when
  it reaches \<open>u\<close>.  A threshold of 0 is no threshold.
\<close>

definition server_admit :: "nat \<Rightarrow> nat \<Rightarrow> admission \<Rightarrow> bool \<times> admission" where
  "server_admit u l s =
     (let n = Suc (adm_conns s) in
      if u = 0 then (True, s\<lparr>adm_conns := n\<rparr>)
      else if n > u then (False, s\<lparr>adm_overloaded := True\<rparr>)
      else if n < u \<and> l \<noteq> 0 \<and> n \<le> l then (True, s\<lparr>adm_conns := n, adm_overloaded := False\<rparr>)
      else if adm_overloaded s then (False, s)
      else (True, s\<lparr>adm_conns := n, adm_overloaded := (n = u)\<rparr>))"

text \<open>
  When a connection ends, the overload ends below the lower threshold or, without one, below three
  quarters of the upper threshold.
\<close>

definition server_release :: "nat \<Rightarrow> nat \<Rightarrow> admission \<Rightarrow> admission" where
  "server_release u l s =
     (let n = adm_conns s - 1 in
      s\<lparr>adm_conns := n,
        adm_overloaded := adm_overloaded s \<and> \<not> (u = 0 \<or> (if l \<noteq> 0 then n < l else 4 * n < 3 * u))\<rparr>)"

definition server_admission :: "dp_state \<Rightarrow> admission" where
  "server_admission st =
     \<lparr>adm_conns = unat (on_demand_ctr (sh st) (conn_total_addr (server_info_result st))),
      adm_overloaded = (mem32 (sh st) (svr_server_flags_dp_base (server_info_result st)) AND IP_VS_DEST_F_OVERLOAD \<noteq> 0)\<rparr>"

lemma overload_bit_nonzero [simp]: "IP_VS_DEST_F_OVERLOAD \<noteq> 0"
  by (simp add: IP_VS_DEST_F_OVERLOAD_def)

lemma overload_bit [simp]:
  "(w OR IP_VS_DEST_F_OVERLOAD) AND IP_VS_DEST_F_OVERLOAD \<noteq> 0"
  "(w AND NOT IP_VS_DEST_F_OVERLOAD) AND IP_VS_DEST_F_OVERLOAD = 0"
  "IP_VS_DEST_F_OVERLOAD AND IP_VS_DEST_F_OVERLOAD \<noteq> 0"
proof -
  have "bit ((w OR IP_VS_DEST_F_OVERLOAD) AND IP_VS_DEST_F_OVERLOAD) 1"
    by (simp add: IP_VS_DEST_F_OVERLOAD_def bit_simps)
  then show "(w OR IP_VS_DEST_F_OVERLOAD) AND IP_VS_DEST_F_OVERLOAD \<noteq> 0" by (metis bit_0_eq bot_apply bot_bool_def)
  show "(w AND NOT IP_VS_DEST_F_OVERLOAD) AND IP_VS_DEST_F_OVERLOAD = 0"
    by (rule bit_word_eqI) (auto simp: bit_simps)
  show "IP_VS_DEST_F_OVERLOAD AND IP_VS_DEST_F_OVERLOAD \<noteq> 0" by (simp add: IP_VS_DEST_F_OVERLOAD_def)
qed

lemma unat_ucast_16_64: "unat (ucast (t :: u16) :: u64) = unat t"
  by (simp add: unsigned_ucast_eq take_bit_nat_eq_self_iff order.strict_trans [OF unat_u16_less])

definition lookups_ok :: "dp_env \<Rightarrow> bool" where
  "lookups_ok e \<longleftrightarrow> (\<forall>n. lookup_rc e n = 0)"

lemma ezdp_lookup_ok [simp]:
  "lookups_ok e \<Longrightarrow> ezdp_lookup e (Some v) st = Inr v"
  "lookups_ok e \<Longrightarrow> ezdp_lookup e None st = Inl ENOENT"
  by (simp_all add: lookups_ok_def ezdp_lookup_def)

lemma unat_ucast_16_32 [simp]: "unat (ucast (t :: u16) :: u32) = unat t"
  by (simp add: unsigned_ucast_eq take_bit_nat_eq_self_iff order.strict_trans [OF unat_u16_less])

lemma counter_word_compare:
  fixes c :: u64 and t :: u16
  assumes "unat c < 2 ^ 62"
  shows "unat (c + 1) = Suc (unat c)"
    and "c + 1 = ucast t \<longleftrightarrow> Suc (unat c) = unat t"
    and "ucast t < c + 1 \<longleftrightarrow> unat t < Suc (unat c)"
    and "c + 1 \<le> ucast t \<longleftrightarrow> Suc (unat c) \<le> unat t"
proof -
  show u: "unat (c + 1) = Suc (unat c)"
    using assms by (simp add: unat_plus_if_size word_size)
  have t: "unat (ucast t :: u64) = unat t" by (rule unat_ucast_16_64)
  show "c + 1 = ucast t \<longleftrightarrow> Suc (unat c) = unat t" by (metis u t word_unat_eq_iff)
  show "ucast t < c + 1 \<longleftrightarrow> unat t < Suc (unat c)" by (simp only: word_less_nat_alt u t)
  show "c + 1 \<le> ucast t \<longleftrightarrow> Suc (unat c) \<le> unat t" by (simp only: word_le_nat_alt u t)
qed

lemma counter_word_release:
  fixes c :: u64 and t :: u16
  assumes "unat c < 2 ^ 62" "0 < unat c"
  shows "unat (c - 1) = unat c - 1"
    and "c - 1 < ucast t \<longleftrightarrow> unat c - 1 < unat t"
    and "(c - 1) * 4 < ucast t * 3 \<longleftrightarrow> 4 * (unat c - 1) < 3 * unat t"
proof -
  have t: "unat (ucast t :: u64) = unat t" by (rule unat_ucast_16_64)
  show u: "unat (c - 1) = unat c - 1"
    using assms unat_sub [of 1 c] by (simp add: word_le_nat_alt)
  have "unat (d * 4) = 4 * unat d" if "unat d < 2 ^ 62" for d :: u64
    using that by (simp add: unat_word_ariths)
  from this [of "c - 1"] have "unat ((c - 1) * 4) = 4 * (unat c - 1)" using assms u by simp
  moreover have "unat t * 3 < 2 ^ 64" using unat_u16_less [of t] by (simp del: unat_u16_less)
  then have "unat ((ucast t :: u64) * 3) = 3 * unat t" using t by (simp add: unat_word_ariths)
  ultimately show "(c - 1) * 4 < ucast t * 3 \<longleftrightarrow> 4 * (unat c - 1) < 3 * unat t"
    by (simp only: word_less_nat_alt)
  show "c - 1 < ucast t \<longleftrightarrow> unat c - 1 < unat t" by (simp only: word_less_nat_alt u t)
qed

lemmas overload_defs = server_admission_def ezdp_add_single_ctr_def ezdp_atomic_set32_def

lemma overload_on_create_refines:
  assumes "adm_conns (server_admission st) < 2 ^ 62"
    and "alvs_server_overload_on_create_conn st = (flags, st')"
  shows "server_admit (unat (svr_u_thresh (server_info_result st))) (unat (svr_l_thresh (server_info_result st)))
      (server_admission st) = (flags AND IP_VS_DEST_F_OVERLOAD = 0, server_admission st')"
    and "server_info_result st' = server_info_result st"
proof -
  let ?c = "on_demand_ctr (sh st) (conn_total_addr (server_info_result st))"
  have c: "unat ?c < 2 ^ 62" using assms(1) by (simp add: server_admission_def)
  note w = counter_word_compare [OF c]
  have u: "svr_u_thresh (server_info_result st) = 0 \<longleftrightarrow> unat (svr_u_thresh (server_info_result st)) = 0"
    "svr_l_thresh (server_info_result st) = 0 \<longleftrightarrow> unat (svr_l_thresh (server_info_result st)) = 0"
    by (simp_all add: unat_eq_0)
  show "server_admit (unat (svr_u_thresh (server_info_result st))) (unat (svr_l_thresh (server_info_result st)))
      (server_admission st) = (flags AND IP_VS_DEST_F_OVERLOAD = 0, server_admission st')"
    using assms(2) unfolding alvs_server_overload_on_create_conn_def Let_def w(2-4) u
    by (auto simp: server_admit_def overload_defs Let_def w(1) split: if_split_asm)
  show "server_info_result st' = server_info_result st"
    using assms(2)
    by (auto simp: alvs_server_overload_on_create_conn_def overload_defs Let_def split: if_splits)
qed

lemma overload_on_delete_refines:
  assumes "adm_conns (server_admission st) < 2 ^ 62" "0 < adm_conns (server_admission st)"
  shows "server_admission (alvs_server_overload_on_delete_conn st) =
      server_release (unat (svr_u_thresh (server_info_result st))) (unat (svr_l_thresh (server_info_result st)))
        (server_admission st)"
    and "server_info_result (alvs_server_overload_on_delete_conn st) = server_info_result st"
proof -
  let ?c = "on_demand_ctr (sh st) (conn_total_addr (server_info_result st))"
  have c: "unat ?c < 2 ^ 62" "0 < unat ?c" using assms by (simp_all add: server_admission_def)
  note w = counter_word_release [OF c]
  have u: "svr_u_thresh (server_info_result st) = 0 \<longleftrightarrow> unat (svr_u_thresh (server_info_result st)) = 0"
    "svr_l_thresh (server_info_result st) = 0 \<longleftrightarrow> unat (svr_l_thresh (server_info_result st)) = 0"
    by (simp_all add: unat_eq_0)
  show "server_admission (alvs_server_overload_on_delete_conn st) =
      server_release (unat (svr_u_thresh (server_info_result st))) (unat (svr_l_thresh (server_info_result st)))
        (server_admission st)"
    unfolding alvs_server_overload_on_delete_conn_def Let_def w(2,3) u
    by (auto simp: server_release_def overload_defs Let_def w(1))
  show "server_info_result (alvs_server_overload_on_delete_conn st) = server_info_result st"
    by (auto simp: alvs_server_overload_on_delete_conn_def overload_defs Let_def)
qed

text \<open>A run of the overload control of one server: attempts to open connections and ends of connections.\<close>

inductive overload_run :: "dp_state \<Rightarrow> dp_state \<Rightarrow> bool" where
  run_start: "overload_run st st"
| run_create: "overload_run st st' \<Longrightarrow> alvs_server_overload_on_create_conn st' = (flags, st'') \<Longrightarrow> overload_run st st''"
| run_delete: "overload_run st st' \<Longrightarrow> 0 < adm_conns (server_admission st') \<Longrightarrow>
    overload_run st (alvs_server_overload_on_delete_conn st')"

lemma server_admit_bound:
  assumes "server_admit u l s = (b, s')" "u \<noteq> 0" "adm_conns s \<le> u"
  shows "adm_conns s' \<le> u"
  using assms by (auto simp: server_admit_def Let_def split: if_splits)

lemma overload_run_bound:
  assumes "overload_run st st'" "svr_u_thresh (server_info_result st) \<noteq> 0"
    and "adm_conns (server_admission st) \<le> unat (svr_u_thresh (server_info_result st))"
  shows "server_info_result st' = server_info_result st \<and>
    adm_conns (server_admission st') \<le> unat (svr_u_thresh (server_info_result st))"
  using assms
proof (induction rule: overload_run.induct)
  case (run_create st st' flags st'')
  let ?u = "unat (svr_u_thresh (server_info_result st))"
  have IH: "server_info_result st' = server_info_result st" "adm_conns (server_admission st') \<le> ?u"
    using run_create by auto
  have small: "adm_conns (server_admission st') < 2 ^ 62"
    using IH(2) unat_u16_less [of "svr_u_thresh (server_info_result st)"] by (simp del: unat_u16_less)
  have "?u \<noteq> 0" using run_create.prems(1) by (simp add: unat_eq_0)
  with server_admit_bound [OF overload_on_create_refines(1) [OF small run_create.hyps(2)]]
    overload_on_create_refines(2) [OF small run_create.hyps(2)] IH
  show ?case by simp
next
  case (run_delete st st')
  then have IH: "server_info_result st' = server_info_result st"
    "adm_conns (server_admission st') \<le> unat (svr_u_thresh (server_info_result st))" by auto
  have "adm_conns (server_admission st') < 2 ^ 62"
    using IH(2) unat_u16_less [of "svr_u_thresh (server_info_result st)"] by (simp del: unat_u16_less)
  with overload_on_delete_refines [of st'] run_delete.hyps(2) IH show ?case
    by (simp add: server_release_def Let_def)
qed simp

subsection \<open>Attempts on a bucket\<close>

text \<open>The tables the schedulers read; no attempt changes them.\<close>

definition sched_tables :: "dp_state \<Rightarrow> (u16 \<rightharpoonup> alvs_sched_info_result) \<times> (u32 \<rightharpoonup> alvs_server_info_result)" where
  "sched_tables st = (sched_info (sh st), server_info (sh st))"

lemma overload_on_create_tables:
  assumes "alvs_server_overload_on_create_conn st = (flags, st')"
  shows "sched_tables st' = sched_tables st" "sched_info_result st' = sched_info_result st"
    "server_info_result st' = server_info_result st"
  using assms
  by (auto simp: alvs_server_overload_on_create_conn_def overload_defs Let_def sched_tables_def split: if_splits)

lemma get_server_info_present:
  assumes "lookups_ok e" "sched_info (sh st) i = Some r" "server_info (sh st) (schr_server_index r) = Some v"
  obtains flags st' where
    "alvs_sched_get_server_info e i st =
       (if flags AND IP_VS_DEST_F_OVERLOAD = 0 then ALVS_SCHED_SERVER_SUCCESS else ALVS_SCHED_SERVER_UNAVAILABLE, st')"
    "alvs_server_overload_on_create_conn (st\<lparr>sched_info_result := r, dp_clock := Suc (Suc (dp_clock st)), server_info_result := v\<rparr>) =
       (flags, st')"
    "sched_tables st' = sched_tables st" "sched_info_result st' = r" "server_info_result st' = v"
proof -
  let ?st = "st\<lparr>sched_info_result := r, dp_clock := Suc (Suc (dp_clock st)), server_info_result := v\<rparr>"
  obtain flags st' where c: "alvs_server_overload_on_create_conn ?st = (flags, st')" by fastforce
  have g: "alvs_sched_get_server_info e i st =
      (if flags AND IP_VS_DEST_F_OVERLOAD = 0 then ALVS_SCHED_SERVER_SUCCESS else ALVS_SCHED_SERVER_UNAVAILABLE, st')"
    using assms c by (simp add: alvs_sched_get_server_info_def alvs_server_sched_lookup_def
        alvs_server_info_lookup_def dp_tick_def)
  show ?thesis using that [OF g c] overload_on_create_tables [OF c] by (simp add: sched_tables_def)
qed

lemma overload_on_create_unlimited:
  "svr_u_thresh (server_info_result st) = 0 \<Longrightarrow> fst (alvs_server_overload_on_create_conn st) = 0"
  by (simp add: alvs_server_overload_on_create_conn_def Let_def)

subsection \<open>Round robin\<close>

text \<open>What the code relies on of \<open>ezdp_mod\<close>, whose divisor has eight bits, and of \<open>ezdp_count_bits\<close>.\<close>

definition arith_ok :: "dp_env \<Rightarrow> bool" where
  "arith_ok e \<longleftrightarrow> (\<forall>x n k. 0 < n \<longrightarrow> n < 256 \<longrightarrow> ezdp_mod e x n k < n) \<and>
     (\<forall>w. ezdp_count_bits e w 0 16 = of_nat (length (filter (bit w) [0..<16])))"

lemma and_mask_less:
  fixes n c :: u32
  assumes "0 < n"
  shows "c AND (n - 1) < n"
proof -
  have "c AND (n - 1) \<le> n - 1" by (simp add: word_and_le1)
  also have "n - 1 < n"
    using assms unat_sub [of 1 n] by (simp add: word_less_nat_alt word_le_nat_alt Suc_le_eq)
  finally show ?thesis .
qed

lemma rr_index_less:
  assumes "arith_ok e" "0 < entries" "entries \<le> 256"
  shows "rr_index e c entries < ucast entries"
proof (cases "ezdp_count_bits e (ucast entries) 0 16 = 1")
  case True
  have "0 < (ucast entries :: u32)" using assms(2) by (simp add: word_less_nat_alt)
  with True and_mask_less show ?thesis by (simp add: rr_index_def)
next
  case False
  have "entries \<noteq> 256"
  proof
    assume "entries = 256"
    moreover have "ezdp_count_bits e 256 0 16 = 1"
      using assms(1) by (simp add: arith_ok_def upt_rec numeral_eq_Suc)
    ultimately show False using False by simp
  qed
  with assms(3) have "entries < 256" by simp
  then have "0 < (ucast entries :: u32)" "(ucast entries :: u32) < 256"
    using assms(2) by (simp_all add: word_less_nat_alt)
  with False assms(1) show ?thesis by (simp add: rr_index_def arith_ok_def)
qed

text \<open>A server accepts a connection for sure when it has no upper threshold, or is below it and not overloaded.\<close>

definition can_accept :: "dp_shared \<Rightarrow> alvs_server_info_result \<Rightarrow> bool" where
  "can_accept s v \<longleftrightarrow> svr_u_thresh v = 0 \<or>
     (mem32 s (svr_server_flags_dp_base v) AND IP_VS_DEST_F_OVERLOAD = 0 \<and>
      unat (on_demand_ctr s (conn_total_addr v)) < unat (svr_u_thresh v))"

lemma can_accept_created:
  assumes "can_accept (sh st) (server_info_result st)"
  shows "fst (alvs_server_overload_on_create_conn st) AND IP_VS_DEST_F_OVERLOAD = 0"
proof (cases "svr_u_thresh (server_info_result st) = 0")
  case False
  let ?r = "server_info_result st"
  have a: "mem32 (sh st) (svr_server_flags_dp_base ?r) AND IP_VS_DEST_F_OVERLOAD = 0"
    "adm_conns (server_admission st) < unat (svr_u_thresh ?r)"
    using assms False by (simp_all add: can_accept_def server_admission_def)
  obtain flags st' where c: "alvs_server_overload_on_create_conn st = (flags, st')" by fastforce
  have "adm_conns (server_admission st) < 2 ^ 62"
    using a(2) unat_u16_less [of "svr_u_thresh ?r"] by (simp del: unat_u16_less)
  from overload_on_create_refines(1) [OF this c] a show ?thesis
    by (auto simp: c server_admit_def Let_def server_admission_def split: if_splits)
qed (simp add: overload_on_create_unlimited)

lemma add_single_ctr_undone:
  "ezdp_add_single_ctr a (- 1) (ezdp_add_single_ctr a 1 st) = st"
  "ezdp_add_single_ctr a (- 1) (ezdp_atomic_set32 b f (ezdp_add_single_ctr a 1 st)) = ezdp_atomic_set32 b f st"
  by (auto simp: ezdp_add_single_ctr_def ezdp_atomic_set32_def intro!: dp_state.equality dp_shared.equality)

lemma refused_keeps:
  assumes "alvs_server_overload_on_create_conn st = (flags, st')" "flags AND IP_VS_DEST_F_OVERLOAD \<noteq> 0"
  shows "on_demand_ctr (sh st') = on_demand_ctr (sh st)"
    "a \<noteq> svr_server_flags_dp_base (server_info_result st) \<Longrightarrow> mem32 (sh st') a = mem32 (sh st) a"
  using assms
  by (auto simp: alvs_server_overload_on_create_conn_def add_single_ctr_undone Let_def split: if_splits)
    (auto simp: ezdp_atomic_set32_def)

lemma get_server_info_accepts:
  assumes "lookups_ok e" "sched_info (sh st) i = Some r" "server_info (sh st) (schr_server_index r) = Some v"
    and "can_accept (sh st) v"
  obtains st' where "alvs_sched_get_server_info e i st = (ALVS_SCHED_SERVER_SUCCESS, st')"
    "sched_info_result st' = r" "server_info_result st' = v"
proof -
  obtain flags st' where g: "alvs_sched_get_server_info e i st =
      (if flags AND IP_VS_DEST_F_OVERLOAD = 0 then ALVS_SCHED_SERVER_SUCCESS else ALVS_SCHED_SERVER_UNAVAILABLE, st')"
    "alvs_server_overload_on_create_conn (st\<lparr>sched_info_result := r, dp_clock := Suc (Suc (dp_clock st)),
       server_info_result := v\<rparr>) = (flags, st')" "sched_info_result st' = r" "server_info_result st' = v"
    using get_server_info_present [OF assms(1-3)] by metis
  have "flags AND IP_VS_DEST_F_OVERLOAD = 0" 
    using can_accept_created [of "st\<lparr>sched_info_result := r, dp_clock := Suc (Suc (dp_clock st)),
       server_info_result := v\<rparr>"] assms(4) g(2) by simp
  with g that show ?thesis by simp
qed

lemma get_server_info_refused:
  assumes "lookups_ok e" "sched_info (sh st) i = Some r" "server_info (sh st) (schr_server_index r) = Some w"
    and "alvs_sched_get_server_info e i st = (ALVS_SCHED_SERVER_UNAVAILABLE, st')"
    and "can_accept (sh st) v" "svr_server_flags_dp_base v = svr_server_flags_dp_base w \<Longrightarrow> v = w"
  shows "can_accept (sh st') v" "sched_tables st' = sched_tables st"
proof -
  let ?st = "st\<lparr>sched_info_result := r, dp_clock := Suc (Suc (dp_clock st)), server_info_result := w\<rparr>"
  obtain flags st2 where p: "alvs_sched_get_server_info e i st =
      (if flags AND IP_VS_DEST_F_OVERLOAD = 0 then ALVS_SCHED_SERVER_SUCCESS else ALVS_SCHED_SERVER_UNAVAILABLE, st2)"
    "alvs_server_overload_on_create_conn ?st = (flags, st2)"
    "sched_tables st2 = sched_tables st" "sched_info_result st2 = r" "server_info_result st2 = w"
    by (rule get_server_info_present [OF assms(1-3)])
  then have g: "alvs_server_overload_on_create_conn ?st = (flags, st')" "sched_tables st' = sched_tables st"
    "flags AND IP_VS_DEST_F_OVERLOAD \<noteq> 0"
    using assms(4) by (auto split: if_splits)
  have "\<not> can_accept (sh ?st) w" using can_accept_created [of ?st] g(1,3) by auto
  then have "v \<noteq> w" using assms(5) by auto
  then have "svr_server_flags_dp_base v \<noteq> svr_server_flags_dp_base w" using assms(6) by auto
  then have "mem32 (sh st') (svr_server_flags_dp_base v) = mem32 (sh st) (svr_server_flags_dp_base v)"
    using refused_keeps(2) [OF g(1,3), of "svr_server_flags_dp_base v"] by simp
  with refused_keeps(1) [OF g(1,3)] assms(5) show "can_accept (sh st') v" by (simp add: can_accept_def)
  show "sched_tables st' = sched_tables st" by (fact g(2))
qed

subsection \<open>Source hash with fallback\<close>

text \<open>Every bucket of the service leads to a server, and servers with the same overload word are the same.\<close>

definition sched_ready :: "dp_state \<Rightarrow> u8 \<Rightarrow> u32 \<Rightarrow> bool" where
  "sched_ready st si n \<longleftrightarrow>
     (\<forall>i < n. \<exists>r v. sched_info (sh st) (scheduling_index si i) = Some r \<and> server_info (sh st) (schr_server_index r) = Some v) \<and>
     (\<forall>v \<in> ran (server_info (sh st)). \<forall>w \<in> ran (server_info (sh st)).
        svr_server_flags_dp_base v = svr_server_flags_dp_base w \<longrightarrow> v = w)"

text \<open>The server that bucket \<open>i\<close> leads to accepts a connection.\<close>

definition bucket_accepts :: "dp_state \<Rightarrow> u8 \<Rightarrow> u32 \<Rightarrow> bool" where
  "bucket_accepts st si i \<longleftrightarrow>
     (\<exists>r v. sched_info (sh st) (scheduling_index si i) = Some r \<and>
        server_info (sh st) (schr_server_index r) = Some v \<and> can_accept (sh st) v)"

lemma mask_255: "w AND (of_nat ALVS_SIZE_OF_SCHED_BUCKET - 1) = take_bit 8 (w :: u32)"
  by (simp add: ALVS_SIZE_OF_SCHED_BUCKET_def take_bit_eq_mask mask_eq_exp_minus_1)

lemma take_bit_8_less: "take_bit 8 (w :: u32) < 256"
  by (simp add: word_less_nat_alt unsigned_take_bit_eq order.strict_trans2 [OF take_bit_nat_less_exp])

lemma take_bit_8_add: "take_bit 8 (take_bit 8 x + y) = take_bit 8 (x + y :: u32)"
proof -
  have "unat (take_bit 8 (take_bit 8 x + y)) = unat (take_bit 8 (x + y))"
    by (simp add: unsigned_take_bit_eq unat_word_ariths take_bit_eq_mod mod_mod_cancel mod_add_left_eq)
  then show ?thesis by (simp only: word_unat_eq_iff)
qed

lemma sh_fallback_finds:
  assumes "lookups_ok e" "sched_ready st si 256" "k < n" "bucket_accepts st si (take_bit 8 (off + of_nat k + h))"
  shows "\<exists>st' i. sh_fallback_loop e si h n off st = (ALVS_SCHED_SERVER_SUCCESS, st') \<and> i < 256 \<and>
    sched_info (sh st) (scheduling_index si i) = Some (sched_info_result st')"
  using assms(2-)
proof (induction n arbitrary: k off st)
  case (Suc n)
  let ?i = "take_bit 8 (off + h)"
  have i: "?i < 256" by (rule take_bit_8_less)
  obtain r w where r: "sched_info (sh st) (scheduling_index si ?i) = Some r" "server_info (sh st) (schr_server_index r) = Some w"
    using Suc.prems(1) i by (auto simp: sched_ready_def)
  obtain flags st' where g: "alvs_sched_get_server_info e (scheduling_index si ?i) st =
      (if flags AND IP_VS_DEST_F_OVERLOAD = 0 then ALVS_SCHED_SERVER_SUCCESS else ALVS_SCHED_SERVER_UNAVAILABLE, st')"
    "sched_tables st' = sched_tables st" "sched_info_result st' = r"
    using get_server_info_present [OF assms(1) r] by metis
  show ?case
  proof (cases "flags AND IP_VS_DEST_F_OVERLOAD = 0")
    case True
    with g r(1) i show ?thesis by (auto simp: mask_255 Let_def)
  next
    case False
    obtain r' v where v: "sched_info (sh st) (scheduling_index si (take_bit 8 (off + of_nat k + h))) = Some r'"
      "server_info (sh st) (schr_server_index r') = Some v" "can_accept (sh st) v"
      using Suc.prems(3) by (auto simp: bucket_accepts_def)
    have inj: "svr_server_flags_dp_base v = svr_server_flags_dp_base w \<Longrightarrow> v = w"
      using Suc.prems(1) v(2) r(2) unfolding sched_ready_def by (meson ranI)
    have ref: "alvs_sched_get_server_info e (scheduling_index si ?i) st = (ALVS_SCHED_SERVER_UNAVAILABLE, st')"
      using g(1) False by simp
    note kept = get_server_info_refused [OF assms(1) r ref v(3) inj]
    have "k \<noteq> 0"
    proof
      assume "k = 0"
      obtain st2 where "alvs_sched_get_server_info e (scheduling_index si (take_bit 8 (off + of_nat k + h))) st =
          (ALVS_SCHED_SERVER_SUCCESS, st2)"
        using get_server_info_accepts [OF assms(1) v] by blast
      with ref \<open>k = 0\<close> show False by simp
    qed
    then obtain j where j: "k = Suc j" by (cases k) auto
    have tab: "sched_info (sh st') = sched_info (sh st)" "server_info (sh st') = server_info (sh st)"
      using kept(2) by (simp_all add: sched_tables_def)
    have "bucket_accepts st' si (take_bit 8 ((off + 1) + of_nat j + h))"
      using v kept(1) tab by (auto simp: bucket_accepts_def j algebra_simps)
    moreover have "sched_ready st' si 256" using Suc.prems(1) tab by (simp add: sched_ready_def)
    moreover have "j < n" using Suc.prems(2) j by simp
    ultimately obtain st'' i' where "sh_fallback_loop e si h n (off + 1) st' = (ALVS_SCHED_SERVER_SUCCESS, st'')"
      "i' < 256" "sched_info (sh st') (scheduling_index si i') = Some (sched_info_result st'')"
      using Suc.IH by blast
    with ref tab show ?thesis by (auto simp: mask_255 Let_def)
  qed
qed simp

lemma sched_tables_ready:
  assumes "sched_tables st' = sched_tables st"
  shows "sched_ready st' si n = sched_ready st si n"
  using assms by (simp add: sched_tables_def sched_ready_def)

lemma sh_schedules_with_fallback:
  assumes ok: "lookups_ok e" and hash: "\<And>a b. ezdp_hash e a b 8 8 0 3 < 256"
    and fallback: "sir_service_flags (service_info_result st) AND IP_VS_SVC_F_SCHED_SH_FALLBACK \<noteq> 0"
    and ready: "sched_ready st si 256" and b: "b < 256" "bucket_accepts st si b"
  shows "\<exists>st' i. alvs_sched_sh_schedule_connection e si sip sport st = (True, st') \<and> i < 256 \<and>
    sched_info (sh st) (scheduling_index si i) = Some (sched_info_result st')"
proof -
  define p where "p = (if sir_service_flags (service_info_result st) AND IP_VS_SVC_F_SCHED_SH_PORT \<noteq> 0 then sport else 0)"
  define h where "h = alvs_sched_sh_get_scheduling_index e sip p"
  have h: "h < 256" using hash by (simp add: h_def alvs_sched_sh_get_scheduling_index_def Let_def)
  obtain r w where r: "sched_info (sh st) (scheduling_index si h) = Some r" "server_info (sh st) (schr_server_index r) = Some w"
    using ready h by (auto simp: sched_ready_def)
  obtain flags st1 where g: "alvs_sched_get_server_info e (scheduling_index si h) st =
      (if flags AND IP_VS_DEST_F_OVERLOAD = 0 then ALVS_SCHED_SERVER_SUCCESS else ALVS_SCHED_SERVER_UNAVAILABLE, st1)"
    "sched_tables st1 = sched_tables st" "sched_info_result st1 = r"
    using get_server_info_present [OF ok r] by metis
  show ?thesis
  proof (cases "flags AND IP_VS_DEST_F_OVERLOAD = 0")
    case True
    with g r(1) h show ?thesis
      by (auto simp: alvs_sched_sh_schedule_connection_def Let_def p_def [symmetric] h_def [symmetric])
  next
    case False
    obtain r' v where v: "sched_info (sh st) (scheduling_index si b) = Some r'"
      "server_info (sh st) (schr_server_index r') = Some v" "can_accept (sh st) v"
      using b(2) by (auto simp: bucket_accepts_def)
    have inj: "svr_server_flags_dp_base v = svr_server_flags_dp_base w \<Longrightarrow> v = w"
      using ready v(2) r(2) unfolding sched_ready_def by (meson ranI)
    have ref: "alvs_sched_get_server_info e (scheduling_index si h) st = (ALVS_SCHED_SERVER_UNAVAILABLE, st1)"
      using g(1) False by simp
    note kept = get_server_info_refused [OF ok r ref v(3) inj]
    define k where "k = unat (take_bit 8 (b - h))"
    have k: "k < ALVS_SIZE_OF_SCHED_BUCKET"
      by (simp add: k_def ALVS_SIZE_OF_SCHED_BUCKET_def unsigned_take_bit_eq order.strict_trans2 [OF take_bit_nat_less_exp])
    have "take_bit 8 (of_nat k + h) = take_bit 8 b"
      using take_bit_8_add [of "b - h" h] by (simp add: k_def)
    then have bk: "take_bit 8 (0 + of_nat k + h) = b"
      using b(1) by (simp add: word_less_nat_alt word_unat_eq_iff unsigned_take_bit_eq take_bit_nat_eq_self)
    have "bucket_accepts st1 si (take_bit 8 (0 + of_nat k + h))"
      unfolding bk using v kept by (auto simp: bucket_accepts_def sched_tables_def)
    from sh_fallback_finds [OF ok _ k this] ready
    obtain st2 i where l: "sh_fallback_loop e si h ALVS_SIZE_OF_SCHED_BUCKET 0 st1 = (ALVS_SCHED_SERVER_SUCCESS, st2)"
      "i < 256" "sched_info (sh st1) (scheduling_index si i) = Some (sched_info_result st2)"
      by (auto simp: sched_tables_ready [OF g(2)])
    with ref fallback g(2) show ?thesis
      by (auto simp: alvs_sched_sh_schedule_connection_def Let_def p_def [symmetric] h_def [symmetric] sched_tables_def)
  qed
qed

lemma rr_schedules_at:
  assumes ok: "lookups_ok e" "arith_ok e"
    and n: "n = sir_sched_entries_count (service_info_result st)" "0 < n" "n \<le> 256"
    and i: "i = rr_index e (mem32 (sh st) (sir_service_sched_ctr (service_info_result st))) n"
    and r: "sched_info (sh st) (scheduling_index si i) = Some r" "server_info (sh st) (schr_server_index r) = Some v"
      "can_accept (sh st) v" "svr_server_flags_dp_base v \<noteq> sir_service_sched_ctr (service_info_result st)"
  obtains st' where "alvs_sched_rr_schedule_connection e si st = (True, st')"
    "sched_info_result st' = r" "server_info_result st' = v"
proof -
  let ?a = "sir_service_sched_ctr (service_info_result st)"
  let ?st = "ezdp_atomic_set32 ?a (\<lambda>w. w + 1) st"
  have v: "can_accept (sh ?st) v" using r(3,4) by (auto simp: can_accept_def ezdp_atomic_set32_def)
  have t: "sched_info (sh ?st) (scheduling_index si i) = Some r" "server_info (sh ?st) (schr_server_index r) = Some v"
    using r by (simp_all add: ezdp_atomic_set32_def)
  obtain st' where g: "alvs_sched_get_server_info e (scheduling_index si i) ?st = (ALVS_SCHED_SERVER_SUCCESS, st')"
    "sched_info_result st' = r" "server_info_result st' = v"
    by (rule get_server_info_accepts [OF ok(1) t v])
  have "service_info_result ?st = service_info_result st" by (simp add: ezdp_atomic_set32_def)
  then have "rr_sched_loop e si ALVS_SCHED_RR_RETRIES (mem32 (sh st) ?a) ?st = (Some ALVS_SCHED_SERVER_SUCCESS, st')"
    using g(1) by (simp add: ALVS_SCHED_RR_RETRIES_def numeral_eq_Suc n(1) [symmetric] i [symmetric] Let_def)
  then have "alvs_sched_rr_schedule_connection e si st = (True, st')"
    by (simp add: alvs_sched_rr_schedule_connection_def Let_def)
  then show thesis using that g(2,3) by blast
qed

lemma rr_schedules:
  assumes ok: "lookups_ok e" "arith_ok e"
    and n: "n = sir_sched_entries_count (service_info_result st)" "0 < n" "n \<le> 256"
    and acc: "\<And>i. i < ucast n \<Longrightarrow> bucket_accepts st si i"
    and apart: "\<And>v. v \<in> ran (server_info (sh st)) \<Longrightarrow>
      svr_server_flags_dp_base v \<noteq> sir_service_sched_ctr (service_info_result st)"
  shows "\<exists>st' i. alvs_sched_rr_schedule_connection e si st = (True, st') \<and> i < ucast n \<and>
    i = rr_index e (mem32 (sh st) (sir_service_sched_ctr (service_info_result st))) n \<and>
    sched_info (sh st) (scheduling_index si i) = Some (sched_info_result st')"
proof -
  define i where "i = rr_index e (mem32 (sh st) (sir_service_sched_ctr (service_info_result st))) n"
  have i: "i < ucast n" unfolding i_def by (rule rr_index_less [OF ok(2) n(2,3)])
  obtain r v where r: "sched_info (sh st) (scheduling_index si i) = Some r"
    "server_info (sh st) (schr_server_index r) = Some v" "can_accept (sh st) v"
    using acc [OF i] by (auto simp: bucket_accepts_def)
  have "svr_server_flags_dp_base v \<noteq> sir_service_sched_ctr (service_info_result st)" using apart r(2) by (auto simp: ran_def)
  then obtain st' where "alvs_sched_rr_schedule_connection e si st = (True, st')" "sched_info_result st' = r"
    by (rule rr_schedules_at [OF ok n i_def r])
  with i r(1) show ?thesis by (auto simp: i_def)
qed

subsection \<open>Properties\<close>

text \<open>
  C23. The overload control on machine words implements the admission control: opening a connection
  refuses or admits it exactly as \<open>server_admit\<close> says, with the counter and the overload flag it leaves,
  and the end of a connection does what \<open>server_release\<close> says.
\<close>

theorem overload_control_refines:
  assumes "adm_conns (server_admission st) < 2 ^ 62"
    and "alvs_server_overload_on_create_conn st = (flags, st')"
  shows "server_admit (unat (svr_u_thresh (server_info_result st))) (unat (svr_l_thresh (server_info_result st)))
      (server_admission st) = (flags AND IP_VS_DEST_F_OVERLOAD = 0, server_admission st') \<and>
    (0 < adm_conns (server_admission st) \<longrightarrow>
      server_admission (alvs_server_overload_on_delete_conn st) =
        server_release (unat (svr_u_thresh (server_info_result st))) (unat (svr_l_thresh (server_info_result st)))
          (server_admission st))"
  using overload_on_create_refines(1) [OF assms] overload_on_delete_refines(1) assms(1) by blast

definition busy_server :: alvs_server_info_result where
  "busy_server = zero_server_info\<lparr>svr_u_thresh := 4, svr_server_on_demand_stats_base := 5, svr_server_flags_dp_base := 9\<rparr>"

definition busy_state :: dp_state where
  "busy_state = idle_state\<lparr>server_info_result := busy_server,
     sh := empty_shared\<lparr>on_demand_ctr := (\<lambda>_. 3), server_info := [7 \<mapsto> busy_server],
       sched_info := (\<lambda>_. Some \<lparr>schr_server_index = 7\<rparr>)\<rparr>\<rparr>"

theorem overload_control_refines_witness:
  "server_admit 4 0 (server_admission busy_state) =
     (fst (alvs_server_overload_on_create_conn busy_state) AND IP_VS_DEST_F_OVERLOAD = 0,
      server_admission (snd (alvs_server_overload_on_create_conn busy_state))) \<and>
   adm_overloaded (server_admission (snd (alvs_server_overload_on_create_conn busy_state)))"
proof -
  obtain flags st' where c: "alvs_server_overload_on_create_conn busy_state = (flags, st')" by fastforce
  have s: "server_admission busy_state = \<lparr>adm_conns = 3, adm_overloaded = False\<rparr>"
    by (simp add: server_admission_def busy_state_def busy_server_def example_defs conn_total_addr_def)
  have u: "unat (svr_u_thresh (server_info_result busy_state)) = 4" "unat (svr_l_thresh (server_info_result busy_state)) = 0"
    by (simp_all add: busy_state_def busy_server_def example_defs)
  have "adm_conns (server_admission busy_state) < 2 ^ 62" by (simp add: s)
  from overload_control_refines [OF this c]
  have "flags AND IP_VS_DEST_F_OVERLOAD = 0" "server_admission st' = \<lparr>adm_conns = 4, adm_overloaded = True\<rparr>"
    by (simp_all add: u s server_admit_def Let_def)
  then show ?thesis by (simp add: c s server_admit_def Let_def)
qed

text \<open>
  C24. However connections of a server are opened and closed, their number never exceeds the server's
  upper threshold.
\<close>

theorem server_limit_respected:
  assumes "overload_run st st'" "svr_u_thresh (server_info_result st) \<noteq> 0"
    and "adm_conns (server_admission st) \<le> unat (svr_u_thresh (server_info_result st))"
  shows "adm_conns (server_admission st') \<le> unat (svr_u_thresh (server_info_result st))"
  using overload_run_bound [OF assms] by simp

theorem server_limit_respected_witness:
  "adm_conns (server_admission (snd (alvs_server_overload_on_create_conn busy_state))) \<le> 4"
proof -
  obtain flags st' where c: "alvs_server_overload_on_create_conn busy_state = (flags, st')" by fastforce
  have "overload_run busy_state st'" by (rule run_create [OF run_start c])
  moreover have "adm_conns (server_admission busy_state) = 3" "svr_u_thresh (server_info_result busy_state) = 4"
    by (simp_all add: server_admission_def busy_state_def busy_server_def example_defs)
  ultimately show ?thesis using server_limit_respected [of busy_state st'] by (simp add: c)
qed

text \<open>
  C25. Source hashing with fallback finds a server whenever there is one: if every bucket of the
  service leads to a server and one of these servers is below its threshold and not overloaded, a new
  connection is scheduled, on a server of the service's own buckets.
\<close>

theorem source_hash_fallback_schedules:
  assumes "lookups_ok e" "\<And>a b. ezdp_hash e a b 8 8 0 3 < 256"
    and "sir_service_flags (service_info_result st) AND IP_VS_SVC_F_SCHED_SH_FALLBACK \<noteq> 0"
    and "sched_ready st si 256" "b < 256" "bucket_accepts st si b"
  shows "\<exists>st' i. alvs_sched_sh_schedule_connection e si sip sport st = (True, st') \<and> i < 256 \<and>
    sched_info (sh st) (scheduling_index si i) = Some (sched_info_result st')"
  by (rule sh_schedules_with_fallback [OF assms])

lemma plain_env_ok [simp]: "lookups_ok plain_env" "arith_ok plain_env"
  by (auto simp: lookups_ok_def arith_ok_def plain_env_def word_mod_less_divisor)

lemma busy_state_ready:
  "sched_ready busy_state si n" "bucket_accepts busy_state si i"
  by (auto simp: sched_ready_def bucket_accepts_def can_accept_def busy_state_def busy_server_def example_defs)

definition fallback_state :: dp_state where
  "fallback_state = busy_state\<lparr>service_info_result := zero_service_info\<lparr>sir_service_flags := 8,
     sir_sched_entries_count := 3\<rparr>\<rparr>"

lemma fallback_state_ready:
  "sched_ready fallback_state si n" "bucket_accepts fallback_state si i"
  using busy_state_ready by (auto simp: fallback_state_def sched_ready_def bucket_accepts_def)

theorem source_hash_fallback_schedules_witness:
  "fst (alvs_sched_sh_schedule_connection plain_env 2 10 20 fallback_state)"
proof -
  have "ezdp_hash plain_env a b 8 8 0 3 < 256" for a b
    by (simp only: plain_env_def dp_env.simps take_bit_8_less)
  moreover have "sir_service_flags (service_info_result fallback_state) AND IP_VS_SVC_F_SCHED_SH_FALLBACK \<noteq> 0"
    by (simp add: fallback_state_def IP_VS_SVC_F_SCHED_SH_FALLBACK_def)
  ultimately show ?thesis
    using source_hash_fallback_schedules [OF plain_env_ok(1) _ _ fallback_state_ready(1), of 0 2 10 20]
      fallback_state_ready(2) by fastforce
qed

text \<open>
  Round robin takes the entry its counter points at, reduced to the number of entries the control
  plane has published, and schedules the connection there when the servers accept connections: the
  index never leaves the published entries, and one attempt is enough.
\<close>

theorem round_robin_schedules:
  assumes "lookups_ok e" "arith_ok e"
    and "n = sir_sched_entries_count (service_info_result st)" "0 < n" "n \<le> 256"
    and "\<And>i. i < ucast n \<Longrightarrow> bucket_accepts st si i"
    and "\<And>v. v \<in> ran (server_info (sh st)) \<Longrightarrow>
      svr_server_flags_dp_base v \<noteq> sir_service_sched_ctr (service_info_result st)"
  shows "\<exists>st' i. alvs_sched_rr_schedule_connection e si st = (True, st') \<and> i < ucast n \<and>
    i = rr_index e (mem32 (sh st) (sir_service_sched_ctr (service_info_result st))) n \<and>
    sched_info (sh st) (scheduling_index si i) = Some (sched_info_result st')"
  by (rule rr_schedules [OF assms])

theorem round_robin_schedules_witness:
  "fst (alvs_sched_rr_schedule_connection plain_env 2 fallback_state)"
proof -
  have "svr_server_flags_dp_base v \<noteq> sir_service_sched_ctr (service_info_result fallback_state)"
    if "v \<in> ran (server_info (sh fallback_state))" for v
    using that by (auto simp: fallback_state_def busy_state_def busy_server_def example_defs split: if_splits)
  then show ?thesis
    using round_robin_schedules [OF plain_env_ok refl, of fallback_state 2] fallback_state_ready(2)
    by (fastforce simp: fallback_state_def)
qed

end
