(* ===== verification/Sync_Props.thy ===== *)
theory Sync_Props
  imports Sync_Backup Dp_Sched_Props
begin

text \<open>
  Properties of the synchronisation of connections: what the master writes is what the backup reads,
  the backup reads a message the same way however it is split over buffers, and the master never
  writes outside its buffer.
\<close>

subsection \<open>Words and bytes\<close>

lemma u16_of_bytes16 [simp]:
  "push_bit 8 (ucast (ucast (drop_bit 8 w) :: u8)) OR ucast (ucast w :: u8) = (w :: u16)"
  by (rule bit_word_eqI) (auto simp: bit_simps)

lemma u32_of_bytes32 [simp]:
  "push_bit 24 (ucast (ucast (drop_bit 24 w) :: u8)) OR push_bit 16 (ucast (ucast (drop_bit 16 w) :: u8)) OR
     push_bit 8 (ucast (ucast (drop_bit 8 w) :: u8)) OR ucast (ucast w :: u8) = (w :: u32)"
proof (rule bit_word_eqI)
  fix n assume "n < LENGTH(32)"
  then consider "n < 8" | "8 \<le> n" "n < 16" | "16 \<le> n" "n < 24" | "24 \<le> n" "n < 32" by fastforce
  then show "bit (push_bit 24 (ucast (ucast (drop_bit 24 w) :: u8)) OR push_bit 16 (ucast (ucast (drop_bit 16 w) :: u8)) OR
     push_bit 8 (ucast (ucast (drop_bit 8 w) :: u8)) OR ucast (ucast w :: u8) :: u32) n = bit w n"
    by cases (auto simp: bit_simps)
qed

lemma length_sync_conn_bytes [simp]: "length (sync_conn_bytes c) = SYNC_CONN_SIZE"
  by (simp add: sync_conn_bytes_def bytes16_def bytes32_def SYNC_CONN_SIZE_def)

lemma version_size_of_word:
  fixes v :: "4 word" and s :: "12 word"
  shows "ucast (drop_bit 12 (push_bit 12 (ucast v) OR (ucast s :: u16))) = v"
    and "ucast (push_bit 12 (ucast v) OR (ucast s :: u16)) = s"
proof -
  show "ucast (drop_bit 12 (push_bit 12 (ucast v) OR (ucast s :: u16))) = v"
    using bit_imp_le_length [of s] by (intro bit_word_eqI) (fastforce simp: bit_simps)
  show "ucast (push_bit 12 (ucast v) OR (ucast s :: u16)) = s"
    by (rule bit_word_eqI) (auto simp: bit_simps)
qed

lemma sync_conn_roundtrip: "sync_conn_of_bytes (sync_conn_bytes c) = c"
proof -
  define w :: u16 where "w = push_bit 12 (ucast (ssc_version c)) OR ucast (ssc_size c)"
  have w: "ucast (drop_bit 12 w) = ssc_version c" "ucast w = ssc_size c"
    unfolding w_def by (rule version_size_of_word)+
  show ?thesis
    unfolding sync_conn_of_bytes_def sync_conn_bytes_def w_def [symmetric]
    by (simp add: bytes16_def bytes32_def u16_at_def u32_at_def w)
qed

subsection \<open>Reading a message from the buffers of a frame\<close>

text \<open>
  The bytes still to be read when the reader stands at offset \<open>off\<close> of the loaded buffer with \<open>buflen\<close>
  bytes left: these bytes and the buffers that follow.
\<close>

definition unread :: "dp_state \<Rightarrow> nat \<Rightarrow> u32 \<Rightarrow> u8 list" where
  "unread st off buflen =
     take (unat buflen) (drop off (frame_data st)) @ concat (drop (Suc (fr_pos (frame st))) (fr_bufs (frame st)))"

definition reader_ok :: "dp_state \<Rightarrow> nat \<Rightarrow> u32 \<Rightarrow> bool" where
  "reader_ok st off buflen \<longleftrightarrow> fr_live (frame st) \<and> off + unat buflen \<le> length (frame_data st) \<and>
     length (frame_data st) < 2 ^ 31 \<and> (\<forall>b \<in> set (fr_bufs (frame st)). length b \<le> length (frame_data st))"

text \<open>Reading changes the loaded buffer and the position in the frame and nothing else.\<close>

definition same_but_reader :: "dp_state \<Rightarrow> dp_state \<Rightarrow> bool" where
  "same_but_reader st st' \<longleftrightarrow>
     (\<exists>data pos. st' = frame_update (fr_pos_update (\<lambda>_. pos)) (st\<lparr>frame_data := data\<rparr>) \<and>
        length data = length (frame_data st))"

lemma same_but_reader_refl [simp]: "same_but_reader st st"
  unfolding same_but_reader_def by (intro exI [of _ "frame_data st"] exI [of _ "fr_pos (frame st)"]) simp

lemma same_but_reader_trans:
  assumes "same_but_reader st st'" "same_but_reader st' st''"
  shows "same_but_reader st st''"
proof -
  obtain d1 p1 d2 p2 where
    "st' = frame_update (fr_pos_update (\<lambda>_. p1)) (st\<lparr>frame_data := d1\<rparr>)" "length d1 = length (frame_data st)"
    "st'' = frame_update (fr_pos_update (\<lambda>_. p2)) (st'\<lparr>frame_data := d2\<rparr>)" "length d2 = length (frame_data st')"
    using assms unfolding same_but_reader_def by blast
  then have "st'' = frame_update (fr_pos_update (\<lambda>_. p2)) (st\<lparr>frame_data := d2\<rparr>)" "length d2 = length (frame_data st)"
    by (auto intro!: dp_state.equality)
  then show ?thesis unfolding same_but_reader_def by blast
qed

lemma bytes_at_within:
  assumes "off + n \<le> length (frame_data st)"
  shows "bytes_at e st off n = take n (drop off (frame_data st))"
  using assms by (intro nth_equalityI) (auto simp: bytes_at_def)

lemma overwrite_0_length: "length b \<le> length d \<Longrightarrow> length (overwrite 0 b d) = length d"
  by (simp add: overwrite_def)

lemma load_next:
  assumes "reader_ok st off buflen" "Suc (fr_pos (frame st)) < length (fr_bufs (frame st))"
    and b: "b = fr_bufs (frame st) ! Suc (fr_pos (frame st))"
  defines "st1 \<equiv> (frame_update (fr_pos_update Suc) st)\<lparr>frame_data := overwrite 0 b (frame_data st)\<rparr>"
  shows "ezframe_next_buf st = (0, frame_update (fr_pos_update Suc) st)"
    and "ezframe_load_buf (frame_update (fr_pos_update Suc) st) = (b, st1)"
    and "reader_ok st1 0 (of_nat (length b))"
    and "take (unat buflen) (drop off (frame_data st)) @ unread st1 0 (of_nat (length b)) = unread st off buflen"
    and "same_but_reader st st1"
proof -
  have len: "length b \<le> length (frame_data st)" "length (frame_data st) < 2 ^ 31"
    using assms(1,2) by (auto simp: reader_ok_def b)
  then have u: "unat (of_nat (length b) :: u32) = length b" by (simp add: unat_of_nat)
  show "ezframe_next_buf st = (0, frame_update (fr_pos_update Suc) st)"
    using assms(2) by (simp add: ezframe_next_buf_def)
  show "ezframe_load_buf (frame_update (fr_pos_update Suc) st) = (b, st1)"
    using assms(1,2) by (simp add: ezframe_load_buf_def reader_ok_def st1_def b Let_def)
  show "reader_ok st1 0 (of_nat (length b))"
    using assms(1) len u by (simp add: reader_ok_def st1_def overwrite_0_length)
  have "drop (Suc (fr_pos (frame st))) (fr_bufs (frame st)) = b # drop (Suc (Suc (fr_pos (frame st)))) (fr_bufs (frame st))"
    using assms(2) by (simp add: b Cons_nth_drop_Suc)
  then show "take (unat buflen) (drop off (frame_data st)) @ unread st1 0 (of_nat (length b)) = unread st off buflen"
    using u by (simp add: unread_def st1_def overwrite_def)
  show "same_but_reader st st1"
    using len by (auto simp: same_but_reader_def st1_def overwrite_0_length
        intro!: exI [of _ "overwrite 0 b (frame_data st)"] exI [of _ "Suc (fr_pos (frame st))"] dp_state.equality ezframe.equality)
qed

lemma load_tail_stream:
  assumes "reader_ok st off buflen" "length tail < need" "need < 2 ^ 30"
  shows "if need \<le> length (tail @ unread st off buflen)
    then \<exists>off' buflen' tail' st'. load_tail e need off buflen tail st = (Some (off', buflen', tail'), st') \<and>
      reader_ok st' off' buflen' \<and> tail' @ unread st' off' buflen' = tail @ unread st off buflen \<and>
      need \<le> length tail' + unat buflen' \<and> length tail' < need \<and> same_but_reader st st'
    else \<exists>st'. load_tail e need off buflen tail st = (None, st') \<and> same_but_reader st st'"
  using assms
proof (induction e need off buflen tail st rule: load_tail.induct)
  case (1 e need off buflen tail st)
  have small: "unat buflen < 2 ^ 31" "length tail < 2 ^ 30" using "1.prems" by (auto simp: reader_ok_def)
  have sum: "unat (buflen + of_nat (length tail)) = unat buflen + length tail"
    using small by (simp add: unat_word_ariths unat_of_nat)
  have buf: "length (take (unat buflen) (drop off (frame_data st))) = unat buflen"
    using "1.prems"(1) by (auto simp: reader_ok_def)
  show ?case
  proof (cases "unat buflen + length tail < need")
    case False
    then have "load_tail e need off buflen tail st = (Some (off, buflen, tail), st)"
      by (subst load_tail.simps) (simp add: sum)
    moreover have "need \<le> length (tail @ unread st off buflen)"
      using False buf by (simp add: unread_def del: length_take)
    ultimately show ?thesis using False "1.prems" by auto
  next
    case more: True
    show ?thesis
    proof (cases "Suc (fr_pos (frame st)) < length (fr_bufs (frame st))")
      case False
      then have "load_tail e need off buflen tail st = (None, st)" using more
        by (subst load_tail.simps) (simp add: sum ezframe_next_buf_def ENOENT_def)
      moreover have "length (tail @ unread st off buflen) < need"
        using False buf more by (simp add: unread_def del: length_take)
      ultimately show ?thesis by simp
    next
      case True
      define b where "b = fr_bufs (frame st) ! Suc (fr_pos (frame st))"
      define st1 where "st1 = (frame_update (fr_pos_update Suc) st)\<lparr>frame_data := overwrite 0 b (frame_data st)\<rparr>"
      define tail1 where "tail1 = tail @ bytes_at e st off (unat buflen)"
      note nxt = load_next [OF "1.prems"(1) True b_def, folded st1_def]
      have bytes: "bytes_at e st off (unat buflen) = take (unat buflen) (drop off (frame_data st))"
        using "1.prems"(1) by (intro bytes_at_within) (simp add: reader_ok_def)
      have step: "load_tail e need off buflen tail st = load_tail e need 0 (of_nat (length b)) tail1 st1"
        using more by (subst load_tail.simps) (simp add: sum nxt(1,2) tail1_def)
      have t1: "length tail1 < need" using more buf by (simp add: tail1_def bytes del: length_take)
      have rest: "tail1 @ unread st1 0 (of_nat (length b)) = tail @ unread st off buflen"
        using nxt(4) by (simp add: tail1_def bytes)
      have "unat (buflen + of_nat (length tail)) < need" using more sum by simp
      from "1.IH" [OF this nxt(1) [symmetric], OF refl _ nxt(2) [symmetric], OF _ refl] nxt(3) t1 "1.prems"(3)
      show ?thesis unfolding step rest [symmetric] tail1_def [symmetric]
        using same_but_reader_trans [OF nxt(5)] by (fastforce split: if_splits)
    qed
  qed
qed

lemma load_struct_stream:
  assumes "reader_ok st off buflen" "0 < need" "need < 2 ^ 30"
  shows "if need \<le> length (unread st off buflen)
    then \<exists>off' buflen' st'. load_struct e need off buflen st = (Some (take need (unread st off buflen), off', buflen'), st') \<and>
      reader_ok st' off' buflen' \<and> unread st' off' buflen' = drop need (unread st off buflen) \<and> same_but_reader st st'
    else \<exists>st'. load_struct e need off buflen st = (None, st') \<and> same_but_reader st st'"
proof (cases "need \<le> length (unread st off buflen)")
  case True
  obtain o1 l1 t1 st1 where l: "load_tail e need off buflen [] st = (Some (o1, l1, t1), st1)" "reader_ok st1 o1 l1"
    "t1 @ unread st1 o1 l1 = unread st off buflen" "need \<le> length t1 + unat l1" "length t1 < need" "same_but_reader st st1"
    using load_tail_stream [OF assms(1), of "[]" need e] assms(2,3) True by auto
  define size where "size = need - length t1"
  have size: "size \<le> unat l1" "need = length t1 + size" using l(4,5) by (simp_all add: size_def)
  have ok: "o1 + unat l1 \<le> length (frame_data st1)" "unat l1 < 2 ^ 31" using l(2) by (auto simp: reader_ok_def)
  have sub: "unat (l1 - of_nat size) = unat l1 - size"
    using size(1) ok(2) by (simp add: unat_sub_if' unat_of_nat)
  have "bytes_at e st1 o1 size = take size (unread st1 o1 l1)"
    using size ok by (simp add: bytes_at_within unread_def)
  then have "t1 @ bytes_at e st1 o1 size = take need (unread st off buflen)"
    using l(3) size(2) by (metis add_diff_cancel_left' append_eq_append_conv_if take_all_iff take_append le_add1)
  moreover have "unread st1 (o1 + size) (l1 - of_nat size) = drop size (unread st1 o1 l1)"
    using size ok sub by (simp add: unread_def drop_take add.commute)
  then have "unread st1 (o1 + size) (l1 - of_nat size) = drop need (unread st off buflen)"
    using size(2) by (simp add: l(3) [symmetric])
  moreover have "reader_ok st1 (o1 + size) (l1 - of_nat size)"
    using l(2) size sub by (auto simp: reader_ok_def)
  ultimately show ?thesis using True l by (simp add: load_struct_def size_def Let_def)
next
  case False
  with load_tail_stream [OF assms(1), of "[]" need e] assms(2,3) show ?thesis
    by (auto simp: load_struct_def)
qed

subsection \<open>Writing a message\<close>

lemma nth_overwrite:
  assumes "off + length bs \<le> length d" "i < length d"
  shows "overwrite off bs d ! i = (if off \<le> i \<and> i < off + length bs then bs ! (i - off) else d ! i)"
  using assms by (auto simp: overwrite_def nth_append min_def)

lemma length_overwrite [simp]:
  "off + length bs \<le> length d \<Longrightarrow> length (overwrite off bs d) = length d"
  by (simp add: overwrite_def)

lemma frame_data_write_data [simp]: "frame_data (write_data off bs st) = overwrite off bs (frame_data st)"
  by (simp add: write_data_def)

text \<open>The states that differ only in \<open>frame_data\<close>, and keep its length.\<close>

lemma current_sync_conn_cong:
  "conn_info_result st' = conn_info_result st \<Longrightarrow> server_info_result st' = server_info_result st \<Longrightarrow>
    current_sync_conn st' = current_sync_conn st"
  by (simp add: current_sync_conn_def)

definition macs_ok :: "dp_state \<Rightarrow> bool" where
  "macs_ok st \<longleftrightarrow> (\<forall>r \<in> ran (interfaces (sh st)). length (nir_mac_address r) = 6)"

text \<open>A change of \<open>frame_data\<close> below offset 42 (Ethernet, IP and UDP headers) and of nothing else the message depends on.\<close>

definition headers_only :: "dp_state \<Rightarrow> dp_state \<Rightarrow> bool" where
  "headers_only st st' \<longleftrightarrow> length (frame_data st') = length (frame_data st) \<and>
     (\<forall>i. 42 \<le> i \<longrightarrow> i < length (frame_data st) \<longrightarrow> frame_data st' ! i = frame_data st ! i) \<and>
     conn_info_result st' = conn_info_result st \<and> server_info_result st' = server_info_result st"

lemma headers_only_write:
  assumes "off + length bs \<le> 42" "42 \<le> length (frame_data st)"
  shows "headers_only st (write_data off bs st)"
  using assms by (simp add: headers_only_def nth_overwrite) (simp add: write_data_def)

lemma headers_only_trans: "headers_only st st' \<Longrightarrow> headers_only st' st'' \<Longrightarrow> headers_only st st''"
  by (simp add: headers_only_def)

lemma headers_only_then_write:
  assumes "headers_only st st'" "off + length bs \<le> 42" "42 \<le> length (frame_data st)"
  shows "headers_only st (write_data off bs st')"
  by (rule headers_only_trans [OF assms(1) headers_only_write]) (use assms in \<open>auto simp: headers_only_def\<close>)

lemma set_eth_hdr_headers:
  assumes "macs_ok st" "42 \<le> length (frame_data st)"
  shows "headers_only st (alvs_state_sync_set_eth_hdr e st)"
proof -
  obtain rc st1 where l: "nw_interface_lookup e USER_BASE_LOGICAL_ID st = (rc, st1)" by fastforce
  have h: "headers_only st st1" using l
    by (auto simp: nw_interface_lookup_def headers_only_def dp_tick_def split: sum.splits)
  have "length (nir_mac_address (interface_result st1)) = 6" if "rc = 0"
  proof -
    have "interface_result st1 \<in> ran (interfaces (sh st))"
      using l that by (auto simp: nw_interface_lookup_def ezdp_lookup_def ENOENT_def ran_def split: sum.splits if_splits option.splits)
    with assms(1) show ?thesis by (simp add: macs_ok_def)
  qed
  with h assms(2) show ?thesis
    by (auto simp: alvs_state_sync_set_eth_hdr_def l Let_def bytes16_def ALVS_STATE_SYNC_DST_MAC_def
        intro!: headers_only_then_write)
qed

lemma set_net_hdr_headers:
  assumes "42 \<le> length (frame_data st)"
  shows "headers_only st (alvs_state_sync_set_net_hdr e n ip st)"
  unfolding alvs_state_sync_set_net_hdr_def alvs_state_sync_update_net_hdr_len_def Let_def
  by (intro headers_only_then_write headers_only_write)
    (use assms in \<open>simp_all add: sync_size_defs bytes16_def bytes32_def\<close>)

lemma take_drop_nth: "k < n \<Longrightarrow> off + k < length d \<Longrightarrow> take n (drop off d) ! k = d ! (off + k)"
  by simp

lemma sync_first_message:
  assumes "macs_ok st" "86 \<le> length (frame_data st)"
    and d_def: "d = frame_data (alvs_state_sync_first e source_ip sync_id st)"
  shows "length d = length (frame_data st)"
    and "sync_header_of_bytes (take 8 (drop 42 d)) =
      \<lparr>ssh_reserved = frame_data st ! 42, ssh_syncid = sync_id, ssh_size = 44, ssh_conn_count = 1,
       ssh_version = ALVS_STATE_SYNC_PROTO_VER, ssh_spare = 0\<rparr>"
    and "take 36 (drop 50 d) = sync_conn_bytes (current_sync_conn st)"
proof -
  define st0 where "st0 = conn_sync_state_update (\<lambda>s. s\<lparr>amount_buffers := 1, conn_count := 1,
      current_base := 86, current_len := 86\<rparr>) st"
  define st1 where "st1 = alvs_state_sync_set_net_hdr e 1 source_ip (alvs_state_sync_set_eth_hdr e st0)"
  have 0: "headers_only st st0" "macs_ok st0" "42 \<le> length (frame_data st0)"
    using assms(1,2) by (simp_all add: headers_only_def macs_ok_def st0_def)
  have "headers_only st0 (alvs_state_sync_set_eth_hdr e st0)" by (rule set_eth_hdr_headers [OF 0(2,3)])
  then have h: "headers_only st st1"
    unfolding st1_def using 0(1,3) set_net_hdr_headers headers_only_trans
    by (metis headers_only_def)
  define d1 where "d1 = frame_data st1"
  have d1: "length d1 = length (frame_data st)" "d1 ! 42 = frame_data st ! 42" "86 \<le> length d1"
    using h assms(2) by (simp_all add: headers_only_def d1_def)
  have conn: "current_sync_conn st1 = current_sync_conn st"
    using h by (intro current_sync_conn_cong) (simp_all add: headers_only_def)
  define d2 where "d2 = overwrite 46 [1] (overwrite 44 (bytes16 44) (overwrite 48 (bytes16 0)
      (overwrite 47 [ALVS_STATE_SYNC_PROTO_VER] (overwrite 43 [sync_id] d1))))"
  have d2: "length d2 = length d1"
    using d1(3) by (simp add: d2_def bytes16_def)
  have "frame_data (alvs_state_sync_set_sync_hdr 1 sync_id st1) = d2"
    by (simp add: alvs_state_sync_set_sync_hdr_def alvs_state_sync_update_sync_hdr_len_def sync_size_defs Let_def d2_def d1_def)
  moreover have "current_sync_conn (alvs_state_sync_set_sync_hdr 1 sync_id st1) = current_sync_conn st"
    unfolding conn [symmetric] by (rule current_sync_conn_cong)
      (simp_all add: alvs_state_sync_set_sync_hdr_def alvs_state_sync_update_sync_hdr_len_def write_data_def Let_def)
  ultimately have d: "d = overwrite 50 (sync_conn_bytes (current_sync_conn st)) d2"
    by (simp add: d_def alvs_state_sync_first_def alvs_state_sync_set_sync_conn_def Let_def sync_size_defs
        st0_def [symmetric] st1_def [symmetric] del: One_nat_def)
  show "length d = length (frame_data st)" using d d2 d1 by (simp add: SYNC_CONN_SIZE_def)
  show "take 36 (drop 50 d) = sync_conn_bytes (current_sync_conn st)"
    using d2 d1(3) by (simp add: d overwrite_def SYNC_CONN_SIZE_def)
  have "d2 ! 42 = frame_data st ! 42" "d2 ! 43 = sync_id" "d2 ! 44 = 0" "d2 ! 45 = 44" "d2 ! 46 = 1"
    "d2 ! 47 = ALVS_STATE_SYNC_PROTO_VER" "d2 ! 48 = 0" "d2 ! 49 = 0"
    using d1 by (simp_all add: d2_def nth_overwrite bytes16_def)
  moreover have "d ! i = d2 ! i" if "i < 50" for i
    using that d2 d1(3) by (simp add: d nth_overwrite SYNC_CONN_SIZE_def)
  ultimately have "d ! 42 = frame_data st ! 42" "d ! 43 = sync_id" "d ! 44 = 0" "d ! 45 = 44" "d ! 46 = 1"
    "d ! 47 = ALVS_STATE_SYNC_PROTO_VER" "d ! 48 = 0" "d ! 49 = 0" by simp_all
  moreover have "86 \<le> length d" using d d2 d1(3) by (simp add: SYNC_CONN_SIZE_def)
  ultimately show "sync_header_of_bytes (take 8 (drop 42 d)) =
      \<lparr>ssh_reserved = frame_data st ! 42, ssh_syncid = sync_id, ssh_size = 44, ssh_conn_count = 1,
       ssh_version = ALVS_STATE_SYNC_PROTO_VER, ssh_spare = 0\<rparr>"
    by (simp add: sync_header_of_bytes_def u16_at_def)
qed

lemma load_struct_take:
  assumes "reader_ok st off buflen" "unread st off buflen = bs @ rest" "length bs = need" "0 < need" "need < 2 ^ 30"
  obtains off' buflen' st' where "load_struct e need off buflen st = (Some (bs, off', buflen'), st')"
    "reader_ok st' off' buflen'" "unread st' off' buflen' = rest" "same_but_reader st st'"
  using load_struct_stream [OF assms(1,4,5), of e] assms(2,3) that by auto

text \<open>
  What the backup makes of a message with one connection, \<open>s\<close> being its state when the bytes have
  been read: a message for another identity and one whose byte \<open>reserved\<close> is not 0 are rejected.
\<close>

definition single_sync_result :: "dp_env \<Rightarrow> alvs_app_info_result \<Rightarrow> u8 \<Rightarrow> u8 \<Rightarrow> alvs_state_sync_conn \<Rightarrow>
    dp_state \<Rightarrow> dp_state" where
  "single_sync_result e app sync_id reserved conn st =
     (if air_b_sync_id app \<noteq> 0 \<and> sync_id \<noteq> air_b_sync_id app
      then alvs_discard_and_stats e ALVS_ERROR_STATE_SYNC_BACKUP_NOT_MY_SYNCID st
      else if reserved \<noteq> 0 then alvs_discard_and_stats e ALVS_ERROR_STATE_SYNC_BAD_MESSAGE_VERSION st
      else
        let (rc, st) = alvs_state_sync_process_conn e conn st in
        if rc < 0 then alvs_discard_and_stats e ALVS_ERROR_STATE_SYNC_DECODE_CONN st else alvs_discard_frame st)"

lemma single_sync_received:
  assumes tx: "macs_ok st" "86 \<le> length (frame_data st)"
    and rx: "lookups_ok e'" "app_info (sh rst) ALVS_APPLICATION_INFO_INDEX = Some app" "air_backup_bit app"
    and wire: "reader_ok rst off len"
      "unread rst off len = take 44 (drop 42 (frame_data (alvs_state_sync_first e source_ip sync_id st)))"
  shows "\<exists>rst'. same_but_reader (dp_tick rst) rst' \<and> alvs_state_sync_backup e' off len rst =
    single_sync_result e' app sync_id (frame_data st ! 42) (current_sync_conn st) rst'"
proof -
  define d where "d = frame_data (alvs_state_sync_first e source_ip sync_id st)"
  note msg = sync_first_message [OF tx d_def]
  have len: "86 \<le> length d" using tx(2) msg(1) by simp
  have "take 44 (drop 42 d) = take 8 (drop 42 d) @ take 36 (drop 50 d)"
    using take_add [of 8 36 "drop 42 d"] by simp
  then have u: "unread (dp_tick rst) off len = take 8 (drop 42 d) @ sync_conn_bytes (current_sync_conn st) @ []"
    using wire(2) msg(3) by (simp add: d_def unread_def dp_tick_def)
  have ok: "reader_ok (dp_tick rst) off len" using wire(1) by (simp add: reader_ok_def dp_tick_def)
  obtain o1 l1 st1 where h: "load_struct e' SYNC_HEADER_SIZE off len (dp_tick rst) = (Some (take 8 (drop 42 d), o1, l1), st1)"
    "reader_ok st1 o1 l1" "unread st1 o1 l1 = sync_conn_bytes (current_sync_conn st) @ []" "same_but_reader (dp_tick rst) st1"
    by (rule load_struct_take [OF ok u, of SYNC_HEADER_SIZE e']) (use len in \<open>auto simp: SYNC_HEADER_SIZE_def\<close>)
  obtain o2 l2 st2 where c: "load_struct e' SYNC_CONN_SIZE o1 l1 st1 = (Some (sync_conn_bytes (current_sync_conn st), o2, l2), st2)"
    "same_but_reader st1 st2"
    by (rule load_struct_take [OF h(2,3), of SYNC_CONN_SIZE e']) (auto simp: SYNC_CONN_SIZE_def)
  let ?rejected = "air_b_sync_id app \<noteq> 0 \<and> sync_id \<noteq> air_b_sync_id app \<or> frame_data st ! 42 \<noteq> 0"
  have "alvs_state_sync_backup e' off len rst =
      single_sync_result e' app sync_id (frame_data st ! 42) (current_sync_conn st) (if ?rejected then st1 else st2)"
    using rx h(1) c(1) msg(2)
    by (auto simp: alvs_state_sync_backup_def alvs_util_app_info_lookup_def sync_conn_roundtrip Let_def
        single_sync_result_def split: prod.splits)
  moreover have "same_but_reader (dp_tick rst) (if ?rejected then st1 else st2)"
    using h(4) same_but_reader_trans [OF h(4) c(2)] by simp
  ultimately show ?thesis by blast
qed

subsection \<open>Properties\<close>

text \<open>
  C26. The backup reads a structure of a message the same way however the message is split over the
  buffers of the frame: it gets exactly the next bytes of the message, stands behind them afterwards
  and changes nothing but its reading position, and it reports a short message exactly when fewer
  bytes are left.
\<close>

theorem split_message_read:
  assumes "reader_ok st off buflen" "0 < need" "need < 2 ^ 30"
  shows "if need \<le> length (unread st off buflen)
    then \<exists>off' buflen' st'. load_struct e need off buflen st = (Some (take need (unread st off buflen), off', buflen'), st') \<and>
      reader_ok st' off' buflen' \<and> unread st' off' buflen' = drop need (unread st off buflen) \<and> same_but_reader st st'
    else \<exists>st'. load_struct e need off buflen st = (None, st') \<and> same_but_reader st st'"
  by (rule load_struct_stream [OF assms])

definition split_frame_state :: dp_state where
  "split_frame_state = idle_state\<lparr>frame := \<lparr>fr_live = True, fr_bufs = [[1, 2, 3], [4], [5, 6, 7, 8]], fr_pos = 0, fr_length = 8\<rparr>,
     frame_data := [1, 2, 3, 0, 0, 0, 0, 0]\<rparr>"

theorem split_message_read_witness:
  "\<exists>off buflen st'. load_struct plain_env 5 1 2 split_frame_state = (Some ([2, 3, 4, 5, 6], off, buflen), st')"
proof -
  have u: "unread split_frame_state 1 2 = [2, 3, 4, 5, 6, 7, 8]"
    by (simp add: unread_def split_frame_state_def idle_state_def)
  have "reader_ok split_frame_state 1 2"
    by (simp add: reader_ok_def split_frame_state_def idle_state_def)
  from split_message_read [OF this, of 5 plain_env] u show ?thesis by auto
qed

text \<open>
  C27. What becomes of the message a master sends for one connection, at a backup that receives it in
  whatever buffers.  A backup that listens to another identity rejects it.  Otherwise, if the byte
  \<open>reserved\<close> of the header is 0, the backup processes exactly the master's view of that connection
  (addresses, ports, protocol, state, flags and server); if it is not, the backup rejects the message
  and the connection is not synchronised.  The master does not write that byte: it sends what its
  buffer held there, byte 42, which for a received TCP packet without IP options is the first byte of
  the acknowledgement number.
\<close>

theorem single_sync_roundtrip:
  assumes "macs_ok st" "86 \<le> length (frame_data st)"
    and "lookups_ok e'" "app_info (sh rst) ALVS_APPLICATION_INFO_INDEX = Some app" "air_backup_bit app"
    and "reader_ok rst off len"
      "unread rst off len = take 44 (drop 42 (frame_data (alvs_state_sync_first e source_ip sync_id st)))"
  shows "\<exists>rst'. same_but_reader (dp_tick rst) rst' \<and> alvs_state_sync_backup e' off len rst =
    (if air_b_sync_id app \<noteq> 0 \<and> sync_id \<noteq> air_b_sync_id app
     then alvs_discard_and_stats e' ALVS_ERROR_STATE_SYNC_BACKUP_NOT_MY_SYNCID rst'
     else if frame_data st ! 42 \<noteq> 0 then alvs_discard_and_stats e' ALVS_ERROR_STATE_SYNC_BAD_MESSAGE_VERSION rst'
     else
       let (rc, s) = alvs_state_sync_process_conn e' (current_sync_conn st) rst' in
       if rc < 0 then alvs_discard_and_stats e' ALVS_ERROR_STATE_SYNC_DECODE_CONN s else alvs_discard_frame s)"
  using single_sync_received [OF assms] by (simp add: single_sync_result_def)

definition backup_state :: "u8 list \<Rightarrow> dp_state" where
  "backup_state msg = idle_state\<lparr>
     frame := \<lparr>fr_live = True, fr_bufs = [msg], fr_pos = 0, fr_length = of_nat (length msg)\<rparr>,
     frame_data := overwrite 0 msg (replicate 256 0),
     sh := empty_shared\<lparr>app_info := [0 \<mapsto> \<lparr>air_master_bit = False, air_backup_bit = True, air_m_sync_id = 0,
       air_b_sync_id = 5, air_source_ip = 0\<rparr>]\<rparr>\<rparr>"

lemma backup_state_reads:
  assumes "length msg = 44"
  shows "reader_ok (backup_state msg) 0 44" "unread (backup_state msg) 0 44 = msg"
  using assms by (simp_all add: reader_ok_def unread_def backup_state_def idle_state_def overwrite_def)

text \<open>One message is processed; the other, sent with the byte 9 in the master's buffer, is rejected.\<close>

definition dirty_state :: dp_state where
  "dirty_state = idle_state\<lparr>frame_data := replicate 42 0 @ [9] @ replicate 213 0\<rparr>"

theorem single_sync_roundtrip_witness:
  "(\<exists>rst'. alvs_state_sync_backup plain_env 0 44
      (backup_state (take 44 (drop 42 (frame_data (alvs_state_sync_first plain_env 1 5 idle_state))))) =
    (let (rc, s) = alvs_state_sync_process_conn plain_env (current_sync_conn idle_state) rst' in
     if rc < 0 then alvs_discard_and_stats plain_env ALVS_ERROR_STATE_SYNC_DECODE_CONN s else alvs_discard_frame s)) \<and>
   (\<exists>rst'. alvs_state_sync_backup plain_env 0 44
      (backup_state (take 44 (drop 42 (frame_data (alvs_state_sync_first plain_env 1 5 dirty_state))))) =
    alvs_discard_and_stats plain_env ALVS_ERROR_STATE_SYNC_BAD_MESSAGE_VERSION rst')"
proof -
  have m: "macs_ok idle_state" "86 \<le> length (frame_data idle_state)" "frame_data idle_state ! 42 = 0"
    "macs_ok dirty_state" "86 \<le> length (frame_data dirty_state)" "frame_data dirty_state ! 42 = 9"
    by (simp_all add: macs_ok_def idle_state_def empty_shared_def dirty_state_def nth_append)
  let ?msg = "\<lambda>s. take 44 (drop 42 (frame_data (alvs_state_sync_first plain_env 1 5 s)))"
  have "length (frame_data (alvs_state_sync_first plain_env 1 5 idle_state)) = 256"
    "length (frame_data (alvs_state_sync_first plain_env 1 5 dirty_state)) = 256"
    using sync_first_message(1) [OF m(1,2) refl, of plain_env 1 5] sync_first_message(1) [OF m(4,5) refl, of plain_env 1 5]
    by (simp_all add: idle_state_def dirty_state_def)
  then have l: "length (?msg idle_state) = 44" "length (?msg dirty_state) = 44" by simp_all
  obtain app where app: "app_info (sh (backup_state x)) ALVS_APPLICATION_INFO_INDEX = Some app" "air_backup_bit app"
    "air_b_sync_id app = 5" for x
    by (simp add: backup_state_def ALVS_APPLICATION_INFO_INDEX_def)
  note both = single_sync_roundtrip [OF m(1,2) plain_env_ok(1) app(1,2) backup_state_reads(1,2) [OF l(1)]]
    single_sync_roundtrip [OF m(4,5) plain_env_ok(1) app(1,2) backup_state_reads(1,2) [OF l(2)]]
  then show ?thesis by (auto simp: m app(3))
qed

end
