(* ===== verification/Dp_Main.thy ===== *)
theory Dp_Main
  imports Sync_Backup
begin

text \<open>
  The main loop of a thread of the data plane, \<open>packet_processing\<close> of \<^verbatim>\<open>src/dp/main.c\<close>, and what it
  calls: the reception and classification of frames, \<^verbatim>\<open>src/dp/nw_recieve.h\<close> and
  \<^verbatim>\<open>src/dp/alvs_packet_processing.c\<close>, and the aging of connections, \<^verbatim>\<open>src/dp/alvs_aging.h\<close>.
\<close>

subsection \<open>Packets\<close>

definition UDP_DEST :: u16 where "UDP_DEST = 8848"
definition MAX_DECODE_SIZE :: nat where "MAX_DECODE_SIZE = 28"
definition DEFAULT_NW_BASE_LOGICAL_ID :: u32 where "DEFAULT_NW_BASE_LOGICAL_ID = 0"

definition iphdr_at :: "dp_env \<Rightarrow> nat \<Rightarrow> dp_state \<Rightarrow> iphdr" where
  "iphdr_at e off st =
     (let bs = bytes_at e st off IPHDR_SIZE in
      \<lparr>iph_ihl = (bs ! 0) AND 0x0f, iph_protocol = bs ! 9, iph_saddr = u32_at bs 12, iph_daddr = u32_at bs 16\<rparr>)"

definition tcphdr_at :: "dp_env \<Rightarrow> nat \<Rightarrow> dp_state \<Rightarrow> tcphdr" where
  "tcphdr_at e off st =
     (let bs = bytes_at e st off 20 in
      \<lparr>tcp_source = u16_at bs 0, tcp_dest = u16_at bs 2, tcp_fin = bit (bs ! 13) 0, tcp_rst = bit (bs ! 13) 2\<rparr>)"

definition udp_dest_at :: "dp_env \<Rightarrow> nat \<Rightarrow> dp_state \<Rightarrow> u16" where
  "udp_dest_at e off st = u16_at (bytes_at e st off UDPHDR_SIZE) 2"

definition alvs_packet_processing :: "dp_env \<Rightarrow> ipv4_decode_result \<Rightarrow> u32 \<Rightarrow> nat \<Rightarrow> bool \<Rightarrow> dp_state \<Rightarrow> dp_state" where
  "alvs_packet_processing e decoded buflen ip_off my_mac st =
     (let st = conn_sync_state_update (conn_sync_status_update (\<lambda>_. ALVS_CONN_SYNC_NO_NEED)) st;
          ip_hdr = iphdr_at e ip_off st;
          l4_off = ip_off + 4 * unat (iph_ihl ip_hdr)
      in if idr_tcp decoded then
           if my_mac then alvs_tcp_processing e ip_hdr (tcphdr_at e l4_off st) st
           else nw_host_do_route e (nw_interface_inc_counter NW_IF_STATS_NOT_MY_MAC st)
         else if idr_udp decoded then
           if my_mac then nw_host_do_route e (nw_interface_inc_counter NW_IF_STATS_NOT_TCP st)
           else if udp_dest_at e l4_off st = UDP_DEST
           then alvs_state_sync_backup e (l4_off + UDPHDR_SIZE)
                  (buflen - of_nat (4 * unat (iph_ihl ip_hdr) + UDPHDR_SIZE)) st
           else nw_host_do_route e (nw_interface_inc_counter NW_IF_STATS_NOT_TCP st)
         else nw_host_do_route e (nw_interface_inc_counter NW_IF_STATS_NOT_TCP st))"

definition receive_from_network :: "dp_env \<Rightarrow> dp_state \<Rightarrow> dp_state" where
  "receive_from_network e st =
     (let (b, st) = ezframe_load_buf st;
          mac = ezdp_decode_mac e (bytes_at e st 0 MAX_DECODE_SIZE)
      in if mdr_decode_error mac then nw_host_do_route e (nw_interface_inc_counter NW_IF_STATS_MAC_ERROR st)
         else if \<not> (mdr_my_mac mac \<or> mdr_ipv4_multicast mac)
         then nw_host_do_route e (nw_interface_inc_counter NW_IF_STATS_NOT_MY_MAC st)
         else if \<not> mdr_ipv4 mac then nw_host_do_route e (nw_interface_inc_counter NW_IF_STATS_NOT_IPV4 st)
         else
           let ip_off = mdr_layer2_size mac;
               decoded = ezdp_decode_ipv4 e (bytes_at e st ip_off IPHDR_SIZE) (fr_length (frame st))
           in if idr_decode_error decoded
              then nw_host_do_route e (nw_interface_inc_counter NW_IF_STATS_IPV4_ERROR st)
              else alvs_packet_processing e decoded (of_nat (length b) - of_nat ip_off) ip_off (mdr_my_mac mac) st)"

definition nw_recieve_and_parse_frame :: "dp_env \<Rightarrow> u32 \<Rightarrow> dp_state \<Rightarrow> dp_state" where
  "nw_recieve_and_parse_frame e port_id st =
     (let (rc, st) = nw_interface_lookup e port_id st in
      if rc \<noteq> 0 then nw_host_do_route e st
      else if frame_valid_rc e (dp_clock st) \<noteq> 0
      then nw_host_do_route e (nw_interface_inc_counter NW_IF_STATS_FRAME_VALIDATION_FAIL (dp_tick st))
      else let st = dp_tick st in
        case nir_path_type (interface_result st) of
          DP_PATH_FROM_NW_PATH \<Rightarrow> receive_from_network e st
        | DP_PATH_FROM_HOST_PATH \<Rightarrow>
            nw_send_frame_to_network e DEFAULT_NW_BASE_LOGICAL_ID (snd (ezframe_load_buf st))
        | DP_PATH_NOT_VALID \<Rightarrow> nw_host_do_route e (nw_interface_inc_counter NW_IF_STATS_NO_VALID_ROUTE st))"

subsection \<open>Aging\<close>

definition age_delete :: "dp_env \<Rightarrow> u32 \<Rightarrow> dp_state \<Rightarrow> dp_state" where
  "age_delete e conn_index st =
     alvs_conn_delete e conn_index (st\<lparr>conn_class_key := cir_conn_class_key (conn_info_result st)\<rparr>)"

definition age_connection :: "dp_env \<Rightarrow> u8 \<Rightarrow> in_addr_t \<Rightarrow> u8 \<Rightarrow> u32 \<Rightarrow> dp_state \<Rightarrow> dp_state" where
  "age_connection e iteration_num source_ip sync_id conn_index st =
     (let (rc, st) = alvs_conn_info_lookup e conn_index st in
      if rc \<noteq> 0 then st
      else if cir_delete_bit (conn_info_result st) then age_delete e conn_index st
      else if cir_aging_bit (conn_info_result st) then
        let st = st\<lparr>conn_class_key := cir_conn_class_key (conn_info_result st)\<rparr>;
            (rc, st) = alvs_conn_age_out e conn_index iteration_num st
        in if rc = 0 \<and> conn_sync_status (conn_sync_state st) = ALVS_CONN_SYNC_NEED
           then alvs_state_sync_aggr e source_ip sync_id st else st
      else if ucast (cir_age_iteration (conn_info_result st)) =
          ezdp_mod e (ucast iteration_num)
            (alvs_util_get_conn_iterations (ucast (cir_conn_state (conn_info_result st)))) 0
      then age_delete e conn_index st
      else st)"

fun age_scan :: "dp_env \<Rightarrow> u8 \<Rightarrow> in_addr_t \<Rightarrow> u8 \<Rightarrow> nat \<Rightarrow> u32 \<Rightarrow> dp_state \<Rightarrow> dp_state" where
  "age_scan e iteration_num source_ip sync_id 0 conn_index st = st"
| "age_scan e iteration_num source_ip sync_id (Suc n) conn_index st =
     age_scan e iteration_num source_ip sync_id n (conn_index + 1)
       (age_connection e iteration_num source_ip sync_id conn_index st)"

text \<open>The state of the synchronisation at the beginning of a scan, with the address and the identity
  the messages carry.\<close>

definition start_sync :: "dp_env \<Rightarrow> dp_state \<Rightarrow> in_addr_t \<times> u8 \<times> dp_state" where
  "start_sync e st =
     (let (res, st) = alvs_util_app_info_lookup e st;
          no_need = conn_sync_state_update (conn_sync_status_update (\<lambda>_. ALVS_CONN_SYNC_NO_NEED)) st
      in case res of
           Inl rc \<Rightarrow> (0, 0, no_need)
         | Inr app \<Rightarrow>
             if air_master_bit app
             then (air_source_ip app, air_m_sync_id app,
                   st\<lparr>conn_sync_state := \<lparr>conn_sync_status = ALVS_CONN_SYNC_NEED, amount_buffers = 0,
                     current_base = 0, current_len = 0, conn_count = 0\<rparr>\<rparr>)
             else (0, 0, no_need))"

definition alvs_handle_aging_event :: "dp_env \<Rightarrow> u32 \<Rightarrow> dp_state \<Rightarrow> dp_state" where
  "alvs_handle_aging_event e event_id st =
     (let iteration_num = ucast (event_id div of_nat ALVS_AGING_TIMER_EVENTS_PER_ITERATION);
          (source_ip, sync_id, st) = start_sync e (alvs_discard_frame st);
          event_id = event_id mod of_nat ALVS_AGING_TIMER_EVENTS_PER_ITERATION;
          st = age_scan e iteration_num source_ip sync_id ALVS_AGING_TIMER_SCAN_ENTRIES_PER_JOB
                 (event_id * of_nat ALVS_AGING_TIMER_SCAN_ENTRIES_PER_JOB) st;
          st = (if amount_buffers (conn_sync_state st) > 0 then alvs_state_sync_send_aggr e st else st)
      in conn_sync_state_update (conn_sync_status_update (\<lambda>_. ALVS_CONN_SYNC_NO_NEED)) st)"

subsection \<open>Main loop\<close>

text \<open>A job of the loop is a frame received on a port or an event of the aging timer.\<close>

datatype dp_job = Frame_Job u32 "u8 list list" u32 | Timer_Job u32

definition ezframe_receive :: "u8 list list \<Rightarrow> u32 \<Rightarrow> dp_state \<Rightarrow> dp_state" where
  "ezframe_receive bufs len st = st\<lparr>frame := \<lparr>fr_live = True, fr_bufs = bufs, fr_pos = 0, fr_length = len\<rparr>\<rparr>"

fun process_job :: "dp_env \<Rightarrow> dp_job \<Rightarrow> dp_state \<Rightarrow> dp_state" where
  "process_job e (Frame_Job port_id bufs len) st = nw_recieve_and_parse_frame e port_id (ezframe_receive bufs len st)"
| "process_job e (Timer_Job event_id) st = alvs_handle_aging_event e event_id (ezframe_receive [[]] 0 st)"

definition packet_processing :: "dp_env \<Rightarrow> dp_job list \<Rightarrow> dp_state \<Rightarrow> dp_state" where
  "packet_processing e jobs st = fold (process_job e) jobs st"

definition init_alvs_private_cmem :: "dp_state \<Rightarrow> dp_state" where
  "init_alvs_private_cmem st =
     st\<lparr>conn_sync_state := \<lparr>conn_sync_status = ALVS_CONN_SYNC_NO_NEED, amount_buffers = 0,
          current_base = 0, current_len = 0, conn_count = 0\<rparr>\<rparr>"

end
