(* ===== verification/Dp_Views.thy ===== *)
theory Dp_Views
  imports Dp_Main Dp_Sched_Props
begin

text \<open>
  The parts of the state the properties of the data plane speak about, and what each operation does
  to them: the connection tables \<open>conn_tabs\<close>, the locks \<open>locks\<close> and the frame \<open>frame_view\<close>.  The rules
  are collected in \<open>dp_simps\<close>.
\<close>

type_synonym conn_tables =
  "(alvs_conn_classification_key \<rightharpoonup> alvs_conn_classification_result) \<times> (u32 \<rightharpoonup> alvs_conn_info_result) \<times> u32 list"

definition conn_tabs :: "dp_shared \<Rightarrow> conn_tables" where
  "conn_tabs s = (conn_class s, conn_info s, conn_pool s)"

definition tabs :: "dp_state \<Rightarrow> conn_tables" where
  "tabs st = conn_tabs (sh st)"

definition locks :: "dp_state \<Rightarrow> u32 list \<times> bool" where
  "locks st = (held st, blocked st)"

definition frame_view :: "dp_state \<Rightarrow> bool \<times> nat" where
  "frame_view st = (fr_live (frame st), frame_faults st)"

lemmas view_defs = tabs_def conn_tabs_def locks_def frame_view_def

subsection \<open>Operations of the library\<close>

lemma tick_views [dp_simps]:
  "tabs (dp_tick st) = tabs st" "locks (dp_tick st) = locks st" "frame_view (dp_tick st) = frame_view st"
  by (simp_all add: dp_tick_def view_defs)

lemma counter_views [dp_simps]:
  "tabs (ezdp_add_posted_ctr a v st) = tabs st" "locks (ezdp_add_posted_ctr a v st) = locks st"
  "frame_view (ezdp_add_posted_ctr a v st) = frame_view st"
  "tabs (ezdp_add_single_ctr a v st) = tabs st" "locks (ezdp_add_single_ctr a v st) = locks st"
  "frame_view (ezdp_add_single_ctr a v st) = frame_view st"
  "tabs (ezdp_atomic_set32 a f st) = tabs st" "locks (ezdp_atomic_set32 a f st) = locks st"
  "frame_view (ezdp_atomic_set32 a f st) = frame_view st"
  by (simp_all add: ezdp_add_posted_ctr_def ezdp_add_single_ctr_def ezdp_atomic_set32_def view_defs)

lemma frame_op_views [dp_simps]:
  "tabs (ezframe_free st) = tabs st" "locks (ezframe_free st) = locks st"
  "tabs (ezframe_send_to_if c st) = tabs st" "locks (ezframe_send_to_if c st) = locks st"
  "tabs (ezframe_store_buf b st) = tabs st" "locks (ezframe_store_buf b st) = locks st"
  "tabs (write_data off bs st) = tabs st" "locks (write_data off bs st) = locks st"
  "frame_view (write_data off bs st) = frame_view st"
  by (simp_all add: ezframe_free_def ezframe_send_to_if_def ezframe_store_buf_def write_data_def view_defs)

lemma frame_op_views_snd [dp_simps]:
  "tabs (snd (ezframe_load_buf st)) = tabs st" "locks (snd (ezframe_load_buf st)) = locks st"
  "tabs (snd (ezframe_next_buf st)) = tabs st" "locks (snd (ezframe_next_buf st)) = locks st"
  "frame_view (snd (ezframe_next_buf st)) = frame_view st"
  "tabs (snd (ezframe_first_buf e st)) = tabs st" "locks (snd (ezframe_first_buf e st)) = locks st"
  "tabs (snd (ezframe_new e n st)) = tabs st" "locks (snd (ezframe_new e n st)) = locks st"
  "tabs (snd (ezframe_append_buf e n st)) = tabs st" "locks (snd (ezframe_append_buf e n st)) = locks st"
  by (simp_all add: ezframe_load_buf_def ezframe_next_buf_def ezframe_first_buf_def ezframe_new_def
      ezframe_append_buf_def dp_tick_def Let_def view_defs)

subsection \<open>Helpers\<close>

lemma stats_views [dp_simps]:
  "tabs (alvs_update_incoming_traffic_stats st) = tabs st"
  "locks (alvs_update_incoming_traffic_stats st) = locks st"
  "frame_view (alvs_update_incoming_traffic_stats st) = frame_view st"
  "tabs (alvs_update_connection_statistics a b c st) = tabs st"
  "locks (alvs_update_connection_statistics a b c st) = locks st"
  "frame_view (alvs_update_connection_statistics a b c st) = frame_view st"
  "tabs (alvs_update_discard_statistics e x st) = tabs st"
  "locks (alvs_update_discard_statistics e x st) = locks st"
  "frame_view (alvs_update_discard_statistics e x st) = frame_view st"
  "tabs (nw_interface_inc_counter y st) = tabs st"
  "locks (nw_interface_inc_counter y st) = locks st"
  "frame_view (nw_interface_inc_counter y st) = frame_view st"
  by (simp_all add: alvs_update_incoming_traffic_stats_def ezdp_dual_add_posted_ctr_def
      alvs_update_connection_statistics_def alvs_update_discard_statistics_def nw_interface_inc_counter_def
      Let_def dp_simps)

lemma new_conn_statistics_views [dp_simps]:
  "tabs (new_conn_statistics b cs st) = tabs st" "locks (new_conn_statistics b cs st) = locks st"
  "frame_view (new_conn_statistics b cs st) = frame_view st"
  by (simp_all add: new_conn_statistics_def dp_simps)

lemma discard_views [dp_simps]:
  "tabs (alvs_discard_frame st) = tabs st" "locks (alvs_discard_frame st) = locks st"
  "tabs (nw_discard_frame st) = tabs st" "locks (nw_discard_frame st) = locks st"
  "tabs (alvs_discard_and_stats e x st) = tabs st" "locks (alvs_discard_and_stats e x st) = locks st"
  by (simp_all add: alvs_discard_frame_def nw_discard_frame_def alvs_discard_and_stats_def dp_simps)

lemma lookup_views [dp_simps]:
  "tabs (snd (alvs_util_app_info_lookup e st)) = tabs st"
  "locks (snd (alvs_util_app_info_lookup e st)) = locks st"
  "frame_view (snd (alvs_util_app_info_lookup e st)) = frame_view st"
  "tabs (snd (nw_interface_lookup e i st)) = tabs st"
  "locks (snd (nw_interface_lookup e i st)) = locks st"
  "frame_view (snd (nw_interface_lookup e i st)) = frame_view st"
  "tabs (snd (nw_interface_lookup_host e st)) = tabs st"
  "locks (snd (nw_interface_lookup_host e st)) = locks st"
  "frame_view (snd (nw_interface_lookup_host e st)) = frame_view st"
  "tabs (snd (alvs_server_sched_lookup e k st)) = tabs st"
  "locks (snd (alvs_server_sched_lookup e k st)) = locks st"
  "frame_view (snd (alvs_server_sched_lookup e k st)) = frame_view st"
  "tabs (snd (alvs_server_info_lookup e i st)) = tabs st"
  "locks (snd (alvs_server_info_lookup e i st)) = locks st"
  "frame_view (snd (alvs_server_info_lookup e i st)) = frame_view st"
  "tabs (snd (alvs_sched_service_info_lookup e s st)) = tabs st"
  "locks (snd (alvs_sched_service_info_lookup e s st)) = locks st"
  "frame_view (snd (alvs_sched_service_info_lookup e s st)) = frame_view st"
  "tabs (snd (alvs_service_info_lookup e s st)) = tabs st"
  "locks (snd (alvs_service_info_lookup e s st)) = locks st"
  "frame_view (snd (alvs_service_info_lookup e s st)) = frame_view st"
  "tabs (snd (alvs_conn_info_lookup e i st)) = tabs st"
  "locks (snd (alvs_conn_info_lookup e i st)) = locks st"
  "frame_view (snd (alvs_conn_info_lookup e i st)) = frame_view st"
  "tabs (snd (alvs_find_server_index e a b c d p st)) = tabs st"
  "locks (snd (alvs_find_server_index e a b c d p st)) = locks st"
  "frame_view (snd (alvs_find_server_index e a b c d p st)) = frame_view st"
  by (simp_all add: alvs_util_app_info_lookup_def nw_interface_lookup_def nw_interface_lookup_host_def
      alvs_server_sched_lookup_def alvs_server_info_lookup_def alvs_sched_service_info_lookup_def
      alvs_service_info_lookup_def alvs_conn_info_lookup_def alvs_find_server_index_def dp_tick_def view_defs
      split: sum.split)

lemma overload_views [dp_simps]:
  "tabs (snd (alvs_server_overload_on_create_conn st)) = tabs st"
  "locks (snd (alvs_server_overload_on_create_conn st)) = locks st"
  "frame_view (snd (alvs_server_overload_on_create_conn st)) = frame_view st"
  "tabs (alvs_server_overload_on_delete_conn st) = tabs st"
  "locks (alvs_server_overload_on_delete_conn st) = locks st"
  "frame_view (alvs_server_overload_on_delete_conn st) = frame_view st"
  by (simp_all add: alvs_server_overload_on_create_conn_def alvs_server_overload_on_delete_conn_def Let_def dp_simps)

subsection \<open>Scheduling and routing\<close>

lemma sched_view_simps [dp_simps]:
  "tabs (alvs_sched_handle_no_active_servers e st) = tabs st"
  "locks (alvs_sched_handle_no_active_servers e st) = locks st"
  "tabs (snd (alvs_sched_check_active_servers e st)) = tabs st"
  "locks (snd (alvs_sched_check_active_servers e st)) = locks st"
  "tabs (snd (alvs_sched_get_server_info e i st)) = tabs st"
  "locks (snd (alvs_sched_get_server_info e i st)) = locks st"
  by (simp_all add: alvs_sched_handle_no_active_servers_def alvs_sched_check_active_servers_def
      alvs_sched_get_server_info_def Let_def case_prod_beta dp_simps)

lemma sh_loop_views [dp_simps]:
  "tabs (snd (sh_fallback_loop e si h n off st)) = tabs st"
  "locks (snd (sh_fallback_loop e si h n off st)) = locks st"
  by (induction n arbitrary: off st) (simp_all add: Let_def case_prod_beta dp_simps)

lemma rr_loop_views [dp_simps]:
  "tabs (snd (rr_sched_loop e si n c st)) = tabs st"
  "locks (snd (rr_sched_loop e si n c st)) = locks st"
  by (induction n arbitrary: c st) (simp_all add: Let_def case_prod_beta dp_simps)

lemma schedule_views [dp_simps]:
  "tabs (snd (alvs_sched_sh_schedule_connection e si ip port st)) = tabs st"
  "locks (snd (alvs_sched_sh_schedule_connection e si ip port st)) = locks st"
  "tabs (snd (alvs_sched_rr_schedule_connection e si st)) = tabs st"
  "locks (snd (alvs_sched_rr_schedule_connection e si st)) = locks st"
  by (simp_all add: alvs_sched_sh_schedule_connection_def alvs_sched_rr_schedule_connection_def Let_def
      case_prod_beta dp_simps split: option.split)

lemma schedule_connection_views [dp_simps]:
  "tabs (snd (schedule_connection e si ip tcp st)) = tabs st"
  "locks (snd (schedule_connection e si ip tcp st)) = locks st"
  by (simp_all add: schedule_connection_def dp_simps split: alvs_scheduler_type.split)

lemma route_views [dp_simps]:
  "tabs (nw_host_do_route e st) = tabs st" "locks (nw_host_do_route e st) = locks st"
  "tabs (nw_send_frame_to_network e p st) = tabs st" "locks (nw_send_frame_to_network e p st) = locks st"
  by (simp_all add: nw_host_do_route_def nw_send_frame_to_network_def Let_def case_prod_beta dp_simps)

lemma arp_views [dp_simps]:
  "tabs (nw_arp_processing e ip n st) = tabs st" "locks (nw_arp_processing e ip n st) = locks st"
  "tabs (snd (nw_fib_processing ip st)) = tabs st" "locks (snd (nw_fib_processing ip st)) = locks st"
  by (simp_all add: nw_arp_processing_def nw_fib_processing_def Let_def dp_simps
      split: sum.split option.split nw_fib_type.split)

lemma do_route_views [dp_simps]:
  "tabs (nw_do_route e ip n st) = tabs st" "locks (nw_do_route e ip n st) = locks st"
  by (simp_all add: nw_do_route_def Let_def case_prod_beta dp_simps)

subsection \<open>Synchronisation\<close>

lemma sync_state_views [dp_simps]:
  "tabs (conn_sync_state_update f st) = tabs st" "locks (conn_sync_state_update f st) = locks st"
  "frame_view (conn_sync_state_update f st) = frame_view st"
  "tabs (conn_info_result_update g st) = tabs st" "locks (conn_info_result_update g st) = locks st"
  "frame_view (conn_info_result_update g st) = frame_view st"
  "tabs (conn_result_update h st) = tabs st" "locks (conn_result_update h st) = locks st"
  "frame_view (conn_result_update h st) = frame_view st"
  "tabs (conn_class_key_update k st) = tabs st" "locks (conn_class_key_update k st) = locks st"
  "frame_view (conn_class_key_update k st) = frame_view st"
  by (simp_all add: view_defs)

lemma sync_hdr_views [dp_simps]:
  "tabs (alvs_state_sync_update_net_hdr_len e n st) = tabs st"
  "locks (alvs_state_sync_update_net_hdr_len e n st) = locks st"
  "frame_view (alvs_state_sync_update_net_hdr_len e n st) = frame_view st"
  "tabs (alvs_state_sync_update_sync_hdr_len n st) = tabs st"
  "locks (alvs_state_sync_update_sync_hdr_len n st) = locks st"
  "frame_view (alvs_state_sync_update_sync_hdr_len n st) = frame_view st"
  "tabs (alvs_state_sync_set_sync_conn off st) = tabs st"
  "locks (alvs_state_sync_set_sync_conn off st) = locks st"
  "frame_view (alvs_state_sync_set_sync_conn off st) = frame_view st"
  by (simp_all add: alvs_state_sync_update_net_hdr_len_def alvs_state_sync_update_sync_hdr_len_def
      alvs_state_sync_set_sync_conn_def Let_def dp_simps)

lemma sync_first_views [dp_simps]:
  "tabs (alvs_state_sync_first e ip i st) = tabs st"
  "locks (alvs_state_sync_first e ip i st) = locks st"
  "frame_view (alvs_state_sync_first e ip i st) = frame_view st"
  by (simp_all add: alvs_state_sync_first_def alvs_state_sync_set_eth_hdr_def alvs_state_sync_set_net_hdr_def
      alvs_state_sync_set_sync_hdr_def Let_def case_prod_beta dp_simps)

lemma tabs_blocked [dp_simps]: "tabs (blocked_update f st) = tabs st"
  by (simp add: view_defs)

lemma sync_send_tabs [dp_simps]:
  "tabs (alvs_state_sync_send_single e ip i st) = tabs st"
  "tabs (snd (alvs_state_sync_add_buffer e st)) = tabs st"
  by (simp_all add: alvs_state_sync_send_single_def alvs_state_sync_add_buffer_def Let_def case_prod_beta dp_simps)

lemma send_aggr_tabs [dp_simps]: "tabs (alvs_state_sync_send_aggr e st) = tabs st"
  by (simp add: alvs_state_sync_send_aggr_def Let_def case_prod_beta dp_simps)

lemma sync_aggr_tabs [dp_simps]: "tabs (alvs_state_sync_aggr e ip i st) = tabs st"
  by (simp add: alvs_state_sync_aggr_def sync_new_frame_def sync_add_conn_def Let_def case_prod_beta dp_simps)

lemma conn_route_tabs [dp_simps]:
  "tabs (send_conn_sync e st) = tabs st" "tabs (alvs_conn_do_route e st) = tabs st"
  by (simp_all add: send_conn_sync_def alvs_conn_do_route_def Let_def case_prod_beta dp_simps split: sum.split)

subsection \<open>Locks\<close>

lemma lock_views [dp_simps]:
  "frame_view (snd (alvs_lock_connection e st)) = frame_view st"
  "tabs (alvs_unlock_connection h st) = tabs st"
  "frame_view (alvs_unlock_connection h st) = frame_view st"
  by (simp_all add: alvs_lock_connection_def ezdp_lock_spinlock_def alvs_unlock_connection_def
      ezdp_unlock_spinlock_def dp_tick_def Let_def view_defs)

text \<open>
  Trying the lock never waits for a lock the thread holds itself, and when it succeeds it has the effect
  of taking the lock.
\<close>

lemma try_lock_connection:
  assumes "alvs_try_lock_connection e busy st = (rc, h, st')"
  shows "blocked st' = blocked st" "rc = 0 \<Longrightarrow> alvs_lock_connection e st = (h, st')" "rc \<noteq> 0 \<Longrightarrow> tabs st' = tabs st \<and> locks st' = locks st"
  using assms by (auto simp: alvs_try_lock_connection_def ezdp_try_lock_spinlock_def alvs_lock_connection_def
      ezdp_lock_spinlock_def dp_tick_def view_defs Let_def split: if_splits)

end
