(* ===== verification/Dp_Conn_Props.thy ===== *)
theory Dp_Conn_Props
  imports Dp_Views
begin

text \<open>
  The invariant of the connection tables and that every operation on connections keeps it.

  The two tables describe the same connections: each classification entry leads to an information
  entry with its key and back.  The indexes \<open>U\<close> the pool was made of are partitioned: each is either
  free, and then once in the pool, or used by one connection, so none is lost and none is given
  twice.  The rely condition is that what the other threads do while a lock is awaited keeps the
  invariant, too, so their operations are seen as wholes; the library may refuse to add an entry to
  the hash table and the pool may be empty.
\<close>

subsection \<open>Invariant\<close>

definition conn_inv :: "dp_env \<Rightarrow> u32 set \<Rightarrow> conn_tables \<Rightarrow> bool" where
  "conn_inv e U = (\<lambda>(class, info, pool).
     (\<forall>k r. class k = Some r \<longrightarrow> (\<exists>c. info (ccr_conn_index r) = Some c \<and> cir_conn_class_key c = k)) \<and>
     (\<forall>i c. info i = Some c \<longrightarrow> class (cir_conn_class_key c) = Some \<lparr>ccr_conn_index = i\<rparr>) \<and>
     info (EZDP_NULL_INDEX e) = None \<and>
     distinct pool \<and> (\<forall>i \<in> set pool. info i = None \<and> i \<noteq> EZDP_NULL_INDEX e) \<and>
     set pool \<union> dom info = U)"

definition tables_reliable :: "dp_env \<Rightarrow> bool" where
  "tables_reliable e \<longleftrightarrow> (\<forall>n. table_update_rc e n = 0 \<and> hash_delete_rc e n = 0)"

definition rely :: "dp_env \<Rightarrow> u32 set \<Rightarrow> bool" where
  "rely e U \<longleftrightarrow> (\<forall>n s. conn_inv e U (conn_tabs s) \<longrightarrow> conn_inv e U (conn_tabs (others e n s)))"

lemma conn_inv_class:
  assumes "conn_inv e U (tabs st)" "conn_class (sh st) k = Some r"
  obtains c where "conn_info (sh st) (ccr_conn_index r) = Some c" "cir_conn_class_key c = k"
  using assms by (auto simp: conn_inv_def view_defs)

lemma conn_inv_modify:
  assumes "conn_inv e U (class, info, pool)" "info i = Some c" "cir_conn_class_key c' = cir_conn_class_key c"
  shows "conn_inv e U (class, info(i \<mapsto> c'), pool)"
  using assms unfolding conn_inv_def by (fastforce split: if_splits)

lemma conn_inv_create:
  assumes "conn_inv e U (class, info, pool)" "i \<in> set pool" "class k = None" "cir_conn_class_key c = k"
  shows "conn_inv e U (class(k \<mapsto> \<lparr>ccr_conn_index = i\<rparr>), info(i \<mapsto> c), remove1 i pool)"
proof -
  have free: "info i = None" using assms(1,2) by (auto simp: conn_inv_def)
  have cls: "ccr_conn_index r \<noteq> i" if "class k' = Some r" for k' r
    using assms(1) free that by (force simp: conn_inv_def)
  have info: "cir_conn_class_key c' \<noteq> k" if "info j = Some c'" for j c'
    using assms(1,3) that by (force simp: conn_inv_def)
  show ?thesis
    using assms cls info free unfolding conn_inv_def by (auto dest: notin_set_remove1)
qed

lemma conn_inv_delete:
  assumes "conn_inv e U (class, info, pool)" "info i = Some c"
  shows "conn_inv e U (class(cir_conn_class_key c := None), info(i := None), i # pool)"
proof -
  have own: "class (cir_conn_class_key c) = Some \<lparr>ccr_conn_index = i\<rparr>" using assms by (auto simp: conn_inv_def)
  then have other: "ccr_conn_index r \<noteq> i" if "class k = Some r" "k \<noteq> cir_conn_class_key c" for k r
    using assms(1,2) that by (force simp: conn_inv_def)
  have key: "cir_conn_class_key c' \<noteq> cir_conn_class_key c" if "info j = Some c'" "j \<noteq> i" for j c'
  proof -
    have "class (cir_conn_class_key c') = Some \<lparr>ccr_conn_index = j\<rparr>"
      using assms(1) that(1) by (auto simp: conn_inv_def)
    with own that(2) show ?thesis by auto
  qed
  show ?thesis
    using assms other key unfolding conn_inv_def by (auto simp: fun_upd_def split: if_splits)
qed

subsection \<open>Locks and lookups\<close>

lemma lock_inv:
  assumes "rely e U" "conn_inv e U (tabs st)"
  shows "conn_inv e U (tabs (snd (alvs_lock_connection e st)))"
  using assms by (auto simp: alvs_lock_connection_def ezdp_lock_spinlock_def dp_tick_def rely_def view_defs Let_def)

lemma conn_info_lookup_found:
  assumes "alvs_conn_info_lookup e i st = (0, st')" "lookups_ok e"
  shows "conn_info (sh st') i = Some (conn_info_result st')" "tabs st' = tabs st" "held st' = held st"
    "sh st' = sh st"
  using assms by (auto simp: alvs_conn_info_lookup_def ezdp_lookup_def lookups_ok_def ENOENT_def dp_tick_def view_defs
      split: sum.splits if_splits option.splits)

lemma modify_conn_info_inv:
  assumes "conn_inv e U (tabs st)" "conn_info (sh st) i = Some c"
    and "cir_conn_class_key (conn_info_result st) = cir_conn_class_key c"
  shows "conn_inv e U (tabs (snd (ezdp_modify_conn_info e i st)))"
  using assms conn_inv_modify
  by (auto simp: ezdp_modify_conn_info_def dp_tick_def view_defs)

text \<open>The operations that lock a connection, look it up again, change its entry and unlock it.\<close>

definition modified_under_lock :: "dp_env \<Rightarrow> u32 \<Rightarrow> dp_state \<Rightarrow> dp_state \<Rightarrow> bool" where
  "modified_under_lock e i st st' \<longleftrightarrow>
     (\<exists>st1. alvs_conn_info_lookup e i (snd (alvs_lock_connection e st)) = (0, st1) \<and>
        (\<exists>st2. tabs st2 = tabs st1 \<and> conn_info (sh st2) i = conn_info (sh st1) i \<and>
           cir_conn_class_key (conn_info_result st2) = cir_conn_class_key (conn_info_result st1) \<and>
           tabs st' = tabs (snd (ezdp_modify_conn_info e i st2))))"

lemma modified_under_lock_inv:
  assumes "lookups_ok e" "rely e U" "conn_inv e U (tabs st)"
    and "tabs st' = tabs (snd (alvs_lock_connection e st)) \<or> modified_under_lock e i st st'"
  shows "conn_inv e U (tabs st')"
  using assms(4)
proof
  assume "tabs st' = tabs (snd (alvs_lock_connection e st))"
  with lock_inv [OF assms(2,3)] show ?thesis by simp
next
  assume "modified_under_lock e i st st'"
  then obtain st1 st2 where l: "alvs_conn_info_lookup e i (snd (alvs_lock_connection e st)) = (0, st1)"
    and m: "tabs st2 = tabs st1" "conn_info (sh st2) i = conn_info (sh st1) i"
      "cir_conn_class_key (conn_info_result st2) = cir_conn_class_key (conn_info_result st1)"
      "tabs st' = tabs (snd (ezdp_modify_conn_info e i st2))"
    unfolding modified_under_lock_def by blast
  note f = conn_info_lookup_found [OF l assms(1)]
  have "conn_inv e U (tabs st2)" using lock_inv [OF assms(2,3)] f(2) m(1) by simp
  from modify_conn_info_inv [OF this, of i "conn_info_result st1"] f(1) m(2,3,4) show ?thesis by simp
qed

lemma modified_under_lockI:
  assumes "tabs st' = tabs (snd (ezdp_modify_conn_info e i st2))"
    and "alvs_conn_info_lookup e i (snd (alvs_lock_connection e st)) = (0, st1)" "tabs st2 = tabs st1"
    and "cir_conn_class_key (conn_info_result st2) = cir_conn_class_key (conn_info_result st1)"
  shows "modified_under_lock e i st st'"
  unfolding modified_under_lock_def
  by (intro exI conjI, rule assms(2), rule assms(3)) (use assms in \<open>auto simp: view_defs\<close>)

lemma lookup_after_lock:
  obtains rc st1 where "alvs_conn_info_lookup e i (snd (alvs_lock_connection e st)) = (rc, st1)"
    "tabs st1 = tabs (snd (alvs_lock_connection e st))"
  by (metis lookup_views(22) prod.collapse snd_conv)

lemma conn_stats_keep [simp]:
  "conn_info_result (alvs_update_connection_statistics a b c st) = conn_info_result st"
  by (simp add: alvs_update_connection_statistics_def ezdp_add_posted_ctr_def Let_def)

lemma update_state_shape:
  "tabs (snd (alvs_conn_update_state e i s st)) = tabs (snd (alvs_lock_connection e st)) \<or>
   modified_under_lock e i st (snd (alvs_conn_update_state e i s st))"
proof -
  obtain rc st1 where l: "alvs_conn_info_lookup e i (snd (alvs_lock_connection e st)) = (rc, st1)"
    and t: "tabs st1 = tabs (snd (alvs_lock_connection e st))" by (rule lookup_after_lock)
  show ?thesis
    by (cases "rc \<noteq> 0 \<or> cir_conn_state (conn_info_result st1) = s \<or> cir_delete_bit (conn_info_result st1)")
      (auto simp: alvs_conn_update_state_def case_prod_beta Let_def l t dp_simps
        intro!: disjI2 modified_under_lockI [where ?st1.0 = st1])
qed

lemma mark_to_delete_shape:
  "tabs (snd (alvs_conn_mark_to_delete e i r st)) = tabs (snd (alvs_lock_connection e st)) \<or>
   modified_under_lock e i st (snd (alvs_conn_mark_to_delete e i r st))"
proof -
  obtain rc st1 where l: "alvs_conn_info_lookup e i (snd (alvs_lock_connection e st)) = (rc, st1)"
    and t: "tabs st1 = tabs (snd (alvs_lock_connection e st))" by (rule lookup_after_lock)
  show ?thesis
    by (cases "rc \<noteq> 0 \<or> cir_delete_bit (conn_info_result st1)")
      (auto simp: alvs_conn_mark_to_delete_def case_prod_beta Let_def l t dp_simps
        intro!: disjI2 modified_under_lockI [where ?st1.0 = st1])
qed

lemma refresh_shape:
  "tabs (snd (alvs_conn_refresh e i st)) = tabs (snd (alvs_lock_connection e st)) \<or>
   modified_under_lock e i st (snd (alvs_conn_refresh e i st))"
proof -
  obtain rc st1 where l: "alvs_conn_info_lookup e i (snd (alvs_lock_connection e st)) = (rc, st1)"
    and t: "tabs st1 = tabs (snd (alvs_lock_connection e st))" by (rule lookup_after_lock)
  show ?thesis
    by (cases "rc = 0")
      (auto simp: alvs_conn_refresh_def case_prod_beta Let_def l t dp_simps
        intro!: disjI2 modified_under_lockI [where ?st1.0 = st1])
qed

lemma bind_shape:
  "tabs (snd (alvs_conn_bind e i v st)) = tabs (snd (alvs_lock_connection e st)) \<or>
   modified_under_lock e i st (snd (alvs_conn_bind e i v st))"
proof -
  obtain rc st1 where l: "alvs_conn_info_lookup e i (snd (alvs_lock_connection e st)) = (rc, st1)"
    and t: "tabs st1 = tabs (snd (alvs_lock_connection e st))" by (rule lookup_after_lock)
  show ?thesis
    by (cases "rc \<noteq> 0 \<or> cir_bound (conn_info_result st1)")
      (auto simp: alvs_conn_bind_def case_prod_beta Let_def l t dp_simps
        intro!: disjI2 modified_under_lockI [where ?st1.0 = st1])
qed

lemma age_out_shape:
  "tabs (snd (alvs_conn_age_out e i n st)) = tabs (snd (alvs_lock_connection e st)) \<or>
   modified_under_lock e i st (snd (alvs_conn_age_out e i n st))"
proof -
  obtain rc st1 where l: "alvs_conn_info_lookup e i (snd (alvs_lock_connection e st)) = (rc, st1)"
    and t: "tabs st1 = tabs (snd (alvs_lock_connection e st))" by (rule lookup_after_lock)
  show ?thesis
    by (cases "rc = 0")
      (auto simp: alvs_conn_age_out_def case_prod_beta Let_def l t dp_simps
        intro!: disjI2 modified_under_lockI [where ?st1.0 = st1])
qed

lemmas locked_change_inv =
  modified_under_lock_inv [OF _ _ _ update_state_shape] modified_under_lock_inv [OF _ _ _ mark_to_delete_shape]
  modified_under_lock_inv [OF _ _ _ refresh_shape] modified_under_lock_inv [OF _ _ _ bind_shape]
  modified_under_lock_inv [OF _ _ _ age_out_shape]

subsection \<open>Creation and deletion\<close>

lemma alloc_index_cases:
  assumes "conn_inv e U (tabs st)" "ezdp_alloc_index e st = (i, st1)"
  shows "i = EZDP_NULL_INDEX e \<and> tabs st1 = tabs st \<or>
    i \<noteq> EZDP_NULL_INDEX e \<and> i \<in> set (conn_pool (sh st)) \<and>
      tabs st1 = (conn_class (sh st), conn_info (sh st), remove1 i (conn_pool (sh st)))"
  using assms
  by (auto simp: ezdp_alloc_index_def conn_inv_def view_defs dp_tick_def Let_def split: if_splits)

lemma alloc_index_key [simp]: "conn_class_key (snd (ezdp_alloc_index e st)) = conn_class_key st"
  by (simp add: ezdp_alloc_index_def dp_tick_def Let_def)

lemma add_conn_info_key [simp]: "conn_class_key (ezdp_add_conn_info e i st) = conn_class_key st"
  by (simp add: ezdp_add_conn_info_def dp_tick_def)

lemma create_inv:
  assumes "tables_reliable e" "conn_inv e U (tabs st)" "conn_class (sh st) (conn_class_key st) = None"
  shows "conn_inv e U (tabs (snd (alvs_conn_create_new_entry e b v p cs fl r st)))"
proof -
  obtain i st1 where a: "ezdp_alloc_index e st = (i, st1)" by fastforce
  have key: "conn_class_key st1 = conn_class_key st" by (metis a alloc_index_key snd_conv)
  from alloc_index_cases [OF assms(2) a] show ?thesis
  proof (elim disjE conjE)
    assume "i = EZDP_NULL_INDEX e" "tabs st1 = tabs st"
    with assms(2) show ?thesis by (simp add: alvs_conn_create_new_entry_def a dp_simps)
  next
    assume i: "i \<noteq> EZDP_NULL_INDEX e" "i \<in> set (conn_pool (sh st))"
      and t: "tabs st1 = (conn_class (sh st), conn_info (sh st), remove1 i (conn_pool (sh st)))"
    define c where "c = new_conn_info (conn_class_key st) b v p cs fl r"
    define st2 where "st2 = (ezdp_add_conn_info e i (st1\<lparr>conn_info_result := c\<rparr>))\<lparr>conn_result := \<lparr>ccr_conn_index = i\<rparr>\<rparr>"
    have ck: "cir_conn_class_key c = conn_class_key st" by (simp add: c_def new_conn_info_def)
    have st2: "tabs st2 = (conn_class (sh st), (conn_info (sh st))(i \<mapsto> c), remove1 i (conn_pool (sh st)))"
      "conn_class_key st2 = conn_class_key st" "conn_result st2 = \<lparr>ccr_conn_index = i\<rparr>"
      using assms(1) t key
      by (auto simp: st2_def ezdp_add_conn_info_def tables_reliable_def dp_tick_def view_defs)
    obtain rc st3 where h: "ezdp_add_conn_class e (conn_class_key st) \<lparr>ccr_conn_index = i\<rparr> st2 = (rc, st3)" by fastforce
    have unf: "tabs (snd (alvs_conn_create_new_entry e b v p cs fl r st)) =
        (if rc \<noteq> 0 then tabs (ezdp_free_index i (alvs_server_overload_on_delete_conn (snd (ezdp_delete_conn_info e i st3))))
         else tabs st3)"
      by (cases "rc = 0")
        (simp_all add: alvs_conn_create_new_entry_def a i(1) key Let_def case_prod_beta h [unfolded st2_def c_def] dp_simps)
    show ?thesis
    proof (cases "rc = 0")
      case True
      then have "tabs st3 = ((conn_class (sh st))(conn_class_key st \<mapsto> \<lparr>ccr_conn_index = i\<rparr>),
          (conn_info (sh st))(i \<mapsto> c), remove1 i (conn_pool (sh st)))"
        using h st2 by (auto simp: ezdp_add_conn_class_def dp_tick_def view_defs split: if_splits)
      moreover have inv: "conn_inv e U (conn_class (sh st), conn_info (sh st), conn_pool (sh st))"
        using assms(2) by (simp add: view_defs)
      note conn_inv_create [OF inv i(2), of "conn_class_key st" c]
      ultimately have "conn_inv e U (tabs st3)" using assms(3) ck by simp
      then show ?thesis using True by (simp add: unf)
    next
      case False
      then have t3: "tabs st3 = tabs st2" using h
        by (auto simp: ezdp_add_conn_class_def dp_tick_def view_defs split: if_splits)
      have free: "conn_info (sh st) i = None" using assms(2) i(2) by (simp add: conn_inv_def view_defs)
      have "tabs (snd (ezdp_delete_conn_info e i st3)) =
          (conn_class (sh st), conn_info (sh st), remove1 i (conn_pool (sh st)))"
        using t3 st2(1) assms(1) free
        by (auto simp: ezdp_delete_conn_info_def tables_reliable_def dp_tick_def view_defs fun_upd_idem)
      moreover have "tabs (ezdp_free_index i s) = (fst (tabs s), fst (snd (tabs s)), i # snd (snd (tabs s)))" for s
        by (simp add: ezdp_free_index_def view_defs)
      moreover have "conn_inv e U (conn_class (sh st), conn_info (sh st), i # remove1 i (conn_pool (sh st)))"
        using assms(2) i free by (auto simp: conn_inv_def view_defs dest: notin_set_remove1)
      ultimately show ?thesis using False by (simp add: unf dp_simps)
    qed
  qed
qed

lemma delete_without_lock_tabs:
  assumes "tables_reliable e" "conn_inv e U (tabs st)" "conn_info (sh st) i = Some c"
    and "cir_conn_class_key (conn_info_result st) = cir_conn_class_key c"
  shows "tabs (alvs_conn_delete_without_lock e i st) =
    ((conn_class (sh st))(cir_conn_class_key c := None), (conn_info (sh st))(i := None), i # conn_pool (sh st))"
proof -
  let ?k = "cir_conn_class_key c"
  have "conn_class (sh st) ?k = Some \<lparr>ccr_conn_index = i\<rparr>"
    using assms(2,3) by (auto simp: conn_inv_def view_defs)
  then obtain st1 where d: "ezdp_delete_conn_class e (cir_conn_class_key (conn_info_result st)) st = (0, st1)"
    and t1: "tabs st1 = ((conn_class (sh st))(?k := None), conn_info (sh st), conn_pool (sh st))"
    using assms(1,4) by (auto simp: ezdp_delete_conn_class_def tables_reliable_def dp_tick_def view_defs)
  obtain st2 where i: "ezdp_delete_conn_info e i st1 = (0, st2)"
    "tabs st2 = ((conn_class (sh st))(?k := None), (conn_info (sh st))(i := None), conn_pool (sh st))"
    using t1 assms(1,3)
    by (auto simp: ezdp_delete_conn_info_def tables_reliable_def dp_tick_def view_defs)
  have "tabs (ezdp_free_index i s) = (fst (tabs s), fst (snd (tabs s)), i # snd (snd (tabs s)))" for s
    by (simp add: ezdp_free_index_def view_defs)
  with i(2) show ?thesis
    by (simp add: alvs_conn_delete_without_lock_def d i(1) Let_def case_prod_beta dp_simps)
qed

lemma delete_without_lock_inv:
  assumes "tables_reliable e" "conn_inv e U (tabs st)" "conn_info (sh st) i = Some c"
    and "cir_conn_class_key (conn_info_result st) = cir_conn_class_key c"
  shows "conn_inv e U (tabs (alvs_conn_delete_without_lock e i st))"
  using conn_inv_delete [of e U "conn_class (sh st)" "conn_info (sh st)" "conn_pool (sh st)" i c] assms(2,3)
  unfolding delete_without_lock_tabs [OF assms] by (simp add: view_defs)

subsection \<open>Packets\<close>

lemma find_server_keep [simp]:
  "conn_info_result (snd (alvs_find_server_index e a b c d p st)) = conn_info_result st"
  by (simp add: alvs_find_server_index_def dp_tick_def split: sum.split)

lemma try_bind_inv:
  assumes "lookups_ok e" "rely e U" "conn_inv e U (tabs st)"
  shows "conn_inv e U (tabs (try_bind e i st))"
  using assms by (auto simp: try_bind_def Let_def case_prod_beta dp_simps intro!: locked_change_inv split: option.split)

lemma check_bound_server_inv:
  assumes "lookups_ok e" "rely e U" "conn_inv e U (tabs st)"
  shows "conn_inv e U (tabs (snd (check_bound_server e i st)))"
  using assms by (auto simp: check_bound_server_def Let_def case_prod_beta dp_simps intro!: locked_change_inv)

lemma check_conn_state_inv:
  assumes "lookups_ok e" "rely e U" "conn_inv e U (tabs st)"
  shows "conn_inv e U (tabs (snd (check_conn_state e tcp i st)))"
  using assms by (auto simp: check_conn_state_def Let_def case_prod_beta dp_simps intro!: locked_change_inv)

lemma data_path_inv:
  assumes "lookups_ok e" "rely e U" "conn_inv e U (tabs st)"
  shows "conn_inv e U (tabs (alvs_conn_data_path e tcp i st))"
  using assms
  by (auto simp: alvs_conn_data_path_def Let_def case_prod_beta dp_simps
      intro!: try_bind_inv check_bound_server_inv check_conn_state_inv)

text \<open>The key a thread works on is changed by none of the operations of the slow path.\<close>

lemma counter_key [simp]:
  "conn_class_key (ezdp_add_posted_ctr a v st) = conn_class_key st"
  "conn_class_key (ezdp_add_single_ctr a v st) = conn_class_key st"
  "conn_class_key (ezdp_atomic_set32 a f st) = conn_class_key st"
  "conn_class_key (dp_tick st) = conn_class_key st"
  "conn_class_key (ezframe_free st) = conn_class_key st"
  by (simp_all add: ezdp_add_posted_ctr_def ezdp_add_single_ctr_def ezdp_atomic_set32_def dp_tick_def ezframe_free_def)

lemma discard_key [simp]: "conn_class_key (alvs_discard_and_stats e x st) = conn_class_key st"
  by (simp add: alvs_discard_and_stats_def alvs_discard_frame_def alvs_update_discard_statistics_def)

lemma sched_lookup_key [simp]:
  "conn_class_key (snd (alvs_server_sched_lookup e k st)) = conn_class_key st"
  "conn_class_key (snd (alvs_server_info_lookup e i st)) = conn_class_key st"
  "conn_class_key (snd (alvs_sched_service_info_lookup e s st)) = conn_class_key st"
  "conn_class_key (snd (alvs_server_overload_on_create_conn st)) = conn_class_key st"
  "conn_class_key (snd (alvs_sched_check_active_servers e st)) = conn_class_key st"
  "conn_class_key (snd (alvs_find_server_index e a b c d p st)) = conn_class_key st"
  by (simp_all add: alvs_server_sched_lookup_def alvs_server_info_lookup_def alvs_sched_service_info_lookup_def
      alvs_server_overload_on_create_conn_def alvs_sched_check_active_servers_def alvs_sched_handle_no_active_servers_def
      alvs_find_server_index_def dp_tick_def Let_def split: sum.split)

lemma get_server_info_key [simp]: "conn_class_key (snd (alvs_sched_get_server_info e i st)) = conn_class_key st"
  by (simp add: alvs_sched_get_server_info_def Let_def case_prod_beta)

lemma sched_loop_key [simp]:
  "conn_class_key (snd (sh_fallback_loop e si h n off st)) = conn_class_key st"
  "conn_class_key (snd (rr_sched_loop e si n c st)) = conn_class_key st"
  by (induction n arbitrary: off c st) (simp_all add: Let_def case_prod_beta)

lemma sh_schedule_key [simp]:
  "conn_class_key (snd (alvs_sched_sh_schedule_connection e si sip port st)) = conn_class_key st"
  "conn_class_key (snd (alvs_sched_rr_schedule_connection e si st)) = conn_class_key st"
  by (simp_all add: alvs_sched_sh_schedule_connection_def alvs_sched_rr_schedule_connection_def
      alvs_sched_handle_no_active_servers_def Let_def case_prod_beta split: option.split)

lemma schedule_key [simp]: "conn_class_key (snd (schedule_connection e si ip tcp st)) = conn_class_key st"
  by (simp add: schedule_connection_def split: alvs_scheduler_type.split)

lemma class_of_tabs: "conn_class (sh st) = fst (tabs st)"
  by (simp add: view_defs)

lemma lookup_not_found:
  assumes "lookups_ok e" "ezdp_lookup e found st = Inl rc"
  shows "found = None"
  using assms by (cases found) auto

lemma schedule_new_inv:
  assumes "lookups_ok e" "tables_reliable e" "rely e U" "conn_inv e U (tabs st)"
  shows "conn_inv e U (tabs (snd (alvs_tcp_schedule_new_connection e si ip tcp st)))"
proof (cases "sir_sched_entries_count (service_info_result st) = 0")
  case True
  then show ?thesis using assms(4)
    by (simp add: alvs_tcp_schedule_new_connection_def alvs_sched_check_active_servers_def dp_simps)
next
  case False
  then have act: "alvs_sched_check_active_servers e st = (True, st)" by (simp add: alvs_sched_check_active_servers_def)
  obtain h st1 where l: "alvs_lock_connection e st = (h, st1)" by fastforce
  have inv: "conn_inv e U (tabs st1)" using lock_inv [OF assms(3,4)] by (simp add: l)
  show ?thesis
  proof (cases "conn_class (sh st1) (conn_class_key st1)")
    case (Some r)
    then show ?thesis using inv assms(1)
      by (simp add: alvs_tcp_schedule_new_connection_def act l Let_def case_prod_beta dp_simps)
  next
    case None
    obtain ok st2 where s: "schedule_connection e si ip tcp (dp_tick st1) = (ok, st2)" by fastforce
    have t2: "tabs st2 = tabs st1" "conn_class_key st2 = conn_class_key st1"
      using schedule_connection_views(1) [of e si ip tcp "dp_tick st1"] schedule_key [of e si ip tcp "dp_tick st1"]
      by (simp_all add: s dp_simps)
    have "conn_inv e U (tabs (snd (create_scheduled_connection e tcp st2)))"
      using create_inv [OF assms(2)] inv t2 None
      by (simp add: create_scheduled_connection_def Let_def case_prod_beta dp_simps class_of_tabs)
    then show ?thesis using assms(1) None inv t2
      by (simp add: alvs_tcp_schedule_new_connection_def act l Let_def case_prod_beta s dp_simps ENOENT_def EIO_def)
  qed
qed

lemma service_data_path_inv:
  assumes "lookups_ok e" "tables_reliable e" "rely e U" "conn_inv e U (tabs st)"
  shows "conn_inv e U (tabs (snd (alvs_service_data_path e si ip tcp st)))"
  using assms by (simp add: alvs_service_data_path_def Let_def case_prod_beta dp_simps schedule_new_inv)

lemma unknown_packet_inv:
  assumes "lookups_ok e" "tables_reliable e" "rely e U" "conn_inv e U (tabs st)"
  shows "conn_inv e U (tabs (alvs_unknown_packet_processing e ip tcp st))"
  using assms service_data_path_inv [OF assms(1-3)]
  by (auto simp: alvs_unknown_packet_processing_def Let_def case_prod_beta dp_simps
      intro!: data_path_inv split: sum.split alvs_service_output_result.split)

lemma tcp_processing_inv:
  assumes "lookups_ok e" "tables_reliable e" "rely e U" "conn_inv e U (tabs st)"
  shows "conn_inv e U (tabs (alvs_tcp_processing e ip tcp st))"
  using assms by (auto simp: alvs_tcp_processing_def Let_def dp_simps intro!: data_path_inv unknown_packet_inv split: sum.split)

end
