(* ===== verification/Dp_Job_Props.thy ===== *)
theory Dp_Job_Props
  imports Dp_Conn_Props
begin

text \<open>
  The invariant of the connection tables over the jobs of the main loop: received frames, the
  synchronisation messages of a master among them, and the events of the aging timer.
\<close>

subsection \<open>Synchronisation messages\<close>

lemma sync_create_inv:
  assumes "tables_reliable e" "conn_inv e U (tabs st)" "conn_class (sh st) (conn_class_key st) = None"
  shows "conn_inv e U (tabs (snd (sync_create_conn e conn fl st)))"
  using assms
  by (auto simp: sync_create_conn_def Let_def case_prod_beta dp_simps class_of_tabs intro!: create_inv split: option.split)

lemma server_info_keep [simp]:
  "conn_info_result (snd (alvs_server_info_lookup e i st)) = conn_info_result st"
  by (simp add: alvs_server_info_lookup_def dp_tick_def split: sum.split)

lemma sync_update_inv:
  assumes "conn_inv e U (tabs st)" "conn_info (sh st) i = Some (conn_info_result st)"
  shows "conn_inv e U (tabs (sync_update_conn e conn fl i st))"
proof -
  have info: "conn_info (sh s) = fst (snd (tabs s))" for s by (simp add: view_defs)
  show ?thesis
    unfolding sync_update_conn_def Let_def
    by (rule modify_conn_info_inv [where c = "conn_info_result st"])
      (use assms in \<open>auto simp: info case_prod_beta dp_simps split: option.split\<close>)
qed

lemma delete_op_keys [simp]:
  "conn_class_key (snd (ezdp_delete_conn_class e k st)) = conn_class_key st"
  "conn_class_key (snd (ezdp_delete_conn_info e i st)) = conn_class_key st"
  "conn_class_key (alvs_server_overload_on_delete_conn st) = conn_class_key st"
  "conn_class_key (alvs_update_connection_statistics a b c st) = conn_class_key st"
  "conn_class_key (ezdp_free_index i st) = conn_class_key st"
  by (simp_all add: ezdp_delete_conn_class_def ezdp_delete_conn_info_def alvs_server_overload_on_delete_conn_def
      alvs_update_connection_statistics_def ezdp_free_index_def Let_def)

lemma delete_key [simp]:
  "conn_class_key (alvs_conn_delete_without_lock e i st) = conn_class_key st"
proof -
  obtain rc1 st1 where 1: "ezdp_delete_conn_class e (cir_conn_class_key (conn_info_result st)) st = (rc1, st1)" by fastforce
  obtain rc2 st2 where 2: "ezdp_delete_conn_info e i st1 = (rc2, st2)" by fastforce
  obtain rc3 st3 where 3: "alvs_server_info_lookup e (cir_server_word (conn_info_result st2)) st2 = (rc3, st3)" by fastforce
  have "conn_class_key st1 = conn_class_key st" "conn_class_key st2 = conn_class_key st1" "conn_class_key st3 = conn_class_key st2"
    using 1 2 3 delete_op_keys(1,2) sched_lookup_key(2) by (metis snd_conv)+
  then show ?thesis by (simp add: alvs_conn_delete_without_lock_def 1 2 3 Let_def)
qed

lemma existing_conn_inv:
  assumes "lookups_ok e" "tables_reliable e" "conn_inv e U (tabs st)"
    and "conn_class (sh st) (conn_class_key st) = Some r"
    and "sync_existing_conn e conn (ccr_conn_index r) st = (res, st')"
  shows "conn_inv e U (tabs st')"
    and "res = EC_Update \<Longrightarrow> conn_info (sh st') (ccr_conn_index r) = Some (conn_info_result st')"
    and "res = EC_Create \<Longrightarrow> conn_class (sh st') (conn_class_key st') = None"
proof -
  let ?i = "ccr_conn_index r"
  obtain c where c: "conn_info (sh st) ?i = Some c" "cir_conn_class_key c = conn_class_key st"
    by (rule conn_inv_class [OF assms(3,4)])
  define st1 where "st1 = (dp_tick st)\<lparr>conn_info_result := c\<rparr>"
  have l: "alvs_conn_info_lookup e ?i st = (0, st1)"
    using assms(1) c by (simp add: alvs_conn_info_lookup_def st1_def)
  obtain rc st2 where s: "(if cir_bound c then alvs_server_info_lookup e (cir_server_word c) st1 else (0, st1)) = (rc, st2)"
    by fastforce
  have st2: "st2 = (if cir_bound c then snd (alvs_server_info_lookup e (cir_server_word c) st1) else st1)"
    using s by (auto split: if_splits)
  have k2: "tabs st2 = tabs st" "conn_info_result st2 = c" "conn_class_key st2 = conn_class_key st"
    by (simp_all add: st2 st1_def dp_simps)
  have c2: "conn_info (sh st2) ?i = Some c" using c(1) k2(1) by (simp add: view_defs)
  have inv2: "conn_inv e U (tabs st2)" using assms(3) k2(1) by simp
  have st': "st' = st2 \<and> res \<noteq> EC_Create \<or> res = EC_Create \<and> st' = alvs_conn_delete_without_lock e ?i st2"
    using assms(5) s by (auto simp: sync_existing_conn_def l st1_def Let_def split: if_splits)
  note del = delete_without_lock_tabs [OF assms(2) inv2 c2]
  show "conn_inv e U (tabs st')"
    using st' inv2 delete_without_lock_inv [OF assms(2) inv2 c2] k2(2) by auto
  show "res = EC_Update \<Longrightarrow> conn_info (sh st') ?i = Some (conn_info_result st')"
    using st' c2 k2(2) by auto
  show "res = EC_Create \<Longrightarrow> conn_class (sh st') (conn_class_key st') = None"
    using st' del k2(2,3) c(2) by (auto simp: class_of_tabs)
qed

lemma locked_conn_inv:
  assumes "lookups_ok e" "tables_reliable e" "conn_inv e U (tabs st)"
  shows "conn_inv e U (tabs (snd (sync_locked_conn e conn st)))"
proof (cases "conn_class (sh st) (conn_class_key st)")
  case None
  then show ?thesis using assms sync_create_inv [OF assms(2), of U "dp_tick st"]
    by (simp add: sync_locked_conn_def class_of_tabs dp_simps)
next
  case (Some r)
  obtain res st2 where x: "sync_existing_conn e conn (ccr_conn_index r) (dp_tick st) = (res, st2)" by fastforce
  have inv: "conn_inv e U (tabs (dp_tick st))" using assms(3) by (simp add: dp_simps)
  have "conn_class (sh (dp_tick st)) (conn_class_key (dp_tick st)) = Some r"
    using Some by (simp add: dp_tick_def)
  note ex = existing_conn_inv [OF assms(1,2) inv this x]
  show ?thesis using Some assms(1) x ex sync_create_inv [OF assms(2)] sync_update_inv
    by (cases res) (auto simp: sync_locked_conn_def)
qed

lemma process_conn_inv:
  assumes "lookups_ok e" "tables_reliable e" "rely e U" "conn_inv e U (tabs st)"
  shows "conn_inv e U (tabs (snd (alvs_state_sync_process_conn e conn st)))"
  using assms
  by (simp add: alvs_state_sync_process_conn_def Let_def case_prod_beta dp_simps locked_conn_inv lock_inv)

subsection \<open>Frames\<close>

lemma load_tail_tabs [dp_simps]: "tabs (snd (load_tail e need off len tail st)) = tabs st"
proof (induction e need off len tail st rule: load_tail.induct)
  case (1 e need off buflen tail st)
  obtain rc st1 where n: "ezframe_next_buf st = (rc, st1)" by fastforce
  obtain b st2 where l: "ezframe_load_buf st1 = (b, st2)" by fastforce
  have "tabs st1 = tabs st" "tabs st2 = tabs st1"
    using frame_op_views_snd(1) [of st1] frame_op_views_snd(3) [of st] by (simp_all add: n l)
  then show ?case
    using "1.IH" [OF _ n [symmetric] refl _ l [symmetric] refl] by (subst load_tail.simps) (auto simp: n l)
qed

lemma load_struct_tabs [dp_simps]: "tabs (snd (load_struct e need off len st)) = tabs st"
  using load_tail_tabs [of e need off len "[]" st]
  by (auto simp: load_struct_def Let_def split: prod.split option.split)

lemma backup_conns_inv:
  assumes "lookups_ok e" "tables_reliable e" "rely e U" "conn_inv e U (tabs st)"
  shows "conn_inv e U (tabs (backup_conns e n off len st))"
  using assms(4)
proof (induction n arbitrary: off len st)
  case 0
  then show ?case by (simp add: dp_simps)
next
  case (Suc n)
  obtain r st1 where l: "load_struct e SYNC_CONN_SIZE off len st = (r, st1)" by fastforce
  have "conn_inv e U (tabs st1)" using load_struct_tabs [of e SYNC_CONN_SIZE off len st] Suc.prems by (simp add: l)
  then have "conn_inv e U (tabs (snd (alvs_state_sync_process_conn e conn st1)))" for conn
    by (rule process_conn_inv [OF assms(1-3)])
  with \<open>conn_inv e U (tabs st1)\<close> show ?case
    using Suc.IH by (auto simp: l Let_def case_prod_beta dp_simps split: option.split)
qed

lemma backup_inv:
  assumes "lookups_ok e" "tables_reliable e" "rely e U" "conn_inv e U (tabs st)"
  shows "conn_inv e U (tabs (alvs_state_sync_backup e off len st))"
proof -
  have "conn_inv e U (tabs (dp_tick st))" using assms(4) by (simp add: dp_simps)
  moreover obtain r st1 where l: "load_struct e SYNC_HEADER_SIZE off len (dp_tick st) = (r, st1)" by fastforce
  moreover have "tabs st1 = tabs (dp_tick st)"
    using load_struct_tabs [of e SYNC_HEADER_SIZE off len "dp_tick st"] by (simp add: l)
  ultimately show ?thesis
    by (auto simp: alvs_state_sync_backup_def alvs_util_app_info_lookup_def Let_def dp_simps
        intro!: backup_conns_inv [OF assms(1-3)] split: sum.split option.split)
qed

lemma packet_inv:
  assumes "lookups_ok e" "tables_reliable e" "rely e U" "conn_inv e U (tabs st)"
  shows "conn_inv e U (tabs (alvs_packet_processing e d len off my st))"
  using assms
  by (auto simp: alvs_packet_processing_def Let_def dp_simps intro!: tcp_processing_inv backup_inv)

lemma receive_inv:
  assumes "lookups_ok e" "tables_reliable e" "rely e U" "conn_inv e U (tabs st)"
  shows "conn_inv e U (tabs (nw_recieve_and_parse_frame e port st))"
proof -
  have "conn_inv e U (tabs (receive_from_network e s))" if "conn_inv e U (tabs s)" for s
    using that assms(1-3)
    by (auto simp: receive_from_network_def Let_def case_prod_beta dp_simps intro!: packet_inv)
  then show ?thesis using assms
    by (auto simp: nw_recieve_and_parse_frame_def Let_def case_prod_beta dp_simps split: dp_path_type.split)
qed

end
