(* ===== verification/Dp_Aging_Props.thy ===== *)
theory Dp_Aging_Props
  imports Dp_Job_Props
begin

text \<open>
  Aging: the invariant of the connection tables over the events of the timer and over all jobs, and the
  life of a connection without traffic.
\<close>

subsection \<open>Aging keeps the tables\<close>

definition quiet :: "dp_env \<Rightarrow> bool" where
  "quiet e \<longleftrightarrow> (\<forall>n s. others e n s = s)"

lemma quiet_rely: "quiet e \<Longrightarrow> rely e U"
  by (simp add: quiet_def rely_def)

lemma quiet_lock:
  assumes "quiet e"
  shows "sh (snd (alvs_lock_connection e st)) = sh st"
    "conn_info_result (snd (alvs_lock_connection e st)) = conn_info_result st"
    "tabs (snd (alvs_lock_connection e st)) = tabs st"
  using assms by (simp_all add: view_defs alvs_lock_connection_def ezdp_lock_spinlock_def quiet_def dp_tick_def Let_def)

lemma age_delete_inv:
  assumes "tables_reliable e" "quiet e" "conn_inv e U (tabs st)" "conn_info (sh st) i = Some (conn_info_result st)"
  shows "conn_inv e U (tabs (age_delete e i st))"
  using assms delete_without_lock_inv [OF assms(1), of U "snd (alvs_lock_connection e
      (st\<lparr>conn_class_key := cir_conn_class_key (conn_info_result st)\<rparr>))" i "conn_info_result st"]
  by (simp add: age_delete_def alvs_conn_delete_def Let_def case_prod_beta dp_simps quiet_lock)

lemma age_connection_inv:
  assumes "lookups_ok e" "tables_reliable e" "quiet e" "conn_inv e U (tabs st)"
  shows "conn_inv e U (tabs (age_connection e n ip sid i st))"
proof (cases "conn_info (sh st) i")
  case None
  then show ?thesis using assms(1,4)
    by (simp add: age_connection_def alvs_conn_info_lookup_def dp_simps ENOENT_def)
next
  case (Some c)
  define st1 where "st1 = (dp_tick st)\<lparr>conn_info_result := c\<rparr>"
  have l: "alvs_conn_info_lookup e i st = (0, st1)"
    using assms(1) Some by (simp add: alvs_conn_info_lookup_def st1_def)
  have inv: "conn_inv e U (tabs st1)" using assms(4) by (simp add: st1_def dp_simps)
  have "conn_info (sh st1) i = Some (conn_info_result st1)" using Some by (simp add: st1_def dp_tick_def)
  note del = age_delete_inv [OF assms(2,3) inv this]
  have out: "conn_inv e U (tabs (snd (alvs_conn_age_out e i n (st1\<lparr>conn_class_key := k\<rparr>))))" for k
    by (rule locked_change_inv(5)) (use assms(1,3) inv in \<open>auto simp: quiet_rely dp_simps\<close>)
  show ?thesis
    using del out inv by (simp add: age_connection_def l Let_def case_prod_beta dp_simps)
qed

lemma age_scan_inv:
  assumes "lookups_ok e" "tables_reliable e" "quiet e" "conn_inv e U (tabs st)"
  shows "conn_inv e U (tabs (age_scan e n ip sid k i st))"
  using assms(4) by (induction k arbitrary: i st) (simp_all add: age_connection_inv [OF assms(1-3)])

lemma start_sync_tabs [dp_simps]: "tabs (snd (snd (start_sync e st))) = tabs st"
  by (simp add: start_sync_def Let_def case_prod_beta dp_simps split: sum.split)

lemma aging_event_inv:
  assumes "lookups_ok e" "tables_reliable e" "quiet e" "conn_inv e U (tabs st)"
  shows "conn_inv e U (tabs (alvs_handle_aging_event e ev st))"
  using assms age_scan_inv [OF assms(1-3)]
  by (simp add: alvs_handle_aging_event_def Let_def case_prod_beta dp_simps)

lemma receive_tabs [dp_simps]: "tabs (ezframe_receive bufs len st) = tabs st"
  by (simp add: ezframe_receive_def view_defs)

lemma jobs_inv:
  assumes "lookups_ok e" "tables_reliable e" "rely e U" "quiet e \<or> (\<forall>ev. Timer_Job ev \<notin> set jobs)"
    and "conn_inv e U (tabs st)"
  shows "conn_inv e U (tabs (packet_processing e jobs st))"
  using assms(4,5)
proof (induction jobs arbitrary: st)
  case (Cons j jobs)
  have "conn_inv e U (tabs (process_job e j st))"
  proof (cases j)
    case (Frame_Job port bufs len)
    then show ?thesis using receive_inv [OF assms(1-3)] Cons.prems(2) by (simp add: dp_simps)
  next
    case (Timer_Job ev)
    with Cons.prems have "quiet e" by auto
    with Timer_Job show ?thesis using aging_event_inv [OF assms(1,2)] Cons.prems(2) by (simp add: dp_simps)
  qed
  moreover have "quiet e \<or> (\<forall>ev. Timer_Job ev \<notin> set jobs)" using Cons.prems(1) by auto
  ultimately show ?case using Cons.IH by (simp add: packet_processing_def)
qed (simp add: packet_processing_def)

subsection \<open>Life of a connection without traffic\<close>

text \<open>
  The effect of one visit of the aging scan on the entry of a connection, with \<open>m\<close> the number of the
  iteration modulo the number of iterations the connection's state allows.
\<close>

lemma age_out_entry:
  assumes "lookups_ok e" "tables_reliable e" "quiet e" "conn_info (sh st) i = Some c"
  shows "conn_info (sh (snd (alvs_conn_age_out e i n st))) =
      (conn_info (sh st))(i \<mapsto> c\<lparr>cir_aging_bit := False, cir_age_iteration := ucast (ezdp_mod e (ucast n)
        (alvs_util_get_conn_iterations (ucast (cir_conn_state c))) 0)\<rparr>)"
    and "fst (alvs_conn_age_out e i n st) = 0"
proof -
  obtain h st1 where l: "alvs_lock_connection e st = (h, st1)" by fastforce
  have s: "sh st1 = sh st" using quiet_lock(1) [OF assms(3), of st] by (simp add: l)
  show "conn_info (sh (snd (alvs_conn_age_out e i n st))) =
      (conn_info (sh st))(i \<mapsto> c\<lparr>cir_aging_bit := False, cir_age_iteration := ucast (ezdp_mod e (ucast n)
        (alvs_util_get_conn_iterations (ucast (cir_conn_state c))) 0)\<rparr>)"
    "fst (alvs_conn_age_out e i n st) = 0"
    using assms(1,2,4) s
    by (simp_all add: alvs_conn_age_out_def l alvs_conn_info_lookup_def ezdp_modify_conn_info_def tables_reliable_def
        alvs_unlock_connection_def ezdp_unlock_spinlock_def dp_tick_def)
qed

definition iterations_of :: "alvs_conn_info_result \<Rightarrow> u32" where
  "iterations_of c = alvs_util_get_conn_iterations (ucast (cir_conn_state c))"

lemma info_of_tabs: "conn_info (sh st) = fst (snd (tabs st))"
  by (simp add: view_defs)

lemma age_connection_entry:
  assumes "lookups_ok e" "tables_reliable e" "quiet e" "conn_inv e U (tabs st)" "conn_info (sh st) i = Some c"
  shows "conn_info (sh (age_connection e n ip sid i st)) i =
    (if cir_delete_bit c then None
     else if cir_aging_bit c
     then Some (c\<lparr>cir_aging_bit := False, cir_age_iteration := ucast (ezdp_mod e (ucast n) (iterations_of c) 0)\<rparr>)
     else if ucast (cir_age_iteration c) = ezdp_mod e (ucast n) (iterations_of c) 0 then None
     else Some c)"
proof -
  define st1 where "st1 = (dp_tick st)\<lparr>conn_info_result := c\<rparr>"
  have l: "alvs_conn_info_lookup e i st = (0, st1)"
    using assms(1,5) by (simp add: alvs_conn_info_lookup_def st1_def)
  have c1: "conn_info (sh st1) i = Some c" "conn_info_result st1 = c" "conn_inv e U (tabs st1)"
    using assms(4,5) by (simp_all add: st1_def dp_tick_def view_defs)
  let ?k = "st1\<lparr>conn_class_key := cir_conn_class_key c\<rparr>"
  have c2: "conn_info (sh (snd (alvs_lock_connection e ?k))) i = Some c" "conn_inv e U (tabs (snd (alvs_lock_connection e ?k)))"
    "conn_info_result (snd (alvs_lock_connection e ?k)) = c"
    using c1 assms(3) by (simp_all add: quiet_lock dp_simps)
  have del: "conn_info (sh (age_delete e i st1)) i = None"
    using delete_without_lock_tabs [OF assms(2) c2(2,1)] c2(3) c1(2)
    by (simp add: age_delete_def alvs_conn_delete_def case_prod_beta Let_def dp_simps info_of_tabs)
  have "conn_info (sh ?k) i = Some c" using c1(1) by simp
  note out = age_out_entry [OF assms(1-3) this, of n, folded iterations_of_def]
  have "conn_info (sh (alvs_state_sync_aggr e ip sid s)) = conn_info (sh s)" for s
    by (simp add: info_of_tabs dp_simps)
  then show ?thesis
    using del out c1(1,2) by (simp add: age_connection_def l Let_def case_prod_beta iterations_of_def)
qed

text \<open>What a visit in iteration \<open>n\<close> makes of an entry.\<close>

definition aged :: "dp_env \<Rightarrow> u8 \<Rightarrow> alvs_conn_info_result option \<Rightarrow> alvs_conn_info_result option" where
  "aged e n entry = Option.bind entry (\<lambda>c.
     if cir_delete_bit c then None
     else if cir_aging_bit c
     then Some (c\<lparr>cir_aging_bit := False, cir_age_iteration := ucast (ezdp_mod e (ucast n) (iterations_of c) 0)\<rparr>)
     else if ucast (cir_age_iteration c) = ezdp_mod e (ucast n) (iterations_of c) 0 then None
     else Some c)"

lemma aged_None [simp]: "aged e n None = None"
  by (simp add: aged_def)

lemma age_connection_aged:
  assumes "lookups_ok e" "tables_reliable e" "quiet e" "conn_inv e U (tabs st)"
  shows "conn_info (sh (age_connection e n ip sid i st)) i = aged e n (conn_info (sh st) i)"
proof (cases "conn_info (sh st) i")
  case None
  then have "conn_info (sh (age_connection e n ip sid i st)) = conn_info (sh st)"
    using assms(1) by (simp add: age_connection_def alvs_conn_info_lookup_def ENOENT_def dp_tick_def)
  then show ?thesis using None by (simp add: aged_def)
next
  case (Some c)
  then show ?thesis using age_connection_entry [OF assms] by (simp add: aged_def)
qed

lemma age_connection_other:
  assumes "lookups_ok e" "tables_reliable e" "quiet e" "conn_inv e U (tabs st)" "j \<noteq> i"
  shows "conn_info (sh (age_connection e n ip sid j st)) i = conn_info (sh st) i"
proof (cases "conn_info (sh st) j")
  case None
  then show ?thesis
    using assms(1) by (simp add: age_connection_def alvs_conn_info_lookup_def ENOENT_def dp_tick_def)
next
  case (Some c)
  define st1 where "st1 = (dp_tick st)\<lparr>conn_info_result := c\<rparr>"
  have l: "alvs_conn_info_lookup e j st = (0, st1)"
    using assms(1) Some by (simp add: alvs_conn_info_lookup_def st1_def)
  have c1: "conn_info (sh st1) = conn_info (sh st)" "conn_info_result st1 = c" "conn_inv e U (tabs st1)"
    using assms(4) by (simp_all add: st1_def dp_tick_def view_defs)
  let ?k = "st1\<lparr>conn_class_key := cir_conn_class_key c\<rparr>"
  have c2: "sh (snd (alvs_lock_connection e ?k)) = sh st1" "conn_inv e U (tabs (snd (alvs_lock_connection e ?k)))"
    "conn_info_result (snd (alvs_lock_connection e ?k)) = c"
    using c1 assms(3) by (simp_all add: quiet_lock dp_simps)
  have "conn_info (sh (snd (alvs_lock_connection e ?k))) j = Some c" using c2(1) c1(1) Some by simp
  note t = delete_without_lock_tabs [OF assms(2) c2(2) this]
  have del: "conn_info (sh (age_delete e j st1)) i = conn_info (sh st) i"
    using t c2 c1 assms(5) by (simp add: age_delete_def alvs_conn_delete_def case_prod_beta Let_def dp_simps info_of_tabs)
  have "conn_info (sh ?k) j = Some c" using c1(1) Some by simp
  note out = age_out_entry [OF assms(1-3) this, of n]
  have "conn_info (sh (alvs_state_sync_aggr e ip sid s)) = conn_info (sh s)" for s
    by (simp add: info_of_tabs dp_simps)
  then show ?thesis
    using del out c1 assms(5) by (simp add: age_connection_def l Let_def case_prod_beta)
qed

lemma age_scan_other:
  assumes "lookups_ok e" "tables_reliable e" "quiet e" "conn_inv e U (tabs st)" "\<And>k. k < m \<Longrightarrow> j + of_nat k \<noteq> i"
  shows "conn_info (sh (age_scan e n ip sid m j st)) i = conn_info (sh st) i"
  using assms(4,5)
proof (induction m arbitrary: j st)
  case (Suc m)
  have "conn_info (sh (age_connection e n ip sid j st)) i = conn_info (sh st) i"
    by (rule age_connection_other [OF assms(1-3) Suc.prems(1)]) (use Suc.prems(2) [of 0] in simp)
  moreover have "j + 1 + of_nat k \<noteq> i" if "k < m" for k
    using Suc.prems(2) [of "Suc k"] that by (simp add: add.assoc)
  ultimately show ?case
    using Suc.IH [OF age_connection_inv [OF assms(1-3) Suc.prems(1)], of "j + 1"] by simp
qed simp

lemma index_offset:
  fixes j :: u32
  assumes "0 < k" "k \<le> 128"
  shows "j + of_nat k \<noteq> j"
proof -
  have "unat (of_nat k :: u32) = k" using assms(2) by (simp add: unat_of_nat)
  with assms(1) have "(of_nat k :: u32) \<noteq> 0" by (metis less_irrefl unat_0)
  then show ?thesis by simp
qed

lemma age_scan_aged:
  assumes "lookups_ok e" "tables_reliable e" "quiet e" "conn_inv e U (tabs st)" "k < m" "m \<le> 128"
  shows "conn_info (sh (age_scan e n ip sid m j st)) (j + of_nat k) = aged e n (conn_info (sh st) (j + of_nat k))"
  using assms(4-6)
proof (induction m arbitrary: j k st)
  case (Suc m)
  note inv = age_connection_inv [OF assms(1-3) Suc.prems(1), of n ip sid j]
  show ?case
  proof (cases k)
    case 0
    have "j + 1 + of_nat l \<noteq> j" if "l < m" for l
      using index_offset [of "Suc l" j] that Suc.prems(3) by (simp add: add.assoc)
    then show ?thesis
      using age_scan_other [OF assms(1-3) inv, of m "j + 1" j] age_connection_aged [OF assms(1-3) Suc.prems(1)] 0 by simp
  next
    case (Suc l)
    have "j \<noteq> j + of_nat k" using index_offset [of k j] Suc Suc.prems(2,3) by simp
    then have "conn_info (sh (age_connection e n ip sid j st)) (j + of_nat k) = conn_info (sh st) (j + of_nat k)"
      using age_connection_other [OF assms(1-3) Suc.prems(1)] by blast
    moreover have "l < m" "m \<le> 128" using Suc Suc.prems(2,3) by auto
    ultimately show ?thesis using Suc.IH [OF inv, of l "j + 1"] Suc by (simp add: add.assoc)
  qed
qed simp

definition iteration_of :: "u32 \<Rightarrow> u8" where
  "iteration_of ev = ucast (ev div of_nat ALVS_AGING_TIMER_EVENTS_PER_ITERATION)"

text \<open>The event \<open>ev\<close> scans the block of indexes \<open>i\<close> belongs to.\<close>

definition scans :: "u32 \<Rightarrow> u32 \<Rightarrow> bool" where
  "scans ev i \<longleftrightarrow> ev mod of_nat ALVS_AGING_TIMER_EVENTS_PER_ITERATION = i div of_nat ALVS_AGING_TIMER_SCAN_ENTRIES_PER_JOB"

lemma block_index:
  fixes i :: u32
  obtains k where "k < 128" "i = i div 128 * 128 + of_nat k"
proof
  have "unat (i mod 128) < 128" using unat_mod [of i 128] by simp
  then show "unat (i mod 128) < 128" .
  show "i = i div 128 * 128 + of_nat (unat (i mod 128))"
    using word_mod_div_equality [of i 128] by simp
qed

lemma aging_event_aged:
  assumes "lookups_ok e" "tables_reliable e" "quiet e" "conn_inv e U (tabs st)" "scans ev i"
  shows "conn_info (sh (alvs_handle_aging_event e ev st)) i = aged e (iteration_of ev) (conn_info (sh st) i)"
proof -
  obtain k where k: "k < 128" "i = i div 128 * 128 + of_nat k" by (rule block_index)
  obtain ip sid st1 where s: "start_sync e (alvs_discard_frame st) = (ip, sid, st1)" by (metis prod_cases3)
  have t: "tabs st1 = tabs st"
    using start_sync_tabs [of e "alvs_discard_frame st"] by (simp add: s dp_simps)
  have ev: "ev mod of_nat ALVS_AGING_TIMER_EVENTS_PER_ITERATION * of_nat ALVS_AGING_TIMER_SCAN_ENTRIES_PER_JOB + of_nat k = i"
    using assms(5) k(2) by (simp add: scans_def ALVS_AGING_TIMER_SCAN_ENTRIES_PER_JOB_def)
  have inv: "conn_inv e U (tabs st1)" using t assms(4) by simp
  from age_scan_aged [OF assms(1-3) inv k(1), of "iteration_of ev" ip sid
      "ev mod of_nat ALVS_AGING_TIMER_EVENTS_PER_ITERATION * of_nat ALVS_AGING_TIMER_SCAN_ENTRIES_PER_JOB"]
  have "conn_info (sh (age_scan e (iteration_of ev) ip sid ALVS_AGING_TIMER_SCAN_ENTRIES_PER_JOB
      (ev mod of_nat ALVS_AGING_TIMER_EVENTS_PER_ITERATION * of_nat ALVS_AGING_TIMER_SCAN_ENTRIES_PER_JOB) st1)) i =
    aged e (iteration_of ev) (conn_info (sh st1) i)"
    unfolding ev by (simp add: ALVS_AGING_TIMER_SCAN_ENTRIES_PER_JOB_def)
  moreover have "conn_info (sh st1) = conn_info (sh st)" using t by (simp add: info_of_tabs)
  ultimately show ?thesis
    by (simp add: alvs_handle_aging_event_def s Let_def iteration_of_def info_of_tabs dp_simps)
qed

lemma timer_jobs_aged:
  assumes "lookups_ok e" "tables_reliable e" "quiet e" "conn_inv e U (tabs st)" "\<And>ev. ev \<in> set evs \<Longrightarrow> scans ev i"
  shows "conn_info (sh (packet_processing e (map Timer_Job evs) st)) i =
    fold (\<lambda>ev. aged e (iteration_of ev)) evs (conn_info (sh st) i)"
  using assms(4,5)
proof (induction evs arbitrary: st)
  case (Cons ev evs)
  let ?st = "ezframe_receive [[]] 0 st"
  have st: "conn_inv e U (tabs ?st)" "conn_info (sh ?st) = conn_info (sh st)"
    using Cons.prems(1) by (simp_all add: info_of_tabs dp_simps)
  have "conn_info (sh (alvs_handle_aging_event e ev ?st)) i = aged e (iteration_of ev) (conn_info (sh st) i)"
    using aging_event_aged [OF assms(1-3) st(1), of ev i] Cons.prems(2) [of ev] st(2) by simp
  moreover have "conn_inv e U (tabs (alvs_handle_aging_event e ev ?st))" by (rule aging_event_inv [OF assms(1-3) st(1)])
  ultimately show ?case using Cons.IH Cons.prems(2) by (simp add: packet_processing_def)
qed (simp add: packet_processing_def)

definition mod_exact :: "dp_env \<Rightarrow> bool" where
  "mod_exact e \<longleftrightarrow> (\<forall>x n. 0 < n \<longrightarrow> n < 256 \<longrightarrow> ezdp_mod e x n 0 = x mod n)"

lemma iterations_of_range: "0 < iterations_of c" "iterations_of c < 256"
  by (simp_all add: iterations_of_def alvs_util_get_conn_iterations_def ALVS_TCP_CONN_ITER_ESTABLISHED_def
      ALVS_TCP_CONN_ITER_CLOSE_WAIT_def)

lemma mod_iterations:
  assumes "mod_exact e"
  shows "ezdp_mod e x (iterations_of c) 0 = x mod iterations_of c"
    and "ucast (ucast (x mod iterations_of c) :: u8) = (x mod iterations_of c :: u32)"
proof -
  show "ezdp_mod e x (iterations_of c) 0 = x mod iterations_of c"
    using assms iterations_of_range by (simp add: mod_exact_def)
  have "x mod iterations_of c < 256"
    using word_mod_less_divisor [OF iterations_of_range(1), of x] iterations_of_range(2) by (rule order.strict_trans)
  then have "take_bit 8 (x mod iterations_of c) = x mod iterations_of c"
    by (simp add: word_less_nat_alt word_unat_eq_iff unsigned_take_bit_eq take_bit_nat_eq_self)
  then show "ucast (ucast (x mod iterations_of c) :: u8) = (x mod iterations_of c :: u32)"
    by (simp add: unsigned_ucast_eq)
qed

lemma aged_waiting:
  assumes "mod_exact e" "\<not> cir_delete_bit c" "\<not> cir_aging_bit c"
    and "ucast (cir_age_iteration c) = m"
  shows "fold (\<lambda>ev. aged e (iteration_of ev)) evs (Some c) =
    (if \<exists>ev \<in> set evs. ucast (iteration_of ev) mod iterations_of c = m then None else Some c)"
proof -
  have none: "fold (\<lambda>ev. aged e (iteration_of ev)) evs None = None" for evs
    by (induction evs) simp_all
  have "aged e n (Some c) = (if ucast n mod iterations_of c = m then None else Some c)" for n
    using assms by (auto simp: aged_def mod_iterations)
  then show ?thesis
    by (induction evs) (use none in auto)
qed

lemma idle_lifetime:
  assumes "lookups_ok e" "tables_reliable e" "quiet e" "mod_exact e" "conn_inv e U (tabs st)"
    and "conn_info (sh st) i = Some c" "\<not> cir_delete_bit c" "cir_aging_bit c"
    and "\<And>ev. ev \<in> set (ev0 # evs) \<Longrightarrow> scans ev i"
  shows "conn_info (sh (packet_processing e (map Timer_Job (ev0 # evs)) st)) i = None \<longleftrightarrow>
    (\<exists>ev \<in> set evs. (ucast (iteration_of ev) :: u32) mod iterations_of c = ucast (iteration_of ev0) mod iterations_of c)"
proof -
  let ?c = "c\<lparr>cir_aging_bit := False, cir_age_iteration := ucast (ezdp_mod e (ucast (iteration_of ev0)) (iterations_of c) 0)\<rparr>"
  have m: "ucast (cir_age_iteration ?c) = (ucast (iteration_of ev0) mod iterations_of c :: u32)"
    by (simp add: mod_iterations [OF assms(4)])
  have it: "iterations_of ?c = iterations_of c" by (simp add: iterations_of_def)
  have "fold (\<lambda>ev. aged e (iteration_of ev)) (ev0 # evs) (Some c) = fold (\<lambda>ev. aged e (iteration_of ev)) evs (Some ?c)"
    using assms(7,8) by (simp add: aged_def)
  also have "\<dots> = (if \<exists>ev \<in> set evs. (ucast (iteration_of ev) :: u32) mod iterations_of c =
      ucast (iteration_of ev0) mod iterations_of c then None else Some ?c)"
    using aged_waiting [OF assms(4) _ _ m, of evs] assms(7) unfolding it by simp
  finally show ?thesis
    using timer_jobs_aged [OF assms(1-3,5), of "ev0 # evs" i] assms(6,9) by simp
qed

subsection \<open>Properties\<close>

text \<open>
  C20. The connection tables stay consistent over any sequence of jobs: each classification entry
  leads to an information entry with its key and back, the indexes in the pool are distinct, and the
  indexes the pool was made of are exactly those in the pool and those of a connection, the two being
  disjoint, so that no index is lost and none is used twice.  Adding to the hash table may fail and
  the pool may be exhausted; the theorem needs that a lookup fails only for an absent entry, that the
  other updates and deletions of the two tables succeed, and that what the other threads do while this
  one waits for a lock keeps the tables consistent, over the same indexes.  The events of the aging
  timer are covered when no other thread changes the tables meanwhile.
\<close>

theorem connection_tables_consistent:
  assumes "lookups_ok e" "tables_reliable e" "rely e U" "quiet e \<or> (\<forall>ev. Timer_Job ev \<notin> set jobs)"
    and "conn_inv e U (tabs st)"
  shows "conn_inv e U (tabs (packet_processing e jobs st))"
  by (rule jobs_inv [OF assms])

lemma plain_env_quiet [simp]: "quiet plain_env" "rely plain_env U" "tables_reliable plain_env" "mod_exact plain_env"
  by (simp_all add: quiet_def rely_def tables_reliable_def mod_exact_def plain_env_def)

definition idle_conn :: alvs_conn_info_result where
  "idle_conn = zero_conn_info\<lparr>cir_aging_bit := True, cir_conn_state := IP_VS_TCP_S_ESTABLISHED\<rparr>"

text \<open>One connection with index 5; the pool holds 9.\<close>

definition one_conn_state :: dp_state where
  "one_conn_state = idle_state\<lparr>sh := empty_shared\<lparr>conn_class := [zero_key \<mapsto> \<lparr>ccr_conn_index = 5\<rparr>],
     conn_info := [5 \<mapsto> idle_conn], conn_pool := [9]\<rparr>\<rparr>"

lemma one_conn_inv: "conn_inv plain_env {5, 9} (tabs one_conn_state)"
  by (simp add: conn_inv_def view_defs one_conn_state_def idle_conn_def example_defs)

theorem connection_tables_consistent_witness:
  "conn_inv plain_env {5, 9} (tabs (packet_processing plain_env [Frame_Job 0 [[]] 0, Timer_Job 0, Timer_Job 7] one_conn_state))"
  by (rule connection_tables_consistent) (simp_all add: one_conn_inv)

text \<open>
  C21. A connection without traffic lives for exactly the iterations its state allows: the first event
  of the timer that scans it clears its aging bit, and it is removed by the next event that scans it in an
  iteration with the same number modulo its iterations (60 for an established connection), and by no
  event before.
\<close>

theorem idle_connection_lifetime:
  assumes "lookups_ok e" "tables_reliable e" "quiet e" "mod_exact e" "conn_inv e U (tabs st)"
    and "conn_info (sh st) i = Some c" "\<not> cir_delete_bit c" "cir_aging_bit c"
    and "\<And>ev. ev \<in> set (ev0 # evs) \<Longrightarrow> scans ev i"
  shows "conn_info (sh (packet_processing e (map Timer_Job (ev0 # evs)) st)) i = None \<longleftrightarrow>
    (\<exists>ev \<in> set evs. (ucast (iteration_of ev) :: u32) mod iterations_of c = ucast (iteration_of ev0) mod iterations_of c)"
  by (rule idle_lifetime [OF assms])

text \<open>The events 0, 524288 and 31457280 = 60 * 524288 scan the first 128 indexes in iterations 0, 1 and 60.\<close>

theorem idle_connection_lifetime_witness:
  "conn_info (sh (packet_processing plain_env (map Timer_Job [0, 524288]) one_conn_state)) 5 \<noteq> None \<and>
   conn_info (sh (packet_processing plain_env (map Timer_Job [0, 524288, 31457280]) one_conn_state)) 5 = None"
proof -
  have c: "conn_info (sh one_conn_state) 5 = Some idle_conn" "\<not> cir_delete_bit idle_conn" "cir_aging_bit idle_conn"
    by (simp_all add: one_conn_state_def idle_conn_def zero_conn_info_def)
  have t: "iterations_of idle_conn = 60"
    by (simp add: iterations_of_def idle_conn_def alvs_util_get_conn_iterations_def ALVS_TCP_CONN_ITER_ESTABLISHED_def)
  have n: "iteration_of 0 = 0" "iteration_of 524288 = 1" "iteration_of 31457280 = 60"
    by (simp_all add: iteration_of_def ALVS_AGING_TIMER_EVENTS_PER_ITERATION_def ALVS_CONN_MAX_ENTRIES_def
        ALVS_AGING_TIMER_SCAN_ENTRIES_PER_JOB_def)
  have s: "scans 0 5" "scans 524288 5" "scans 31457280 5"
    by (simp_all add: scans_def ALVS_AGING_TIMER_EVENTS_PER_ITERATION_def ALVS_CONN_MAX_ENTRIES_def
        ALVS_AGING_TIMER_SCAN_ENTRIES_PER_JOB_def)
  note life = idle_connection_lifetime [OF plain_env_ok(1) plain_env_quiet(3,1,4) one_conn_inv c, of 0]
  have "conn_info (sh (packet_processing plain_env (map Timer_Job [0, 524288]) one_conn_state)) 5 \<noteq> None"
    by (subst life) (auto simp: s t n)
  moreover have "conn_info (sh (packet_processing plain_env (map Timer_Job [0, 524288, 31457280]) one_conn_state)) 5 = None"
    by (subst life) (auto simp: s t n)
  ultimately show ?thesis by blast
qed

end
