(* ===== verification/Dp_Races.thy ===== *)
theory Dp_Races
  imports Dp_Aging_Props
begin

text \<open>
  Two races between the threads of the data plane, shown on concrete states: aging against a
  synchronisation message, and two threads binding the same connection.
\<close>

subsection \<open>Aging and synchronisation\<close>

text \<open>
  A backup thread processes a message that moves a connection to another server between the lookup of
  the aging scan and the lock: \<open>race_env\<close> runs \<open>alvs_state_sync_process_conn\<close> of that thread at this point.
\<close>

definition race_key :: alvs_conn_classification_key where
  "race_key = zero_key\<lparr>cck_protocol := IPPROTO_TCP\<rparr>"

definition moved_conn :: alvs_state_sync_conn where
  "moved_conn = \<lparr>ssc_type = 0, ssc_protocol = 6, ssc_version = 0, ssc_size = 36, ssc_flags = 0, ssc_state = 1,
     ssc_client_port = 0, ssc_virtual_port = 0, ssc_server_port = 0, ssc_fwmark = 0, ssc_timeout = 0,
     ssc_client_addr = 0, ssc_virtual_addr = 0, ssc_server_addr = 77\<rparr>"

definition backup_env :: dp_env where
  "backup_env = plain_env\<lparr>pick_index := (\<lambda>_. 1)\<rparr>"

definition race_env :: dp_env where
  "race_env = plain_env\<lparr>others := (\<lambda>_ s. sh (snd (alvs_state_sync_process_conn backup_env moved_conn (idle_state\<lparr>sh := s\<rparr>))))\<rparr>"

definition race_shared :: dp_shared where
  "race_shared = empty_shared\<lparr>conn_class := [race_key \<mapsto> \<lparr>ccr_conn_index = 5\<rparr>],
     conn_info := [5 \<mapsto> zero_conn_info\<lparr>cir_delete_bit := True, cir_conn_class_key := race_key\<rparr>], conn_pool := [9]\<rparr>"

text \<open>The definitions that evaluate the operations on concrete tables.\<close>

lemmas conn_eval_defs = alvs_conn_info_lookup_def ezdp_lookup_def dp_tick_def ENOENT_def
  alvs_conn_delete_without_lock_def ezdp_delete_conn_class_def ezdp_delete_conn_info_def alvs_server_info_lookup_def
  ezdp_free_index_def alvs_find_server_index_def alvs_conn_create_new_entry_def ezdp_alloc_index_def
  ezdp_add_conn_info_def ezdp_add_conn_class_def new_conn_statistics_def new_conn_info_def
  alvs_lock_connection_def ezdp_lock_spinlock_def alvs_unlock_connection_def ezdp_unlock_spinlock_def

lemma moved_tables:
  "conn_tabs (others race_env n race_shared) =
     ([race_key \<mapsto> \<lparr>ccr_conn_index = 9\<rparr>], [9 \<mapsto> new_conn_info race_key False 77 0 1 (sync_flags moved_conn) False], [5])"
  by (simp add: race_env_def alvs_state_sync_process_conn_def sync_locked_conn_def sync_existing_conn_def sync_create_conn_def
      sync_conn_key_def race_shared_def backup_env_def moved_conn_def example_defs race_key_def conn_eval_defs
      conn_tabs_def IPPROTO_TCP_def Let_def)

lemma race_env_ok: "lookups_ok race_env" "tables_reliable race_env" "rely race_env U"
proof -
  show "lookups_ok race_env" "tables_reliable race_env"
    by (simp_all add: lookups_ok_def tables_reliable_def race_env_def plain_env_def)
  have ok: "lookups_ok backup_env" "tables_reliable backup_env" "rely backup_env U"
    by (simp_all add: lookups_ok_def tables_reliable_def rely_def backup_env_def plain_env_def)
  have null: "conn_inv race_env U t = conn_inv backup_env U t" for t
    by (simp add: conn_inv_def race_env_def backup_env_def)
  have "conn_inv backup_env U (conn_tabs (others race_env n s))" if "conn_inv backup_env U (conn_tabs s)" for n s
    using process_conn_inv [OF ok, of "idle_state\<lparr>sh := s\<rparr>" moved_conn] that
    by (simp add: race_env_def tabs_def)
  then show "rely race_env U" by (simp add: rely_def null)
qed

definition race_state :: dp_state where
  "race_state = idle_state\<lparr>sh := race_shared\<rparr>"

lemma race_result:
  "tabs (age_connection race_env 0 0 0 5 race_state) =
     (Map.empty, [9 \<mapsto> new_conn_info race_key False 77 0 1 (sync_flags moved_conn) False], [5])"
proof -
  have m: "conn_class (others race_env n race_shared) = [race_key \<mapsto> \<lparr>ccr_conn_index = 9\<rparr>]"
    "conn_info (others race_env n race_shared) = [9 \<mapsto> new_conn_info race_key False 77 0 1 (sync_flags moved_conn) False]"
    "conn_pool (others race_env n race_shared) = [5]" for n
    using moved_tables [of n] by (simp_all add: conn_tabs_def)
  have rc: "lookup_rc race_env n = 0" "table_update_rc race_env n = 0" "hash_delete_rc race_env n = 0" for n
    by (simp_all add: race_env_def plain_env_def)
  have st: "sh race_state = race_shared" "held race_state = []"
    "conn_info race_shared 5 = Some (zero_conn_info\<lparr>cir_delete_bit := True, cir_conn_class_key := race_key\<rparr>)"
    by (simp_all add: race_state_def race_shared_def idle_state_def)
  show ?thesis
    by (simp add: age_connection_def age_delete_def alvs_conn_delete_def st rc m view_defs Let_def
        alvs_conn_info_lookup_def ezdp_lookup_def dp_tick_def ENOENT_def alvs_conn_delete_without_lock_def
        ezdp_delete_conn_class_def ezdp_delete_conn_info_def alvs_lock_connection_def ezdp_lock_spinlock_def
        alvs_unlock_connection_def ezdp_unlock_spinlock_def)
qed

text \<open>
  C28. The deletion of a connection by the aging scan is not safe against the other threads: although
  all of them keep the connection tables consistent, a synchronisation message that moves the connection
  between the scan's lookup and its lock leaves an information entry that no classification entry leads
  to.  The scan does not look the connection up again under the lock.
\<close>

theorem aging_sync_race:
  "lookups_ok race_env \<and> tables_reliable race_env \<and> (\<forall>U. rely race_env U) \<and> conn_inv race_env {5, 9} (tabs race_state) \<and>
   (\<forall>U. \<not> conn_inv race_env U (tabs (age_connection race_env 0 0 0 5 race_state)))"
proof -
  have "conn_inv race_env {5, 9} (tabs race_state)"
    by (simp add: conn_inv_def view_defs race_state_def race_shared_def race_env_def example_defs race_key_def)
  moreover have "\<not> conn_inv race_env U (tabs (age_connection race_env 0 0 0 5 race_state))" for U
    by (auto simp: race_result conn_inv_def)
  ultimately show ?thesis using race_env_ok by blast
qed

subsection \<open>Two threads that bind a connection\<close>

definition lock_addr :: "dp_env \<Rightarrow> dp_state \<Rightarrow> u32" where
  "lock_addr e st = ezdp_bulk_hash e (conn_class_key st) AND ALVS_CONN_LOCK_ELEMENTS_MASK"

lemma lookup_held [simp]:
  "held (snd (alvs_conn_info_lookup e i st)) = held st" "blocked (snd (alvs_conn_info_lookup e i st)) = blocked st"
  "held (snd (ezdp_modify_conn_info e i st)) = held st" "blocked (snd (ezdp_modify_conn_info e i st)) = blocked st"
  by (simp_all add: alvs_conn_info_lookup_def ezdp_modify_conn_info_def dp_tick_def split: sum.split)

lemma lock_again_blocks:
  assumes "lock_addr e st \<in> set (held st)"
  shows "blocked (snd (alvs_conn_refresh e i st))"
  using assms by (simp add: alvs_conn_refresh_def alvs_lock_connection_def ezdp_lock_spinlock_def lock_addr_def
      alvs_unlock_connection_def ezdp_unlock_spinlock_def Let_def case_prod_beta)

lemma bind_bound:
  assumes "lookups_ok e" "lock_addr e st \<notin> set (held st)"
    and "conn_info (others e (dp_clock st) (sh st)) i = Some c" "cir_bound c"
  shows "fst (alvs_conn_bind e i v st) = 0" "held (snd (alvs_conn_bind e i v st)) = lock_addr e st # held st"
    "conn_class_key (snd (alvs_conn_bind e i v st)) = conn_class_key st"
  using assms
  by (simp_all add: alvs_conn_bind_def alvs_lock_connection_def ezdp_lock_spinlock_def lock_addr_def
      alvs_conn_info_lookup_def dp_tick_def Let_def)

text \<open>
  C29. When another thread binds a connection between a thread's lookup and its lock, \<open>alvs_conn_bind\<close>
  reports success and returns with the lock still held; the next operation of the same packet that locks
  the connection waits for ever.
\<close>

theorem bind_race_blocks:
  assumes "lookups_ok e" "lock_addr e st \<notin> set (held st)"
    and "conn_info (others e (dp_clock st) (sh st)) i = Some c" "cir_bound c"
  shows "fst (alvs_conn_bind e i v st) = 0 \<and> lock_addr e st \<in> set (held (snd (alvs_conn_bind e i v st))) \<and>
    blocked (snd (alvs_conn_refresh e i (snd (alvs_conn_bind e i v st))))"
  using bind_bound [OF assms] lock_again_blocks [of e "snd (alvs_conn_bind e i v st)"]
  by (simp add: lock_addr_def)

definition bound_state :: dp_state where
  "bound_state = idle_state\<lparr>sh := empty_shared\<lparr>conn_info := [5 \<mapsto> zero_conn_info\<lparr>cir_bound := True\<rparr>]\<rparr>\<rparr>"

theorem bind_race_blocks_witness:
  "blocked (snd (alvs_conn_refresh plain_env 5 (snd (alvs_conn_bind plain_env 5 3 bound_state))))"
  using bind_race_blocks [OF plain_env_ok(1), of bound_state 5 "zero_conn_info\<lparr>cir_bound := True\<rparr>" 3]
  by (simp add: bound_state_def idle_state_def plain_env_def)

end
