(* ===== verification/Dp_Frame_Props.thy ===== *)
theory Dp_Frame_Props
  imports Dp_Views Sync_Props
begin

text \<open>
  The discipline of frames: a thread owns the frame it receives until it sends or frees it.  Each
  operation either keeps the frame or disposes of it, and says so by its result; no operation touches
  a frame after that.  Nothing is assumed of the library here: every call may fail.
\<close>

definition owns :: "dp_state \<Rightarrow> nat \<Rightarrow> bool" where
  "owns st f \<longleftrightarrow> frame_view st = (True, f)"

definition disposed :: "dp_state \<Rightarrow> nat \<Rightarrow> bool" where
  "disposed st f \<longleftrightarrow> frame_view st = (False, f)"

subsection \<open>Disposing of a frame\<close>

lemma discard_disposes:
  assumes "owns st f"
  shows "disposed (ezframe_free st) f" "disposed (alvs_discard_frame st) f" "disposed (nw_discard_frame st) f"
    "disposed (alvs_discard_and_stats e x st) f" "disposed (ezframe_send_to_if c st) f"
  using assms stats_views(9) [of e x st]
  by (auto simp: owns_def disposed_def alvs_discard_frame_def nw_discard_frame_def alvs_discard_and_stats_def
      ezframe_free_def ezframe_send_to_if_def view_defs)

lemma owns_keeps:
  assumes "owns st f"
  shows "owns (dp_tick st) f" "owns (nw_interface_inc_counter y st) f" "owns (alvs_update_discard_statistics e x st) f"
    "owns (snd (nw_interface_lookup e i st)) f" "owns (snd (nw_interface_lookup_host e st)) f"
    "owns (write_data off bs st) f" "owns (ezframe_store_buf b st) f" "owns (conn_class_key_update g st) f"
    "owns (conn_sync_state_update h st) f"
  using assms by (simp_all add: owns_def dp_simps) (simp add: ezframe_store_buf_def view_defs)

lemma host_route_disposes: "owns st f \<Longrightarrow> disposed (nw_host_do_route e st) f"
  by (simp add: nw_host_do_route_def Let_def case_prod_beta discard_disposes owns_keeps)

lemma send_disposes: "owns st f \<Longrightarrow> disposed (nw_send_frame_to_network e p st) f"
  by (simp add: nw_send_frame_to_network_def Let_def case_prod_beta discard_disposes owns_keeps)

lemma arp_disposes: "owns st f \<Longrightarrow> disposed (nw_arp_processing e ip n st) f"
  by (auto simp: nw_arp_processing_def Let_def intro!: send_disposes discard_disposes owns_keeps split: sum.split)

lemma route_disposes:
  assumes "owns st f"
  shows "disposed (nw_do_route e ip n st) f"
proof -
  have "owns (snd (nw_fib_processing ip st)) f"
    using assms by (auto simp: nw_fib_processing_def intro!: owns_keeps split: option.split nw_fib_type.split)
  then show ?thesis by (simp add: nw_do_route_def Let_def case_prod_beta discard_disposes arp_disposes)
qed

subsection \<open>Scheduling\<close>

lemma check_active_frame:
  assumes "owns st f" "alvs_sched_check_active_servers e st = (ok, st')"
  shows "if ok then owns st' f else disposed st' f"
  using assms by (auto simp: alvs_sched_check_active_servers_def alvs_sched_handle_no_active_servers_def
      discard_disposes split: if_splits)

lemma get_server_info_frame:
  assumes "owns st f" "alvs_sched_get_server_info e i st = (r, st')"
  shows "if r = ALVS_SCHED_SERVER_FAILED then disposed st' f else owns st' f"
proof -
  obtain rc1 st1 where 1: "alvs_server_sched_lookup e i st = (rc1, st1)" by fastforce
  obtain rc2 st2 where 2: "alvs_server_info_lookup e (schr_server_index (sched_info_result st1)) st1 = (rc2, st2)" by fastforce
  obtain fl st3 where 3: "alvs_server_overload_on_create_conn st2 = (fl, st3)" by fastforce
  have "frame_view st1 = frame_view st" "frame_view st2 = frame_view st1" "frame_view st3 = frame_view st2"
    using lookup_views(12) [of e i st] lookup_views(15) [of e "schr_server_index (sched_info_result st1)" st1]
      overload_views(3) [of st2] by (simp_all add: 1 2 3)
  then have o: "owns st1 f" "owns st2 f" "owns st3 f" using assms(1) by (simp_all add: owns_def)
  show ?thesis
    using assms(2) o by (auto simp: alvs_sched_get_server_info_def 1 2 3 Let_def discard_disposes split: if_splits)
qed

lemma sh_loop_frame:
  assumes "owns st f" "sh_fallback_loop e si h n off st = (r, st')"
  shows "if r = ALVS_SCHED_SERVER_FAILED then disposed st' f else owns st' f"
  using assms
proof (induction n arbitrary: off st)
  case (Suc n)
  obtain r1 st1 where g: "alvs_sched_get_server_info e
      (scheduling_index si ((off + h) AND (of_nat ALVS_SIZE_OF_SCHED_BUCKET - 1))) st = (r1, st1)" by fastforce
  note f = get_server_info_frame [OF Suc.prems(1) g]
  show ?case
  proof (cases "r1 = ALVS_SCHED_SERVER_UNAVAILABLE")
    case True
    then show ?thesis using Suc.prems(2) Suc.IH [of st1 "off + 1"] f g by (simp add: Let_def)
  next
    case False
    then show ?thesis using Suc.prems(2) f by (auto simp: Let_def g split: if_splits)
  qed
qed auto

lemma rr_loop_frame:
  assumes "owns st f" "rr_sched_loop e si n c st = (r, st')"
  shows "if r = None \<or> r = Some ALVS_SCHED_SERVER_FAILED then disposed st' f else owns st' f"
  using assms
proof (induction n arbitrary: c st)
  case (Suc n)
  define i where "i = rr_index e c (sir_sched_entries_count (service_info_result st))"
  obtain r1 st1 where g: "alvs_sched_get_server_info e (scheduling_index si i) st = (r1, st1)" by fastforce
  note f = get_server_info_frame [OF Suc.prems(1) g]
  obtain rc st2 where l: "alvs_sched_service_info_lookup e si st1 = (rc, st2)" by fastforce
  have v: "frame_view st2 = frame_view st1" using lookup_views(18) [of e si st1] by (simp add: l)
  obtain ok st3 where a: "alvs_sched_check_active_servers e st2 = (ok, st3)" by fastforce
  show ?case
  proof (cases "r1 = ALVS_SCHED_SERVER_EMPTY")
    case True
    then have o: "owns st2 f" using f v by (simp add: owns_def)
    show ?thesis
      using Suc.prems(2) True check_active_frame [OF o a] discard_disposes(4) [OF o] Suc.IH [of st3 i]
      by (auto simp: Let_def i_def [symmetric] g l a split: if_splits)
  next
    case False
    then show ?thesis using Suc.prems(2) f by (auto simp: Let_def i_def [symmetric] g split: if_splits)
  qed
qed auto

lemma sh_schedule_frame:
  assumes "owns st f" "alvs_sched_sh_schedule_connection e si ip port st = (ok, st')"
  shows "if ok then owns st' f else disposed st' f"
proof -
  define p where "p = (if sir_service_flags (service_info_result st) AND IP_VS_SVC_F_SCHED_SH_PORT \<noteq> 0 then port else 0)"
  define h where "h = alvs_sched_sh_get_scheduling_index e ip p"
  obtain r1 st1 where g: "alvs_sched_get_server_info e (scheduling_index si h) st = (r1, st1)" by fastforce
  obtain r2 st2 where l: "sh_fallback_loop e si h ALVS_SIZE_OF_SCHED_BUCKET 0 st1 = (r2, st2)" by fastforce
  note f1 = get_server_info_frame [OF assms(1) g]
  have f2: "if r2 = ALVS_SCHED_SERVER_FAILED then disposed st2 f else owns st2 f" if "owns st1 f"
    by (rule sh_loop_frame [OF that l])
  have r: "r = ALVS_SCHED_SERVER_SUCCESS \<or> r = ALVS_SCHED_SERVER_FAILED \<or> r = ALVS_SCHED_SERVER_EMPTY \<or>
      r = ALVS_SCHED_SERVER_UNAVAILABLE" for r by (cases r) auto
  show ?thesis
    using assms(2) f1 f2 r [of r1] r [of r2]
    by (auto simp: alvs_sched_sh_schedule_connection_def Let_def p_def [symmetric] h_def [symmetric] g l
        alvs_sched_handle_no_active_servers_def discard_disposes split: if_splits)
qed

lemma rr_schedule_frame:
  assumes "owns st f" "alvs_sched_rr_schedule_connection e si st = (ok, st')"
  shows "if ok then owns st' f else disposed st' f"
proof -
  let ?a = "sir_service_sched_ctr (service_info_result st)"
  obtain r st1 where l: "rr_sched_loop e si ALVS_SCHED_RR_RETRIES (mem32 (sh st) ?a)
      (ezdp_atomic_set32 ?a (\<lambda>w. w + 1) st) = (r, st1)" by fastforce
  have "owns (ezdp_atomic_set32 ?a (\<lambda>w. w + 1) st) f" using assms(1) by (simp add: owns_def dp_simps)
  from rr_loop_frame [OF this l] show ?thesis
    using assms(2) by (auto simp: alvs_sched_rr_schedule_connection_def l Let_def discard_disposes split: option.splits if_splits)
      (metis alvs_sched_server_result.exhaust)
qed

lemma schedule_connection_frame:
  assumes "owns st f" "schedule_connection e si ip tcp st = (ok, st')"
  shows "if ok then owns st' f else disposed st' f"
  using assms sh_schedule_frame [OF assms(1)] rr_schedule_frame [OF assms(1)]
  by (auto simp: schedule_connection_def discard_disposes split: alvs_scheduler_type.splits)

subsection \<open>Connections\<close>

lemma table_frame_views [dp_simps]:
  "frame_view (snd (ezdp_modify_conn_info e i st)) = frame_view st"
  "frame_view (ezdp_add_conn_info e i st) = frame_view st"
  "frame_view (snd (ezdp_delete_conn_info e i st)) = frame_view st"
  "frame_view (snd (ezdp_add_conn_class e k r st)) = frame_view st"
  "frame_view (snd (ezdp_delete_conn_class e k st)) = frame_view st"
  "frame_view (snd (ezdp_alloc_index e st)) = frame_view st"
  "frame_view (ezdp_free_index i st) = frame_view st"
  by (simp_all add: ezdp_modify_conn_info_def ezdp_add_conn_info_def ezdp_delete_conn_info_def
      ezdp_add_conn_class_def ezdp_delete_conn_class_def ezdp_alloc_index_def ezdp_free_index_def
      Let_def dp_tick_def view_defs)

lemma locked_op_frame_views [dp_simps]:
  "frame_view (snd (alvs_conn_update_state e i s st)) = frame_view st"
  "frame_view (snd (alvs_conn_mark_to_delete e i r st)) = frame_view st"
  "frame_view (snd (alvs_conn_refresh e i st)) = frame_view st"
  "frame_view (snd (alvs_conn_bind e i j st)) = frame_view st"
  "frame_view (snd (alvs_conn_age_out e i n st)) = frame_view st"
  by (simp_all add: alvs_conn_update_state_def alvs_conn_mark_to_delete_def alvs_conn_refresh_def
      alvs_conn_bind_def alvs_conn_age_out_def Let_def case_prod_beta dp_simps)

lemma delete_frame_views [dp_simps]:
  "frame_view (alvs_conn_delete_without_lock e i st) = frame_view st"
  "frame_view (alvs_conn_delete e i st) = frame_view st"
  by (simp_all add: alvs_conn_delete_def alvs_conn_delete_without_lock_def Let_def case_prod_beta dp_simps)

lemma owns_view: "frame_view st' = frame_view st \<Longrightarrow> owns st' f = owns st f"
  by (simp add: owns_def)

lemma disposed_view: "frame_view st' = frame_view st \<Longrightarrow> disposed st' f = disposed st f"
  by (simp add: disposed_def)

lemma create_new_entry_frame:
  assumes "owns st f" "alvs_conn_create_new_entry e bd srv p cs fl rs st = (r, st')"
  shows "(r = ALVS_SERVICE_DATA_PATH_SUCCESS \<and> owns st' f) \<or> (r = ALVS_SERVICE_DATA_PATH_IGNORE \<and> disposed st' f)"
proof -
  obtain i st1 where 1: "ezdp_alloc_index e st = (i, st1)" by fastforce
  define st2 where "st2 = ezdp_add_conn_info e i
    (st1\<lparr>conn_info_result := new_conn_info (conn_class_key st1) bd srv p cs fl rs\<rparr>)"
  obtain rc st3 where 3: "ezdp_add_conn_class e (conn_class_key st2) \<lparr>ccr_conn_index = i\<rparr>
      (st2\<lparr>conn_result := \<lparr>ccr_conn_index = i\<rparr>\<rparr>) = (rc, st3)" by fastforce
  obtain rc' st4 where 4: "ezdp_delete_conn_info e i st3 = (rc', st4)" by fastforce
  have "frame_view st2 = frame_view st1" by (simp add: st2_def dp_simps)
  moreover have "frame_view st1 = frame_view st" "frame_view st3 = frame_view st2" "frame_view st4 = frame_view st3"
    using table_frame_views(6) [of e st] table_frame_views(3) [of e i st3] sync_state_views(9)
      table_frame_views(4) [of e "conn_class_key st2" "\<lparr>ccr_conn_index = i\<rparr>" "st2\<lparr>conn_result := \<lparr>ccr_conn_index = i\<rparr>\<rparr>"]
    by (simp_all add: 1 3 4)
  ultimately have o: "owns st1 f" "owns st3 f" "owns st4 f" using assms(1) by (simp_all add: owns_def)
  have "owns (alvs_server_overload_on_delete_conn st1) f" "owns (new_conn_statistics bd cs st3) f"
    "owns (ezdp_free_index i (alvs_server_overload_on_delete_conn st4)) f"
    using o by (simp_all add: owns_def dp_simps)
  then show ?thesis
    using assms(2) by (auto simp: alvs_conn_create_new_entry_def 1 3 4 Let_def st2_def [symmetric]
        discard_disposes split: if_splits)
qed

lemma create_scheduled_frame:
  assumes "owns st f" "create_scheduled_connection e tcp st = (r, st')"
  shows "(r = ALVS_SERVICE_DATA_PATH_SUCCESS \<and> owns st' f) \<or> (r = ALVS_SERVICE_DATA_PATH_IGNORE \<and> disposed st' f)"
proof -
  obtain r1 st1 where 1: "alvs_conn_create_new_entry e True (schr_server_index (sched_info_result st)) 0
        (if tcp_fin tcp \<or> tcp_rst tcp then ucast IP_VS_TCP_S_CLOSE_WAIT else ucast IP_VS_TCP_S_ESTABLISHED)
        (svr_conn_flags (server_info_result st)) (tcp_rst tcp) st = (r1, st1)" by fastforce
  from create_new_entry_frame [OF assms(1) this] show ?thesis
    using assms(2) by (auto simp: create_scheduled_connection_def 1 owns_def dp_simps)
qed

text \<open>What the slow path leaves for the caller to do with the frame.\<close>

definition frame_left :: "alvs_service_output_result \<Rightarrow> nat \<Rightarrow> dp_state \<Rightarrow> bool" where
  "frame_left r f st = (if r = ALVS_SERVICE_DATA_PATH_IGNORE then disposed st f else owns st f)"

lemma frame_left_view: "frame_view st' = frame_view st \<Longrightarrow> frame_left r f st' = frame_left r f st"
  by (simp add: frame_left_def owns_def disposed_def)

lemma tcp_schedule_frame:
  assumes "owns st f" "alvs_tcp_schedule_new_connection e si ip tcp st = (r, st')"
  shows "frame_left r f st'"
proof -
  obtain a st1 where active: "alvs_sched_check_active_servers e st = (a, st1)" by fastforce
  note f1 = check_active_frame [OF assms(1) active]
  show ?thesis
  proof (cases a)
    case False
    then show ?thesis using assms(2) f1 by (auto simp: alvs_tcp_schedule_new_connection_def active frame_left_def)
  next
    case True
    obtain h st2 where lock: "alvs_lock_connection e st1 = (h, st2)" by fastforce
    have o: "owns (dp_tick st2) f"
      using f1 True lock_views(1) [of e st1] by (simp add: lock owns_def dp_simps)
    obtain s st3 where sched: "schedule_connection e si ip tcp (dp_tick st2) = (s, st3)" by fastforce
    note f3 = schedule_connection_frame [OF o sched]
    obtain r4 st4 where create: "create_scheduled_connection e tcp st3 = (r4, st4)" by fastforce
    have f4: "s \<Longrightarrow> frame_left r4 f st4"
      using create_scheduled_frame [OF _ create] f3 by (auto simp: frame_left_def)
    have unlock: "frame_left r' f st5 \<Longrightarrow> (r, st') = (r', alvs_unlock_connection h st5) \<Longrightarrow> ?thesis" for r' st5
      by (simp add: frame_left_view [OF lock_views(3)])
    show ?thesis
    proof (cases "ezdp_lookup e (conn_class (sh st2) (conn_class_key st2)) st2")
      case (Inr x)
      have "frame_left ALVS_SERVICE_DATA_PATH_RETRY f (dp_tick st2\<lparr>conn_result := x\<rparr>)"
        using o by (simp add: frame_left_def owns_def dp_simps)
      then show ?thesis
        by (rule unlock) (use assms(2) True Inr in \<open>simp add: alvs_tcp_schedule_new_connection_def active lock Let_def\<close>)
    next
      case (Inl rc)
      have ignore: "frame_left ALVS_SERVICE_DATA_PATH_IGNORE f
          (alvs_discard_and_stats e ALVS_ERROR_CREATE_CONN_MEM_ERROR (dp_tick st2))"
        using o by (simp add: frame_left_def discard_disposes)
      consider "rc = EIO" | "rc \<noteq> EIO" "\<not> s" | "rc \<noteq> EIO" s by blast
      then show ?thesis
      proof cases
        case 1
        show ?thesis
          by (rule unlock [OF ignore])
            (use assms(2) True Inl 1 in \<open>simp add: alvs_tcp_schedule_new_connection_def active lock Let_def\<close>)
      next
        case 2
        have "frame_left ALVS_SERVICE_DATA_PATH_IGNORE f st3" using f3 2 by (simp add: frame_left_def)
        then show ?thesis
          by (rule unlock)
            (use assms(2) True Inl 2 in \<open>simp add: alvs_tcp_schedule_new_connection_def active lock sched Let_def\<close>)
      next
        case 3
        show ?thesis
          by (rule unlock [OF f4])
            (use assms(2) True Inl 3 in \<open>simp_all add: alvs_tcp_schedule_new_connection_def active lock sched create Let_def\<close>)
      qed
    qed
  qed
qed

subsection \<open>The paths of a packet\<close>

lemma send_single_keeps_disposed:
  assumes "disposed st f"
  shows "disposed (alvs_state_sync_send_single e ip i st) f"
proof -
  define st1 where "st1 = alvs_state_sync_first e ip i st"
  define n where "n = unat (current_len (conn_sync_state st1))"
  have d: "disposed st1 f" using assms by (simp add: st1_def disposed_view [OF sync_first_views(3)])
  obtain rc st2 where new: "ezframe_new e n st1 = (rc, st2)" by fastforce
  have "if rc = 0 then owns st2 f else disposed st2 f"
    using d new by (auto simp: ezframe_new_def owns_def disposed_def view_defs dp_tick_def split: if_splits)
  moreover have "disposed (st1\<lparr>blocked := True\<rparr>) f" using d by (simp add: disposed_def view_defs)
  ultimately show ?thesis
    by (auto simp: alvs_state_sync_send_single_def Let_def st1_def [symmetric] n_def [symmetric] new send_disposes)
qed

lemma send_conn_sync_keeps_disposed: "disposed st f \<Longrightarrow> disposed (send_conn_sync e st) f"
  by (auto simp: send_conn_sync_def alvs_util_app_info_lookup_def disposed_view [OF tick_views(3)]
      intro!: send_single_keeps_disposed split: sum.split)

lemma conn_do_route_disposes:
  assumes "owns st f"
  shows "disposed (alvs_conn_do_route e st) f"
  using assms by (auto simp: alvs_conn_do_route_def Let_def disposed_view [OF stats_views(3)] discard_disposes
      intro!: send_conn_sync_keeps_disposed route_disposes)

lemma try_bind_view: "frame_view (try_bind e i st) = frame_view st"
  by (simp add: try_bind_def Let_def case_prod_beta dp_simps split: option.split)

lemma check_bound_server_frame:
  assumes "owns st f" "check_bound_server e i st = (ok, st')"
  shows "if ok then owns st' f else disposed st' f"
proof -
  obtain rc st1 where 1: "alvs_server_info_lookup e (cir_server_word (conn_info_result st)) st = (rc, st1)" by fastforce
  obtain rc' st2 where 2: "alvs_conn_mark_to_delete e i False st1 = (rc', st2)" by fastforce
  have "owns st1 f" "owns st2 f"
    using assms(1) lookup_views(15) [of e "cir_server_word (conn_info_result st)" st]
      locked_op_frame_views(2) [of e i False st1] by (simp_all add: owns_def 1 2)
  then show ?thesis
    using assms by (auto simp: check_bound_server_def 1 2 discard_disposes split: if_splits)
qed

lemma check_conn_state_frame:
  assumes "owns st f" "check_conn_state e tcp i st = (ok, st')"
  shows "if ok then owns st' f else disposed st' f"
proof -
  obtain rc1 st1 where 1: "alvs_conn_update_state e i IP_VS_TCP_S_CLOSE_WAIT st = (rc1, st1)" by fastforce
  obtain rc2 st2 where 2: "alvs_conn_refresh e i st = (rc2, st2)" by fastforce
  obtain rc3 st3 where 3: "alvs_conn_mark_to_delete e i True st = (rc3, st3)" by fastforce
  have "owns st1 f" "owns st2 f" "owns st3 f"
    using assms(1) locked_op_frame_views(1) [of e i IP_VS_TCP_S_CLOSE_WAIT st]
      locked_op_frame_views(3) [of e i st] locked_op_frame_views(2) [of e i True st]
    by (simp_all add: owns_def 1 2 3)
  then show ?thesis
    using assms by (auto simp: check_conn_state_def 1 2 3 discard_disposes split: if_splits)
qed

lemma data_path_disposes:
  assumes "owns st f"
  shows "disposed (alvs_conn_data_path e tcp i st) f"
proof -
  obtain rc st1 where 1: "alvs_conn_info_lookup e i st = (rc, st1)" by fastforce
  have o1: "owns st1 f" using assms lookup_views(24) [of e i st] by (simp add: owns_def 1)
  define st2 where "st2 = try_bind e i st1"
  have o2: "owns st2 f" using o1 by (simp add: st2_def owns_view [OF try_bind_view])
  obtain g3 st3 where 3: "check_bound_server e i st2 = (g3, st3)" by fastforce
  note f3 = check_bound_server_frame [OF o2 3]
  obtain g4 st4 where 4: "check_conn_state e tcp i st3 = (g4, st4)" by fastforce
  have f4: "g3 \<Longrightarrow> if g4 then owns st4 f else disposed st4 f"
    using check_conn_state_frame [OF _ 4] f3 by simp
  show ?thesis
    using o1 o2 f3 f4 by (auto simp: alvs_conn_data_path_def 1 Let_def st2_def [symmetric] 3 4 discard_disposes
        conn_do_route_disposes split: if_splits)
qed

lemma service_data_path_frame:
  assumes "owns st f" "alvs_service_data_path e si ip tcp st = (r, st')"
  shows "frame_left r f st'"
proof -
  obtain rc st1 where 1: "alvs_service_info_lookup e si st = (rc, st1)" by fastforce
  have "owns st1 f" using assms(1) lookup_views(21) [of e si st] by (simp add: owns_def 1)
  then show ?thesis
    using assms(2) tcp_schedule_frame [OF \<open>owns st1 f\<close>]
    by (auto simp: alvs_service_data_path_def 1 frame_left_def discard_disposes split: if_splits)
qed

lemma unknown_packet_disposes:
  assumes "owns st f"
  shows "disposed (alvs_unknown_packet_processing e ip tcp st) f"
proof (cases "ezdp_lookup e (service_class (sh st) \<lparr>sck_address = iph_daddr ip, sck_port = tcp_dest tcp,
                 sck_protocol = ucast (iph_protocol ip)\<rparr>) st")
  case (Inl rc)
  then show ?thesis
    using assms by (auto simp: alvs_unknown_packet_processing_def intro!: host_route_disposes owns_keeps)
next
  case (Inr x)
  obtain r st1 where 1: "alvs_service_data_path e (scr_service_index x) ip tcp (dp_tick st) = (r, st1)" by fastforce
  have "frame_left r f st1" by (rule service_data_path_frame [OF _ 1]) (simp add: assms owns_keeps)
  then show ?thesis
    by (simp add: alvs_unknown_packet_processing_def Inr 1 frame_left_def conn_do_route_disposes data_path_disposes
        split: alvs_service_output_result.split)
qed

lemma tcp_disposes:
  assumes "owns st f"
  shows "disposed (alvs_tcp_processing e ip tcp st) f"
  using assms by (auto simp: alvs_tcp_processing_def Let_def
      intro!: data_path_disposes unknown_packet_disposes owns_keeps split: sum.split)

text \<open>A thread is no backup when the application entry it sees does not say so.\<close>

definition no_backup :: "dp_state \<Rightarrow> bool" where
  "no_backup st \<longleftrightarrow> (case app_info (sh st) ALVS_APPLICATION_INFO_INDEX of
     None \<Rightarrow> True | Some app \<Rightarrow> \<not> air_backup_bit app)"

lemma backup_disposes:
  assumes "owns st f" "no_backup st"
  shows "disposed (alvs_state_sync_backup e off n st) f"
  using assms by (auto simp: alvs_state_sync_backup_def alvs_util_app_info_lookup_def ezdp_lookup_def no_backup_def
      intro!: discard_disposes owns_keeps split: sum.splits option.splits if_splits)

lemma packet_disposes:
  assumes "owns st f" "no_backup st"
  shows "disposed (alvs_packet_processing e d n off mine st) f"
  using assms by (auto simp: alvs_packet_processing_def Let_def no_backup_def
      intro!: tcp_disposes backup_disposes host_route_disposes owns_keeps)

lemma load_buf_keeps:
  assumes "owns st f" "fr_pos (frame st) < length (fr_bufs (frame st))"
  shows "owns (snd (ezframe_load_buf st)) f" "sh (snd (ezframe_load_buf st)) = sh st"
  using assms by (auto simp: ezframe_load_buf_def owns_def view_defs Let_def)

lemma receive_from_network_disposes:
  assumes "owns st f" "no_backup st" "fr_pos (frame st) < length (fr_bufs (frame st))"
  shows "disposed (receive_from_network e st) f"
proof -
  obtain b st1 where 1: "ezframe_load_buf st = (b, st1)" by fastforce
  have "owns st1 f" "no_backup st1" using load_buf_keeps [OF assms(1,3)] assms(2) by (simp_all add: 1 no_backup_def)
  then show ?thesis
    by (auto simp: receive_from_network_def 1 Let_def intro!: packet_disposes host_route_disposes owns_keeps)
qed

lemma parse_frame_disposes:
  assumes "owns st f" "no_backup st" "fr_pos (frame st) < length (fr_bufs (frame st))"
  shows "disposed (nw_recieve_and_parse_frame e p st) f"
proof -
  obtain rc st1 where 1: "nw_interface_lookup e p st = (rc, st1)" by fastforce
  have "sh st1 = sh st" "frame st1 = frame st"
    using 1 by (auto simp: nw_interface_lookup_def dp_tick_def split: sum.splits)
  moreover have "owns st1 f" using assms(1) lookup_views(6) [of e p st] by (simp add: owns_def 1)
  ultimately have 2: "owns (dp_tick st1) f" "no_backup (dp_tick st1)"
      "fr_pos (frame (dp_tick st1)) < length (fr_bufs (frame (dp_tick st1)))" "owns st1 f"
    using assms(2,3) owns_keeps(1) [of st1 f] by (simp_all add: no_backup_def) (simp_all add: dp_tick_def)
  then show ?thesis
    by (auto simp: nw_recieve_and_parse_frame_def 1 Let_def split: dp_path_type.split
        intro!: receive_from_network_disposes host_route_disposes send_disposes owns_keeps load_buf_keeps)
qed

lemma received_frame_disposed:
  assumes "bufs \<noteq> []" "no_backup st"
  shows "disposed (process_job e (Frame_Job p bufs n) st) (frame_faults st)"
proof -
  have "owns (ezframe_receive bufs n st) (frame_faults st)" "no_backup (ezframe_receive bufs n st)"
    "fr_pos (frame (ezframe_receive bufs n st)) < length (fr_bufs (frame (ezframe_receive bufs n st)))"
    using assms by (simp_all add: ezframe_receive_def owns_def view_defs no_backup_def)
  from parse_frame_disposes [OF this, of e p] show ?thesis by simp
qed

subsection \<open>Failed creation on a backup\<close>

lemma sync_create_frame:
  assumes "lookups_ok e" "owns st f" "sync_create_conn e conn fl st = (rc, st')" "rc < 0"
  shows "disposed st' f"
proof -
  obtain found st1 where 1: "alvs_find_server_index e (ssc_server_addr conn) (ssc_virtual_addr conn)
            (ssc_server_port conn) (ssc_virtual_port conn) (ucast (ssc_protocol conn)) st = (found, st1)" by fastforce
  have o1: "owns st1 f"
    using assms(2) lookup_views(27) [of e "ssc_server_addr conn" "ssc_virtual_addr conn" "ssc_server_port conn"
      "ssc_virtual_port conn" "ucast (ssc_protocol conn)" st] by (simp add: owns_def 1)
  show ?thesis
  proof (cases found)
    case None
    then show ?thesis
      using assms(3,4)
      by (auto simp: sync_create_conn_def 1 dest: create_new_entry_frame [OF o1] split: prod.splits if_splits)
  next
    case (Some i)
    obtain rc2 st2 where 2: "alvs_server_info_lookup e i st1 = (rc2, st2)" by fastforce
    have o2: "owns st2 f" using o1 lookup_views(15) [of e i st1] by (simp add: owns_def 2)
    have "rc2 = 0 \<or> rc2 = ENOENT"
      using 2 assms(1) by (auto simp: alvs_server_info_lookup_def ezdp_lookup_def lookups_ok_def split: option.splits if_splits)
    then show ?thesis
      using assms(3,4)
      by (auto simp: sync_create_conn_def 1 2 Some ENOENT_def dest: create_new_entry_frame [OF o2]
          split: prod.splits if_splits)
  qed
qed

lemma sync_existing_frame:
  assumes "owns st f" "sync_existing_conn e conn i st = (r, st')"
  shows "owns st' f" "r = EC_Ignore v \<Longrightarrow> v \<ge> 0"
proof -
  obtain rc st1 where 1: "alvs_conn_info_lookup e i st = (rc, st1)" by fastforce
  define w where "w = cir_server_word (conn_info_result st1)"
  obtain rc2 st2 where 2: "alvs_server_info_lookup e w st1 = (rc2, st2)" by fastforce
  have "frame_view st1 = frame_view st" "frame_view st2 = frame_view st1"
    using lookup_views(24) [of e i st] lookup_views(15) [of e w st1] by (simp_all add: 1 2)
  then have "owns st1 f" "owns st2 f" "owns (alvs_conn_delete_without_lock e i st1) f"
      "owns (alvs_conn_delete_without_lock e i st2) f"
    using assms(1) by (simp_all add: owns_def delete_frame_views)
  then show "owns st' f"
    using assms(2) by (auto simp: sync_existing_conn_def 1 Let_def w_def [symmetric] 2 split: if_splits)
  show "r = EC_Ignore v \<Longrightarrow> v \<ge> 0"
    using assms(2) by (auto simp: sync_existing_conn_def 1 Let_def w_def [symmetric] 2 split: if_splits)
qed

lemma process_conn_frame:
  assumes "lookups_ok e" "owns st f" "ssc_version conn = 0" "ssc_type conn = 0"
    and "alvs_state_sync_process_conn e conn st = (rc, st')" "rc < 0"
  shows "disposed st' f"
proof -
  obtain h st1 where lock: "alvs_lock_connection e (st\<lparr>conn_class_key := sync_conn_key conn\<rparr>) = (h, st1)" by fastforce
  have o: "owns (dp_tick st1) f"
    using assms(2) lock_views(1) [of e "st\<lparr>conn_class_key := sync_conn_key conn\<rparr>"]
    by (simp add: lock owns_def dp_simps)
  obtain rc2 st2 where locked: "sync_locked_conn e conn st1 = (rc2, st2)" by fastforce
  have st': "rc2 = rc" "st' = alvs_unlock_connection h st2"
    using assms(3-6) by (auto simp: alvs_state_sync_process_conn_def lock locked split: if_splits)
  have "disposed st2 f"
  proof (cases "ezdp_lookup e (conn_class (sh st1) (conn_class_key st1)) st1")
    case (Inl x)
    then show ?thesis
      using sync_create_frame [OF assms(1) o] locked st' assms(6) by (simp add: sync_locked_conn_def)
  next
    case (Inr x)
    obtain r3 st3 where ex: "sync_existing_conn e conn (ccr_conn_index x) (dp_tick st1) = (r3, st3)" by fastforce
    note f3 = sync_existing_frame [OF o ex]
    then show ?thesis
      using sync_create_frame [OF assms(1) f3(1)] locked st' assms(6) f3(2)
      by (auto simp: sync_locked_conn_def Inr ex split: existing_conn.splits)
  qed
  then show ?thesis by (simp add: st' disposed_view [OF lock_views(3)])
qed

text \<open>
  C30. A backup that cannot create the entry of a connection frees the frame twice: the creation
  discards it, and the loop over the connections of the message discards it again because the result
  is negative.
\<close>

theorem backup_frees_twice:
  assumes "lookups_ok e" "fr_live (frame st)"
    and "load_struct e SYNC_CONN_SIZE off buflen st = (Some (bs, off', buflen'), st)"
    and "ssc_version (sync_conn_of_bytes bs) = 0" "ssc_type (sync_conn_of_bytes bs) = 0"
    and "fst (alvs_state_sync_process_conn e (sync_conn_of_bytes bs) st) < 0"
  shows "frame_faults (backup_conns e (Suc n) off buflen st) = Suc (frame_faults st)"
proof -
  obtain rc st1 where p: "alvs_state_sync_process_conn e (sync_conn_of_bytes bs) st = (rc, st1)" by fastforce
  have "owns st (frame_faults st)" using assms(2) by (simp add: owns_def view_defs)
  from process_conn_frame [OF assms(1) this assms(4,5) p] have "disposed st1 (frame_faults st)"
    using assms(6) by (simp add: p)
  then have "frame_view (alvs_update_discard_statistics e ALVS_ERROR_STATE_SYNC_DECODE_CONN st1) = (False, frame_faults st)"
    by (simp add: disposed_def dp_simps)
  then show ?thesis
    using assms(3,6) by (simp add: p alvs_discard_and_stats_def alvs_discard_frame_def ezframe_free_def view_defs)
qed

definition full_backup :: dp_state where
  "full_backup = idle_state\<lparr>frame_data := 0 # 6 # replicate 34 0,
     frame := \<lparr>fr_live = True, fr_bufs = [0 # 6 # replicate 34 0], fr_pos = 0, fr_length = 36\<rparr>\<rparr>"

lemma full_backup_load:
  "load_struct plain_env SYNC_CONN_SIZE 0 36 full_backup = (Some (0 # 6 # replicate 34 0, 36, 0), full_backup)"
proof -
  have n: "length (frame_data full_backup) = 36" by (simp add: full_backup_def)
  then have "bytes_at plain_env full_backup 0 36 = map (nth (frame_data full_backup)) [0..<length (frame_data full_backup)]"
    by (simp add: bytes_at_def)
  then have "bytes_at plain_env full_backup 0 36 = 0 # 6 # replicate 34 0"
    unfolding map_nth by (simp add: full_backup_def)
  then show ?thesis
    by (simp add: load_struct_def load_tail.simps SYNC_CONN_SIZE_def Let_def)
qed

theorem backup_frees_twice_witness:
  "frame_faults (backup_conns plain_env 1 0 36 full_backup) = 1"
proof -
  have "fst (alvs_state_sync_process_conn plain_env (sync_conn_of_bytes (0 # 6 # replicate 34 0)) full_backup) < 0"
    by (simp add: alvs_state_sync_process_conn_def sync_locked_conn_def sync_create_conn_def sync_conn_key_def
        full_backup_def sync_conn_of_bytes_def u16_at_def u32_at_def example_defs alvs_conn_create_new_entry_def
        ezdp_alloc_index_def alvs_find_server_index_def ezdp_lookup_def dp_tick_def ENOENT_def
        alvs_lock_connection_def ezdp_lock_spinlock_def IPPROTO_TCP_def Let_def)
  then show ?thesis
    using backup_frees_twice [OF plain_env_ok(1) _ full_backup_load, of 0]
    by (simp add: full_backup_def sync_conn_of_bytes_def u16_at_def idle_state_def)
qed

end
