(* ===== verification/Dp_Lock_Props.thy ===== *)
theory Dp_Lock_Props
  imports Dp_Frame_Props Dp_Aging_Props
begin

text \<open>
  The locks of the job of a frame.  A thread that starts without a lock ends without one and has
  waited for none of its own, as long as no other thread changes the tables while it works; with that
  the discipline of frames of Dp_Frame_Props is a statement about every job that comes to its end.
\<close>

abbreviation free_of_locks :: "dp_state \<Rightarrow> bool" where
  "free_of_locks st \<equiv> locks st = ([], False)"

subsection \<open>Operations on connections\<close>

lemma table_lock_views [dp_simps]:
  "locks (snd (ezdp_modify_conn_info e i st)) = locks st"
  "locks (ezdp_add_conn_info e i st) = locks st"
  "locks (snd (ezdp_delete_conn_info e i st)) = locks st"
  "locks (snd (ezdp_add_conn_class e k r st)) = locks st"
  "locks (snd (ezdp_delete_conn_class e k st)) = locks st"
  "locks (snd (ezdp_alloc_index e st)) = locks st"
  "locks (ezdp_free_index i st) = locks st"
  "locks (ezframe_receive bufs n st) = locks st"
  by (simp_all add: ezdp_modify_conn_info_def ezdp_add_conn_info_def ezdp_delete_conn_info_def ezframe_receive_def
      ezdp_add_conn_class_def ezdp_delete_conn_class_def ezdp_alloc_index_def ezdp_free_index_def
      Let_def dp_tick_def view_defs)

lemma lock_unlock:
  assumes "free_of_locks st" "locks st' = locks (snd (alvs_lock_connection e st))"
  shows "free_of_locks (alvs_unlock_connection (fst (alvs_lock_connection e st)) st')"
  using assms by (simp add: view_defs alvs_lock_connection_def ezdp_lock_spinlock_def
      alvs_unlock_connection_def ezdp_unlock_spinlock_def dp_tick_def Let_def)

lemma locked_op_free:
  assumes "free_of_locks st"
  shows "free_of_locks (snd (alvs_conn_update_state e i s st))"
    "free_of_locks (snd (alvs_conn_mark_to_delete e i r st))"
    "free_of_locks (snd (alvs_conn_refresh e i st))"
  using assms
  by (auto simp: alvs_conn_update_state_def alvs_conn_mark_to_delete_def alvs_conn_refresh_def
      Let_def case_prod_beta dp_simps intro!: lock_unlock)

text \<open>
  Binding keeps the lock of a connection it finds bound.  Without interference it does not: the entry
  is the one whose lookup showed it unbound.
\<close>

lemma bind_free:
  assumes "quiet e" "free_of_locks st" "\<And>c. conn_info (sh st) i = Some c \<Longrightarrow> \<not> cir_bound c"
  shows "free_of_locks (snd (alvs_conn_bind e i v st))"
proof -
  obtain rc st1 where 1: "alvs_conn_info_lookup e i (snd (alvs_lock_connection e st)) = (rc, st1)" by fastforce
  have "locks st1 = locks (snd (alvs_lock_connection e st))"
    using lookup_views(23) [of e i "snd (alvs_lock_connection e st)"] by (simp add: 1)
  moreover have "\<not> cir_bound (conn_info_result st1)" if "rc = 0"
    using 1 that assms(3) quiet_lock(1) [OF assms(1), of st]
    by (auto simp: alvs_conn_info_lookup_def ezdp_lookup_def ENOENT_def split: sum.splits option.splits if_splits)
  ultimately show ?thesis
    using assms(2) by (auto simp: alvs_conn_bind_def Let_def case_prod_beta 1 dp_simps intro!: lock_unlock)
qed

subsection \<open>Messages of the master\<close>

text \<open>The buffer of a frame has room for a message with one connection.\<close>

definition single_fits :: "dp_env \<Rightarrow> bool" where
  "single_fits e \<longleftrightarrow> ETHER_HEADER_SIZE + NET_HDR_SIZE + SYNC_HEADER_SIZE + SYNC_CONN_SIZE + ALVS_STATE_SYNC_HEADROOM
     \<le> EZFRAME_BUF_DATA_SIZE e"

lemma sync_state_kept [simp]:
  "conn_sync_state (write_data off bs st) = conn_sync_state st"
  "conn_sync_state (dp_tick st) = conn_sync_state st"
  "conn_sync_state (snd (nw_interface_lookup e i st)) = conn_sync_state st"
  by (simp_all add: write_data_def dp_tick_def nw_interface_lookup_def split: sum.split)

lemma first_len:
  "current_len (conn_sync_state (alvs_state_sync_first e ip i st)) =
     of_nat (ETHER_HEADER_SIZE + NET_HDR_SIZE + SYNC_HEADER_SIZE + SYNC_CONN_SIZE)"
  by (simp add: alvs_state_sync_first_def Let_def case_prod_beta alvs_state_sync_set_sync_conn_def
      alvs_state_sync_set_sync_hdr_def alvs_state_sync_set_net_hdr_def alvs_state_sync_update_net_hdr_len_def
      alvs_state_sync_update_sync_hdr_len_def alvs_state_sync_set_eth_hdr_def)

lemma send_single_locks:
  assumes "single_fits e"
  shows "locks (alvs_state_sync_send_single e ip i st) = locks st"
  using assms
  by (simp add: alvs_state_sync_send_single_def Let_def case_prod_beta first_len single_fits_def dp_simps
      ETHER_HEADER_SIZE_def NET_HDR_SIZE_def IPHDR_SIZE_def UDPHDR_SIZE_def SYNC_HEADER_SIZE_def SYNC_CONN_SIZE_def)

lemma conn_route_locks:
  assumes "single_fits e"
  shows "locks (alvs_conn_do_route e st) = locks st"
  using assms by (simp add: alvs_conn_do_route_def send_conn_sync_def Let_def case_prod_beta dp_simps send_single_locks
      split: sum.split)

subsection \<open>Packets\<close>

lemma create_entry_locks:
  "locks (snd (alvs_conn_create_new_entry e bd srv p cs fl rs st)) = locks st"
  "locks (snd (create_scheduled_connection e tcp st)) = locks st"
  by (simp_all add: create_scheduled_connection_def alvs_conn_create_new_entry_def Let_def case_prod_beta dp_simps)

lemma schedule_new_free:
  assumes "free_of_locks st"
  shows "free_of_locks (snd (alvs_tcp_schedule_new_connection e si ip tcp st))"
proof -
  have "free_of_locks (snd (alvs_sched_check_active_servers e st))"
    using assms by (simp add: dp_simps)
  then show ?thesis
    by (auto simp: alvs_tcp_schedule_new_connection_def Let_def case_prod_beta dp_simps create_entry_locks
        intro!: lock_unlock split: sum.split)
qed

lemma data_path_free:
  assumes "quiet e" "single_fits e" "free_of_locks st"
  shows "free_of_locks (alvs_conn_data_path e tcp i st)"
proof -
  obtain rc st1 where 1: "alvs_conn_info_lookup e i st = (rc, st1)" by fastforce
  have o1: "free_of_locks st1" using assms(3) lookup_views(23) [of e i st] by (simp add: 1)
  have f1: "conn_info (sh st1) i = Some c \<Longrightarrow> c = conn_info_result st1" if "rc = 0" for c
    using 1 that by (auto simp: alvs_conn_info_lookup_def ezdp_lookup_def dp_tick_def ENOENT_def
        split: sum.splits option.splits if_splits)
  have o2: "free_of_locks (try_bind e i st1)" if "rc = 0"
  proof (cases "cir_bound (conn_info_result st1)")
    case False
    obtain found st2 where 2: "alvs_find_server_index e (cir_server_word (conn_info_result st1))
        (cck_virtual_ip (conn_class_key st1)) (cir_server_port (conn_info_result st1))
        (cck_virtual_port (conn_class_key st1)) (cck_protocol (conn_class_key st1)) st1 = (found, st2)" by fastforce
    then have s2: "sh st2 = sh st1" "locks st2 = locks st1"
      by (auto simp: alvs_find_server_index_def dp_tick_def view_defs split: sum.splits)
    have "free_of_locks (snd (alvs_conn_bind e i v st2))" for v
      by (rule bind_free [OF assms(1)]) (use o1 s2 f1 [OF that] False in auto)
    then show ?thesis using o1 s2(2) False by (simp add: try_bind_def Let_def 2 split: option.split)
  qed (simp add: try_bind_def o1)
  have o3: "free_of_locks (snd (check_bound_server e i s))" "free_of_locks (snd (check_conn_state e tcp i s))"
    if "free_of_locks s" for s
    using that locked_op_free
    by (simp_all add: check_bound_server_def check_conn_state_def Let_def case_prod_beta dp_simps)
  show ?thesis
    using o1 o2 o3 by (simp add: alvs_conn_data_path_def 1 Let_def case_prod_beta dp_simps
        conn_route_locks assms(2))
qed

lemma tcp_free:
  assumes "quiet e" "single_fits e" "free_of_locks st"
  shows "free_of_locks (alvs_tcp_processing e ip tcp st)"
proof -
  have svc: "free_of_locks (snd (alvs_service_data_path e si ip tcp s))" if "free_of_locks s" for si s
    using that by (simp add: alvs_service_data_path_def Let_def case_prod_beta dp_simps schedule_new_free)
  have "free_of_locks (alvs_unknown_packet_processing e ip tcp s)" if "free_of_locks s" for s
    using that svc
    by (simp add: alvs_unknown_packet_processing_def Let_def case_prod_beta dp_simps conn_route_locks assms(2)
        data_path_free [OF assms(1,2)] split: sum.split alvs_service_output_result.split)
  then show ?thesis
    using assms(3) by (simp add: alvs_tcp_processing_def Let_def dp_simps data_path_free [OF assms(1,2)]
        split: sum.split)
qed

lemma packet_free:
  assumes "quiet e" "single_fits e" "free_of_locks st" "no_backup st"
  shows "free_of_locks (alvs_packet_processing e d n off mine st)"
proof -
  have "free_of_locks (alvs_state_sync_backup e k l s)" if "free_of_locks s" "no_backup s" for k l s
    using that by (simp add: alvs_state_sync_backup_def alvs_util_app_info_lookup_def ezdp_lookup_def no_backup_def
        Let_def dp_simps split: sum.split option.splits)
  then show ?thesis
    using assms(3,4) by (simp add: alvs_packet_processing_def Let_def dp_simps tcp_free [OF assms(1,2)] no_backup_def)
qed

lemma frame_job_free:
  assumes "quiet e" "single_fits e" "free_of_locks st" "no_backup st"
  shows "free_of_locks (process_job e (Frame_Job p bufs n) st)"
proof -
  have net: "free_of_locks (receive_from_network e s)" if "free_of_locks s" "no_backup s" for s
  proof -
    obtain b s1 where 1: "ezframe_load_buf s = (b, s1)" by fastforce
    have "sh s1 = sh s" "locks s1 = locks s"
      using 1 frame_op_views_snd(2) [of s] by (auto simp: ezframe_load_buf_def Let_def view_defs split: if_splits)
    then have "free_of_locks s1" "no_backup s1" using that by (simp_all add: no_backup_def)
    then show ?thesis by (simp add: receive_from_network_def 1 Let_def dp_simps packet_free [OF assms(1,2)])
  qed
  obtain rc st1 where 1: "nw_interface_lookup e p (ezframe_receive bufs n st) = (rc, st1)" by fastforce
  have "sh st1 = sh st" "locks st1 = locks st"
    using 1 lookup_views(5) [of e p "ezframe_receive bufs n st"]
    by (auto simp: nw_interface_lookup_def dp_tick_def ezframe_receive_def view_defs split: sum.splits)
  then have "free_of_locks (dp_tick st1)" "no_backup (dp_tick st1)" "free_of_locks st1"
    using assms(3,4) by (simp_all add: dp_simps no_backup_def) (simp_all add: dp_tick_def)
  then show ?thesis
    by (simp add: nw_recieve_and_parse_frame_def 1 Let_def dp_simps net split: dp_path_type.split)
qed

subsection \<open>Properties\<close>

text \<open>
  C22. Whatever calls into the library fail and whatever the other threads do to the tables, a thread
  that is no backup and comes to the end of the job of a received frame has disposed of the frame
  exactly once: it has been sent or freed, and no operation touched it after that.  The job does come
  to its end, with no lock left, when the thread starts without a lock, a buffer has room for a
  message with one connection and no other thread changes the tables meanwhile.  Without the last
  condition it need not: a thread that has lost the race of \<open>alvs_conn_bind\<close> waits for ever for its
  own lock, with the frame in its hands.  The writing of log messages is no part of the operations.
\<close>

theorem frame_disposed_once:
  assumes "bufs \<noteq> []" "no_backup st"
  shows "(\<not> blocked (process_job e (Frame_Job p bufs n) st) \<longrightarrow>
      \<not> fr_live (frame (process_job e (Frame_Job p bufs n) st)) \<and>
      frame_faults (process_job e (Frame_Job p bufs n) st) = frame_faults st) \<and>
    (quiet e \<and> single_fits e \<and> held st = [] \<and> \<not> blocked st \<longrightarrow>
      \<not> blocked (process_job e (Frame_Job p bufs n) st) \<and> held (process_job e (Frame_Job p bufs n) st) = [])"
  using received_frame_disposed [OF assms, of e p n] frame_job_free [of e st p bufs n] assms(2)
  by (auto simp: disposed_def view_defs)

theorem frame_disposed_once_witness:
  "\<not> blocked (process_job plain_env (Frame_Job 0 [[1, 2]] 2) idle_state) \<and>
   \<not> fr_live (frame (process_job plain_env (Frame_Job 0 [[1, 2]] 2) idle_state)) \<and>
   frame_faults (process_job plain_env (Frame_Job 0 [[1, 2]] 2) idle_state) = 0"
proof -
  have "single_fits plain_env"
    by (simp add: single_fits_def plain_env_def ETHER_HEADER_SIZE_def NET_HDR_SIZE_def IPHDR_SIZE_def UDPHDR_SIZE_def
        SYNC_HEADER_SIZE_def SYNC_CONN_SIZE_def ALVS_STATE_SYNC_HEADROOM_def)
  moreover have "no_backup idle_state" "held idle_state = []" "\<not> blocked idle_state" "frame_faults idle_state = 0"
    by (simp_all add: no_backup_def example_defs)
  ultimately show ?thesis
    using frame_disposed_once [of "[[1, 2]]" idle_state plain_env 0 2] by simp
qed

end
