(* ===== verification/Nw_Manager.thy ===== *)
theory Nw_Manager
  imports Nw_DB
begin

text \<open>
  The network database manager, \<^verbatim>\<open>src/cp/nw_db_manager.c\<close>: the thread of the control plane that follows
  the routes and the neighbours of the kernel and mirrors them in the tables of the network processor.

  libnl is a parameter: a route and a neighbour are the records of what the accessors return for them, the
  contents of its caches at the start and the changes it reports later are inputs.  The interface and ARP
  tables are maps.  A thread that has ended, after an error or because the application is cancelled, makes no
  further step; reading the link address of a neighbour that has none is a fault.
\<close>

subsection \<open>Routes, neighbours and the thread\<close>

definition RT_TABLE_MAIN :: u32 where "RT_TABLE_MAIN = 254"
definition NUD_NONE :: u16 where "NUD_NONE = 0"
definition NUD_INCOMPLETE :: u16 where "NUD_INCOMPLETE = 0x01"
definition NUD_FAILED :: u16 where "NUD_FAILED = 0x20"
definition NUD_NOARP :: u16 where "NUD_NOARP = 0x40"
definition NW_DB_MANAGER_NEIGHBOR_FILTERED_STATE :: u16 where
  "NW_DB_MANAGER_NEIGHBOR_FILTERED_STATE = NUD_INCOMPLETE OR NUD_FAILED OR NUD_NOARP"
definition NW_BASE_LOGICAL_ID :: nat where "NW_BASE_LOGICAL_ID = 0"

record rtnl_neigh =
  nb_family :: u16
  nb_state :: u16
  nb_dst :: in_addr_t
  nb_lladdr :: "ether_addr option"

record nl_route =
  nlr_family :: u16
  nlr_table :: u32
  nlr_route :: rtnl_route

datatype nl_action = NL_ACT_NEW | NL_ACT_DEL | NL_ACT_CHANGE | NL_ACT_UNSPEC

text \<open>What the thread meets while it polls: a change of a cache, or the request of the main thread to stop.\<close>

datatype nl_event =
    Route_Event nl_action nl_route
  | Neigh_Event nl_action rtnl_neigh
  | Cancel_Request

record nw_mgr =
  nm_db :: nw_db_state
  nm_ifs :: "u32 \<rightharpoonup> nw_if_result"
  nm_arp :: "in_addr_t \<rightharpoonup> nw_arp_result"
  nm_cancel :: bool
  nm_open :: bool
  nm_sigterm :: bool

datatype nw_thread = Running nw_mgr | Ended nw_mgr | Faulted nw_mgr

fun nw_then :: "nw_thread \<Rightarrow> (nw_mgr \<Rightarrow> nw_thread) \<Rightarrow> nw_thread" where
  "nw_then (Running st) f = f st"
| "nw_then (Ended st) f = Ended st"
| "nw_then (Faulted st) f = Faulted st"

text \<open>
  The address of the application, when it can be read; the bytes of an uninitialised interface entry; whether the
  caches can be registered; the memory-space constant of the chip.
\<close>

record nw_mgr_env =
  ne_nw :: nw_env
  ne_my_mac :: "ether_addr option"
  ne_if_garbage :: nw_if_result
  ne_route_cache_ok :: bool
  ne_neigh_cache_ok :: bool
  ne_external_ms :: u32

definition nw_nps_call :: "nw_mgr_env \<Rightarrow> (nw_mgr \<Rightarrow> nw_mgr) \<Rightarrow> nw_mgr \<Rightarrow> bool \<times> nw_mgr" where
  "nw_nps_call e effect st =
     (let ok = nw_nps_ok (ne_nw e) (nw_clock (nm_db st)); st = nm_db_update (nw_clock_update Suc) st
      in (ok, if ok then effect st else st))"

subsection \<open>Start and end\<close>

definition nw_db_manager_delete :: "nw_mgr \<Rightarrow> nw_mgr" where
  "nw_db_manager_delete st = st\<lparr>nm_open := False\<rparr>"

definition nw_db_manager_exit_with_error :: "nw_mgr \<Rightarrow> nw_thread" where
  "nw_db_manager_exit_with_error st = Ended ((nw_db_manager_delete (st\<lparr>nm_cancel := True\<rparr>))\<lparr>nm_sigterm := True\<rparr>)"

definition nw_db_manager_init :: "nw_mgr_env \<Rightarrow> nw_mgr \<Rightarrow> nw_thread" where
  "nw_db_manager_init e st =
     (let (rc, db) = nw_db_init (ne_nw e) (nm_db st); st = st\<lparr>nm_db := db, nm_open := True\<rparr>
      in if rc \<noteq> NW_DB_OK then nw_db_manager_exit_with_error st else Running st)"

subsection \<open>The interface table\<close>

definition if_stats_base :: "nw_mgr_env \<Rightarrow> nat \<Rightarrow> u32" where
  "if_stats_base e logical_id =
     bswap_32 (BUILD_SUM_ADDR (ne_external_ms e) USER_POSTED_STATS_MSID
       (of_nat (EMEM_IF_STATS_POSTED_OFFSET + logical_id * NW_NUM_OF_IF_STATS)))"

definition nw_add_if_entry :: "nw_mgr_env \<Rightarrow> nat \<Rightarrow> nw_if_result \<Rightarrow> nw_mgr \<Rightarrow> nw_thread" where
  "nw_add_if_entry e logical_id result st =
     (let (ok, st) = nw_nps_call e (nm_ifs_update (\<lambda>m. m(of_nat logical_id \<mapsto> result))) st
      in if ok then Running st else nw_db_manager_exit_with_error st)"

fun add_nw_ifs :: "nw_mgr_env \<Rightarrow> nw_if_result \<Rightarrow> nat list \<Rightarrow> nw_mgr \<Rightarrow> nw_thread" where
  "add_nw_ifs e if_result [] st = Running st"
| "add_nw_ifs e if_result (ind # inds) st =
     (let if_result = if_result\<lparr>nir_stats_base := if_stats_base e (NW_BASE_LOGICAL_ID + ind),
            nir_output_channel := of_nat ((ind mod 2) * 12) OR (if ind < 2 then 0 else push_bit 7 1)\<rparr>
      in nw_then (nw_add_if_entry e (NW_BASE_LOGICAL_ID + ind) if_result st) (add_nw_ifs e if_result inds))"

definition nw_db_manager_if_table_init :: "nw_mgr_env \<Rightarrow> nw_mgr \<Rightarrow> nw_thread" where
  "nw_db_manager_if_table_init e st =
     (case ne_my_mac e of
        None \<Rightarrow> nw_db_manager_exit_with_error st
      | Some mac \<Rightarrow>
          let if_result = (ne_if_garbage e)\<lparr>nir_mac_address := mac, nir_path_type := DP_PATH_FROM_HOST_PATH,
                nir_stats_base := if_stats_base e (NW_BASE_LOGICAL_ID + USER_NW_IF_NUM),
                nir_output_channel := 24 OR push_bit 7 1\<rparr>
          in nw_then (nw_add_if_entry e (NW_BASE_LOGICAL_ID + USER_NW_IF_NUM) if_result st)
               (add_nw_ifs e (if_result\<lparr>nir_path_type := DP_PATH_FROM_NW_PATH\<rparr>) [0..<USER_NW_IF_NUM]))"

subsection \<open>Routes\<close>

definition valid_route_entry :: "nl_route \<Rightarrow> bool" where
  "valid_route_entry route_entry \<longleftrightarrow> nlr_table route_entry = RT_TABLE_MAIN"

fun add_route_cache :: "nw_mgr_env \<Rightarrow> nl_route list \<Rightarrow> nw_mgr \<Rightarrow> nw_thread" where
  "add_route_cache e [] st = Running st"
| "add_route_cache e (route_entry # routes) st =
     (if valid_route_entry route_entry then
        let (rc, db) = nw_db_add_fib_entry (ne_nw e) (nlr_route route_entry) True (nm_db st); st = st\<lparr>nm_db := db\<rparr>
        in if rc = NW_DB_INTERNAL_ERROR \<or> rc = NW_DB_NPS_ERROR then nw_db_manager_exit_with_error st
           else add_route_cache e routes st
      else add_route_cache e routes st)"

definition nw_db_manager_fib_table_init :: "nw_mgr_env \<Rightarrow> nl_route list \<Rightarrow> nw_mgr \<Rightarrow> nw_thread" where
  "nw_db_manager_fib_table_init e route_cache st =
     (if \<not> ne_route_cache_ok e then nw_db_manager_exit_with_error st
      else add_route_cache e (filter (\<lambda>r. nlr_family r = AF_INET) route_cache) st)"

definition nw_db_manager_fib_cb :: "nw_mgr_env \<Rightarrow> nl_action \<Rightarrow> nl_route \<Rightarrow> nw_mgr \<Rightarrow> nw_thread" where
  "nw_db_manager_fib_cb e action route_entry st =
     (if nlr_family route_entry = AF_INET then
        let (nw_ret, db) =
              (if \<not> valid_route_entry route_entry then (NW_DB_OK, nm_db st)
               else case action of
                      NL_ACT_NEW \<Rightarrow> nw_db_add_fib_entry (ne_nw e) (nlr_route route_entry) True (nm_db st)
                    | NL_ACT_DEL \<Rightarrow> nw_db_delete_fib_entry (ne_nw e) (nlr_route route_entry) (nm_db st)
                    | NL_ACT_CHANGE \<Rightarrow> nw_db_modify_fib_entry (ne_nw e) (nlr_route route_entry) (nm_db st)
                    | NL_ACT_UNSPEC \<Rightarrow> (NW_DB_OK, nm_db st));
            st = st\<lparr>nm_db := db\<rparr>
        in if nw_ret = NW_DB_INTERNAL_ERROR \<or> nw_ret = NW_DB_NPS_ERROR then nw_db_manager_exit_with_error st
           else Running st
      else Running st)"

subsection \<open>Neighbours\<close>

definition valid_neighbor :: "rtnl_neigh \<Rightarrow> bool" where
  "valid_neighbor neighbor \<longleftrightarrow>
     nb_state neighbor AND NW_DB_MANAGER_NEIGHBOR_FILTERED_STATE = 0 \<and> nb_state neighbor \<noteq> NUD_NONE"

definition neighbor_to_arp_entry :: "rtnl_neigh \<Rightarrow> in_addr_t \<times> nw_arp_result option" where
  "neighbor_to_arp_entry neighbor =
     (nb_dst neighbor, map_option (\<lambda>mac. \<lparr>nar_base_logical_id = of_nat NW_BASE_LOGICAL_ID, nar_dest_mac_addr = mac\<rparr>) (nb_lladdr neighbor))"

definition add_entry_to_arp_table :: "nw_mgr_env \<Rightarrow> rtnl_neigh \<Rightarrow> nw_mgr \<Rightarrow> nw_thread" where
  "add_entry_to_arp_table e neighbor st =
     (case neighbor_to_arp_entry neighbor of
        (key, None) \<Rightarrow> Faulted st
      | (key, Some result) \<Rightarrow>
          let (ok, st) = nw_nps_call e (nm_arp_update (\<lambda>m. m(key \<mapsto> result))) st
          in if ok then Running st else nw_db_manager_exit_with_error st)"

definition remove_entry_from_arp_table :: "nw_mgr_env \<Rightarrow> rtnl_neigh \<Rightarrow> nw_mgr \<Rightarrow> nw_thread" where
  "remove_entry_from_arp_table e neighbor st =
     (let (ok, st) = nw_nps_call e (nm_arp_update (\<lambda>m. m(fst (neighbor_to_arp_entry neighbor) := None))) st
      in if ok then Running st else nw_db_manager_exit_with_error st)"

fun add_neigh_cache :: "nw_mgr_env \<Rightarrow> rtnl_neigh list \<Rightarrow> nw_mgr \<Rightarrow> nw_thread" where
  "add_neigh_cache e [] st = Running st"
| "add_neigh_cache e (neighbor # neighs) st =
     nw_then (if valid_neighbor neighbor then add_entry_to_arp_table e neighbor st else Running st) (add_neigh_cache e neighs)"

definition nw_db_manager_arp_table_init :: "nw_mgr_env \<Rightarrow> rtnl_neigh list \<Rightarrow> nw_mgr \<Rightarrow> nw_thread" where
  "nw_db_manager_arp_table_init e neighbor_cache st =
     (if \<not> ne_neigh_cache_ok e then nw_db_manager_exit_with_error st
      else add_neigh_cache e (filter (\<lambda>n. nb_family n = AF_INET) neighbor_cache) st)"

definition nw_db_manager_arp_cb :: "nw_mgr_env \<Rightarrow> nl_action \<Rightarrow> rtnl_neigh \<Rightarrow> nw_mgr \<Rightarrow> nw_thread" where
  "nw_db_manager_arp_cb e action neighbor st =
     (if nb_family neighbor = AF_INET then
        (case action of
           NL_ACT_NEW \<Rightarrow> if valid_neighbor neighbor then add_entry_to_arp_table e neighbor st else Running st
         | NL_ACT_DEL \<Rightarrow> remove_entry_from_arp_table e neighbor st
         | NL_ACT_CHANGE \<Rightarrow>
             if valid_neighbor neighbor then add_entry_to_arp_table e neighbor st
             else remove_entry_from_arp_table e neighbor st
         | NL_ACT_UNSPEC \<Rightarrow> Running st)
      else Running st)"

subsection \<open>The thread\<close>

definition nw_db_manager_table_init :: "nw_mgr_env \<Rightarrow> nl_route list \<Rightarrow> rtnl_neigh list \<Rightarrow> nw_mgr \<Rightarrow> nw_thread" where
  "nw_db_manager_table_init e route_cache neighbor_cache st =
     nw_then (nw_then (nw_db_manager_if_table_init e st) (nw_db_manager_fib_table_init e route_cache))
       (nw_db_manager_arp_table_init e neighbor_cache)"

fun nw_event :: "nw_mgr_env \<Rightarrow> nl_event \<Rightarrow> nw_mgr \<Rightarrow> nw_thread" where
  "nw_event e (Route_Event action r) st = nw_db_manager_fib_cb e action r st"
| "nw_event e (Neigh_Event action n) st = nw_db_manager_arp_cb e action n st"
| "nw_event e Cancel_Request st = Running (st\<lparr>nm_cancel := True\<rparr>)"

fun nw_events :: "nw_mgr_env \<Rightarrow> nl_event list \<Rightarrow> nw_mgr \<Rightarrow> nw_thread" where
  "nw_events e [] st = Running st"
| "nw_events e (ev # evs) st = nw_then (nw_event e ev st) (nw_events e evs)"

text \<open>
  One element of the list is what one round of the loop receives; a thread that is \<open>Running\<close> at the end of the
  list goes on polling.
\<close>

fun nw_db_manager_poll :: "nw_mgr_env \<Rightarrow> nl_event list list \<Rightarrow> nw_mgr \<Rightarrow> nw_thread" where
  "nw_db_manager_poll e [] st = (if nm_cancel st then Ended (nw_db_manager_delete st) else Running st)"
| "nw_db_manager_poll e (evs # rounds) st =
     (if nm_cancel st then Ended (nw_db_manager_delete st)
      else nw_then (nw_events e evs st) (nw_db_manager_poll e rounds))"

definition nw_db_manager_main :: "nw_mgr_env \<Rightarrow> nl_route list \<Rightarrow> rtnl_neigh list \<Rightarrow> nl_event list list \<Rightarrow> nw_mgr \<Rightarrow> nw_thread" where
  "nw_db_manager_main e route_cache neighbor_cache rounds st =
     nw_then (nw_then (nw_db_manager_init e st) (nw_db_manager_table_init e route_cache neighbor_cache))
       (nw_db_manager_poll e rounds)"

subsection \<open>Statistics of the interfaces\<close>

text \<open>The names of the counters, \<^verbatim>\<open>src/cp/error_names.c\<close>, and the lines the listing logs for an interface.\<close>

definition nw_if_posted_stats_offsets_names :: "string option list" where
  "nw_if_posted_stats_offsets_names = map Some
     ([''FRAME_VALIDATION_FAIL'', ''MAC_ERROR'', ''IPV4_ERROR'', ''NOT_MY_MAC'', ''NOT_IPV4'', ''NOT_TCP'', ''NO_VALID_ROUTE'',
       ''FAIL_ARP_LOOKUP'', ''FAIL_INTERFACE_LOOKUP'', ''FAIL_FIB_LOOKUP'', ''REJECT_BY_FIB'', ''UNKNOWN_FIB_RESULT''] @
      replicate 9 [])"

datatype stat_line = Stat_Counter string u64 | Stat_Problem nat | Stat_No_Errors

definition stat_line_of :: "nat \<Rightarrow> u64 \<Rightarrow> stat_line" where
  "stat_line_of error_index c =
     (case nw_if_posted_stats_offsets_names ! error_index of Some name \<Rightarrow> Stat_Counter name c | None \<Rightarrow> Stat_Problem error_index)"

text \<open>Reading the counters of the chip is a parameter; it may fail.  The sum of the counters is taken modulo 64 bits.\<close>

definition nw_db_print_interface_stats :: "(nat \<Rightarrow> nat \<Rightarrow> u64 list option) \<Rightarrow> nat \<Rightarrow> stat_line list option" where
  "nw_db_print_interface_stats get_posted_counters ifc =
     (case get_posted_counters (EMEM_IF_STATS_POSTED_OFFSET + ifc * NW_NUM_OF_IF_STATS) NW_NUM_OF_IF_STATS of
        None \<Rightarrow> None
      | Some counters \<Rightarrow>
          let lines = map (\<lambda>i. stat_line_of i (counters ! i)) (filter (\<lambda>i. counters ! i > 0) [0..<NW_NUM_OF_IF_STATS])
          in Some (if sum_list (map ((!) counters) [0..<NW_NUM_OF_IF_STATS]) = 0 then lines @ [Stat_No_Errors] else lines))"

fun print_interfaces :: "(nat \<Rightarrow> nat \<Rightarrow> u64 list option) \<Rightarrow> nat list \<Rightarrow> (nat \<times> stat_line list) list \<times> nw_db_rc" where
  "print_interfaces get_posted_counters [] = ([], NW_DB_OK)"
| "print_interfaces get_posted_counters (i # is) =
     (case nw_db_print_interface_stats get_posted_counters i of
        None \<Rightarrow> ([], NW_DB_NPS_ERROR)
      | Some lines \<Rightarrow> let (rest, rc) = print_interfaces get_posted_counters is in ((i, lines) # rest, rc))"

definition nw_db_print_all_interfaces_stats :: "(nat \<Rightarrow> nat \<Rightarrow> u64 list option) \<Rightarrow> (nat \<times> stat_line list) list \<times> nw_db_rc" where
  "nw_db_print_all_interfaces_stats get_posted_counters =
     print_interfaces get_posted_counters
       (map (\<lambda>i. NW_BASE_LOGICAL_ID + i) [0..<USER_NW_IF_NUM] @ [unat USER_HOST_LOGICAL_ID])"

end
