(* ===== verification/Nw_Manager_Props.thy ===== *)
theory Nw_Manager_Props
  imports Nw_Manager Dp_Example Nw_Routing
begin

text \<open>
  Properties of the network database manager: while SQLite and the network processor accept its calls, the ARP
  table holds the valid neighbours of the kernel and the forwarding table represents its main routing table, and
  a frame is sent the way the kernel's tables say.
\<close>

subsection \<open>The kernel's tables\<close>

type_synonym neigh_table = "in_addr_t \<rightharpoonup> rtnl_neigh"

fun kernel_neigh :: "nl_event \<Rightarrow> neigh_table \<Rightarrow> neigh_table" where
  "kernel_neigh (Neigh_Event action n) K =
     (if nb_family n \<noteq> AF_INET then K
      else case action of NL_ACT_NEW \<Rightarrow> K(nb_dst n \<mapsto> n) | NL_ACT_CHANGE \<Rightarrow> K(nb_dst n \<mapsto> n)
         | NL_ACT_DEL \<Rightarrow> K(nb_dst n := None) | NL_ACT_UNSPEC \<Rightarrow> K)"
| "kernel_neigh _ K = K"

text \<open>The updates of the main routing table among the events.\<close>

definition main_route :: "nl_route \<Rightarrow> bool" where
  "main_route r \<longleftrightarrow> nlr_family r = AF_INET \<and> nlr_table r = RT_TABLE_MAIN"

fun route_ops :: "nl_event \<Rightarrow> fib_op list" where
  "route_ops (Route_Event action r) =
     (if \<not> main_route r then []
      else case action of NL_ACT_NEW \<Rightarrow> [FibAdd (nlr_route r)] | NL_ACT_DEL \<Rightarrow> [FibDelete (nlr_route r)]
         | NL_ACT_CHANGE \<Rightarrow> [FibModify (nlr_route r)] | NL_ACT_UNSPEC \<Rightarrow> [])"
| "route_ops _ = []"

text \<open>
  What the manager relies on: a neighbour is new only once, a valid one has a link address, and an IPv4 prefix has at
  most 32 bits.
\<close>

fun event_ok :: "nl_event \<Rightarrow> neigh_table \<Rightarrow> bool" where
  "event_ok (Neigh_Event action n) K \<longleftrightarrow> nb_family n \<noteq> AF_INET \<or>
     ((action \<noteq> NL_ACT_NEW \<or> K (nb_dst n) = None) \<and> (\<not> valid_neighbor n \<or> nb_lladdr n \<noteq> None))"
| "event_ok (Route_Event action r) K \<longleftrightarrow> rt_dst_prefixlen (nlr_route r) \<le> 32"
| "event_ok Cancel_Request K \<longleftrightarrow> False"

fun events_ok :: "nl_event list \<Rightarrow> neigh_table \<Rightarrow> bool" where
  "events_ok [] K = True"
| "events_ok (ev # evs) K = (event_ok ev K \<and> events_ok evs (kernel_neigh ev K))"

subsection \<open>What the tables of the network processor hold\<close>

definition arp_image :: "neigh_table \<Rightarrow> in_addr_t \<rightharpoonup> nw_arp_result" where
  "arp_image K = (\<lambda>ip. case K ip of None \<Rightarrow> None
     | Some n \<Rightarrow> if valid_neighbor n then snd (neighbor_to_arp_entry n) else None)"

definition mirrors :: "nw_mgr \<Rightarrow> neigh_table \<Rightarrow> nw_db_fib_entry list \<Rightarrow> bool" where
  "mirrors st K xs \<longleftrightarrow> nm_arp st = arp_image K \<and> fib_rep (nm_db st) xs \<and> \<not> nm_cancel st \<and> nm_open st"

definition fatal :: "nw_db_rc list \<Rightarrow> bool" where
  "fatal rcs \<longleftrightarrow> NW_DB_INTERNAL_ERROR \<in> set rcs"

lemma mgr_fib_rep_clock [simp]: "fib_rep (nw_clock_update f db) xs = fib_rep db xs"
  by (simp add: fib_rep_def)

lemma nw_nps_call_ok: "nw_env_ok (ne_nw e) \<Longrightarrow> nw_nps_call e f st = (True, f (nm_db_update (nw_clock_update Suc) st))"
  by (simp add: nw_nps_call_def Let_def nw_env_ok_def)

lemma fib_spec_rc: "fst (fib_spec op xs) \<noteq> NW_DB_NPS_ERROR"
  by (cases op) auto

lemma fib_spec_run_append:
  "fst (fib_spec_run (ops @ ops') xs) = fst (fib_spec_run ops xs) @ fst (fib_spec_run ops' (snd (fib_spec_run ops xs)))"
  "snd (fib_spec_run (ops @ ops') xs) = snd (fib_spec_run ops' (snd (fib_spec_run ops xs)))"
  by (induction ops arbitrary: xs) (auto simp: case_prod_beta)

subsection \<open>Steps\<close>

lemma arp_add_mirrors:
  assumes "nw_env_ok (ne_nw e)" "mirrors st K xs" "valid_neighbor n" "nb_lladdr n \<noteq> None"
  shows "\<exists>st'. add_entry_to_arp_table e n st = Running st' \<and> mirrors st' (K(nb_dst n \<mapsto> n)) xs \<and> nm_ifs st' = nm_ifs st"
  using assms
  by (auto simp: add_entry_to_arp_table_def neighbor_to_arp_entry_def nw_nps_call_ok mirrors_def arp_image_def fun_eq_iff)

lemma arp_remove_mirrors:
  assumes "nw_env_ok (ne_nw e)" "mirrors st K xs"
  shows "\<exists>st'. remove_entry_from_arp_table e n st = Running st' \<and> mirrors st' (K(nb_dst n := None)) xs \<and> nm_ifs st' = nm_ifs st"
    "\<not> valid_neighbor n \<Longrightarrow>
       \<exists>st'. remove_entry_from_arp_table e n st = Running st' \<and> mirrors st' (K(nb_dst n \<mapsto> n)) xs \<and> nm_ifs st' = nm_ifs st"
  using assms
  by (auto simp: remove_entry_from_arp_table_def neighbor_to_arp_entry_def nw_nps_call_ok mirrors_def arp_image_def fun_eq_iff)

lemma arp_skip_mirrors:
  assumes "mirrors st K xs" "\<not> valid_neighbor n" "K (nb_dst n) = None"
  shows "mirrors st (K(nb_dst n \<mapsto> n)) xs"
  using assms by (auto simp: mirrors_def arp_image_def fun_eq_iff)

lemma arp_cb_mirrors:
  assumes "nw_env_ok (ne_nw e)" "mirrors st K xs" "event_ok (Neigh_Event action n) K"
  shows "\<exists>st'. nw_db_manager_arp_cb e action n st = Running st' \<and> mirrors st' (kernel_neigh (Neigh_Event action n) K) xs \<and> nm_ifs st' = nm_ifs st"
proof (cases "nb_family n = AF_INET")
  case True
  note ok = assms(3) [simplified, simplified True, simplified]
  show ?thesis
  proof (cases action)
    case NL_ACT_NEW
    then show ?thesis
      using True ok arp_add_mirrors [OF assms(1,2)] arp_skip_mirrors [OF assms(2)] by (auto simp: nw_db_manager_arp_cb_def)
  next
    case NL_ACT_DEL
    then show ?thesis using True arp_remove_mirrors(1) [OF assms(1,2)] by (simp add: nw_db_manager_arp_cb_def)
  next
    case NL_ACT_CHANGE
    then show ?thesis
      using True ok arp_add_mirrors [OF assms(1,2)] arp_remove_mirrors(2) [OF assms(1,2)] by (auto simp: nw_db_manager_arp_cb_def)
  next
    case NL_ACT_UNSPEC
    then show ?thesis using True assms(2) by (simp add: nw_db_manager_arp_cb_def)
  qed
qed (use assms(2) in \<open>simp add: nw_db_manager_arp_cb_def\<close>)

text \<open>A route update that the table accepts or rejects leaves the thread running.\<close>

lemma fib_op_mirrors:
  assumes "nw_env_ok (ne_nw e)" "mirrors st K xs" "ipv4_op op" "fst (fib_spec op xs) \<noteq> NW_DB_INTERNAL_ERROR"
  shows "\<exists>rc db. fib_step (ne_nw e) op (nm_db st) = (rc, db) \<and> rc \<noteq> NW_DB_INTERNAL_ERROR \<and> rc \<noteq> NW_DB_NPS_ERROR \<and>
    mirrors (st\<lparr>nm_db := db\<rparr>) K (snd (fib_spec op xs))"
proof -
  have "fib_rep (nm_db st) xs" using assms(2) by (simp add: mirrors_def)
  from fib_step_refines [OF assms(1) this assms(3)] assms(2,4) fib_spec_rc [of op xs] show ?thesis
    by (auto simp: mirrors_def)
qed

lemma fib_cb_mirrors:
  assumes "nw_env_ok (ne_nw e)" "mirrors st K xs" "event_ok (Route_Event action r) K"
    and "\<not> fatal (fst (fib_spec_run (route_ops (Route_Event action r)) xs))"
  shows "\<exists>st'. nw_db_manager_fib_cb e action r st = Running st' \<and>
    mirrors st' K (snd (fib_spec_run (route_ops (Route_Event action r)) xs)) \<and> nm_ifs st' = nm_ifs st"
proof (cases "main_route r \<and> action \<noteq> NL_ACT_UNSPEC")
  case True
  then obtain op where op: "route_ops (Route_Event action r) = [op]" "ipv4_op op"
    "nw_db_manager_fib_cb e action r st = (let (rc, db) = fib_step (ne_nw e) op (nm_db st); st = st\<lparr>nm_db := db\<rparr>
       in if rc = NW_DB_INTERNAL_ERROR \<or> rc = NW_DB_NPS_ERROR then nw_db_manager_exit_with_error st else Running st)"
    using assms(3)
    by (cases action) (auto simp: main_route_def nw_db_manager_fib_cb_def valid_route_entry_def ipv4_op_def)
  have "fst (fib_spec op xs) \<noteq> NW_DB_INTERNAL_ERROR"
    using assms(4) unfolding op(1) by (auto simp: fatal_def case_prod_beta)
  from fib_op_mirrors [OF assms(1,2) op(2) this] show ?thesis
    unfolding op(1,3) by (auto simp: case_prod_beta)
next
  case False
  then show ?thesis
    using assms(2)
    by (cases action) (auto simp: main_route_def nw_db_manager_fib_cb_def valid_route_entry_def)
qed

lemma event_mirrors:
  assumes "nw_env_ok (ne_nw e)" "mirrors st K xs" "event_ok ev K" "\<not> fatal (fst (fib_spec_run (route_ops ev) xs))"
  shows "\<exists>st'. nw_event e ev st = Running st' \<and> mirrors st' (kernel_neigh ev K) (snd (fib_spec_run (route_ops ev) xs)) \<and> nm_ifs st' = nm_ifs st"
proof (cases ev)
  case (Route_Event action r)
  then show ?thesis using fib_cb_mirrors [OF assms(1,2)] assms(3,4) by simp
next
  case (Neigh_Event action n)
  then show ?thesis using arp_cb_mirrors [OF assms(1,2), of action n] assms(3) by simp
next
  case Cancel_Request
  then show ?thesis using assms(3) by simp
qed

lemma events_mirror:
  assumes "nw_env_ok (ne_nw e)" "mirrors st K xs" "events_ok evs K" "\<not> fatal (fst (fib_spec_run (concat (map route_ops evs)) xs))"
  shows "\<exists>st'. nw_events e evs st = Running st' \<and>
    mirrors st' (fold kernel_neigh evs K) (snd (fib_spec_run (concat (map route_ops evs)) xs)) \<and> nm_ifs st' = nm_ifs st"
  using assms(2-4)
proof (induction evs arbitrary: st K xs)
  case (Cons ev evs)
  have f: "\<not> fatal (fst (fib_spec_run (route_ops ev) xs))"
    "\<not> fatal (fst (fib_spec_run (concat (map route_ops evs)) (snd (fib_spec_run (route_ops ev) xs))))"
    using Cons.prems(3) by (auto simp: fatal_def fib_spec_run_append)
  obtain st' where "nw_event e ev st = Running st'" "mirrors st' (kernel_neigh ev K) (snd (fib_spec_run (route_ops ev) xs))"
      "nm_ifs st' = nm_ifs st"
    using event_mirrors [OF assms(1) Cons.prems(1) _ f(1)] Cons.prems(2) by auto
  with Cons.IH [OF this(2) _ f(2)] Cons.prems(2) show ?case by (auto simp: fib_spec_run_append)
qed simp

lemma poll_mirrors:
  assumes "nw_env_ok (ne_nw e)" "mirrors st K xs" "events_ok (concat rounds) K"
    and "\<not> fatal (fst (fib_spec_run (concat (map route_ops (concat rounds))) xs))"
  shows "\<exists>st'. nw_db_manager_poll e rounds st = Running st' \<and>
    mirrors st' (fold kernel_neigh (concat rounds) K) (snd (fib_spec_run (concat (map route_ops (concat rounds))) xs)) \<and> nm_ifs st' = nm_ifs st"
  using assms(2-4)
proof (induction rounds arbitrary: st K xs)
  case Nil
  then show ?case by (simp add: mirrors_def)
next
  case (Cons evs rounds)
  have ok: "events_ok evs K" "events_ok (concat rounds) (fold kernel_neigh evs K)"
    using Cons.prems(2) by (induction evs arbitrary: K) auto
  have f: "\<not> fatal (fst (fib_spec_run (concat (map route_ops evs)) xs))"
    "\<not> fatal (fst (fib_spec_run (concat (map route_ops (concat rounds))) (snd (fib_spec_run (concat (map route_ops evs)) xs))))"
    using Cons.prems(3) by (auto simp: fatal_def fib_spec_run_append)
  obtain st' where s: "nw_events e evs st = Running st'"
      "mirrors st' (fold kernel_neigh evs K) (snd (fib_spec_run (concat (map route_ops evs)) xs))" "nm_ifs st' = nm_ifs st"
    using events_mirror [OF assms(1) Cons.prems(1) ok(1) f(1)] by blast
  have "\<not> nm_cancel st" using Cons.prems(1) by (simp add: mirrors_def)
  with s Cons.IH [OF s(2) ok(2) f(2)] show ?case by (auto simp: fib_spec_run_append)
qed

subsection \<open>The start of the thread\<close>

lemma remove1_filter:
  assumes "distinct (map f xs)" "x \<in> set xs"
  shows "remove1 x xs = filter (\<lambda>y. f y \<noteq> f x) xs"
  using assms
proof (induction xs)
  case (Cons a xs)
  have "filter (\<lambda>y. f y \<noteq> f a) xs = xs" using Cons.prems(1) by (auto simp: filter_id_conv) (metis image_eqI)
  with Cons show ?case by auto
qed simp

definition if_image :: "nw_mgr_env \<Rightarrow> ether_addr \<Rightarrow> nat \<Rightarrow> nw_if_result" where
  "if_image e mac i = (ne_if_garbage e)\<lparr>nir_mac_address := mac,
     nir_path_type := (if i = USER_NW_IF_NUM then DP_PATH_FROM_HOST_PATH else DP_PATH_FROM_NW_PATH),
     nir_stats_base := if_stats_base e i,
     nir_output_channel := [0, 12, 128, 140, 152] ! i\<rparr>"

lemma five_updates:
  fixes m :: "u32 \<rightharpoonup> 'a"
  shows "m(4 \<mapsto> f 4, 0 \<mapsto> f 0, 1 \<mapsto> f 1, 2 \<mapsto> f 2, 3 \<mapsto> f 3) = (\<lambda>k. if unat k \<le> 4 then Some (f (unat k)) else m k)"
proof
  fix k :: u32
  have "unat k \<le> 4 \<longleftrightarrow> unat k = 0 \<or> unat k = 1 \<or> unat k = 2 \<or> unat k = 3 \<or> unat k = 4" by auto
  then consider "k = 0" | "k = 1" | "k = 2" | "k = 3" | "k = 4" | "\<not> unat k \<le> 4" "k \<noteq> 0" "k \<noteq> 1" "k \<noteq> 2" "k \<noteq> 3" "k \<noteq> 4"
    by (auto simp: word_unat_eq_iff)
  then show "(m(4 \<mapsto> f 4, 0 \<mapsto> f 0, 1 \<mapsto> f 1, 2 \<mapsto> f 2, 3 \<mapsto> f 3)) k = (if unat k \<le> 4 then Some (f (unat k)) else m k)"
    by cases simp_all
qed

lemma if_table_filled:
  assumes "nw_env_ok (ne_nw e)" "ne_my_mac e = Some mac" "mirrors st K xs"
  shows "\<exists>st'. nw_db_manager_if_table_init e st = Running st' \<and> mirrors st' K xs \<and>
    nm_ifs st' = (\<lambda>k. if unat k \<le> USER_NW_IF_NUM then Some (if_image e mac (unat k)) else nm_ifs st k)"
proof -
  have range: "[0..<USER_NW_IF_NUM] = [0, 1, 2, 3]" by (simp add: USER_NW_IF_NUM_def upt_rec)
  show ?thesis
    using assms unfolding nw_db_manager_if_table_init_def range unfolding USER_NW_IF_NUM_def five_updates [symmetric]
    by (simp add: nw_add_if_entry_def nw_nps_call_ok mirrors_def Let_def NW_BASE_LOGICAL_ID_def
        USER_NW_IF_NUM_def if_image_def, simp add: numeral_2_eq_2)
qed

text \<open>The neighbours that the cache lists at the start.\<close>

definition ipv4_neighs :: "rtnl_neigh list \<Rightarrow> rtnl_neigh list" where
  "ipv4_neighs ns = filter (\<lambda>n. nb_family n = AF_INET) ns"

definition first_table :: "rtnl_neigh list \<Rightarrow> neigh_table" where
  "first_table ns = map_of (map (\<lambda>n. (nb_dst n, n)) (ipv4_neighs ns))"

definition neighs_ok :: "rtnl_neigh list \<Rightarrow> bool" where
  "neighs_ok ns \<longleftrightarrow> distinct (map nb_dst (ipv4_neighs ns)) \<and> list_all (\<lambda>n. valid_neighbor n \<longrightarrow> nb_lladdr n \<noteq> None) (ipv4_neighs ns)"

lemma neigh_cache_mirrors:
  assumes "nw_env_ok (ne_nw e)" "mirrors st K xs" "distinct (map nb_dst ns)" "\<forall>n \<in> set ns. K (nb_dst n) = None"
    and "\<forall>n \<in> set ns. valid_neighbor n \<longrightarrow> nb_lladdr n \<noteq> None"
  shows "\<exists>st'. add_neigh_cache e ns st = Running st' \<and> mirrors st' (K ++ map_of (map (\<lambda>n. (nb_dst n, n)) ns)) xs \<and> nm_ifs st' = nm_ifs st"
  using assms(2-5)
proof (induction ns arbitrary: st K)
  case (Cons n ns)
  have "\<exists>st'. (if valid_neighbor n then add_entry_to_arp_table e n st else Running st) = Running st' \<and>
      mirrors st' (K(nb_dst n \<mapsto> n)) xs \<and> nm_ifs st' = nm_ifs st"
    using arp_add_mirrors [OF assms(1) Cons.prems(1), of n] arp_skip_mirrors [OF Cons.prems(1), of n] Cons.prems(3,4) by auto
  then obtain st' where s: "(if valid_neighbor n then add_entry_to_arp_table e n st else Running st) = Running st'"
      "mirrors st' (K(nb_dst n \<mapsto> n)) xs" "nm_ifs st' = nm_ifs st" by blast
  have m: "K(nb_dst n \<mapsto> n) ++ map_of (map (\<lambda>n. (nb_dst n, n)) ns) = K ++ map_of (map (\<lambda>n. (nb_dst n, n)) (n # ns))"
  proof -
    have "map_of (map (\<lambda>n. (nb_dst n, n)) ns) (nb_dst n) = None" using Cons.prems(2) by (auto simp: map_of_eq_None_iff)
    then show ?thesis by (auto simp: fun_eq_iff map_add_def split: option.splits)
  qed
  have "nb_dst m \<noteq> nb_dst n" if "m \<in> set ns" for m using Cons.prems(2) that by (metis distinct.simps(2) image_eqI list.set_map list.simps(9))
  then have "\<forall>m \<in> set ns. (K(nb_dst n \<mapsto> n)) (nb_dst m) = None" using Cons.prems(3) by simp
  moreover have "distinct (map nb_dst ns)" "\<forall>n \<in> set ns. valid_neighbor n \<longrightarrow> nb_lladdr n \<noteq> None" using Cons.prems(2,4) by simp_all
  ultimately have "\<exists>st''. add_neigh_cache e ns st' = Running st'' \<and>
      mirrors st'' (K(nb_dst n \<mapsto> n) ++ map_of (map (\<lambda>n. (nb_dst n, n)) ns)) xs \<and> nm_ifs st'' = nm_ifs st'"
    using Cons.IH [OF s(2)] by blast
  then show ?case unfolding m add_neigh_cache.simps s(1) s(3) [symmetric] nw_then.simps .
qed simp

definition start_ops :: "nl_route list \<Rightarrow> fib_op list" where
  "start_ops rs = map (\<lambda>r. FibAdd (nlr_route r)) (filter main_route rs)"

lemma route_cache_mirrors:
  assumes "nw_env_ok (ne_nw e)" "mirrors st K xs" "\<forall>r \<in> set rs. nlr_family r = AF_INET \<and> rt_dst_prefixlen (nlr_route r) \<le> 32"
    and "\<not> fatal (fst (fib_spec_run (start_ops rs) xs))"
  shows "\<exists>st'. add_route_cache e rs st = Running st' \<and> mirrors st' K (snd (fib_spec_run (start_ops rs) xs)) \<and> nm_ifs st' = nm_ifs st"
  using assms(2-4)
proof (induction rs arbitrary: st xs)
  case (Cons r rs)
  show ?case
  proof (cases "main_route r")
    case True
    let ?op = "FibAdd (nlr_route r)"
    have f: "fst (fib_spec ?op xs) \<noteq> NW_DB_INTERNAL_ERROR" "\<not> fatal (fst (fib_spec_run (start_ops rs) (snd (fib_spec ?op xs))))"
      using Cons.prems(3) True by (auto simp: start_ops_def fatal_def case_prod_beta simp del: fib_spec.simps)
    have "ipv4_op ?op" using Cons.prems(2) by (simp add: ipv4_op_def)
    from fib_op_mirrors [OF assms(1) Cons.prems(1) this f(1)] obtain rc db
      where d: "fib_step (ne_nw e) ?op (nm_db st) = (rc, db)" "rc \<noteq> NW_DB_INTERNAL_ERROR" "rc \<noteq> NW_DB_NPS_ERROR"
        "mirrors (st\<lparr>nm_db := db\<rparr>) K (snd (fib_spec ?op xs))" by blast
    have "add_route_cache e (r # rs) st = add_route_cache e rs (st\<lparr>nm_db := db\<rparr>)"
      using True d(1-3) by (simp add: main_route_def valid_route_entry_def)
    moreover have "fib_spec_run (start_ops (r # rs)) xs =
        (fst (fib_spec ?op xs) # fst (fib_spec_run (start_ops rs) (snd (fib_spec ?op xs))),
         snd (fib_spec_run (start_ops rs) (snd (fib_spec ?op xs))))"
      using True by (simp add: start_ops_def case_prod_beta)
    ultimately show ?thesis using Cons.IH [OF d(4) _ f(2)] Cons.prems(2) by simp
  next
    case False
    then show ?thesis
      using Cons by (simp add: main_route_def valid_route_entry_def start_ops_def)
  qed
qed (simp add: start_ops_def)

text \<open>The state in which the thread starts: nothing in the tables yet.\<close>

definition fresh :: "nw_mgr \<Rightarrow> bool" where
  "fresh st \<longleftrightarrow> nm_ifs st = (\<lambda>_. None) \<and> nm_arp st = (\<lambda>_. None) \<and> fib_tcam (nm_db st) = (\<lambda>_. None) \<and> \<not> nm_cancel st"

definition working :: "nw_mgr_env \<Rightarrow> bool" where
  "working e \<longleftrightarrow> nw_env_ok (ne_nw e) \<and> ne_route_cache_ok e \<and> ne_neigh_cache_ok e"

lemma init_mirrors:
  assumes "nw_env_ok (ne_nw e)" "fresh st"
  shows "\<exists>st'. nw_db_manager_init e st = Running st' \<and> mirrors st' (\<lambda>_. None) [] \<and> nm_ifs st' = (\<lambda>_. None)"
  using assms
  by (auto simp: nw_db_manager_init_def nw_db_init_def nw_sql_def nw_env_ok_def fresh_def mirrors_def fib_rep_def
      fib_sorted_def arp_image_def)

lemma main_mirrors:
  assumes "working e" "ne_my_mac e = Some mac" "fresh st" "neighs_ok neighs"
    and "\<forall>r \<in> set routes. nlr_family r = AF_INET \<longrightarrow> rt_dst_prefixlen (nlr_route r) \<le> 32"
    and "events_ok (concat rounds) (first_table neighs)"
    and "\<not> fatal (fst (fib_spec_run (start_ops routes @ concat (map route_ops (concat rounds))) []))"
  shows "\<exists>st'. nw_db_manager_main e routes neighs rounds st = Running st' \<and>
    mirrors st' (fold kernel_neigh (concat rounds) (first_table neighs))
      (snd (fib_spec_run (start_ops routes @ concat (map route_ops (concat rounds))) [])) \<and>
    nm_ifs st' = (\<lambda>k. if unat k \<le> USER_NW_IF_NUM then Some (if_image e mac (unat k)) else None)"
proof -
  have e: "nw_env_ok (ne_nw e)" "ne_route_cache_ok e" "ne_neigh_cache_ok e" using assms(1) by (simp_all add: working_def)
  have f: "\<not> fatal (fst (fib_spec_run (start_ops routes) []))"
    "\<not> fatal (fst (fib_spec_run (concat (map route_ops (concat rounds))) (snd (fib_spec_run (start_ops routes) []))))"
    using assms(7) by (auto simp: fatal_def fib_spec_run_append)
  have s: "start_ops (filter (\<lambda>r. nlr_family r = AF_INET) routes) = start_ops routes"
    unfolding start_ops_def filter_filter by (intro arg_cong [of _ _ "map _"] filter_cong) (auto simp: main_route_def)
  obtain st1 where s1: "nw_db_manager_init e st = Running st1" "mirrors st1 (\<lambda>_. None) []" "nm_ifs st1 = (\<lambda>_. None)" using init_mirrors [OF e(1) assms(3)] by blast
  obtain st2 where s2: "nw_db_manager_if_table_init e st1 = Running st2" "mirrors st2 (\<lambda>_. None) []"
      "nm_ifs st2 = (\<lambda>k. if unat k \<le> USER_NW_IF_NUM then Some (if_image e mac (unat k)) else None)"
    using if_table_filled [OF e(1) assms(2) s1(2)] unfolding s1(3) by blast
  obtain st3 where s3: "nw_db_manager_fib_table_init e routes st2 = Running st3"
      "mirrors st3 (\<lambda>_. None) (snd (fib_spec_run (start_ops routes) []))" "nm_ifs st3 = nm_ifs st2"
    using route_cache_mirrors [OF e(1) s2(2), of "filter (\<lambda>r. nlr_family r = AF_INET) routes"] assms(5) f(1) e(2)
    unfolding s by (auto simp: nw_db_manager_fib_table_init_def)
  obtain st4 where s4: "nw_db_manager_arp_table_init e neighs st3 = Running st4"
      "mirrors st4 (first_table neighs) (snd (fib_spec_run (start_ops routes) []))" "nm_ifs st4 = nm_ifs st3"
    using neigh_cache_mirrors [OF e(1) s3(2), of "ipv4_neighs neighs"] assms(4) e(3)
    by (auto simp: nw_db_manager_arp_table_init_def neighs_ok_def list_all_iff ipv4_neighs_def first_table_def)
  from poll_mirrors [OF e(1) s4(2) assms(6) f(2)] s1 s2 s3 s4 show ?thesis
    by (auto simp: nw_db_manager_main_def nw_db_manager_table_init_def fib_spec_run_append)
qed

lemma if_table_at:
  assumes "nm_ifs st = (\<lambda>k. if unat k \<le> USER_NW_IF_NUM then Some (if_image e mac (unat k)) else None)" "i \<le> USER_NW_IF_NUM"
  shows "nm_ifs st (of_nat i) = Some (if_image e mac i)"
  using assms by (simp add: USER_NW_IF_NUM_def unat_of_nat)

subsection \<open>The kernel's main routing table\<close>

text \<open>
  The kernel's table is a list of routes: a new route is put in, a deleted one is taken out, and a change puts the
  new route in the place of the one with its prefix.  What a route means is read off the route alone: a unicast
  route without a gateway leads to a neighbour, one with a single gateway leads there, and the application does not
  route the others (the routes of other types and those of several hops).
\<close>

type_synonym prefix = "in_addr_t \<times> nat"

datatype forwarding = To_Neighbour | Via in_addr_t | Not_Routed

definition route_prefix :: "rtnl_route \<Rightarrow> prefix" where
  "route_prefix rt = (rt_dst_addr rt, unat (rt_dst_prefixlen rt))"

definition route_action :: "rtnl_route \<Rightarrow> forwarding" where
  "route_action rt = (if rt_type rt \<noteq> RTN_UNICAST then Not_Routed
     else case rt_gateway rt of None \<Rightarrow> To_Neighbour | Some gw \<Rightarrow> if 1 < rt_nnexthops rt then Not_Routed else Via gw)"

fun kernel_route :: "nl_event \<Rightarrow> rtnl_route list \<Rightarrow> rtnl_route list" where
  "kernel_route (Route_Event action r) R =
     (if \<not> main_route r then R
      else case action of NL_ACT_NEW \<Rightarrow> nlr_route r # R | NL_ACT_DEL \<Rightarrow> remove1 (nlr_route r) R
         | NL_ACT_CHANGE \<Rightarrow> map (\<lambda>q. if route_prefix q = route_prefix (nlr_route r) then nlr_route r else q) R
         | NL_ACT_UNSPEC \<Rightarrow> R)"
| "kernel_route _ R = R"

definition first_routes :: "nl_route list \<Rightarrow> rtnl_route list" where
  "first_routes rs = map nlr_route (filter main_route rs)"

text \<open>
  What the manager relies on, at every moment: the kernel has at most one route for a prefix, it has no more routes
  than the TCAM has entries, and it deletes and changes routes that it has.
\<close>

definition route_table_ok :: "rtnl_route list \<Rightarrow> bool" where
  "route_table_ok R \<longleftrightarrow> distinct (map route_prefix R) \<and> length R \<le> NW_FIB_TCAM_MAX_SIZE"

fun route_event_ok :: "nl_event \<Rightarrow> rtnl_route list \<Rightarrow> bool" where
  "route_event_ok (Route_Event action r) R \<longleftrightarrow> \<not> main_route r \<or>
     (case action of NL_ACT_DEL \<Rightarrow> nlr_route r \<in> set R
        | NL_ACT_CHANGE \<Rightarrow> route_prefix (nlr_route r) \<in> route_prefix ` set R | _ \<Rightarrow> True)"
| "route_event_ok _ R \<longleftrightarrow> True"

fun routes_ok :: "nl_event list \<Rightarrow> rtnl_route list \<Rightarrow> bool" where
  "routes_ok [] R = route_table_ok R"
| "routes_ok (ev # evs) R = (route_table_ok R \<and> route_event_ok ev R \<and> routes_ok evs (kernel_route ev R))"

text \<open>What the rows of the application's table say, and what the TCAM answers.\<close>

definition entry_prefix :: "nw_db_fib_entry \<Rightarrow> prefix" where
  "entry_prefix x = (fib_dest_ip x, unat (fib_mask_length x))"

fun forwarding_of :: "nw_fib_type \<Rightarrow> in_addr_t \<Rightarrow> forwarding" where
  "forwarding_of NW_FIB_NEIGHBOR hop = To_Neighbour"
| "forwarding_of NW_FIB_GW hop = Via hop"
| "forwarding_of NW_FIB_DROP hop = Not_Routed"

definition entry_view :: "nw_db_fib_entry \<Rightarrow> prefix \<times> forwarding" where
  "entry_view x = (entry_prefix x, forwarding_of (fib_result_type x) (fib_next_hop x))"

definition route_view :: "rtnl_route \<Rightarrow> prefix \<times> forwarding" where
  "route_view rt = (route_prefix rt, route_action rt)"

definition same_routes :: "nw_db_fib_entry list \<Rightarrow> rtnl_route list \<Rightarrow> bool" where
  "same_routes xs R \<longleftrightarrow> mset (map entry_view xs) = mset (map route_view R)"

lemma same_routes_prefixes:
  assumes "same_routes xs R"
  shows "mset (map entry_prefix xs) = mset (map route_prefix R)" "length xs = length R"
    "entry_prefix ` set xs = route_prefix ` set R"
proof -
  show p: "mset (map entry_prefix xs) = mset (map route_prefix R)"
    using arg_cong [OF assms [unfolded same_routes_def], of "image_mset fst"]
    by (simp add: entry_view_def route_view_def comp_def multiset.map_comp)
  show "length xs = length R" using arg_cong [OF p, of size] by simp
  show "entry_prefix ` set xs = route_prefix ` set R" using arg_cong [OF p, of set_mset] by simp
qed

lemma fib_key_prefix: "fib_key x = fib_key y \<longleftrightarrow> entry_prefix x = entry_prefix y"
  by (simp add: fib_key_def entry_prefix_def word_unat_eq_iff)

lemma route_entry_prefix:
  assumes "rt_dst_prefixlen rt \<le> 32"
  shows "entry_prefix (route_fib_entry rt) = route_prefix rt"
proof -
  have "unat (rt_dst_prefixlen rt) \<le> 32" using assms by (simp add: word_le_nat_alt)
  then show ?thesis using unat_ucast_u32_u16 [of "rt_dst_prefixlen rt"]
    by (simp add: entry_prefix_def route_prefix_def route_fib_entry_def)
qed

lemma set_fib_params_view:
  assumes "entry_prefix x = route_prefix rt"
  shows "entry_view (set_fib_params rt x) = route_view rt"
  using assms by (auto simp: entry_view_def route_view_def entry_prefix_def route_prefix_def set_fib_params_def route_action_def split: option.splits)

lemma mset_fib_insert: "mset (fib_insert x xs) = add_mset x (mset xs)"
  unfolding fib_insert_def by simp (metis mset_append takeWhile_dropWhile_id)

lemma same_routes_add:
  assumes "same_routes xs R" "rt_dst_prefixlen rt \<le> 32" "route_table_ok (rt # R)"
  shows "fst (fib_spec (FibAdd rt) xs) = NW_DB_OK" "same_routes (snd (fib_spec (FibAdd rt) xs)) (rt # R)"
proof -
  note p = same_routes_prefixes [OF assms(1)] route_entry_prefix [OF assms(2)]
  have "fib_key (route_fib_entry rt) \<notin> fib_key ` set xs" "length xs \<noteq> NW_FIB_TCAM_MAX_SIZE"
    using assms(3) p by (auto simp: route_table_ok_def fib_key_prefix simp flip: image_iff)
  moreover have "entry_view (new_route rt) = route_view rt"
    unfolding new_route_def by (rule set_fib_params_view) (rule p(4))
  ultimately show "fst (fib_spec (FibAdd rt) xs) = NW_DB_OK" "same_routes (snd (fib_spec (FibAdd rt) xs)) (rt # R)"
    using assms(1) by (simp_all add: same_routes_def mset_fib_insert)
qed

lemma same_routes_delete:
  assumes "same_routes xs R" "rt_dst_prefixlen rt \<le> 32" "distinct (map route_prefix R)" "rt \<in> set R"
  shows "fst (fib_spec (FibDelete rt) xs) = NW_DB_OK" "same_routes (snd (fib_spec (FibDelete rt) xs)) (remove1 rt R)"
proof -
  note p = same_routes_prefixes [OF assms(1)] route_entry_prefix [OF assms(2)]
  have "route_prefix rt \<in> entry_prefix ` set xs" using assms(4) p(3) by blast
  then have found: "fib_key (route_fib_entry rt) \<in> fib_key ` set xs" using p(4) by (auto simp: fib_key_prefix image_iff)
  have rem: "remove1 rt R = filter (\<lambda>q. route_prefix q \<noteq> route_prefix rt) R"
    by (rule remove1_filter) (use assms(3,4) in simp_all)
  have xs: "fib_remove (fib_key (route_fib_entry rt)) xs = filter (\<lambda>y. entry_prefix y \<noteq> route_prefix rt) xs"
    using p(4) by (simp add: fib_remove_def fib_key_prefix)
  have "image_mset entry_view (filter_mset (\<lambda>y. entry_prefix y \<noteq> route_prefix rt) (mset xs)) =
      image_mset route_view (filter_mset (\<lambda>q. route_prefix q \<noteq> route_prefix rt) (mset R))"
    using arg_cong [OF assms(1) [unfolded same_routes_def], of "filter_mset (\<lambda>v. fst v \<noteq> route_prefix rt)"]
    by (simp add: filter_mset_image_mset entry_view_def route_view_def)
  with found rem xs show "fst (fib_spec (FibDelete rt) xs) = NW_DB_OK"
    "same_routes (snd (fib_spec (FibDelete rt) xs)) (remove1 rt R)"
    by (simp_all add: same_routes_def del: mset_remove1)
qed

lemma same_routes_change:
  assumes "same_routes xs R" "rt_dst_prefixlen rt \<le> 32" "route_prefix rt \<in> route_prefix ` set R"
  shows "fst (fib_spec (FibModify rt) xs) = NW_DB_OK"
    "same_routes (snd (fib_spec (FibModify rt) xs)) (map (\<lambda>q. if route_prefix q = route_prefix rt then rt else q) R)"
proof -
  note p = same_routes_prefixes [OF assms(1)] route_entry_prefix [OF assms(2)]
  have "route_prefix rt \<in> entry_prefix ` set xs" using assms(3) p(3) by blast
  then have found: "fib_key (route_fib_entry rt) \<in> fib_key ` set xs" using p(4) by (auto simp: fib_key_prefix image_iff)
  let ?f = "\<lambda>v. if fst v = route_prefix rt then route_view rt else v"
  have "map entry_view (fib_change rt xs) = map ?f (map entry_view xs)"
    using p(4) set_fib_params_view by (simp add: fib_change_def fib_key_prefix entry_view_def)
  moreover have "map route_view (map (\<lambda>q. if route_prefix q = route_prefix rt then rt else q) R) = map ?f (map route_view R)"
    by (simp add: route_view_def)
  moreover have "mset (map ?f (map entry_view xs)) = mset (map ?f (map route_view R))"
    using assms(1) unfolding same_routes_def mset_map [of ?f] by (rule arg_cong)
  ultimately have "same_routes (fib_change rt xs) (map (\<lambda>q. if route_prefix q = route_prefix rt then rt else q) R)"
    unfolding same_routes_def by (simp only:)
  with found show "fst (fib_spec (FibModify rt) xs) = NW_DB_OK"
    "same_routes (snd (fib_spec (FibModify rt) xs)) (map (\<lambda>q. if route_prefix q = route_prefix rt then rt else q) R)"
    by simp_all
qed

text \<open>While the kernel's table is in order, no update is fatal and the rows follow the routes.\<close>

lemma route_table_ok_tail: "route_table_ok (A @ B) \<Longrightarrow> route_table_ok B"
  by (simp add: route_table_ok_def)

lemma same_routes_event:
  assumes "same_routes xs R" "event_ok ev K" "route_event_ok ev R" "route_table_ok R" "route_table_ok (kernel_route ev R)"
  shows "\<not> fatal (fst (fib_spec_run (route_ops ev) xs)) \<and> same_routes (snd (fib_spec_run (route_ops ev) xs)) (kernel_route ev R)"
proof (cases "\<exists>action r. ev = Route_Event action r \<and> main_route r")
  case True
  then obtain action r where ev: "ev = Route_Event action r" "main_route r" by blast
  have len: "rt_dst_prefixlen (nlr_route r) \<le> 32" using assms(2) ev by simp
  have d: "distinct (map route_prefix R)" using assms(4) by (simp add: route_table_ok_def)
  show ?thesis
  proof (cases action)
    case NL_ACT_NEW
    then show ?thesis using same_routes_add [OF assms(1) len] assms(5) ev
      by (simp add: fatal_def case_prod_beta del: fib_spec.simps)
  next
    case NL_ACT_DEL
    then show ?thesis using same_routes_delete [OF assms(1) len d] assms(3) ev
      by (simp add: fatal_def case_prod_beta del: fib_spec.simps)
  next
    case NL_ACT_CHANGE
    then show ?thesis using same_routes_change [OF assms(1) len] assms(3) ev
      by (simp add: fatal_def case_prod_beta del: fib_spec.simps)
  next
    case NL_ACT_UNSPEC
    then show ?thesis using assms(1) ev by (simp add: fatal_def)
  qed
next
  case False
  then show ?thesis using assms(1) by (cases ev) (auto simp: fatal_def)
qed

lemma same_routes_events:
  assumes "same_routes xs R" "events_ok evs K" "routes_ok evs R"
  shows "\<not> fatal (fst (fib_spec_run (concat (map route_ops evs)) xs)) \<and>
    same_routes (snd (fib_spec_run (concat (map route_ops evs)) xs)) (fold kernel_route evs R)"
  using assms
proof (induction evs arbitrary: xs R K)
  case Nil
  then show ?case by (simp add: fatal_def)
next
  case (Cons ev evs)
  have "route_table_ok (kernel_route ev R)" using Cons.prems(3) by (cases evs) auto
  then have one: "\<not> fatal (fst (fib_spec_run (route_ops ev) xs))" "same_routes (snd (fib_spec_run (route_ops ev) xs)) (kernel_route ev R)"
    using same_routes_event [OF Cons.prems(1), of ev K] Cons.prems(2,3) by auto
  with Cons.IH [OF one(2)] Cons.prems(2,3) show ?case by (auto simp: fatal_def fib_spec_run_append)
qed

lemma same_routes_start:
  assumes "same_routes xs R" "\<forall>r \<in> set rs. main_route r \<longrightarrow> rt_dst_prefixlen (nlr_route r) \<le> 32"
    and "route_table_ok (rev (first_routes rs) @ R)"
  shows "\<not> fatal (fst (fib_spec_run (start_ops rs) xs)) \<and>
    same_routes (snd (fib_spec_run (start_ops rs) xs)) (rev (first_routes rs) @ R)"
  using assms
proof (induction rs arbitrary: xs R)
  case Nil
  then show ?case by (simp add: start_ops_def first_routes_def fatal_def)
next
  case (Cons r rs)
  show ?case
  proof (cases "main_route r")
    case True
    let ?rt = "nlr_route r"
    have ok: "route_table_ok (rev (first_routes rs) @ ?rt # R)" using Cons.prems(3) True by (simp add: first_routes_def)
    have "rt_dst_prefixlen ?rt \<le> 32" using Cons.prems(2) True by simp
    note one = same_routes_add [OF Cons.prems(1) this route_table_ok_tail [OF ok]]
    from Cons.IH [OF one(2) _ ok] Cons.prems(2) one(1) True show ?thesis
      by (simp add: start_ops_def first_routes_def fatal_def case_prod_beta del: fib_spec.simps)
  next
    case False
    then show ?thesis using Cons by (simp add: start_ops_def first_routes_def)
  qed
qed

text \<open>The kernel's choice for an address: a route of the longest prefix that contains it.\<close>

definition prefix_contains :: "in_addr_t \<Rightarrow> prefix \<Rightarrow> bool" where
  "prefix_contains ip p \<longleftrightarrow> drop_bit (32 - snd p) (bswap_32 ip) = drop_bit (32 - snd p) (bswap_32 (fst p))"

definition longest_route :: "in_addr_t \<Rightarrow> rtnl_route list \<Rightarrow> rtnl_route \<Rightarrow> bool" where
  "longest_route ip R rt \<longleftrightarrow> rt \<in> set R \<and> prefix_contains ip (route_prefix rt) \<and>
     (\<forall>q \<in> set R. prefix_contains ip (route_prefix q) \<longrightarrow> rt_dst_prefixlen q \<le> rt_dst_prefixlen rt)"

lemma prefix_match_contains: "prefix_match ip x \<longleftrightarrow> prefix_contains ip (entry_prefix x)"
  by (simp add: prefix_match_def prefix_contains_def entry_prefix_def)

lemma same_routes_lookup:
  assumes "fib_rep db xs" "same_routes xs R"
  shows "case tcam_lookup db ip of
      None \<Rightarrow> \<forall>rt \<in> set R. \<not> prefix_contains ip (route_prefix rt)
    | Some res \<Rightarrow> \<exists>rt. longest_route ip R rt \<and> forwarding_of (nfr_result_type res) (nfr_dest_ip res) = route_action rt"
proof (cases "tcam_lookup db ip")
  case None
  have "route_prefix rt \<in> entry_prefix ` set xs" if "rt \<in> set R" for rt
    using same_routes_prefixes(3) [OF assms(2)] that by blast
  moreover have "\<forall>x \<in> set xs. \<not> prefix_contains ip (entry_prefix x)"
    using None fib.lookup_none [OF assms(1)] by (simp add: prefix_match_contains)
  ultimately have "\<forall>rt \<in> set R. \<not> prefix_contains ip (route_prefix rt)" by fastforce
  with None show ?thesis by simp
next
  case (Some res)
  then obtain x where x: "x \<in> set xs" "prefix_match ip x" "res = build_nps_fib_result x"
    "\<forall>y \<in> set xs. prefix_match ip y \<longrightarrow> fib_mask_length y \<le> fib_mask_length x"
    using fib.lookup_longest [OF assms(1)] by blast
  have "entry_view ` set xs = route_view ` set R"
    using arg_cong [OF assms(2) [unfolded same_routes_def], of set_mset] by simp
  with x(1) obtain rt where rt: "rt \<in> set R" "entry_view x = route_view rt" by blast
  have "rt_dst_prefixlen q \<le> rt_dst_prefixlen rt" if q: "q \<in> set R" "prefix_contains ip (route_prefix q)" for q
  proof -
    have "route_prefix q \<in> entry_prefix ` set xs" unfolding same_routes_prefixes(3) [OF assms(2)] using q(1) by (rule imageI)
    then obtain y where y: "y \<in> set xs" "route_prefix q = entry_prefix y" by auto
    have "fib_mask_length y \<le> fib_mask_length x" using x(4) q(2) y by (simp add: prefix_match_contains)
    moreover have "unat (rt_dst_prefixlen q) = unat (fib_mask_length y)" "unat (rt_dst_prefixlen rt) = unat (fib_mask_length x)"
      using y(2) rt(2) by (simp_all add: entry_view_def route_view_def entry_prefix_def route_prefix_def)
    ultimately show ?thesis unfolding word_le_nat_alt by linarith
  qed
  then have "longest_route ip R rt" using rt x(2) by (simp add: longest_route_def prefix_match_contains entry_view_def route_view_def)
  moreover have "forwarding_of (nfr_result_type res) (nfr_dest_ip res) = route_action rt"
    using x(3) rt(2) by (simp add: build_nps_fib_result_def entry_view_def route_view_def)
  ultimately show ?thesis using Some by auto
qed

text \<open>
  The condition of one route for a prefix is needed.  The table has no metrics: of two routes of one prefix the
  second is refused, and when the kernel deletes it the entry of the first is removed.
\<close>

lemma second_route_of_prefix:
  assumes "route_prefix r' = route_prefix r" "rt_dst_prefixlen r \<le> 32"
  shows "fib_spec_run [FibAdd r, FibAdd r', FibDelete r'] [] = ([NW_DB_OK, NW_DB_FAILURE, NW_DB_OK], [])"
proof -
  have "rt_dst_prefixlen r' = rt_dst_prefixlen r" using assms(1) by (simp add: route_prefix_def word_unat_eq_iff)
  then have "fib_key (route_fib_entry r') = fib_key (route_fib_entry r)"
    using route_entry_prefix [of r] route_entry_prefix [of r'] assms unfolding fib_key_prefix by simp
  then show ?thesis
    by (simp add: NW_FIB_TCAM_MAX_SIZE_def fib_insert_def fib_remove_def new_route_def)
qed


definition demo_neigh :: rtnl_neigh where
  "demo_neigh = \<lparr>nb_family = AF_INET, nb_state = 2, nb_dst = 7, nb_lladdr = Some [1, 2, 3, 4, 5, 6]\<rparr>"

definition demo_mgr_env :: nw_mgr_env where
  "demo_mgr_env = \<lparr>ne_nw = nw_ideal, ne_my_mac = Some [0, 2, 4, 6, 8, 10], ne_if_garbage = zero_if, ne_route_cache_ok = True,
     ne_neigh_cache_ok = True, ne_external_ms = 1\<rparr>"

definition demo_mgr :: nw_mgr where
  "demo_mgr = \<lparr>nm_db = nw_db_start, nm_ifs = (\<lambda>_. None), nm_arp = (\<lambda>_. None), nm_cancel = False, nm_open = False, nm_sigterm = False\<rparr>"

definition demo_nl_route :: nl_route where
  "demo_nl_route = \<lparr>nlr_family = AF_INET, nlr_table = RT_TABLE_MAIN, nlr_route = demo_route 10 8 7\<rparr>"

lemma demo_mgr_ok:
  "working demo_mgr_env" "ne_my_mac demo_mgr_env = Some [0, 2, 4, 6, 8, 10]" "fresh demo_mgr" "neighs_ok [demo_neigh]"
  by (simp_all add: working_def demo_mgr_env_def nw_env_ok_def nw_ideal_def fresh_def demo_mgr_def nw_db_start_def neighs_ok_def
      ipv4_neighs_def demo_neigh_def)

text \<open>
  A neighbour and a route at the start; then the neighbour fails and comes back at another link address, and a route
  of a longer prefix comes and changes its gateway.
\<close>

definition demo_rounds :: "nl_event list list" where
  "demo_rounds =
     [[Neigh_Event NL_ACT_CHANGE (demo_neigh\<lparr>nb_state := NUD_FAILED\<rparr>),
       Route_Event NL_ACT_NEW (demo_nl_route\<lparr>nlr_route := demo_route 10 16 9\<rparr>)],
      [Neigh_Event NL_ACT_CHANGE (demo_neigh\<lparr>nb_lladdr := Some [6, 5, 4, 3, 2, 1]\<rparr>),
       Route_Event NL_ACT_CHANGE (demo_nl_route\<lparr>nlr_route := demo_route 10 16 8\<rparr>)]]"

lemma demo_rounds_ok:
  "\<forall>r \<in> set [demo_nl_route]. nlr_family r = AF_INET \<longrightarrow> rt_dst_prefixlen (nlr_route r) \<le> 32"
  "events_ok (concat demo_rounds) (first_table [demo_neigh])" "routes_ok (concat demo_rounds) (first_routes [demo_nl_route])"
  "fold kernel_neigh (concat demo_rounds) (first_table [demo_neigh]) 7 = Some (demo_neigh\<lparr>nb_lladdr := Some [6, 5, 4, 3, 2, 1]\<rparr>)"
  "fold kernel_route (concat demo_rounds) (first_routes [demo_nl_route]) = [demo_route 10 16 8, demo_route 10 8 7]"
  by (simp_all add: demo_rounds_def demo_nl_route_def demo_neigh_def demo_route_def first_table_def ipv4_neighs_def first_routes_def
      main_route_def route_table_ok_def route_prefix_def NW_FIB_TCAM_MAX_SIZE_def)


subsection \<open>From the kernel's tables to a frame on the wire\<close>

text \<open>
  The tables as the data plane reads them.  The control plane is little-endian and the network processor is
  big-endian, so a word that one writes reads byte-swapped on the other.
\<close>

definition dp_if_entry :: "nw_if_result \<Rightarrow> nw_if_result" where
  "dp_if_entry r = r\<lparr>nir_default_vlan := bswap_16 (nir_default_vlan r), nir_stats_base := bswap_32 (nir_stats_base r)\<rparr>"

definition dp_reads :: "nw_mgr \<Rightarrow> dp_shared \<Rightarrow> bool" where
  "dp_reads st s \<longleftrightarrow> interfaces s = (\<lambda>i. map_option dp_if_entry (nm_ifs st i)) \<and> arp s = (\<lambda>ip. nm_arp st (bswap_32 ip)) \<and>
     fib s = (\<lambda>ip. map_option (\<lambda>r. r\<lparr>nfr_dest_ip := bswap_32 (nfr_dest_ip r)\<rparr>) (tcam_lookup (nm_db st) (bswap_32 ip)))"

text \<open>The address to which the matching route of an address sends its packets.\<close>

definition next_hop_of :: "in_addr_t \<Rightarrow> nw_db_fib_entry \<Rightarrow> in_addr_t option" where
  "next_hop_of ip x = (case fib_result_type x of NW_FIB_NEIGHBOR \<Rightarrow> Some ip | NW_FIB_GW \<Rightarrow> Some (fib_next_hop x) | NW_FIB_DROP \<Rightarrow> None)"

definition best_route :: "in_addr_t \<Rightarrow> nw_db_fib_entry list \<Rightarrow> nw_db_fib_entry \<Rightarrow> bool" where
  "best_route ip xs x \<longleftrightarrow> x \<in> set xs \<and> prefix_match ip x \<and>
     (\<forall>y \<in> set xs. prefix_match ip y \<and> fib_mask_length x \<le> fib_mask_length y \<longrightarrow> y = x)"

lemma fib_processing_next_hop:
  assumes "fib_rep (nm_db st) xs" "dp_reads st (sh d)" "best_route (bswap_32 ip) xs x" "next_hop_of (bswap_32 ip) x = Some hop"
  shows "nw_fib_processing ip d = (bswap_32 hop, d)"
proof -
  have x: "x \<in> set xs" "prefix_match (bswap_32 ip) x" using assms(3) by (simp_all add: best_route_def)
  obtain res where res: "tcam_lookup (nm_db st) (bswap_32 ip) = Some res"
    using fib.lookup_none [OF assms(1)] x by fastforce
  then obtain x' where "x' \<in> set xs" "prefix_match (bswap_32 ip) x'" "res = build_nps_fib_result x'" "fib_mask_length x \<le> fib_mask_length x'"
    using fib.lookup_longest [OF assms(1) res] x by blast
  then have "res = build_nps_fib_result x" using assms(3) by (auto simp: best_route_def)
  then show ?thesis
    using res assms(2,4) by (auto simp: nw_fib_processing_def next_hop_of_def build_nps_fib_result_def dp_reads_def split: nw_fib_type.splits)
qed

lemma arp_processing_sends:
  assumes "arp (sh d) hop = Some r" "length (nar_dest_mac_addr r) = 6" "length (nir_mac_address (interface_result d)) = 6"
    and "\<And>k. lookup_rc e k = 0" "fr_live (frame d)" "12 \<le> len" "len \<le> length (frame_data d)"
    and "\<And>a b. ezdp_hash e a b 2 6 0 0 < 4" "\<And>i. i < 4 \<Longrightarrow> interfaces (sh d) (ucast (nar_base_logical_id r) + i) = Some (ifc i)"
  shows "\<exists>i buf. i < 4 \<and> length buf = len \<and> take 12 buf = nar_dest_mac_addr r @ nir_mac_address (interface_result d) \<and>
    drop 12 buf = drop 12 (take len (frame_data d)) \<and>
    tx (nw_arp_processing e hop len d) = tx d @ [(nir_output_channel (ifc i), (fr_bufs (frame d))[fr_pos (frame d) := buf])]"
proof -
  define d1 where "d1 = write_data 6 (nir_mac_address (interface_result d)) (write_data 0 (nar_dest_mac_addr r) (dp_tick d))"
  define buf where "buf = take len (frame_data d1)"
  define d2 where "d2 = ezframe_store_buf buf d1"
  have data: "frame_data d1 = nar_dest_mac_addr r @ nir_mac_address (interface_result d) @ drop 12 (frame_data d)"
    using assms(2,3) by (simp add: d1_def write_data_def overwrite_def dp_tick_def)
  have fr: "frame d1 = frame d" "tx d1 = tx d" "sh d1 = sh d" by (simp_all add: d1_def write_data_def dp_tick_def)
  define i where "i = ezdp_hash e (u32_at (bytes_at e d2 0 8) 0) (u32_at (bytes_at e d2 0 8) 4) 2 6 0 0"
  have "i < 4" using assms(8) by (simp add: i_def)
  moreover have "tx (nw_arp_processing e hop len d) = tx d @ [(nir_output_channel (ifc i), (fr_bufs (frame d))[fr_pos (frame d) := buf])]"
  proof -
    have "nw_arp_processing e hop len d = nw_send_frame_to_network e (ucast (nar_base_logical_id r)) d2"
      using assms(1,4) by (simp add: nw_arp_processing_def ezdp_lookup_def Let_def d2_def buf_def d1_def write_data_def dp_tick_def)
    moreover have "interfaces (sh d2) (ucast (nar_base_logical_id r) + i) = Some (ifc i)" "fr_live (frame d2)"
        "fr_bufs (frame d2) = (fr_bufs (frame d))[fr_pos (frame d) := buf]" "tx d2 = tx d"
      using assms(5,9) \<open>i < 4\<close> fr by (simp_all add: d2_def ezframe_store_buf_def)
    ultimately show ?thesis
      using assms(4) by (simp add: nw_send_frame_to_network_def Let_def i_def [symmetric] nw_interface_lookup_def ezdp_lookup_def
          ezframe_send_to_if_def dp_tick_def)
  qed
  moreover have "length buf = len" "take 12 buf = nar_dest_mac_addr r @ nir_mac_address (interface_result d)"
      "drop 12 buf = drop 12 (take len (frame_data d))"
    using assms(2,3,6,7) data by (simp_all add: buf_def drop_take)
  ultimately show ?thesis by blast
qed

text \<open>
  C35. From the kernel's tables to a frame on the wire.  Where the network database manager has mirrored the
  kernel's tables, the data plane sends a frame for an address to the next hop of the kernel's best route:
  the frame leaves through one of the network interfaces, with the link address of the kernel's neighbour and the
  address of the interface in its Ethernet header and the rest unchanged.
\<close>

theorem kernel_route_forwarded:
  assumes "mirrors st K xs" "\<forall>i \<le> USER_NW_IF_NUM. nm_ifs st (of_nat i) = Some (if_image m mac i)" "dp_reads st (sh d)"
    and "best_route (bswap_32 ip) xs x" "next_hop_of (bswap_32 ip) x = Some hop" "hop \<noteq> 0"
    and "K hop = Some n" "valid_neighbor n" "nb_lladdr n = Some dest_mac" "length dest_mac = 6"
    and "length (nir_mac_address (interface_result d)) = 6" "fr_live (frame d)" "12 \<le> len" "len \<le> length (frame_data d)"
    and "\<forall>k. lookup_rc e k = 0" "\<forall>a b. ezdp_hash e a b 2 6 0 0 < 4"
  shows "\<exists>i buf. i < USER_NW_IF_NUM \<and> length buf = len \<and> take 12 buf = dest_mac @ nir_mac_address (interface_result d) \<and>
    drop 12 buf = drop 12 (take len (frame_data d)) \<and>
    tx (nw_do_route e ip len d) = tx d @ [(nir_output_channel (if_image m mac i), (fr_bufs (frame d))[fr_pos (frame d) := buf])]"
proof -
  have rep: "fib_rep (nm_db st) xs" "nm_arp st = arp_image K" using assms(1) by (simp_all add: mirrors_def)
  let ?r = "\<lparr>nar_base_logical_id = 0, nar_dest_mac_addr = dest_mac\<rparr>"
  have a: "arp (sh d) (bswap_32 hop) = Some ?r"
    using assms(3,7-9) rep(2) by (simp add: dp_reads_def arp_image_def neighbor_to_arp_entry_def NW_BASE_LOGICAL_ID_def)
  have ifs: "interfaces (sh d) (ucast (nar_base_logical_id ?r) + i) = Some (dp_if_entry (if_image m mac (unat i)))" if "i < 4" for i
  proof -
    have "unat i \<le> USER_NW_IF_NUM" using that by (simp add: word_less_nat_alt USER_NW_IF_NUM_def)
    with assms(2) have "nm_ifs st (of_nat (unat i)) = Some (if_image m mac (unat i))" by blast
    then show ?thesis using assms(3) by (simp add: dp_reads_def)
  qed
  have route: "nw_do_route e ip len d = nw_arp_processing e (bswap_32 hop) len d"
  proof -
    have "bswap_32 hop \<noteq> 0" using assms(6) bswap_32_inj [of hop 0] by (simp add: bswap_32_def)
    then show ?thesis using fib_processing_next_hop [OF rep(1) assms(3-5)] by (simp add: nw_do_route_def)
  qed
  obtain i :: u32 and buf where "i < 4" "length buf = len" "take 12 buf = dest_mac @ nir_mac_address (interface_result d)"
      "drop 12 buf = drop 12 (take len (frame_data d))"
      "tx (nw_do_route e ip len d) = tx d @ [(nir_output_channel (dp_if_entry (if_image m mac (unat i))), (fr_bufs (frame d))[fr_pos (frame d) := buf])]"
  proof -
    have d: "length (nar_dest_mac_addr ?r) = 6" "\<And>k. lookup_rc e k = 0" "\<And>a b. ezdp_hash e a b 2 6 0 0 < 4"
      using assms(10,15,16) by simp_all
    from arp_processing_sends [OF a d(1) assms(11) d(2) assms(12-14) d(3) ifs, simplified nw_arp_result.simps implies_True_equals triv_forall_equality True_implies_equals] that show thesis
      unfolding route by blast
  qed
  then show ?thesis
    by (intro exI [of _ "unat i"] exI [of _ buf]) (simp add: word_less_nat_alt USER_NW_IF_NUM_def dp_if_entry_def)
qed

definition demo_view :: "nw_mgr \<Rightarrow> dp_state" where
  "demo_view st = idle_state\<lparr>frame := \<lparr>fr_live = True, fr_bufs = [replicate 60 0], fr_pos = 0, fr_length = 60\<rparr>,
     sh := empty_shared\<lparr>interfaces := (\<lambda>i. map_option dp_if_entry (nm_ifs st i)), arp := (\<lambda>ip. nm_arp st (bswap_32 ip)),
       fib := (\<lambda>ip. map_option (\<lambda>r. r\<lparr>nfr_dest_ip := bswap_32 (nfr_dest_ip r)\<rparr>) (tcam_lookup (nm_db st) (bswap_32 ip)))\<rparr>\<rparr>"

theorem kernel_route_forwarded_witness:
  "\<exists>st i buf. nw_db_manager_main demo_mgr_env [demo_nl_route] [demo_neigh] [] demo_mgr = Running st \<and> i < USER_NW_IF_NUM \<and>
     take 12 buf = [1, 2, 3, 4, 5, 6, 0, 0, 0, 0, 0, 0] \<and>
     tx (nw_do_route plain_env 0x0A000000 60 (demo_view st)) = [(nir_output_channel (if_image demo_mgr_env [0, 2, 4, 6, 8, 10] i), [buf])]"
proof -
  let ?x = "new_route (demo_route 10 8 7)"
  have ops: "start_ops [demo_nl_route] = [FibAdd (demo_route 10 8 7)]"
    by (simp add: start_ops_def demo_nl_route_def main_route_def)
  have len: "rt_dst_prefixlen (nlr_route demo_nl_route) \<le> 32" by (simp add: demo_nl_route_def demo_route_def)
  have spec: "fib_spec_run [FibAdd (demo_route 10 8 7)] [] = ([NW_DB_OK], [?x])"
    by (simp add: NW_FIB_TCAM_MAX_SIZE_def fib_insert_def)
  obtain st where st: "nw_db_manager_main demo_mgr_env [demo_nl_route] [demo_neigh] [] demo_mgr = Running st"
      "mirrors st (first_table [demo_neigh]) [?x]" and
      tab: "nm_ifs st = (\<lambda>k. if unat k \<le> USER_NW_IF_NUM then Some (if_image demo_mgr_env [0, 2, 4, 6, 8, 10] (unat k)) else None)"
    using main_mirrors [OF demo_mgr_ok, of "[demo_nl_route]" "[]"]
    by (auto simp: ops spec fatal_def len simp del: fib_spec_run.simps)
  have ifs: "\<forall>i \<le> USER_NW_IF_NUM. nm_ifs st (of_nat i) = Some (if_image demo_mgr_env [0, 2, 4, 6, 8, 10] i)"
    using if_table_at [OF tab] by blast
  have swap: "bswap_32 0x0A000000 = 10" by code_simp
  have x: "best_route (bswap_32 0x0A000000) [?x] ?x" "next_hop_of (bswap_32 0x0A000000) ?x = Some 7"
    by (simp_all add: swap best_route_def prefix_match_def next_hop_of_def new_route_def set_fib_params_def route_fib_entry_def demo_route_def
        RTN_UNICAST_def)
  have n: "first_table [demo_neigh] 7 = Some demo_neigh" "valid_neighbor demo_neigh" "nb_lladdr demo_neigh = Some [1, 2, 3, 4, 5, 6]"
    by (simp_all add: first_table_def ipv4_neighs_def demo_neigh_def valid_neighbor_def NW_DB_MANAGER_NEIGHBOR_FILTERED_STATE_def
        NUD_FAILED_def NUD_INCOMPLETE_def NUD_NOARP_def NUD_NONE_def)
  have d: "dp_reads st (sh (demo_view st))" "nir_mac_address (interface_result (demo_view st)) = [0, 0, 0, 0, 0, 0]" "fr_live (frame (demo_view st))"
      "length (frame_data (demo_view st)) = 256" "tx (demo_view st) = []" "fr_bufs (frame (demo_view st)) = [replicate 60 0]"
      "fr_pos (frame (demo_view st)) = 0"
    by (simp_all add: demo_view_def dp_reads_def idle_state_def zero_if_def)
  have h: "\<forall>k. lookup_rc plain_env k = 0" "\<forall>a b. ezdp_hash plain_env a b 2 6 0 0 < 4"
    by (simp_all add: plain_env_def take_bit_eq_mod word_less_nat_alt unat_word_ariths)
  show ?thesis
    using kernel_route_forwarded [OF st(2) ifs d(1) x _ n _ _ d(3) _ _ h, of 60] st(1) d by auto
qed

end
