(* ===== verification/Nps_Bringup.thy ===== *)
theory Nps_Bringup
  imports Alvs_Defs
begin

text \<open>
  The start and the end of the control plane: \<^verbatim>\<open>src/cp/main.c\<close>, the configuration of the network processor in
  \<^verbatim>\<open>src/cp/infrastructure.c\<close>, the constructors of the search structures in \<^verbatim>\<open>src/cp/application_infra.c\<close>,
  \<^verbatim>\<open>src/cp/nw_db_manager.c\<close> and \<^verbatim>\<open>src/cp/alvs_db_manager.c\<close>, and the checks of the data plane on these structures in
  \<^verbatim>\<open>src/dp/alvs_init.c\<close>, \<^verbatim>\<open>src/dp/nw_init.c\<close> and \<^verbatim>\<open>src/dp/main.c\<close>.

  The SDK (EZapi, EZdev, EZenv, EZagt, EZos) is a parameter: the environment says whether the \<open>n\<close>-th call of the program
  succeeds; a call that fails has no effect.  A call that only reads defaults for fields the program does not set has no effect
  either.  The state holds what has been configured, which of the program's objects exist, and how often an object was
  released that did not exist or that another one still needed.
\<close>

subsection \<open>Parameters of the configuration\<close>

datatype eth_if_type = EthIF_10GE | EthIF_40GE | EthIF_100GE

datatype mem_heap =
    INFRA_X1_CLUSTER_SEARCH_HEAP | INFRA_X4_CLUSTER_SEARCH_HEAP | INFRA_EMEM_SEARCH_HASH_HEAP
  | INFRA_EMEM_SEARCH_1_TABLE_HEAP | INFRA_EMEM_SEARCH_2_TABLE_HEAP | INFRA_NOT_VALID_HEAP

datatype int_space_type = Space_1_CLUSTER_CODE | Space_1_CLUSTER_SEARCH | Space_4_CLUSTER_SEARCH | Space_ALL_CLUSTER_CODE | Space_ALL_CLUSTER_DATA

datatype ext_space_type = Space_SEARCH | Space_GENERAL

datatype nps_struct_id =
    SID_NW_INTERFACES | SID_NW_LAG | SID_ALVS_CONN_CLASSIFICATION | SID_ALVS_CONN_INFO | SID_ALVS_SERVICE_CLASSIFICATION
  | SID_ALVS_SERVICE_INFO | SID_ALVS_SCHED_INFO | SID_ALVS_SERVER_INFO | SID_NW_FIB | SID_NW_ARP | SID_ALVS_SERVER_CLASSIFICATION
  | SID_APPLICATION_INFO

datatype cp_object = Obj_dev | Obj_cp | Obj_env | Obj_agt | Obj_nw_db_manager | Obj_alvs_db_manager

record imem_row =
  im_type :: int_space_type
  im_size :: nat
  im_index :: nat
  im_heap :: mem_heap

record emem_row =
  em_type :: ext_space_type
  em_out_of_band :: bool
  em_size :: nat
  em_msid :: nat
  em_index :: nat
  em_heap :: mem_heap

record eth_if =
  ei_side :: nat
  ei_engine :: nat
  ei_number :: nat
  ei_type :: eth_if_type

record infra_hash_params =
  hp_key_size :: nat
  hp_result_size :: nat
  hp_max_num_of_entries :: nat
  hp_hash_size :: nat
  hp_updated_from_dp :: bool
  hp_sig_pool_id :: nat
  hp_result_pool_id :: nat
  hp_main_heap :: mem_heap
  hp_sig_heap :: mem_heap
  hp_res_heap :: mem_heap

record infra_table_params =
  tp_key_size :: nat
  tp_result_size :: nat
  tp_max_num_of_entries :: nat
  tp_updated_from_dp :: bool
  tp_heap :: mem_heap

record infra_tcam_params =
  tc_side :: nat
  tc_profile :: nat
  tc_lookup_table_count :: nat
  tc_table :: nat
  tc_key_size :: nat
  tc_result_size :: nat
  tc_max_num_of_entries :: nat

text \<open>
  What the processor knows of a search structure: the pools of a hash that the data plane updates, and the memory spaces
  of its parts, in external or internal memory.
\<close>

record struct_cfg =
  sc_is_hash :: bool
  sc_key_size :: nat
  sc_result_size :: nat
  sc_max_entries :: nat
  sc_external :: bool
  sc_single_cycle :: bool
  sc_updated_from_dp :: bool
  sc_pools :: "(nat \<times> nat) option"
  sc_hash_size :: "nat option"
  sc_spaces :: "nat list"

record tcam_cfg =
  tcc_key_size :: nat
  tcc_result_size :: nat
  tcc_lookup_tables :: "nat list"

definition imem_spaces_params :: "imem_row list" where
  "imem_spaces_params =
     [\<lparr>im_type = Space_1_CLUSTER_CODE, im_size = 160, im_index = 0, im_heap = INFRA_NOT_VALID_HEAP\<rparr>,
      \<lparr>im_type = Space_1_CLUSTER_SEARCH, im_size = 5, im_index = 0, im_heap = INFRA_X1_CLUSTER_SEARCH_HEAP\<rparr>,
      \<lparr>im_type = Space_4_CLUSTER_SEARCH, im_size = 516, im_index = 0, im_heap = INFRA_X4_CLUSTER_SEARCH_HEAP\<rparr>,
      \<lparr>im_type = Space_ALL_CLUSTER_CODE, im_size = 128, im_index = 0, im_heap = INFRA_NOT_VALID_HEAP\<rparr>,
      \<lparr>im_type = Space_ALL_CLUSTER_DATA, im_size = 1, im_index = 0, im_heap = INFRA_NOT_VALID_HEAP\<rparr>]"

definition emem_spaces_params :: "emem_row list" where
  "emem_spaces_params =
     [\<lparr>em_type = Space_SEARCH, em_out_of_band = False, em_size = 3584, em_msid = 0x0, em_index = 0, em_heap = INFRA_EMEM_SEARCH_HASH_HEAP\<rparr>,
      \<lparr>em_type = Space_SEARCH, em_out_of_band = False, em_size = 3500, em_msid = 0x7, em_index = 0, em_heap = INFRA_EMEM_SEARCH_1_TABLE_HEAP\<rparr>,
      \<lparr>em_type = Space_SEARCH, em_out_of_band = False, em_size = 1024, em_msid = 0x8, em_index = 0, em_heap = INFRA_EMEM_SEARCH_2_TABLE_HEAP\<rparr>,
      \<lparr>em_type = Space_GENERAL, em_out_of_band = True, em_size = 256, em_msid = 2, em_index = 0, em_heap = INFRA_NOT_VALID_HEAP\<rparr>]"

definition network_interface_params :: "(nat \<times> nat) list" where
  "network_interface_params = [(0, 0), (0, 12), (1, 0), (1, 12)]"

definition is_external_search_memory_heap :: "mem_heap \<Rightarrow> bool" where
  "is_external_search_memory_heap h \<longleftrightarrow>
     h \<in> {INFRA_EMEM_SEARCH_HASH_HEAP, INFRA_EMEM_SEARCH_1_TABLE_HEAP, INFRA_EMEM_SEARCH_2_TABLE_HEAP}"

subsection \<open>State and calls\<close>

record bringup_env =
  be_ok :: "nat \<Rightarrow> bool"
  be_malloc_ok :: "nat \<Rightarrow> bool"
  be_my_mac :: "ether_addr option"
  be_lock_free :: bool
  be_agt_enabled :: bool
  be_port_type :: "eth_if_type option"

record bringup_state =
  bs_ifs :: "nat \<rightharpoonup> eth_if"
  bs_imem :: "imem_row list"
  bs_emem :: "emem_row list"
  bs_next_imem :: nat
  bs_next_emem :: nat
  bs_int_spaces :: "nat \<rightharpoonup> int_space_type \<times> nat"
  bs_ext_spaces :: "nat \<rightharpoonup> ext_space_type \<times> nat \<times> nat \<times> nat"
  bs_on_demand :: "nat option"
  bs_posted :: "nat option"
  bs_decoder_mac :: "ether_addr option"
  bs_pools :: "nat \<rightharpoonup> nat option"
  bs_timer :: "(nat \<times> nat \<times> nat) option"
  bs_structs :: "nps_struct_id \<rightharpoonup> struct_cfg"
  bs_tcam :: "nat \<times> nat \<rightharpoonup> tcam_cfg"
  bs_loaded :: bool
  bs_token_bucket :: "nat option"
  bs_counters_set :: "nat list"
  bs_running :: bool
  is_object_allocated :: "cp_object \<Rightarrow> bool"
  bs_existing :: "cp_object list"
  bs_faults :: nat
  bs_lock_file :: bool
  bs_cancel :: bool
  bs_clock :: nat

text \<open>A call of the SDK, and the sequence of calls that a function makes until one fails.\<close>

definition ez :: "bringup_env \<Rightarrow> (bringup_state \<Rightarrow> bringup_state) \<Rightarrow> bringup_state \<Rightarrow> bool \<times> bringup_state" where
  "ez e effect st =
     (let ok = be_ok e (bs_clock st); st = st\<lparr>bs_clock := Suc (bs_clock st)\<rparr> in (ok, if ok then effect st else st))"

definition and_then :: "bool \<times> 'st \<Rightarrow> ('st \<Rightarrow> bool \<times> 'st) \<Rightarrow> bool \<times> 'st" where
  "and_then r f = (if fst r then f (snd r) else r)"

fun each_ok :: "('a \<Rightarrow> 'st \<Rightarrow> bool \<times> 'st) \<Rightarrow> 'a list \<Rightarrow> 'st \<Rightarrow> bool \<times> 'st" where
  "each_ok f [] st = (True, st)"
| "each_ok f (x # xs) st = and_then (f x st) (each_ok f xs)"

text \<open>The functions read the defaults of a parameter block before they write it.\<close>

definition get_set :: "bringup_env \<Rightarrow> (bringup_state \<Rightarrow> bringup_state) \<Rightarrow> bringup_state \<Rightarrow> bool \<times> bringup_state" where
  "get_set e effect st = and_then (ez e id st) (ez e effect)"

subsection \<open>The created state\<close>

definition infra_create_intetface :: "bringup_env \<Rightarrow> nat \<Rightarrow> nat \<Rightarrow> eth_if_type \<Rightarrow> nat \<Rightarrow> bringup_state \<Rightarrow> bool \<times> bringup_state" where
  "infra_create_intetface e side port_number type logical_id st =
     and_then (get_set e id st)
       (get_set e (bs_ifs_update (\<lambda>m. m(logical_id \<mapsto>
          \<lparr>ei_side = side, ei_engine = port_number div 12, ei_number = port_number mod 12, ei_type = type\<rparr>))))"

definition infra_create_if_mapping :: "bringup_env \<Rightarrow> eth_if_type \<Rightarrow> bringup_state \<Rightarrow> bool \<times> bringup_state" where
  "infra_create_if_mapping e port_type st =
     and_then
       (each_ok (\<lambda>ind. infra_create_intetface e (fst (network_interface_params ! ind)) (snd (network_interface_params ! ind)) port_type ind)
         [0..<USER_NW_IF_NUM] st)
       (infra_create_intetface e 1 24 EthIF_10GE (unat USER_HOST_LOGICAL_ID))"

definition create_int_space :: "bringup_env \<Rightarrow> nat \<Rightarrow> bringup_state \<Rightarrow> bool \<times> bringup_state" where
  "create_int_space e ind st =
     (let row = bs_imem st ! ind in
      if 0 < im_size row then
        let index = bs_next_imem st; st = st\<lparr>bs_next_imem := Suc index\<rparr>
        in get_set e (\<lambda>st. st\<lparr>bs_int_spaces := (bs_int_spaces st)(index \<mapsto> (im_type row, im_size row)),
             bs_imem := (bs_imem st)[ind := row\<lparr>im_index := index\<rparr>]\<rparr>) st
      else (True, st))"

definition create_ext_space :: "bringup_env \<Rightarrow> nat \<Rightarrow> bringup_state \<Rightarrow> bool \<times> bringup_state" where
  "create_ext_space e ind st =
     (let row = bs_emem st ! ind in
      if 0 < em_size row then
        let index = bs_next_emem st; st = st\<lparr>bs_next_emem := Suc index\<rparr>
        in get_set e (\<lambda>st. st\<lparr>bs_ext_spaces := (bs_ext_spaces st)(index \<mapsto> (em_type row, em_size row, em_msid row,
               if em_type row = Space_SEARCH then 2 else 0)),
             bs_emem := (bs_emem st)[ind := row\<lparr>em_index := index\<rparr>]\<rparr>) st
      else (True, st))"

definition infra_create_mem_partition :: "bringup_env \<Rightarrow> bringup_state \<Rightarrow> bool \<times> bringup_state" where
  "infra_create_mem_partition e st =
     and_then (each_ok (create_int_space e) [0..<length (bs_imem st)] st)
       (\<lambda>st. each_ok (create_ext_space e) [0..<length (bs_emem st)] st)"

definition infra_configure_protocol_decode :: "bringup_env \<Rightarrow> bringup_state \<Rightarrow> bool \<times> bringup_state" where
  "infra_configure_protocol_decode e st =
     and_then (ez e id st)
       (\<lambda>st. case be_my_mac e of None \<Rightarrow> (False, st) | Some mac \<Rightarrow> ez e (\<lambda>st. st\<lparr>bs_decoder_mac := Some mac\<rparr>) st)"

definition POSTED_COUNTERS :: nat where "POSTED_COUNTERS = 7680 * 1024"
definition ON_DEMAND_COUNTERS :: nat where "ON_DEMAND_COUNTERS = ALVS_SERVERS_MAX_ENTRIES * ALVS_NUM_OF_SERVERS_ON_DEMAND_STATS + 4096"

definition infra_create_statistics :: "bringup_env \<Rightarrow> bringup_state \<Rightarrow> bool \<times> bringup_state" where
  "infra_create_statistics e st =
     and_then (and_then (and_then (get_set e id st) (get_set e (\<lambda>st. st\<lparr>bs_on_demand := Some ON_DEMAND_COUNTERS\<rparr>)))
       (get_set e id)) (get_set e (\<lambda>st. st\<lparr>bs_posted := Some POSTED_COUNTERS\<rparr>))"

definition USER_POOL_ID :: nat where "USER_POOL_ID = 4"
definition USER_TIMER_LOGICAL_ID :: nat where "USER_TIMER_LOGICAL_ID = 96"

text \<open>A pool for search structures has no size of its own.\<close>

definition infra_create_index_pools :: "bringup_env \<Rightarrow> bringup_state \<Rightarrow> bool \<times> bringup_state" where
  "infra_create_index_pools e st =
     and_then (each_ok (\<lambda>pool. get_set e (bs_pools_update (\<lambda>m. m(pool \<mapsto> None)))) [0, 1, 2, 3] st)
       (get_set e (bs_pools_update (\<lambda>m. m(USER_POOL_ID \<mapsto> Some ALVS_CONN_MAX_ENTRIES))))"

definition infra_create_timers :: "bringup_env \<Rightarrow> bringup_state \<Rightarrow> bool \<times> bringup_state" where
  "infra_create_timers e st =
     get_set e (\<lambda>st. st\<lparr>bs_timer := Some (USER_TIMER_LOGICAL_ID, ALVS_AGING_TIMER_EVENTS_PER_ITERATION * 60, 960)\<rparr>) st"

definition infra_created :: "bringup_env \<Rightarrow> eth_if_type \<Rightarrow> bringup_state \<Rightarrow> bool \<times> bringup_state" where
  "infra_created e port_type st =
     and_then (and_then (and_then (and_then (and_then (infra_create_if_mapping e port_type st)
       (infra_create_mem_partition e)) (infra_create_statistics e)) (infra_configure_protocol_decode e))
       (infra_create_index_pools e)) (infra_create_timers e)"

subsection \<open>Search structures\<close>

text \<open>The index of the memory space of a heap; the fallback of the source is space 0.\<close>

definition index_of :: "mem_heap \<Rightarrow> bringup_state \<Rightarrow> nat" where
  "index_of h st =
     (case find (\<lambda>r. em_heap r = h) (bs_emem st) of
        Some r \<Rightarrow> em_index r
      | None \<Rightarrow> (case find (\<lambda>r. im_heap r = h) (bs_imem st) of Some r \<Rightarrow> im_index r | None \<Rightarrow> 0))"

definition infra_from_msid_to_index :: "bool \<Rightarrow> nat \<Rightarrow> bringup_state \<Rightarrow> nat" where
  "infra_from_msid_to_index external_memory emem_msid st =
     (if external_memory then
        (case find (\<lambda>r. em_msid r = emem_msid) (bs_emem st) of Some r \<Rightarrow> em_index r | None \<Rightarrow> 0)
      else 0)"

definition set_struct :: "nps_struct_id \<Rightarrow> (struct_cfg \<Rightarrow> struct_cfg) \<Rightarrow> bringup_state \<Rightarrow> bringup_state" where
  "set_struct sid f st = st\<lparr>bs_structs := (bs_structs st)(sid := map_option f (bs_structs st sid))\<rparr>"

definition infra_create_hash :: "bringup_env \<Rightarrow> nps_struct_id \<Rightarrow> infra_hash_params \<Rightarrow> bringup_state \<Rightarrow> bool \<times> bringup_state" where
  "infra_create_hash e sid p st =
     and_then (and_then
       (get_set e (\<lambda>st. st\<lparr>bs_structs := (bs_structs st)(sid \<mapsto>
          \<lparr>sc_is_hash = True, sc_key_size = hp_key_size p, sc_result_size = hp_result_size p, sc_max_entries = hp_max_num_of_entries p,
           sc_external = is_external_search_memory_heap (hp_main_heap p), sc_single_cycle = False, sc_updated_from_dp = False,
           sc_pools = None, sc_hash_size = None, sc_spaces = []\<rparr>)\<rparr>) st)
       (get_set e (set_struct sid (\<lambda>c. c\<lparr>sc_single_cycle := True, sc_updated_from_dp := hp_updated_from_dp p\<rparr>))))
       (get_set e (\<lambda>st. set_struct sid (\<lambda>c. c\<lparr>sc_hash_size := (if 0 < hp_hash_size p then Some (hp_hash_size p) else None),
           sc_pools := (if hp_updated_from_dp p then Some (hp_sig_pool_id p, hp_result_pool_id p) else None),
           sc_spaces := [index_of (hp_main_heap p) st, index_of (hp_sig_heap p) st, index_of (hp_res_heap p) st]\<rparr>) st))"

definition infra_create_table :: "bringup_env \<Rightarrow> nps_struct_id \<Rightarrow> infra_table_params \<Rightarrow> bringup_state \<Rightarrow> bool \<times> bringup_state" where
  "infra_create_table e sid p st =
     and_then (and_then
       (get_set e (\<lambda>st. st\<lparr>bs_structs := (bs_structs st)(sid \<mapsto>
          \<lparr>sc_is_hash = False, sc_key_size = tp_key_size p, sc_result_size = tp_result_size p, sc_max_entries = tp_max_num_of_entries p,
           sc_external = is_external_search_memory_heap (tp_heap p), sc_single_cycle = False, sc_updated_from_dp = False,
           sc_pools = None, sc_hash_size = None, sc_spaces = []\<rparr>)\<rparr>) st)
       (get_set e (set_struct sid (\<lambda>c. c\<lparr>sc_updated_from_dp := tp_updated_from_dp p\<rparr>))))
       (get_set e (\<lambda>st. set_struct sid (\<lambda>c. c\<lparr>sc_spaces := [index_of (tp_heap p) st]\<rparr>) st))"

text \<open>The list of lookup tables of the profile is filled with the number of the profile.\<close>

definition infra_create_tcam :: "bringup_env \<Rightarrow> infra_tcam_params \<Rightarrow> bringup_state \<Rightarrow> bool \<times> bringup_state" where
  "infra_create_tcam e p st =
     and_then
       (get_set e (bs_tcam_update (\<lambda>m. m((tc_side p, tc_table p) \<mapsto>
          \<lparr>tcc_key_size = tc_key_size p, tcc_result_size = tc_result_size p, tcc_lookup_tables = []\<rparr>))) st)
       (get_set e (\<lambda>st. st\<lparr>bs_tcam := (bs_tcam st)((tc_side p, tc_table p) :=
          map_option (\<lambda>c. c\<lparr>tcc_lookup_tables := replicate (tc_lookup_table_count p) (tc_profile p)\<rparr>) (bs_tcam st (tc_side p, tc_table p)))\<rparr>))"

subsection \<open>The constructors of the databases\<close>

text \<open>
  The sizes of keys and results, asserted at compile time in the headers of the search structures.  A field of the parameters that a
  constructor does not set is not read.
\<close>

definition plain_hash :: "nat \<Rightarrow> nat \<Rightarrow> nat \<Rightarrow> infra_hash_params" where
  "plain_hash key_size result_size entries =
     \<lparr>hp_key_size = key_size, hp_result_size = result_size, hp_max_num_of_entries = entries, hp_hash_size = 0, hp_updated_from_dp = False,
      hp_sig_pool_id = 0, hp_result_pool_id = 0, hp_main_heap = INFRA_EMEM_SEARCH_HASH_HEAP, hp_sig_heap = INFRA_EMEM_SEARCH_HASH_HEAP,
      hp_res_heap = INFRA_EMEM_SEARCH_1_TABLE_HEAP\<rparr>"

definition plain_table :: "nat \<Rightarrow> nat \<Rightarrow> nat \<Rightarrow> mem_heap \<Rightarrow> infra_table_params" where
  "plain_table key_size result_size entries heap =
     \<lparr>tp_key_size = key_size, tp_result_size = result_size, tp_max_num_of_entries = entries, tp_updated_from_dp = False, tp_heap = heap\<rparr>"

definition application_info_db_constructor :: "bringup_env \<Rightarrow> bringup_state \<Rightarrow> bool \<times> bringup_state" where
  "application_info_db_constructor e = infra_create_table e SID_APPLICATION_INFO (plain_table 1 16 16 INFRA_X1_CLUSTER_SEARCH_HEAP)"

definition nw_db_constructor :: "bringup_env \<Rightarrow> bringup_state \<Rightarrow> bool \<times> bringup_state" where
  "nw_db_constructor e st =
     and_then (and_then (infra_create_hash e SID_NW_ARP (plain_hash 4 8 65536) st)
       (infra_create_tcam e \<lparr>tc_side = 0, tc_profile = 0, tc_lookup_table_count = 1, tc_table = 0, tc_key_size = 10, tc_result_size = 8,
          tc_max_num_of_entries = 0x2000\<rparr>))
       (infra_create_table e SID_NW_INTERFACES (plain_table 1 16 256 INFRA_X1_CLUSTER_SEARCH_HEAP))"

definition alvs_db_constructor :: "bringup_env \<Rightarrow> bringup_state \<Rightarrow> bool \<times> bringup_state" where
  "alvs_db_constructor e st =
     and_then (and_then (and_then (and_then (and_then (and_then
       (infra_create_hash e SID_ALVS_SERVICE_CLASSIFICATION (plain_hash 8 4 ALVS_SERVICES_MAX_ENTRIES) st)
       (infra_create_table e SID_ALVS_SERVICE_INFO (plain_table 1 16 ALVS_SERVICES_MAX_ENTRIES INFRA_X4_CLUSTER_SEARCH_HEAP)))
       (infra_create_table e SID_ALVS_SCHED_INFO
          (plain_table 2 16 (ALVS_SERVICES_MAX_ENTRIES * ALVS_SIZE_OF_SCHED_BUCKET) INFRA_EMEM_SEARCH_2_TABLE_HEAP)))
       (infra_create_table e SID_ALVS_SERVER_INFO (plain_table 4 32 ALVS_SERVERS_MAX_ENTRIES INFRA_EMEM_SEARCH_2_TABLE_HEAP)))
       (infra_create_hash e SID_ALVS_CONN_CLASSIFICATION
          ((plain_hash 14 8 ALVS_CONN_MAX_ENTRIES)\<lparr>hp_hash_size := 26, hp_updated_from_dp := True, hp_sig_pool_id := 0, hp_result_pool_id := 1\<rparr>)))
       (infra_create_table e SID_ALVS_CONN_INFO
          ((plain_table 4 32 ALVS_CONN_MAX_ENTRIES INFRA_EMEM_SEARCH_1_TABLE_HEAP)\<lparr>tp_updated_from_dp := True\<rparr>)))
       (infra_create_hash e SID_ALVS_SERVER_CLASSIFICATION
          ((plain_hash 14 8 ALVS_SERVERS_MAX_ENTRIES)\<lparr>hp_sig_pool_id := 2, hp_result_pool_id := 3\<rparr>))"

text \<open>Token bucket, long counters and posted counters; each of the last three calls needs a buffer.\<close>

definition with_buffer :: "bringup_env \<Rightarrow> (bringup_state \<Rightarrow> bringup_state) \<Rightarrow> bringup_state \<Rightarrow> bool \<times> bringup_state" where
  "with_buffer e effect st = (if be_malloc_ok e (bs_clock st) then ez e effect st else (False, st))"

definition infra_initialize_statistics :: "bringup_env \<Rightarrow> bringup_state \<Rightarrow> bool \<times> bringup_state" where
  "infra_initialize_statistics e st =
     and_then (and_then (and_then (get_set e id st)
       (with_buffer e (\<lambda>st. st\<lparr>bs_token_bucket := Some EMEM_STATS_ON_DEMAND_TB_OFFSET\<rparr>)))
       (with_buffer e (\<lambda>st. st\<lparr>bs_counters_set := (ALVS_SERVERS_MAX_ENTRIES * ALVS_NUM_OF_SERVERS_ON_DEMAND_STATS
         + EMEM_STATS_ON_DEMAND_COLOR_FLAG_NUM) # bs_counters_set st\<rparr>)))
       (with_buffer e (\<lambda>st. st\<lparr>bs_counters_set := POSTED_COUNTERS # bs_counters_set st\<rparr>))"

definition infra_initialized :: "bringup_env \<Rightarrow> bringup_state \<Rightarrow> bool \<times> bringup_state" where
  "infra_initialized e st =
     and_then (and_then (and_then (and_then (application_info_db_constructor e st) (nw_db_constructor e)) (alvs_db_constructor e))
       (ez e (\<lambda>st. st\<lparr>bs_loaded := True\<rparr>))) (infra_initialize_statistics e)"

subsection \<open>Objects of the control plane\<close>

definition create_object :: "bringup_env \<Rightarrow> cp_object \<Rightarrow> bringup_state \<Rightarrow> bool \<times> bringup_state" where
  "create_object e obj = ez e (\<lambda>st. st\<lparr>bs_existing := obj # bs_existing st\<rparr>)"

definition mark_allocated :: "cp_object \<Rightarrow> bringup_state \<Rightarrow> bool \<times> bringup_state" where
  "mark_allocated obj st = (True, st\<lparr>is_object_allocated := (is_object_allocated st)(obj := True)\<rparr>)"

text \<open>The device needs the environment, the library the device; the debug server and the threads use the library.\<close>

fun needs :: "cp_object \<Rightarrow> cp_object list" where
  "needs Obj_env = []"
| "needs Obj_dev = [Obj_env]"
| "needs Obj_cp = [Obj_dev, Obj_env]"
| "needs _ = [Obj_cp, Obj_dev, Obj_env]"

definition release_object :: "cp_object \<Rightarrow> bringup_state \<Rightarrow> bringup_state" where
  "release_object obj st =
     (let ok = (obj \<in> set (bs_existing st) \<and> list_all (\<lambda>other. obj \<notin> set (needs other)) (bs_existing st))
      in st\<lparr>bs_existing := remove1 obj (bs_existing st), bs_faults := (if ok then bs_faults st else Suc (bs_faults st))\<rparr>)"

definition release_if_allocated :: "cp_object \<Rightarrow> bringup_state \<Rightarrow> bringup_state" where
  "release_if_allocated obj st = (if is_object_allocated st obj then release_object obj st else st)"

text \<open>The server of the debug agent exists before its functions are registered and its task is started.\<close>

definition infra_enable_agt :: "bringup_env \<Rightarrow> bringup_state \<Rightarrow> bool \<times> bringup_state" where
  "infra_enable_agt e st = and_then (and_then (and_then (create_object e Obj_agt st) (ez e id)) (ez e id)) (ez e id)"

definition infra_disable_agt :: "bringup_state \<Rightarrow> bringup_state" where
  "infra_disable_agt = release_object Obj_agt"

definition nps_init :: "bringup_env \<Rightarrow> bringup_state \<Rightarrow> bool \<times> bringup_state" where
  "nps_init e st =
     and_then (and_then (and_then (and_then (and_then (and_then (and_then
       (create_object e Obj_env st) (mark_allocated Obj_env))
       (create_object e Obj_dev)) (mark_allocated Obj_dev))
       (create_object e Obj_cp)) (mark_allocated Obj_cp))
       (ez e id))
       (\<lambda>st. if be_agt_enabled e then and_then (infra_enable_agt e st) (mark_allocated Obj_agt) else (True, st))"

definition nps_bringup :: "bringup_env \<Rightarrow> eth_if_type \<Rightarrow> bringup_state \<Rightarrow> bool \<times> bringup_state" where
  "nps_bringup e port_type st =
     and_then (and_then (and_then (and_then (and_then (and_then (ez e id st) (infra_created e port_type))
       (each_ok (\<lambda>pup_phase. ez e id) [1, 2, 3, 4 :: nat]))
       (ez e id)) (infra_initialized e)) (ez e id)) (ez e (\<lambda>st. st\<lparr>bs_running := True\<rparr>))"

definition main_thread_graceful_stop :: "bringup_state \<Rightarrow> bringup_state" where
  "main_thread_graceful_stop st =
     (let st = st\<lparr>bs_lock_file := False, bs_cancel := True\<rparr>;
          st = release_if_allocated Obj_nw_db_manager st;
          st = release_if_allocated Obj_alvs_db_manager st;
          st = (if is_object_allocated st Obj_agt then infra_disable_agt st else st);
          st = release_if_allocated Obj_cp st;
          st = release_if_allocated Obj_dev st
      in release_if_allocated Obj_env st)"

text \<open>How the program ends: with an exit code, or by \<open>abort\<close> at an invalid port type.\<close>

datatype cp_exit = Exit_Code nat | Aborted

datatype cp_thread = Main_Thread | Nw_Db_Manager_Thread | Alvs_Db_Manager_Thread | Other_Thread

datatype handler_effect =
    Program_Ends cp_exit bringup_state
  | Nw_Db_Manager_Exits
  | Alvs_Db_Manager_Exits
  | Thread_Exits_After_Sigterm

definition signal_terminate_handler :: "bool \<Rightarrow> cp_thread \<Rightarrow> bringup_state \<Rightarrow> handler_effect" where
  "signal_terminate_handler sigterm self st =
     (if \<not> sigterm then
        (case self of
           Main_Thread \<Rightarrow> Program_Ends (Exit_Code 1) (main_thread_graceful_stop st)
         | Nw_Db_Manager_Thread \<Rightarrow> Nw_Db_Manager_Exits
         | Alvs_Db_Manager_Thread \<Rightarrow> Alvs_Db_Manager_Exits
         | Other_Thread \<Rightarrow> Thread_Exits_After_Sigterm)
      else Program_Ends (Exit_Code 1) (main_thread_graceful_stop st))"

text \<open>The main thread waits for a signal; the handler of the signal does not return to it.\<close>

definition wait_for_signal :: "bringup_state \<Rightarrow> cp_exit \<times> bringup_state" where
  "wait_for_signal st =
     (case signal_terminate_handler True Main_Thread st of
        Program_Ends code st \<Rightarrow> (code, st)
      | _ \<Rightarrow> (Exit_Code 0, main_thread_graceful_stop st))"

definition cp_main :: "bringup_env \<Rightarrow> bringup_state \<Rightarrow> cp_exit \<times> bringup_state" where
  "cp_main e st =
     (if \<not> be_lock_free e then (Exit_Code 1, st)
      else
        let st = st\<lparr>bs_lock_file := True\<rparr> in
        case be_port_type e of
          None \<Rightarrow> (Aborted, st)
        | Some port_type \<Rightarrow>
            let (ok, st) = and_then (and_then (and_then (and_then (and_then (nps_init e (st\<lparr>is_object_allocated := (\<lambda>_. False)\<rparr>))
                  (nps_bringup e port_type))
                  (create_object e Obj_nw_db_manager)) (mark_allocated Obj_nw_db_manager))
                  (create_object e Obj_alvs_db_manager)) (mark_allocated Obj_alvs_db_manager)
            in if ok then wait_for_signal st else (Exit_Code 1, main_thread_graceful_stop st))"

subsection \<open>The checks of the data plane\<close>

text \<open>
  The descriptor of a structure is read from the processor (which may fail, \<open>desc_ok\<close>) and compared with what the code was compiled
  for.
\<close>

definition validate_hash :: "(nps_struct_id \<Rightarrow> bool) \<Rightarrow> bringup_state \<Rightarrow> nps_struct_id \<Rightarrow> nat \<Rightarrow> nat \<Rightarrow> bool" where
  "validate_hash desc_ok st sid key_size result_size \<longleftrightarrow> desc_ok sid \<and>
     (case bs_structs st sid of None \<Rightarrow> False
      | Some c \<Rightarrow> sc_is_hash c \<and> sc_single_cycle c \<and> sc_key_size c = key_size \<and> sc_result_size c = result_size)"

definition validate_table :: "(nps_struct_id \<Rightarrow> bool) \<Rightarrow> bringup_state \<Rightarrow> nps_struct_id \<Rightarrow> nat \<Rightarrow> bool" where
  "validate_table desc_ok st sid result_size \<longleftrightarrow> desc_ok sid \<and>
     (case bs_structs st sid of None \<Rightarrow> False | Some c \<Rightarrow> \<not> sc_is_hash c \<and> sc_result_size c = result_size)"

definition init_alvs_shared_cmem :: "(nps_struct_id \<Rightarrow> bool) \<Rightarrow> bringup_state \<Rightarrow> bool" where
  "init_alvs_shared_cmem desc_ok st \<longleftrightarrow>
     validate_hash desc_ok st SID_ALVS_CONN_CLASSIFICATION 14 8 \<and> validate_table desc_ok st SID_ALVS_CONN_INFO 32 \<and>
     validate_hash desc_ok st SID_ALVS_SERVER_CLASSIFICATION 14 8 \<and> validate_table desc_ok st SID_ALVS_SERVER_INFO 32 \<and>
     validate_table desc_ok st SID_ALVS_SCHED_INFO 16 \<and> validate_hash desc_ok st SID_ALVS_SERVICE_CLASSIFICATION 8 4 \<and>
     validate_table desc_ok st SID_ALVS_SERVICE_INFO 16"

definition init_nw_shared_cmem :: "(nps_struct_id \<Rightarrow> bool) \<Rightarrow> bringup_state \<Rightarrow> bool" where
  "init_nw_shared_cmem desc_ok st \<longleftrightarrow>
     validate_table desc_ok st SID_NW_INTERFACES 16 \<and> validate_hash desc_ok st SID_NW_ARP 4 8 \<and>
     validate_table desc_ok st SID_APPLICATION_INFO 16"

text \<open>
  The addresses of the spin locks, which the data plane initialises from the start of its memory space on, and the
  outcome of the callback that initialises the memories of a thread.
\<close>

definition init_alvs_emem :: "nat \<Rightarrow> nat list" where
  "init_alvs_emem start = map (\<lambda>id. start + id) [0..<ALVS_CONN_LOCK_ELEMENTS_COUNT]"

datatype data_mem_space = EZDP_CMEM_DATA | EZDP_SHARED_CMEM_DATA | EZDP_EMEM_DATA | EZDP_OTHER_DATA

fun init_memory :: "(nps_struct_id \<Rightarrow> bool) \<Rightarrow> bringup_state \<Rightarrow> data_mem_space \<Rightarrow> bool" where
  "init_memory desc_ok st EZDP_SHARED_CMEM_DATA = (init_nw_shared_cmem desc_ok st \<and> init_alvs_shared_cmem desc_ok st)"
| "init_memory desc_ok st _ = True"

end
