(* ===== verification/Nps_Bringup_Props.thy ===== *)
theory Nps_Bringup_Props
  imports Nps_Bringup
begin

text \<open>
  Properties of the start and the end of the control plane: what it creates it releases, in an order that respects the
  dependencies, wherever the start fails; and the structures it configures are those the data plane was compiled for.
\<close>

subsection \<open>Objects\<close>

text \<open>The configuration of the processor does not touch the objects of the program.\<close>

definition object_view :: "bringup_state \<Rightarrow> cp_object list \<times> (cp_object \<Rightarrow> bool) \<times> nat \<times> bool" where
  "object_view st = (bs_existing st, is_object_allocated st, bs_faults st, bs_lock_file st)"

definition keeps_objects :: "(bringup_state \<Rightarrow> bool \<times> bringup_state) \<Rightarrow> bool" where
  "keeps_objects f \<longleftrightarrow> (\<forall>st. object_view (snd (f st)) = object_view st)"

named_theorems keeps

lemma keeps_ez [keeps]: "(\<And>st. object_view (f st) = object_view st) \<Longrightarrow> keeps_objects (ez e f)"
  by (auto simp: keeps_objects_def ez_def Let_def object_view_def)

lemma keeps_and_then [keeps]: "keeps_objects f \<Longrightarrow> keeps_objects g \<Longrightarrow> keeps_objects (\<lambda>st. and_then (f st) g)"
  by (auto simp: keeps_objects_def and_then_def)

lemma keeps_each [keeps]: "(\<And>x. keeps_objects (f x)) \<Longrightarrow> keeps_objects (each_ok f xs)"
  by (induction xs) (auto simp: keeps_objects_def and_then_def)

lemma keeps_get_set [keeps]: "(\<And>st. object_view (f st) = object_view st) \<Longrightarrow> keeps_objects (get_set e f)"
  unfolding get_set_def by (intro keeps) simp_all

lemma keeps_with_buffer [keeps]: "(\<And>st. object_view (f st) = object_view st) \<Longrightarrow> keeps_objects (with_buffer e f)"
  using keeps_ez [of f e] by (auto simp: keeps_objects_def with_buffer_def)

lemma keeps_create_interface [keeps]: "keeps_objects (infra_create_intetface e side port type lid)"
  unfolding infra_create_intetface_def by (intro keeps) (simp_all add: object_view_def)

lemma keeps_spaces [keeps]: "keeps_objects (create_int_space e i)" "keeps_objects (create_ext_space e i)"
proof -
  have g: "object_view (snd (get_set e f st)) = object_view st" if "\<And>st. object_view (f st) = object_view st" for f st
    using keeps_get_set [of f e] that by (simp add: keeps_objects_def)
  show "keeps_objects (create_int_space e i)" "keeps_objects (create_ext_space e i)"
    by (auto simp: keeps_objects_def create_int_space_def create_ext_space_def Let_def, (subst g; simp add: object_view_def)+)
qed

lemma keeps_created [keeps]: "keeps_objects (infra_created e t)"
proof -
  have d: "keeps_objects (infra_configure_protocol_decode e)"
    unfolding infra_configure_protocol_decode_def
    by (cases "be_my_mac e") (auto intro!: keeps simp: object_view_def, auto simp: keeps_objects_def)
  have m: "keeps_objects (infra_create_mem_partition e)"
    using keeps_each [of "create_int_space e", OF keeps_spaces(1)] keeps_each [of "create_ext_space e", OF keeps_spaces(2)]
    by (auto simp: keeps_objects_def infra_create_mem_partition_def and_then_def)
  show ?thesis
    unfolding infra_created_def infra_create_if_mapping_def infra_create_statistics_def
      infra_create_index_pools_def infra_create_timers_def
    by (intro keeps d m) (simp_all add: object_view_def)
qed

lemma keeps_create_hash [keeps]: "keeps_objects (infra_create_hash e sid p)"
  unfolding infra_create_hash_def by (intro keeps) (simp_all add: object_view_def set_struct_def)

lemma keeps_create_table [keeps]: "keeps_objects (infra_create_table e sid p)"
  unfolding infra_create_table_def by (intro keeps) (simp_all add: object_view_def set_struct_def)

lemma keeps_create_tcam [keeps]: "keeps_objects (infra_create_tcam e p)"
  unfolding infra_create_tcam_def by (intro keeps) (simp_all add: object_view_def)

lemma keeps_initialized [keeps]: "keeps_objects (infra_initialized e)"
  unfolding infra_initialized_def application_info_db_constructor_def nw_db_constructor_def alvs_db_constructor_def infra_initialize_statistics_def
  by (intro keeps) (simp_all add: object_view_def)

lemma keeps_bringup: "keeps_objects (nps_bringup e t)"
  unfolding nps_bringup_def by (intro keeps) (simp_all add: object_view_def)

subsection \<open>Releasing in order\<close>

definition objects :: "bringup_state \<Rightarrow> cp_object list \<Rightarrow> cp_object list \<Rightarrow> bool" where
  "objects st existing allocated \<longleftrightarrow> bs_existing st = existing \<and> is_object_allocated st = (\<lambda>obj. obj \<in> set allocated) \<and>
     bs_faults st = 0 \<and> bs_lock_file st"

lemma objects_kept: "keeps_objects f \<Longrightarrow> objects st xs ys \<Longrightarrow> objects (snd (f st)) xs ys"
  by (auto simp: keeps_objects_def objects_def object_view_def)

text \<open>The stages of a start, by the objects that exist.\<close>

definition stages :: "cp_object list list" where
  "stages = [[], [Obj_env], [Obj_dev, Obj_env], [Obj_cp, Obj_dev, Obj_env], [Obj_agt, Obj_cp, Obj_dev, Obj_env],
     [Obj_nw_db_manager, Obj_cp, Obj_dev, Obj_env], [Obj_nw_db_manager, Obj_agt, Obj_cp, Obj_dev, Obj_env],
     [Obj_alvs_db_manager, Obj_nw_db_manager, Obj_cp, Obj_dev, Obj_env],
     [Obj_alvs_db_manager, Obj_nw_db_manager, Obj_agt, Obj_cp, Obj_dev, Obj_env]]"

text \<open>The effect of a stop on the objects alone.\<close>

definition drop_object :: "(cp_object \<Rightarrow> bool) \<Rightarrow> cp_object \<Rightarrow> cp_object list \<times> nat \<Rightarrow> cp_object list \<times> nat" where
  "drop_object allocated obj = (\<lambda>(xs, n).
     if allocated obj
     then (remove1 obj xs, if obj \<in> set xs \<and> list_all (\<lambda>other. obj \<notin> set (needs other)) xs then n else Suc n)
     else (xs, n))"

lemma release_if_allocated_objects:
  "(bs_existing (release_if_allocated obj st), bs_faults (release_if_allocated obj st)) =
     drop_object (is_object_allocated st) obj (bs_existing st, bs_faults st)"
  "is_object_allocated (release_if_allocated obj st) = is_object_allocated st"
  "bs_lock_file (release_if_allocated obj st) = bs_lock_file st"
  by (simp_all add: release_if_allocated_def release_object_def drop_object_def Let_def)

lemma fold_release_objects:
  "(bs_existing (fold release_if_allocated objs st), bs_faults (fold release_if_allocated objs st)) =
     fold (drop_object (is_object_allocated st)) objs (bs_existing st, bs_faults st)"
  "bs_lock_file (fold release_if_allocated objs st) = bs_lock_file st"
proof (induction objs arbitrary: st)
  case (Cons obj objs)
  { case 1 show ?case
      using Cons(1) [of "release_if_allocated obj st"] unfolding release_if_allocated_objects by simp }
  { case 2 show ?case using Cons(2) [of "release_if_allocated obj st"] by (simp add: release_if_allocated_objects) }
qed simp_all

lemma stop_objects:
  "(bs_existing (main_thread_graceful_stop st), bs_faults (main_thread_graceful_stop st)) =
     fold (drop_object (is_object_allocated st)) [Obj_nw_db_manager, Obj_alvs_db_manager, Obj_agt, Obj_cp, Obj_dev, Obj_env]
       (bs_existing st, bs_faults st)"
  "bs_lock_file (main_thread_graceful_stop st) = False"
proof -
  have agt: "(if is_object_allocated st Obj_agt then infra_disable_agt st else st) = release_if_allocated Obj_agt st" for st
    by (simp add: release_if_allocated_def infra_disable_agt_def)
  have stop: "main_thread_graceful_stop st = fold release_if_allocated
      [Obj_nw_db_manager, Obj_alvs_db_manager, Obj_agt, Obj_cp, Obj_dev, Obj_env] (st\<lparr>bs_lock_file := False, bs_cancel := True\<rparr>)"
    unfolding main_thread_graceful_stop_def agt unfolding Let_def by (simp only: fold_simps)
  show "(bs_existing (main_thread_graceful_stop st), bs_faults (main_thread_graceful_stop st)) =
     fold (drop_object (is_object_allocated st)) [Obj_nw_db_manager, Obj_alvs_db_manager, Obj_agt, Obj_cp, Obj_dev, Obj_env]
       (bs_existing st, bs_faults st)" "bs_lock_file (main_thread_graceful_stop st) = False"
    unfolding stop fold_release_objects by simp_all
qed

lemma stop_clean:
  assumes "objects st xs xs" "xs \<in> set stages"
  shows "bs_existing (main_thread_graceful_stop st) = [] \<and> bs_faults (main_thread_graceful_stop st) = 0 \<and>
    \<not> bs_lock_file (main_thread_graceful_stop st)"
proof -
  have "list_all (\<lambda>xs. fold (drop_object (\<lambda>obj. obj \<in> set xs)) [Obj_nw_db_manager, Obj_alvs_db_manager, Obj_agt, Obj_cp, Obj_dev, Obj_env]
      (xs, 0) = ([], 0)) stages" by code_simp
  then have "fold (drop_object (\<lambda>obj. obj \<in> set xs)) [Obj_nw_db_manager, Obj_alvs_db_manager, Obj_agt, Obj_cp, Obj_dev, Obj_env] (xs, 0) = ([], 0)"
    using assms(2) unfolding list_all_iff by blast
  then show ?thesis using assms(1) stop_objects [of st] by (simp add: objects_def)
qed

lemma stop_leaks_agt:
  assumes "objects st [Obj_agt, Obj_cp, Obj_dev, Obj_env] [Obj_cp, Obj_dev, Obj_env]"
  shows "bs_existing (main_thread_graceful_stop st) = [Obj_agt] \<and> \<not> bs_lock_file (main_thread_graceful_stop st)"
  using assms stop_objects [of st] by (simp add: objects_def drop_object_def)

subsection \<open>How far a start gets\<close>

text \<open>
  The debug server is created by the fifth call, and three more calls complete it.
\<close>

definition agt_half_made :: "bringup_env \<Rightarrow> nat \<Rightarrow> bool" where
  "agt_half_made e c \<longleftrightarrow> be_agt_enabled e \<and> list_all (\<lambda>i. be_ok e (c + i)) [0, 1, 2, 3, 4] \<and>
     \<not> list_all (\<lambda>i. be_ok e (c + i)) [5, 6, 7]"

lemma create_step:
  assumes "objects st xs ys" "create_object e obj st = (ok, st1)"
  shows "bs_clock st1 = Suc (bs_clock st)" "ok = be_ok e (bs_clock st)" "ok \<Longrightarrow> objects st1 (obj # xs) ys" "\<not> ok \<Longrightarrow> objects st1 xs ys"
  using assms by (auto simp: create_object_def ez_def objects_def Let_def split: if_splits)

lemma mark_step:
  assumes "objects st xs ys"
  shows "fst (mark_allocated obj st)" "objects (snd (mark_allocated obj st)) xs (obj # ys)" "bs_clock (snd (mark_allocated obj st)) = bs_clock st"
  using assms by (auto simp: mark_allocated_def objects_def fun_eq_iff)

text \<open>Creating an object and noting it, as one step.\<close>

definition add_object :: "bringup_env \<Rightarrow> cp_object \<Rightarrow> bringup_state \<Rightarrow> bool \<times> bringup_state" where
  "add_object e obj st = and_then (create_object e obj st) (mark_allocated obj)"

lemma add_step:
  assumes "objects st xs xs" "add_object e obj st = (ok, st1)"
  shows "bs_clock st1 = Suc (bs_clock st)" "ok = be_ok e (bs_clock st)" "objects st1 (if ok then obj # xs else xs) (if ok then obj # xs else xs)"
proof -
  obtain ok' st' where c: "create_object e obj st = (ok', st')" by fastforce
  note cs = create_step [OF assms(1) c]
  have "ok' \<Longrightarrow> objects (snd (mark_allocated obj st')) (obj # xs) (obj # xs)" using mark_step(2) [OF cs(3)] by blast
  then show "bs_clock st1 = Suc (bs_clock st)" "ok = be_ok e (bs_clock st)" "objects st1 (if ok then obj # xs else xs) (if ok then obj # xs else xs)"
    using assms(2) c cs(1,2,4) by (auto simp: add_object_def and_then_def mark_allocated_def split: if_splits)
qed

lemma and_then_assoc: "and_then (and_then r f) g = and_then r (\<lambda>st. and_then (f st) g)"
  by (simp add: and_then_def)

lemma ez_id: "ez e id st = (be_ok e (bs_clock st), st\<lparr>bs_clock := Suc (bs_clock st)\<rparr>)"
  by (simp add: ez_def Let_def)

lemma objects_clock [simp]: "objects (st\<lparr>bs_clock := n\<rparr>) xs ys = objects st xs ys"
  by (simp add: objects_def)

lemma enable_agt_step:
  assumes "objects st xs xs" "and_then (infra_enable_agt e st) (mark_allocated Obj_agt) = (ok, st1)" "c = bs_clock st"
  shows "ok = list_all (\<lambda>i. be_ok e (c + i)) [0, 1, 2, 3]"
    "objects st1 (if be_ok e c then Obj_agt # xs else xs) (if ok then Obj_agt # xs else xs)"
proof -
  obtain ok' st' where cr: "create_object e Obj_agt st = (ok', st')" by fastforce
  note cs = create_step [OF assms(1) cr]
  have "objects (st''\<lparr>bs_clock := n, is_object_allocated := (is_object_allocated st'')(Obj_agt := True)\<rparr>) (Obj_agt # xs) (Obj_agt # xs)"
    if "objects st'' (Obj_agt # xs) xs" for st'' n using that by (auto simp: objects_def fun_eq_iff)
  then show "ok = list_all (\<lambda>i. be_ok e (c + i)) [0, 1, 2, 3]"
    "objects st1 (if be_ok e c then Obj_agt # xs else xs) (if ok then Obj_agt # xs else xs)"
    using assms(2,3) cs cr
    by (auto simp: infra_enable_agt_def and_then_def ez_id mark_allocated_def numeral_2_eq_2 numeral_3_eq_3 split: if_splits)
qed

definition agt_list :: "bringup_env \<Rightarrow> cp_object list" where
  "agt_list e = (if be_agt_enabled e then [Obj_agt] else [])"

lemma init_objects:
  assumes "objects st [] []" "nps_init e st = (ok, st')" "c = bs_clock st"
  shows "if agt_half_made e c then \<not> ok \<and> objects st' [Obj_agt, Obj_cp, Obj_dev, Obj_env] [Obj_cp, Obj_dev, Obj_env]
    else \<exists>xs \<in> set stages. objects st' xs xs \<and> (ok \<longrightarrow> xs = agt_list e @ [Obj_cp, Obj_dev, Obj_env])"
proof -
  have init: "nps_init e st = and_then (add_object e Obj_env st) (\<lambda>st. and_then (add_object e Obj_dev st)
      (\<lambda>st. and_then (add_object e Obj_cp st) (\<lambda>st. and_then (ez e id st)
        (\<lambda>st. if be_agt_enabled e then and_then (infra_enable_agt e st) (mark_allocated Obj_agt) else (True, st)))))"
    by (simp add: nps_init_def add_object_def and_then_assoc)
  obtain ok1 st1 where a1: "add_object e Obj_env st = (ok1, st1)" by fastforce
  obtain ok2 st2 where a2: "add_object e Obj_dev st1 = (ok2, st2)" by fastforce
  obtain ok3 st3 where a3: "add_object e Obj_cp st2 = (ok3, st3)" by fastforce
  obtain ok4 st4 where a4: "ez e id st3 = (ok4, st4)" by fastforce
  obtain ok5 st5 where a5: "and_then (infra_enable_agt e st4) (mark_allocated Obj_agt) = (ok5, st5)" by fastforce
  note s1 = add_step [OF assms(1) a1]
  note s2 = add_step [OF s1(3) a2]
  note s3 = add_step [OF s2(3) a3]
  have s4: "bs_clock st4 = Suc (bs_clock st3)" "ok4 = be_ok e (bs_clock st3)" "\<And>xs. objects st3 xs xs \<Longrightarrow> objects st4 xs xs"
    using a4 by (auto simp: ez_id)
  note s5 = enable_agt_step [OF s4(3) [OF s3(3)] a5 refl]
  have "nps_init e st = (if \<not> ok1 then (False, st1) else if \<not> ok2 then (False, st2) else if \<not> ok3 then (False, st3)
      else if \<not> ok4 then (False, st4) else if be_agt_enabled e then (ok5, st5) else (True, st4))"
    unfolding init by (simp add: and_then_def a1 a2 a3 a4 a5 [unfolded and_then_def])
  with assms(2,3) show ?thesis
    using s1 s2 s3 s4 s5
    by (cases "be_agt_enabled e"; cases ok1; cases ok2; cases ok3; cases ok4)
      (auto simp: agt_half_made_def stages_def agt_list_def eval_nat_numeral split: if_splits)
qed

lemma rest_objects:
  assumes "objects st xs xs" "xs = agt_list e @ [Obj_cp, Obj_dev, Obj_env]"
    and "and_then (and_then (nps_bringup e t st) (add_object e Obj_nw_db_manager)) (add_object e Obj_alvs_db_manager) = (ok, st')"
  shows "\<exists>ys \<in> set stages. objects st' ys ys"
proof -
  obtain ok1 st1 where b1: "nps_bringup e t st = (ok1, st1)" by fastforce
  obtain ok2 st2 where b2: "add_object e Obj_nw_db_manager st1 = (ok2, st2)" by fastforce
  obtain ok3 st3 where b3: "add_object e Obj_alvs_db_manager st2 = (ok3, st3)" by fastforce
  have o1: "objects st1 xs xs" using objects_kept [OF keeps_bringup assms(1)] b1 by (metis snd_conv)
  note o2 = add_step(3) [OF o1 b2]
  note o3 = add_step(3) [OF o2 b3]
  have "st' = (if \<not> ok1 then st1 else if \<not> ok2 then st2 else st3)"
    using assms(3) b1 b2 b3 by (auto simp: and_then_def split: if_splits)
  with o1 o2 o3 assms(2) show ?thesis
    by (cases ok1; cases ok2; cases ok3; cases "be_agt_enabled e") (auto simp: stages_def agt_list_def)
qed

text \<open>
  C32. The end of the control plane.  However far the start gets before a call of the SDK fails, and also after a regular
  termination signal, the program ends with exit code 1, its lock file is removed, and every object that was created
  (environment, device, library, debug server, the two manager threads) has been released once, none before the
  objects that need it.  There are two exceptions: an invalid port type aborts the program with its lock file in place, which
  makes every later start fail, and a debug server whose registration fails is left behind.
\<close>

theorem control_plane_ends_clean:
  assumes "bs_existing st = []" "bs_faults st = 0" "\<not> bs_lock_file st"
  shows "\<exists>code st'. cp_main e st = (code, st') \<and>
    (if be_lock_free e \<and> be_port_type e = None then code = Aborted \<and> bs_lock_file st'
     else code = Exit_Code 1 \<and> \<not> bs_lock_file st' \<and>
       (if be_lock_free e \<and> agt_half_made e (bs_clock st) then bs_existing st' = [Obj_agt]
        else bs_existing st' = [] \<and> bs_faults st' = 0))"
proof (cases "be_lock_free e \<and> be_port_type e \<noteq> None")
  case True
  then obtain t where t: "be_port_type e = Some t" "be_lock_free e" by auto
  define st0 where "st0 = st\<lparr>bs_lock_file := True, is_object_allocated := (\<lambda>_. False)\<rparr>"
  obtain ok1 st1 where i: "nps_init e st0 = (ok1, st1)" by fastforce
  obtain ok2 st2 where r: "and_then (and_then (nps_bringup e t st1) (add_object e Obj_nw_db_manager)) (add_object e Obj_alvs_db_manager) = (ok2, st2)"
    by fastforce
  define last where "last = (if ok1 then st2 else st1)"
  have main: "cp_main e st = (Exit_Code 1, main_thread_graceful_stop last)"
    using t i r by (auto simp: cp_main_def Let_def st0_def [symmetric] wait_for_signal_def signal_terminate_handler_def last_def and_then_def
        add_object_def split: if_splits prod.splits)
  have "objects st0 [] []" "bs_clock st = bs_clock st0" using assms by (simp_all add: objects_def st0_def)
  note io = init_objects [OF this(1) i this(2)]
  show ?thesis
  proof (cases "agt_half_made e (bs_clock st)")
    case True
    with io have "objects last [Obj_agt, Obj_cp, Obj_dev, Obj_env] [Obj_cp, Obj_dev, Obj_env]" by (simp add: last_def)
    from stop_leaks_agt [OF this] main t True show ?thesis by simp
  next
    case False
    with io obtain xs where xs: "xs \<in> set stages" "objects st1 xs xs" "ok1 \<Longrightarrow> xs = agt_list e @ [Obj_cp, Obj_dev, Obj_env]" by auto
    have "\<exists>ys \<in> set stages. objects last ys ys"
      using xs rest_objects [OF xs(2) _ r] by (cases ok1) (auto simp: last_def)
    then obtain ys where "ys \<in> set stages" "objects last ys ys" by blast
    from stop_clean [OF this(2,1)] main t False show ?thesis by simp
  qed
next
  case False
  then show ?thesis using assms by (cases "be_lock_free e") (auto simp: cp_main_def Let_def)
qed

text \<open>A processor on which every call succeeds, a free lock file and a debug agent; nothing exists before the start.\<close>

definition good_env :: bringup_env where
  "good_env = \<lparr>be_ok = (\<lambda>_. True), be_malloc_ok = (\<lambda>_. True), be_my_mac = Some (replicate 6 2), be_lock_free = True,
     be_agt_enabled = True, be_port_type = Some EthIF_40GE\<rparr>"

definition blank :: bringup_state where
  "blank = \<lparr>bs_ifs = Map.empty, bs_imem = imem_spaces_params, bs_emem = emem_spaces_params, bs_next_imem = 0, bs_next_emem = 0,
     bs_int_spaces = Map.empty, bs_ext_spaces = Map.empty, bs_on_demand = None, bs_posted = None, bs_decoder_mac = None,
     bs_pools = Map.empty, bs_timer = None, bs_structs = Map.empty, bs_tcam = Map.empty, bs_loaded = False, bs_token_bucket = None, bs_counters_set = [],
     bs_running = False, is_object_allocated = (\<lambda>_. False), bs_existing = [], bs_faults = 0, bs_lock_file = False, bs_cancel = False,
     bs_clock = 0\<rparr>"

theorem control_plane_ends_clean_witness:
  "\<exists>st'. cp_main good_env blank = (Exit_Code 1, st') \<and> \<not> bs_lock_file st' \<and> bs_existing st' = [] \<and> bs_faults st' = 0"
  using control_plane_ends_clean [of blank good_env] by (simp add: blank_def good_env_def agt_half_made_def)

subsection \<open>What a successful start configures\<close>

text \<open>The effect of a function whose calls all succeed, up to the number of calls made.\<close>

definition unclocked :: "bringup_state \<Rightarrow> bringup_state" where
  "unclocked st = st\<lparr>bs_clock := 0\<rparr>"

definition achieves :: "(bringup_state \<Rightarrow> bool \<times> bringup_state) \<Rightarrow> (bringup_state \<Rightarrow> bringup_state) \<Rightarrow> bool" where
  "achieves f g \<longleftrightarrow> (\<forall>st. fst (f st) \<longrightarrow> unclocked (snd (f st)) = g (unclocked st))"

named_theorems achieving

lemma achieves_ez [achieving]:
  assumes "\<And>st. unclocked (f st) = f (unclocked st)"
  shows "achieves (ez e f) f"
proof -
  have "unclocked (f (st\<lparr>bs_clock := n\<rparr>)) = f (unclocked st)" for st n
    unfolding assms by (simp add: unclocked_def)
  then show ?thesis by (simp add: achieves_def ez_def Let_def)
qed

lemma achieves_and_then [achieving]:
  "achieves f f' \<Longrightarrow> achieves g g' \<Longrightarrow> achieves (\<lambda>st. and_then (f st) g) (\<lambda>st. g' (f' st))"
  by (auto simp: achieves_def and_then_def)

lemma achieves_each [achieving]:
  assumes "\<And>x. achieves (f x) (g x)"
  shows "achieves (each_ok f xs) (fold g xs)"
proof (induction xs)
  case (Cons x xs)
  from achieves_and_then [OF assms this] show ?case by (simp add: achieves_def comp_def)
qed (simp add: achieves_def)

lemma achieves_get_set [achieving]:
  assumes "\<And>st. unclocked (f st) = f (unclocked st)"
  shows "achieves (get_set e f) f"
  using achieves_and_then [OF achieves_ez [of id e] achieves_ez [of f e, OF assms]] by (simp add: get_set_def [abs_def])

lemma achieves_with_buffer [achieving]:
  assumes "\<And>st. unclocked (f st) = f (unclocked st)"
  shows "achieves (with_buffer e f) f"
  using achieves_ez [of f e, OF assms] by (auto simp: achieves_def with_buffer_def)

text \<open>A structure as the three or four steps of its creation leave it.\<close>

definition hash_cfg :: "infra_hash_params \<Rightarrow> bringup_state \<Rightarrow> struct_cfg" where
  "hash_cfg p st =
     \<lparr>sc_is_hash = True, sc_key_size = hp_key_size p, sc_result_size = hp_result_size p, sc_max_entries = hp_max_num_of_entries p,
      sc_external = is_external_search_memory_heap (hp_main_heap p), sc_single_cycle = True, sc_updated_from_dp = hp_updated_from_dp p,
      sc_pools = (if hp_updated_from_dp p then Some (hp_sig_pool_id p, hp_result_pool_id p) else None),
      sc_hash_size = (if 0 < hp_hash_size p then Some (hp_hash_size p) else None),
      sc_spaces = [index_of (hp_main_heap p) st, index_of (hp_sig_heap p) st, index_of (hp_res_heap p) st]\<rparr>"

definition table_cfg :: "infra_table_params \<Rightarrow> bringup_state \<Rightarrow> struct_cfg" where
  "table_cfg p st =
     \<lparr>sc_is_hash = False, sc_key_size = tp_key_size p, sc_result_size = tp_result_size p, sc_max_entries = tp_max_num_of_entries p,
      sc_external = is_external_search_memory_heap (tp_heap p), sc_single_cycle = False, sc_updated_from_dp = tp_updated_from_dp p,
      sc_pools = None, sc_hash_size = None, sc_spaces = [index_of (tp_heap p) st]\<rparr>"

definition add_struct :: "nps_struct_id \<Rightarrow> (bringup_state \<Rightarrow> struct_cfg) \<Rightarrow> bringup_state \<Rightarrow> bringup_state" where
  "add_struct sid c st = st\<lparr>bs_structs := (bs_structs st)(sid \<mapsto> c st)\<rparr>"

lemma index_of_update [simp]:
  "index_of h (st\<lparr>bs_clock := n\<rparr>) = index_of h st" "index_of h (bs_structs_update f st) = index_of h st"
  "index_of h (bs_tcam_update t st) = index_of h st"
  by (simp_all add: index_of_def split: option.split)

lemma achieves_eq: "achieves f g \<Longrightarrow> (\<And>st. g st = h st) \<Longrightarrow> achieves f h"
  by (simp add: achieves_def)

lemma achieves_hash [achieving]: "achieves (infra_create_hash e sid p) (add_struct sid (hash_cfg p))"
  unfolding infra_create_hash_def
  by (rule achieves_eq, rule achieves_and_then [OF achieves_and_then [OF achieves_get_set achieves_get_set] achieves_get_set]) (simp_all add: unclocked_def set_struct_def add_struct_def hash_cfg_def)

lemma achieves_table [achieving]: "achieves (infra_create_table e sid p) (add_struct sid (table_cfg p))"
  unfolding infra_create_table_def
  by (rule achieves_eq, rule achieves_and_then [OF achieves_and_then [OF achieves_get_set achieves_get_set] achieves_get_set]) (simp_all add: unclocked_def set_struct_def add_struct_def table_cfg_def)

definition add_tcam :: "infra_tcam_params \<Rightarrow> bringup_state \<Rightarrow> bringup_state" where
  "add_tcam p st = st\<lparr>bs_tcam := (bs_tcam st)((tc_side p, tc_table p) \<mapsto>
     \<lparr>tcc_key_size = tc_key_size p, tcc_result_size = tc_result_size p, tcc_lookup_tables = replicate (tc_lookup_table_count p) (tc_profile p)\<rparr>)\<rparr>"

lemma achieves_tcam [achieving]: "achieves (infra_create_tcam e p) (add_tcam p)"
  unfolding infra_create_tcam_def
  by (rule achieves_eq, rule achieves_and_then [OF achieves_get_set achieves_get_set]) (simp_all add: unclocked_def add_tcam_def)

lemma achieves_decode [achieving]: "achieves (infra_configure_protocol_decode e) (bs_decoder_mac_update (\<lambda>_. be_my_mac e))"
  by (cases "be_my_mac e") (auto simp: achieves_def infra_configure_protocol_decode_def and_then_def ez_def Let_def unclocked_def)

text \<open>The partition of the memories from the tables of the source.\<close>

definition partitioned :: "bringup_state \<Rightarrow> bringup_state" where
  "partitioned st = st\<lparr>
     bs_imem := map (\<lambda>i. (imem_spaces_params ! i)\<lparr>im_index := i\<rparr>) [0..<5],
     bs_emem := map (\<lambda>i. (emem_spaces_params ! i)\<lparr>em_index := i\<rparr>) [0..<4],
     bs_next_imem := 5, bs_next_emem := 4,
     bs_int_spaces := (\<lambda>i. if i < 5 then Some (im_type (imem_spaces_params ! i), im_size (imem_spaces_params ! i)) else bs_int_spaces st i),
     bs_ext_spaces := (\<lambda>i. if i < 4 then Some (em_type (emem_spaces_params ! i), em_size (emem_spaces_params ! i),
       em_msid (emem_spaces_params ! i), if em_type (emem_spaces_params ! i) = Space_SEARCH then 2 else 0) else bs_ext_spaces st i)\<rparr>"

definition int_space :: "nat \<Rightarrow> bringup_state \<Rightarrow> bringup_state" where
  "int_space i st = (let row = bs_imem st ! i; index = bs_next_imem st in
     if 0 < im_size row then st\<lparr>bs_next_imem := Suc index, bs_int_spaces := (bs_int_spaces st)(index \<mapsto> (im_type row, im_size row)),
       bs_imem := (bs_imem st)[i := row\<lparr>im_index := index\<rparr>]\<rparr> else st)"

definition ext_space :: "nat \<Rightarrow> bringup_state \<Rightarrow> bringup_state" where
  "ext_space i st = (let row = bs_emem st ! i; index = bs_next_emem st in
     if 0 < em_size row then st\<lparr>bs_next_emem := Suc index, bs_ext_spaces := (bs_ext_spaces st)(index \<mapsto>
         (em_type row, em_size row, em_msid row, if em_type row = Space_SEARCH then 2 else 0)),
       bs_emem := (bs_emem st)[i := row\<lparr>em_index := index\<rparr>]\<rparr> else st)"

lemma unclocked_spaces [simp]:
  "bs_imem (unclocked st) = bs_imem st" "bs_emem (unclocked st) = bs_emem st"
  "bs_next_imem (unclocked st) = bs_next_imem st" "bs_next_emem (unclocked st) = bs_next_emem st"
  by (simp_all add: unclocked_def)

lemma achieves_spaces: "achieves (create_int_space e i) (int_space i)" "achieves (create_ext_space e i) (ext_space i)"
proof -
  have g: "fst (get_set e f st) \<Longrightarrow> unclocked (snd (get_set e f st)) = f (unclocked st)"
    if "\<And>st. unclocked (f st) = f (unclocked st)" for f st
    using achieves_get_set [of f e, OF that] by (simp add: achieves_def)
  show "achieves (create_int_space e i) (int_space i)" "achieves (create_ext_space e i) (ext_space i)"
    by (auto simp: achieves_def create_int_space_def create_ext_space_def int_space_def ext_space_def Let_def; subst g; simp add: unclocked_def)+
qed

lemma memory_partitioned:
  assumes "fst (infra_create_mem_partition e st)" "bs_imem st = imem_spaces_params" "bs_emem st = emem_spaces_params"
    "bs_next_imem st = 0" "bs_next_emem st = 0"
  shows "unclocked (snd (infra_create_mem_partition e st)) = partitioned (unclocked st)"
proof -
  let ?st = "unclocked st"
  have keep: "bs_emem (fold int_space xs st) = bs_emem st" for xs st
    by (induction xs arbitrary: st) (auto simp: int_space_def Let_def)
  have u: "[0..<length imem_spaces_params] = [0, 1, 2, 3, 4]" "[0..<length emem_spaces_params] = [0, 1, 2, 3]"
    "[0..<5] = [0, 1, 2, 3, 4]" "[0..<4] = [0, 1, 2, 3 :: nat]"
    by code_simp+
  have "unclocked (snd (infra_create_mem_partition e st)) = fold ext_space [0, 1, 2, 3] (fold int_space [0, 1, 2, 3, 4] ?st)"
  proof -
    let ?r = "each_ok (create_int_space e) [0, 1, 2, 3, 4] st"
    have int: "fst ?r" using assms(1,2) u by (auto simp: infra_create_mem_partition_def and_then_def split: if_splits)
    have 1: "unclocked (snd ?r) = fold int_space [0, 1, 2, 3, 4] ?st"
      using achieves_each [of "create_int_space e" int_space, OF achieves_spaces(1)] int unfolding achieves_def by blast
    then have "bs_emem (unclocked (snd ?r)) = emem_spaces_params" using keep assms(3) by (simp only: keep) simp
    then have "bs_emem (snd ?r) = emem_spaces_params" by simp
    with assms(1,2) int u have 2: "infra_create_mem_partition e st = each_ok (create_ext_space e) [0, 1, 2, 3] (snd ?r)"
      by (simp add: infra_create_mem_partition_def and_then_def)
    with assms(1) have "unclocked (snd (infra_create_mem_partition e st)) = fold ext_space [0, 1, 2, 3] (unclocked (snd ?r))"
      using achieves_each [of "create_ext_space e" ext_space, OF achieves_spaces(2)] unfolding achieves_def by metis
    with 1 show ?thesis by simp
  qed
  also have "\<dots> = partitioned ?st"
  proof -
    have five: "i < 5 \<longleftrightarrow> i = 0 \<or> i = 1 \<or> i = 2 \<or> i = 3 \<or> i = 4" and four: "i < 4 \<longleftrightarrow> i = 0 \<or> i = 1 \<or> i = 2 \<or> i = 3" for i :: nat
      by arith+
    show ?thesis
      by (rule bringup_state.equality)
        (simp_all add: assms(2-) partitioned_def int_space_def ext_space_def imem_spaces_params_def emem_spaces_params_def u fun_eq_iff five four)
  qed
  finally show ?thesis .
qed

definition port_of :: "nat \<Rightarrow> nat \<Rightarrow> eth_if_type \<Rightarrow> eth_if" where
  "port_of side port_number type = \<lparr>ei_side = side, ei_engine = port_number div 12, ei_number = port_number mod 12, ei_type = type\<rparr>"

definition wired :: "eth_if_type \<Rightarrow> bringup_state \<Rightarrow> bringup_state" where
  "wired t = bs_ifs_update (\<lambda>m. m(0 \<mapsto> port_of 0 0 t, 1 \<mapsto> port_of 0 12 t, 2 \<mapsto> port_of 1 0 t, 3 \<mapsto> port_of 1 12 t,
     unat USER_HOST_LOGICAL_ID \<mapsto> port_of 1 24 EthIF_10GE))"

lemma achieves_if_mapping: "achieves (infra_create_if_mapping e t) (wired t)"
proof -
  have one: "achieves (infra_create_intetface e side port type lid) (bs_ifs_update (\<lambda>m. m(lid \<mapsto> port_of side port type)))" for side port type lid
    unfolding infra_create_intetface_def
    by (rule achieves_eq, rule achieves_and_then [OF achieves_get_set achieves_get_set]) (simp_all add: unclocked_def port_of_def)
  have "[0..<USER_NW_IF_NUM] = [0, 1, 2, 3]" by code_simp
  then show ?thesis
    unfolding infra_create_if_mapping_def
    by (intro achieves_eq [OF achieves_and_then [OF achieves_each [OF one] one]])
      (simp add: wired_def network_interface_params_def comp_def)
qed

text \<open>The groups of counters, the index pools and the timer.\<close>

definition provisioned :: "bringup_env \<Rightarrow> bringup_state \<Rightarrow> bringup_state" where
  "provisioned e st = st\<lparr>bs_on_demand := Some ON_DEMAND_COUNTERS, bs_posted := Some POSTED_COUNTERS, bs_decoder_mac := be_my_mac e,
     bs_pools := (bs_pools st)(0 \<mapsto> None, 1 \<mapsto> None, 2 \<mapsto> None, 3 \<mapsto> None, USER_POOL_ID \<mapsto> Some ALVS_CONN_MAX_ENTRIES),
     bs_timer := Some (USER_TIMER_LOGICAL_ID, ALVS_AGING_TIMER_EVENTS_PER_ITERATION * 60, 960)\<rparr>"

lemma achieves_provision:
  "achieves (\<lambda>st. and_then (and_then (and_then (infra_create_statistics e st) (infra_configure_protocol_decode e))
     (infra_create_index_pools e)) (infra_create_timers e)) (provisioned e)"
  unfolding infra_create_statistics_def infra_create_index_pools_def infra_create_timers_def
  by (rule achieves_eq, (rule achieving | (simp add: unclocked_def; fail))+)
    (rule bringup_state.equality; simp add: provisioned_def fun_upd_def comp_def)

lemma created_configures:
  assumes "fst (infra_created e t st)" "bs_imem st = imem_spaces_params" "bs_emem st = emem_spaces_params"
    "bs_next_imem st = 0" "bs_next_emem st = 0"
  shows "unclocked (snd (infra_created e t st)) = provisioned e (partitioned (wired t (unclocked st)))"
proof -
  let ?r1 = "infra_create_if_mapping e t st"
  let ?r2 = "infra_create_mem_partition e (snd ?r1)"
  let ?rest = "\<lambda>st. and_then (and_then (and_then (infra_create_statistics e st) (infra_configure_protocol_decode e))
     (infra_create_index_pools e)) (infra_create_timers e)"
  have r: "infra_created e t st = and_then (and_then ?r1 (infra_create_mem_partition e)) ?rest"
    by (simp add: infra_created_def and_then_assoc)
  with assms(1) have ok: "fst ?r1" "fst ?r2" "infra_created e t st = ?rest (snd ?r2)"
    by (auto simp: and_then_def split: if_splits)
  have 1: "unclocked (snd ?r1) = wired t (unclocked st)" using achieves_if_mapping ok(1) by (simp add: achieves_def)
  have "bs_imem (unclocked (snd ?r1)) = imem_spaces_params" "bs_emem (unclocked (snd ?r1)) = emem_spaces_params"
    "bs_next_imem (unclocked (snd ?r1)) = 0" "bs_next_emem (unclocked (snd ?r1)) = 0"
    unfolding 1 using assms(2-) by (simp_all add: wired_def)
  then have 2: "unclocked (snd ?r2) = partitioned (wired t (unclocked st))"
    unfolding unclocked_spaces unfolding 1 [symmetric] by (rule memory_partitioned [OF ok(2)])
  show ?thesis using achieves_provision [of e] assms(1) 2 unfolding ok(3) achieves_def by metis
qed

text \<open>The search structures, the load of the memories and the first values of the counters.\<close>

definition arp_params :: infra_hash_params where "arp_params = plain_hash 4 8 65536"
definition conn_class_params :: infra_hash_params where
  "conn_class_params = (plain_hash 14 8 ALVS_CONN_MAX_ENTRIES)
     \<lparr>hp_hash_size := 26, hp_updated_from_dp := True, hp_sig_pool_id := 0, hp_result_pool_id := 1\<rparr>"
definition conn_info_params :: infra_table_params where
  "conn_info_params = (plain_table 4 32 ALVS_CONN_MAX_ENTRIES INFRA_EMEM_SEARCH_1_TABLE_HEAP)\<lparr>tp_updated_from_dp := True\<rparr>"
definition server_class_params :: infra_hash_params where
  "server_class_params = (plain_hash 14 8 ALVS_SERVERS_MAX_ENTRIES)\<lparr>hp_sig_pool_id := 2, hp_result_pool_id := 3\<rparr>"

definition structured :: "bringup_state \<Rightarrow> bringup_state" where
  "structured st = st\<lparr>
     bs_structs := (bs_structs st)(
       SID_APPLICATION_INFO \<mapsto> table_cfg (plain_table 1 16 16 INFRA_X1_CLUSTER_SEARCH_HEAP) st,
       SID_NW_ARP \<mapsto> hash_cfg arp_params st,
       SID_NW_INTERFACES \<mapsto> table_cfg (plain_table 1 16 256 INFRA_X1_CLUSTER_SEARCH_HEAP) st,
       SID_ALVS_SERVICE_CLASSIFICATION \<mapsto> hash_cfg (plain_hash 8 4 ALVS_SERVICES_MAX_ENTRIES) st,
       SID_ALVS_SERVICE_INFO \<mapsto> table_cfg (plain_table 1 16 ALVS_SERVICES_MAX_ENTRIES INFRA_X4_CLUSTER_SEARCH_HEAP) st,
       SID_ALVS_SCHED_INFO \<mapsto> table_cfg (plain_table 2 16 (ALVS_SERVICES_MAX_ENTRIES * ALVS_SIZE_OF_SCHED_BUCKET) INFRA_EMEM_SEARCH_2_TABLE_HEAP) st,
       SID_ALVS_SERVER_INFO \<mapsto> table_cfg (plain_table 4 32 ALVS_SERVERS_MAX_ENTRIES INFRA_EMEM_SEARCH_2_TABLE_HEAP) st,
       SID_ALVS_CONN_CLASSIFICATION \<mapsto> hash_cfg conn_class_params st,
       SID_ALVS_CONN_INFO \<mapsto> table_cfg conn_info_params st,
       SID_ALVS_SERVER_CLASSIFICATION \<mapsto> hash_cfg server_class_params st),
     bs_tcam := (bs_tcam st)((0, 0) \<mapsto> \<lparr>tcc_key_size = 10, tcc_result_size = 8, tcc_lookup_tables = [0]\<rparr>),
     bs_loaded := True, bs_token_bucket := Some EMEM_STATS_ON_DEMAND_TB_OFFSET,
     bs_counters_set := POSTED_COUNTERS # (ALVS_SERVERS_MAX_ENTRIES * ALVS_NUM_OF_SERVERS_ON_DEMAND_STATS
       + EMEM_STATS_ON_DEMAND_COLOR_FLAG_NUM) # bs_counters_set st\<rparr>"

lemma cfg_update [simp]:
  "hash_cfg p (bs_structs_update f st) = hash_cfg p st" "table_cfg q (bs_structs_update f st) = table_cfg q st"
  "hash_cfg p (bs_tcam_update g st) = hash_cfg p st" "table_cfg q (bs_tcam_update g st) = table_cfg q st"
  by (simp_all add: hash_cfg_def table_cfg_def)

lemma achieves_initialized [achieving]: "achieves (infra_initialized e) structured"
  unfolding infra_initialized_def application_info_db_constructor_def nw_db_constructor_def alvs_db_constructor_def
    infra_initialize_statistics_def arp_params_def [symmetric] conn_class_params_def [symmetric] conn_info_params_def [symmetric]
    server_class_params_def [symmetric]
  by (rule achieves_eq, (rule achieving | (simp add: unclocked_def; fail))+)
    (rule bringup_state.equality; simp add: structured_def add_struct_def add_tcam_def)

lemma bringup_configures:
  assumes "fst (nps_bringup e t st)" "bs_imem st = imem_spaces_params" "bs_emem st = emem_spaces_params"
    "bs_next_imem st = 0" "bs_next_emem st = 0"
  shows "unclocked (snd (nps_bringup e t st)) =
    (structured (provisioned e (partitioned (wired t (unclocked st)))))\<lparr>bs_running := True\<rparr>"
proof -
  let ?st0 = "st\<lparr>bs_clock := Suc (bs_clock st)\<rparr>"
  let ?r = "infra_created e t ?st0"
  let ?rest = "\<lambda>st. and_then (and_then (and_then (and_then (each_ok (\<lambda>pup_phase. ez e id) [1, 2, 3, 4 :: nat] st)
    (ez e id)) (infra_initialized e)) (ez e id)) (ez e (\<lambda>st. st\<lparr>bs_running := True\<rparr>))"
  have "nps_bringup e t st = and_then (and_then (ez e id st) (infra_created e t)) ?rest"
    by (simp add: nps_bringup_def and_then_assoc)
  with assms(1) have ok: "fst ?r" "nps_bringup e t st = ?rest (snd ?r)" by (auto simp: and_then_def ez_id split: if_splits)
  have 1: "unclocked (snd ?r) = provisioned e (partitioned (wired t (unclocked st)))"
    using created_configures [OF ok(1)] assms(2-) by (simp add: unclocked_def)
  have "achieves ?rest (\<lambda>st. (structured st)\<lparr>bs_running := True\<rparr>)"
    by (rule achieves_eq, (rule achieving | (simp add: unclocked_def; fail))+)
  with assms(1) 1 show ?thesis unfolding ok(2) achieves_def by metis
qed

text \<open>The memory space with an index exists and is one for searches.\<close>

definition search_space :: "bringup_state \<Rightarrow> bool \<Rightarrow> nat \<Rightarrow> bool" where
  "search_space st external i \<longleftrightarrow>
     (if external then (case bs_ext_spaces st i of Some (t, _) \<Rightarrow> t = Space_SEARCH | None \<Rightarrow> False)
      else (case bs_int_spaces st i of Some (t, _) \<Rightarrow> t \<in> {Space_1_CLUSTER_SEARCH, Space_4_CLUSTER_SEARCH} | None \<Rightarrow> False))"

definition struct_placed :: "bringup_state \<Rightarrow> struct_cfg \<Rightarrow> bool" where
  "struct_placed st c \<longleftrightarrow> list_all (search_space st (sc_external c)) (sc_spaces c) \<and>
     (case sc_pools c of None \<Rightarrow> True | Some (sig, res) \<Rightarrow> bs_pools st sig = Some None \<and> bs_pools st res = Some None)"

lemma heaps_placed:
  assumes "bs_imem st = bs_imem (partitioned st0)" "bs_emem st = bs_emem (partitioned st0)"
    "bs_int_spaces st = bs_int_spaces (partitioned st0)" "bs_ext_spaces st = bs_ext_spaces (partitioned st0)"
    "h \<noteq> INFRA_NOT_VALID_HEAP"
  shows "search_space st (is_external_search_memory_heap h) (index_of h st)"
proof -
  have u: "[0..<5] = [0, 1, 2, 3, 4]" "[0..<4] = [0, 1, 2, 3 :: nat]" by code_simp+
  show ?thesis using assms
    by (cases h) (simp_all add: search_space_def index_of_def partitioned_def u imem_spaces_params_def emem_spaces_params_def
        is_external_search_memory_heap_def nth_Cons')
qed

lemma unclocked_views [simp]:
  "bs_structs (unclocked st) = bs_structs st" "bs_pools (unclocked st) = bs_pools st" "bs_timer (unclocked st) = bs_timer st"
  "bs_posted (unclocked st) = bs_posted st" "bs_on_demand (unclocked st) = bs_on_demand st"
  "bs_int_spaces (unclocked st) = bs_int_spaces st" "bs_ext_spaces (unclocked st) = bs_ext_spaces st"
  "bs_ifs (unclocked st) = bs_ifs st" "bs_token_bucket (unclocked st) = bs_token_bucket st"
  by (simp_all add: unclocked_def)

text \<open>
  C31. The control plane configures what the data plane was compiled for.  When the start succeeds, every check of the
  data plane's initialisation passes (kind, key and result size of each search structure); every structure lies in
  memory spaces that exist and are meant for searches, and a hash that the data plane updates has its two pools;
  there is one index of the connection pool per entry of the two connection structures; the jobs of the timer cover each of
  these entries once in each of the sixty iterations of the aging; and the two groups of counters are large enough for the layout the two
  planes share: the posted counters up to those of the host interface, the counters on demand with the servers' statistics, the colour flag
  and the token bucket of the log behind one another, where the token bucket is set up at the counter the layout gives it.
\<close>

theorem bringup_fits_data_plane:
  assumes "fst (nps_bringup e t st)" "bs_imem st = imem_spaces_params" "bs_emem st = emem_spaces_params"
    "bs_next_imem st = 0" "bs_next_emem st = 0" "bs_structs st = Map.empty"
  defines "st' \<equiv> snd (nps_bringup e t st)"
  shows "(\<forall>space. init_memory (\<lambda>_. True) st' space) \<and>
    (\<forall>sid. case bs_structs st' sid of Some c \<Rightarrow> struct_placed st' c | None \<Rightarrow> sid \<in> {SID_NW_LAG, SID_NW_FIB}) \<and>
    (\<exists>n jobs. bs_pools st' USER_POOL_ID = Some (Some n) \<and>
       map_option sc_max_entries (bs_structs st' SID_ALVS_CONN_INFO) = Some n \<and>
       map_option sc_max_entries (bs_structs st' SID_ALVS_CONN_CLASSIFICATION) = Some n \<and>
       bs_timer st' = Some (USER_TIMER_LOGICAL_ID, jobs, 960) \<and> jobs * ALVS_AGING_TIMER_SCAN_ENTRIES_PER_JOB = 60 * n) \<and>
    (\<exists>n. bs_posted st' = Some n \<and> EMEM_HOST_IF_STATS_POSTED_OFFSET + NW_NUM_OF_IF_STATS \<le> n) \<and>
    (\<exists>n. bs_on_demand st' = Some n \<and>
       EMEM_SERVER_STATS_ON_DEMAND_OFFSET + ALVS_SERVERS_MAX_ENTRIES * ALVS_NUM_OF_SERVERS_ON_DEMAND_STATS \<le> EMEM_STATS_ON_DEMAND_COLOR_FLAG_OFFSET \<and>
       EMEM_STATS_ON_DEMAND_COLOR_FLAG_OFFSET + EMEM_STATS_ON_DEMAND_COLOR_FLAG_NUM \<le> EMEM_STATS_ON_DEMAND_TB_OFFSET \<and>
       EMEM_STATS_ON_DEMAND_TB_OFFSET + EMEM_STATS_ON_DEMAND_TB_STATS_NUM \<le> n) \<and>
    bs_token_bucket st' = Some EMEM_STATS_ON_DEMAND_TB_OFFSET"
proof -
  let ?st = "provisioned e (partitioned (wired t (unclocked st)))"
  have eq: "unclocked st' = (structured ?st)\<lparr>bs_running := True\<rparr>"
    unfolding st'_def using assms(1-5) by (rule bringup_configures)
  have structs: "bs_structs st' = bs_structs (structured ?st)" and pools: "bs_pools st' = bs_pools ?st" and
    rest: "bs_timer st' = bs_timer ?st" "bs_posted st' = bs_posted ?st" "bs_on_demand st' = bs_on_demand ?st"
    "bs_token_bucket st' = Some EMEM_STATS_ON_DEMAND_TB_OFFSET"
    using arg_cong [OF eq, of bs_structs] arg_cong [OF eq, of bs_pools] arg_cong [OF eq, of bs_timer] arg_cong [OF eq, of bs_posted]
      arg_cong [OF eq, of bs_on_demand] arg_cong [OF eq, of bs_token_bucket] by (simp_all add: structured_def)
  have empty: "bs_structs ?st = Map.empty" using assms(6) by (simp add: provisioned_def partitioned_def wired_def)
  have placed: "search_space st' (is_external_search_memory_heap h) (index_of h ?st)" if "h \<noteq> INFRA_NOT_VALID_HEAP" for h
  proof -
    have "bs_int_spaces st' = bs_int_spaces ?st" "bs_ext_spaces st' = bs_ext_spaces ?st"
      using arg_cong [OF eq, of bs_int_spaces] arg_cong [OF eq, of bs_ext_spaces] by (simp_all add: structured_def)
    moreover have "search_space ?st (is_external_search_memory_heap h) (index_of h ?st)"
      by (rule heaps_placed [of _ "wired t (unclocked st)", OF _ _ _ _ that]) (simp_all add: provisioned_def)
    ultimately show ?thesis by (simp add: search_space_def)
  qed
  have "init_memory (\<lambda>_. True) st' space" for space
    by (cases space) (simp_all add: init_nw_shared_cmem_def init_alvs_shared_cmem_def validate_hash_def validate_table_def structs structured_def
      hash_cfg_def table_cfg_def plain_hash_def plain_table_def arp_params_def conn_class_params_def conn_info_params_def server_class_params_def)
  moreover have "case bs_structs st' sid of Some c \<Rightarrow> struct_placed st' c | None \<Rightarrow> sid \<in> {SID_NW_LAG, SID_NW_FIB}" for sid
  proof -
    have heaps: "search_space st' False (index_of INFRA_X1_CLUSTER_SEARCH_HEAP ?st)" "search_space st' False (index_of INFRA_X4_CLUSTER_SEARCH_HEAP ?st)"
      "search_space st' True (index_of INFRA_EMEM_SEARCH_HASH_HEAP ?st)" "search_space st' True (index_of INFRA_EMEM_SEARCH_1_TABLE_HEAP ?st)"
      "search_space st' True (index_of INFRA_EMEM_SEARCH_2_TABLE_HEAP ?st)"
      using placed [of INFRA_X1_CLUSTER_SEARCH_HEAP] placed [of INFRA_X4_CLUSTER_SEARCH_HEAP] placed [of INFRA_EMEM_SEARCH_HASH_HEAP]
        placed [of INFRA_EMEM_SEARCH_1_TABLE_HEAP] placed [of INFRA_EMEM_SEARCH_2_TABLE_HEAP]
      by (simp_all add: is_external_search_memory_heap_def)
    have "bs_pools st' 0 = Some None" "bs_pools st' (Suc 0) = Some None" by (simp_all add: pools provisioned_def USER_POOL_ID_def)
    then show ?thesis
      by (cases sid) (simp_all add: structs structured_def empty struct_placed_def hash_cfg_def table_cfg_def plain_hash_def plain_table_def
        arp_params_def conn_class_params_def conn_info_params_def server_class_params_def heaps is_external_search_memory_heap_def)
  qed
  ultimately show ?thesis
    by (simp add: rest pools structs structured_def provisioned_def hash_cfg_def table_cfg_def conn_class_params_def conn_info_params_def
      plain_hash_def plain_table_def ALVS_AGING_TIMER_EVENTS_PER_ITERATION_def ALVS_AGING_TIMER_SCAN_ENTRIES_PER_JOB_def POSTED_COUNTERS_def
      ON_DEMAND_COUNTERS_def alvs_layout_defs)
qed

text \<open>When every call succeeds, so does the start.\<close>

definition succeeds :: "(bringup_state \<Rightarrow> bool \<times> bringup_state) \<Rightarrow> bool" where
  "succeeds f \<longleftrightarrow> (\<forall>st. fst (f st))"

lemma succeeds_calls:
  "succeeds (ez good_env f)" "succeeds (get_set good_env f)" "succeeds (with_buffer good_env f)"
  "succeeds (create_int_space good_env i)" "succeeds (create_ext_space good_env i)" "succeeds (infra_configure_protocol_decode good_env)"
  by (simp_all add: succeeds_def ez_def get_set_def and_then_def with_buffer_def good_env_def Let_def create_int_space_def create_ext_space_def
    infra_configure_protocol_decode_def)

lemma succeeds_and_then: "succeeds f \<Longrightarrow> succeeds g \<Longrightarrow> succeeds (\<lambda>st. and_then (f st) g)"
  by (simp add: succeeds_def and_then_def)

lemma succeeds_each: "(\<And>x. succeeds (f x)) \<Longrightarrow> succeeds (each_ok f xs)"
  by (induction xs) (simp_all add: succeeds_def and_then_def)

lemma good_bringup: "fst (nps_bringup good_env t st)"
proof -
  have m: "succeeds (infra_create_mem_partition good_env)"
    using succeeds_each [of "create_int_space good_env"] succeeds_each [of "create_ext_space good_env"] succeeds_calls
    by (auto simp: succeeds_def infra_create_mem_partition_def and_then_def)
  have "succeeds (nps_bringup good_env t)"
    unfolding nps_bringup_def infra_created_def infra_create_if_mapping_def infra_create_intetface_def infra_create_statistics_def
      infra_create_index_pools_def infra_create_timers_def infra_initialized_def application_info_db_constructor_def nw_db_constructor_def
      alvs_db_constructor_def infra_create_hash_def infra_create_table_def infra_create_tcam_def infra_initialize_statistics_def
    by (intro succeeds_and_then succeeds_each succeeds_calls m)
  then show ?thesis by (simp add: succeeds_def)
qed

theorem bringup_fits_data_plane_witness:
  "init_memory (\<lambda>_. True) (snd (nps_bringup good_env EthIF_40GE blank)) EZDP_SHARED_CMEM_DATA"
proof -
  have "bs_imem blank = imem_spaces_params" "bs_emem blank = emem_spaces_params" "bs_next_imem blank = 0" "bs_next_emem blank = 0"
    "bs_structs blank = Map.empty" by (simp_all add: blank_def)
  from bringup_fits_data_plane [OF good_bringup this] show ?thesis by blast
qed

end
