(* ===== verification/Alvs_Session.thy ===== *)
theory Alvs_Session
  imports Alvs_Prelude
begin

text \<open>
  The resources of the thread of the database manager (\<^verbatim>\<open>src/cp/alvs_db_manager.c\<close>): the netlink sockets and
  messages, the raw socket on which it listens, the lists it reads from the kernel, and what \<open>alvs_db_init\<close> and \<open>alvs_db_destroy\<close> of
  \<^verbatim>\<open>src/cp/alvs_db.c\<close> allocate and release.  The same functions with their effect on the databases are in
  \<open>Alvs_Manager\<close> and \<open>Alvs_DB_Admin\<close>; here a call into the database or a library is its outcome, which the
  environment \<open>ok\<close> gives by the number of the call.

  \<open>ns_statements\<close> counts the prepared statements that nobody will finalise: \<open>sqlite3_close\<close> refuses to close a database that has one
  (\<open>SQLITE_BUSY\<close>), and its result is not looked at.  \<open>ns_aging_leaves\<close> says that the aging thread ends inside its loop over the rows of
  its statement.

  A release of what is not held, the second release of an array and the joining of a thread that was never created are
  counted as faults.
\<close>

subsection \<open>Resources\<close>

datatype nl_resource = Msg | Msg_Data | Nl_Socket | Connection | List_Block | Poll_Buffer

datatype pool_array = Server_Indexes | Server_Flags | Service_Indexes | Service_Flags

datatype pool_ptr = Null_Ptr | Allocated | Dangling

record nl_session =
  ns_live :: "nl_resource \<Rightarrow> nat"
  ns_pool :: "pool_array \<Rightarrow> pool_ptr"
  ns_raw_sock :: int
  ns_raw_open :: bool
  ns_registered :: bool
  ns_db_open :: bool
  ns_aging_thread :: bool
  ns_aging_started :: bool
  ns_aging_leaves :: bool
  ns_statements :: nat
  ns_cancel :: bool
  ns_sigterm :: bool
  ns_faults :: nat
  ns_clock :: nat

text \<open>How a function ends: it returns a value, or the thread has ended in \<open>alvs_db_manager_exit_with_error\<close>.\<close>

datatype 'a session_run = Returns 'a nl_session | Thread_Ended nl_session

fun session_then :: "'a session_run \<Rightarrow> ('a \<Rightarrow> nl_session \<Rightarrow> 'b session_run) \<Rightarrow> 'b session_run" where
  "session_then (Returns x st) f = f x st"
| "session_then (Thread_Ended st) f = Thread_Ended st"

definition lib_call :: "(nat \<Rightarrow> bool) \<Rightarrow> nl_session \<Rightarrow> bool \<times> nl_session" where
  "lib_call ok st = (ok (ns_clock st), st\<lparr>ns_clock := Suc (ns_clock st)\<rparr>)"

definition session_fault :: "nl_session \<Rightarrow> nl_session" where
  "session_fault st = st\<lparr>ns_faults := Suc (ns_faults st)\<rparr>"

definition acquire :: "nl_resource \<Rightarrow> nl_session \<Rightarrow> nl_session" where
  "acquire r st = st\<lparr>ns_live := (ns_live st)(r := Suc (ns_live st r))\<rparr>"

definition release :: "nl_resource \<Rightarrow> nl_session \<Rightarrow> nl_session" where
  "release r st = (if ns_live st r = 0 then session_fault st else st\<lparr>ns_live := (ns_live st)(r := ns_live st r - 1)\<rparr>)"

definition free_array :: "pool_array \<Rightarrow> nl_session \<Rightarrow> nl_session" where
  "free_array a st = (case ns_pool st a of
     Null_Ptr \<Rightarrow> st | Allocated \<Rightarrow> st\<lparr>ns_pool := (ns_pool st)(a := Dangling)\<rparr> | Dangling \<Rightarrow> session_fault st)"

subsection \<open>The database\<close>

definition pool_arrays :: "bool \<Rightarrow> pool_array \<times> pool_array" where
  "pool_arrays server = (if server then (Server_Indexes, Server_Flags) else (Service_Indexes, Service_Flags))"

definition index_pool_init_mem :: "(nat \<Rightarrow> bool) \<Rightarrow> bool \<Rightarrow> nl_session \<Rightarrow> bool \<times> nl_session" where
  "index_pool_init_mem ok server st =
     (let (indexes, flags) = pool_arrays server; (got, st) = lib_call ok st in
      if \<not> got then (False, st\<lparr>ns_pool := (ns_pool st)(indexes := Null_Ptr)\<rparr>)
      else
        let st = st\<lparr>ns_pool := (ns_pool st)(indexes := Allocated)\<rparr>; (got, st) = lib_call ok st in
        if \<not> got then (False, free_array indexes (st\<lparr>ns_pool := (ns_pool st)(flags := Null_Ptr)\<rparr>))
        else (True, st\<lparr>ns_pool := (ns_pool st)(flags := Allocated)\<rparr>))"

definition index_pool_destroy_mem :: "bool \<Rightarrow> nl_session \<Rightarrow> nl_session" where
  "index_pool_destroy_mem server st = (let (indexes, flags) = pool_arrays server in free_array flags (free_array indexes st))"

fun run_statements :: "(nat \<Rightarrow> bool) \<Rightarrow> nat \<Rightarrow> nl_session \<Rightarrow> bool \<times> nl_session" where
  "run_statements ok 0 st = (True, st)"
| "run_statements ok (Suc n) st = (let (done, st) = lib_call ok st in if done then run_statements ok n st else (False, st))"

text \<open>
  The result says whether it is \<open>ALVS_DB_OK\<close>.  A handle exists after \<open>sqlite3_open\<close> also when it fails.  The last outcome is the one of
  the aging thread that is created: whether it will end with its statement finalised, which it does unless
  \<open>server_db_exit_with_error\<close> ends it inside the loop over the rows.
\<close>

definition alvs_db_init_mem :: "(nat \<Rightarrow> bool) \<Rightarrow> nl_session \<Rightarrow> bool \<times> nl_session" where
  "alvs_db_init_mem ok st =
     (let (done, st) = index_pool_init_mem ok True st in
      if \<not> done then (False, st)
      else
        let (done, st) = index_pool_init_mem ok False st in
        if \<not> done then (False, index_pool_destroy_mem True st)
        else
          let (done, st) = run_statements ok 4 (st\<lparr>ns_db_open := True\<rparr>) in
          if \<not> done then (False, index_pool_destroy_mem False (index_pool_destroy_mem True st))
          else
            let (done, st) = lib_call ok st in
            if \<not> done then (False, st)
            else
              let (clean, st) = lib_call ok st
              in (True, st\<lparr>ns_aging_thread := True, ns_aging_started := True, ns_aging_leaves := \<not> clean\<rparr>))"

definition alvs_db_destroy_mem :: "nl_session \<Rightarrow> nl_session" where
  "alvs_db_destroy_mem st =
     (let st = (if ns_aging_thread st
                then st\<lparr>ns_aging_thread := False, ns_statements := ns_statements st + (if ns_aging_leaves st then 1 else 0)\<rparr>
                else session_fault st);
          st = (if ns_statements st = 0 then st\<lparr>ns_db_open := False\<rparr> else st)
      in index_pool_destroy_mem True (index_pool_destroy_mem False st))"

subsection \<open>The end of the thread\<close>

definition alvs_db_manager_delete :: "nl_session \<Rightarrow> nl_session" where
  "alvs_db_manager_delete st =
     (let st = st\<lparr>ns_registered := False\<rparr>;
          st = (if ns_raw_sock st \<noteq> 0 then st\<lparr>ns_raw_open := False\<rparr> else st)
      in alvs_db_destroy_mem st)"

definition exit_with_error :: "nl_session \<Rightarrow> 'a session_run" where
  "exit_with_error st = Thread_Ended ((alvs_db_manager_delete (st\<lparr>ns_cancel := True\<rparr>))\<lparr>ns_sigterm := True\<rparr>)"

fun calls_or_exit :: "(nat \<Rightarrow> bool) \<Rightarrow> nat \<Rightarrow> nl_session \<Rightarrow> unit session_run" where
  "calls_or_exit ok 0 st = Returns () st"
| "calls_or_exit ok (Suc n) st =
     (let (done, st) = lib_call ok st in if done then calls_or_exit ok n st else exit_with_error st)"

subsection \<open>Netlink messages\<close>

text \<open>\<open>nlmsg_free\<close> of the null pointer does nothing; a message is a header and its data.\<close>

definition nlmsg_free :: "bool \<Rightarrow> nl_session \<Rightarrow> nl_session" where
  "nlmsg_free has_msg st = (if has_msg then release Msg (release Msg_Data st) else st)"

definition close_session :: "bool \<Rightarrow> nl_session \<Rightarrow> nl_session" where
  "close_session has_msg st = release Nl_Socket (release Connection (nlmsg_free has_msg st))"

definition alvs_nl_send_message :: "(nat \<Rightarrow> bool) \<Rightarrow> bool \<Rightarrow> nl_session \<Rightarrow> bool session_run" where
  "alvs_nl_send_message ok has_msg st =
     (let (done, st) = lib_call ok st in
      if \<not> done then exit_with_error (nlmsg_free has_msg st)
      else
        let st = acquire Nl_Socket st; (done, st) = lib_call ok st in
        if \<not> done then exit_with_error (release Nl_Socket (nlmsg_free has_msg st))
        else
          let st = acquire Connection st; (done, st) = lib_call ok st in
          if \<not> done then exit_with_error (close_session has_msg st)
          else if \<not> has_msg then Returns True (close_session False st)
          else
            let (done, st) = run_statements ok 3 st in
            Returns done (close_session True st))"

text \<open>
  The opening of the raw socket is followed by eight calls that set it up, each of which may end the thread.  \<open>fd\<close> is the
  descriptor the operating system gives it.
\<close>

definition alvs_nl_init :: "(nat \<Rightarrow> bool) \<Rightarrow> nat \<Rightarrow> nl_session \<Rightarrow> unit session_run" where
  "alvs_nl_init ok fd st =
     (let (done, st) = lib_call ok st in
      if \<not> done then exit_with_error st
      else session_then (alvs_nl_send_message ok False (st\<lparr>ns_registered := True\<rparr>)) (\<lambda>_ st.
        let (done, st) = lib_call ok st in
        if \<not> done then exit_with_error (st\<lparr>ns_raw_sock := -1\<rparr>)
        else calls_or_exit ok 8 (st\<lparr>ns_raw_sock := int fd, ns_raw_open := True\<rparr>)))"

definition alvs_nl_message :: "(nat \<Rightarrow> bool) \<Rightarrow> nl_session \<Rightarrow> bool \<times> nl_session" where
  "alvs_nl_message ok st =
     (let (done, st) = lib_call ok st in if done then (True, acquire Msg (acquire Msg_Data st)) else (False, st))"

subsection \<open>Reading the kernel's configuration\<close>

text \<open>
  The lists of the daemons and of the services: memory, message, sending.  The result says whether a list was returned,
  which the caller has to free.
\<close>

definition alvs_get_list :: "(nat \<Rightarrow> bool) \<Rightarrow> nl_session \<Rightarrow> bool session_run" where
  "alvs_get_list ok st =
     (let (done, st) = lib_call ok st in
      if \<not> done then Returns False st
      else
        let (done, st) = alvs_nl_message ok (acquire List_Block st) in
        if \<not> done then Returns False (release List_Block st)
        else session_then (alvs_nl_send_message ok True st) (\<lambda>sent st.
          if sent then Returns True st else Returns False (release List_Block st)))"

text \<open>
  The list of the servers of a service.  A failed \<open>realloc\<close> leaves the first block allocated, and \<open>d\<close> is
  overwritten.
\<close>

definition alvs_get_dests :: "(nat \<Rightarrow> bool) \<Rightarrow> nat \<Rightarrow> bool \<Rightarrow> nl_session \<Rightarrow> bool session_run" where
  "alvs_get_dests ok num_dests fwmark st =
     (let (done, st) = lib_call ok st in
      if \<not> done then Returns False st
      else
        let st = acquire List_Block st;
            (done, st) = (if num_dests = 0 then lib_call ok st else (True, st)) in
        if \<not> done then Returns False st
        else
          let (done, st) = alvs_nl_message ok st in
          if \<not> done then Returns False (release List_Block st)
          else
            let (done, st) = lib_call ok st in
            if \<not> done then Returns False (release List_Block (nlmsg_free True st))
            else
              let (done, st) = run_statements ok (if fwmark then 2 else 4) st in
              if \<not> done then Returns False (release List_Block (nlmsg_free True st))
              else session_then (alvs_nl_send_message ok True st) (\<lambda>sent st.
                if sent then Returns True st else Returns False (release List_Block st)))"

text \<open>The services, each with its kind (firewall mark or not) and the number of its servers in the kernel's answer.\<close>

fun init_server_list :: "(nat \<Rightarrow> bool) \<Rightarrow> nat \<Rightarrow> nl_session \<Rightarrow> unit session_run" where
  "init_server_list ok 0 st = Returns () st"
| "init_server_list ok (Suc n) st =
     (let (done, st) = lib_call ok st in
      if \<not> done then exit_with_error (release List_Block (release List_Block st)) else init_server_list ok n st)"

fun init_service_list :: "(nat \<Rightarrow> bool) \<Rightarrow> (bool \<times> nat) list \<Rightarrow> nl_session \<Rightarrow> unit session_run" where
  "init_service_list ok [] st = Returns () st"
| "init_service_list ok ((fwmark, dests) # svcs) st =
     (let (done, st) = lib_call ok st in
      if \<not> done then exit_with_error (release List_Block st)
      else session_then (alvs_get_dests ok 0 fwmark st) (\<lambda>got st.
        if \<not> got then exit_with_error (release List_Block st)
        else session_then (init_server_list ok dests st) (\<lambda>_ st. init_service_list ok svcs (release List_Block st))))"

definition table_init_session :: "(nat \<Rightarrow> bool) \<Rightarrow> (bool \<times> nat) list \<Rightarrow> nl_session \<Rightarrow> unit session_run" where
  "table_init_session ok svcs st =
     session_then (alvs_get_list ok st) (\<lambda>got st.
       if \<not> got then exit_with_error st
       else
         let (done, st) = lib_call ok st; st = release List_Block st in
         if \<not> done then exit_with_error st
         else session_then (alvs_get_list ok st) (\<lambda>got st.
           if \<not> got then exit_with_error st
           else session_then (init_service_list ok svcs st) (\<lambda>_ st. Returns () (release List_Block st))))"

subsection \<open>The thread\<close>

definition alvs_db_manager_init :: "(nat \<Rightarrow> bool) \<Rightarrow> nat \<Rightarrow> nl_session \<Rightarrow> unit session_run" where
  "alvs_db_manager_init ok fd st =
     session_then (alvs_nl_init ok fd (st\<lparr>ns_raw_sock := 0\<rparr>)) (\<lambda>_ st.
       let (done, st) = alvs_db_init_mem ok st in if \<not> done then exit_with_error st else Returns () st)"

text \<open>
  What the handling of a request does with prepared statements.  \<open>alvs_db_clear_stats\<close> and \<open>alvs_db_print_services_stats\<close> prepare one
  and finalise it on no path; when it cannot be prepared they fail, which ends the thread.  \<open>alvs_db_clear\<close> leaves one behind, and fails,
  when there is no memory for a service of the list.  The other requests finalise theirs.
\<close>

datatype request = Zero | Dump_Services | Flush | Other_Request

definition prepared_statement :: "nl_session \<Rightarrow> nl_session" where
  "prepared_statement st = st\<lparr>ns_statements := Suc (ns_statements st)\<rparr>"

definition request_statements :: "(nat \<Rightarrow> bool) \<Rightarrow> request \<Rightarrow> nl_session \<Rightarrow> bool \<times> nl_session" where
  "request_statements ok r st =
     (case r of
        Flush \<Rightarrow> (let (got, st) = lib_call ok st in if got then (True, st) else (False, prepared_statement st))
      | Other_Request \<Rightarrow> (True, st)
      | _ \<Rightarrow> (let (done, st) = lib_call ok st in if done then (True, prepared_statement st) else (False, st)))"

text \<open>
  A packet of the raw socket: not a request of the family, or a request after whose handling the parser returns or
  ends the thread.  The message is converted, handled, and its header freed.
\<close>

datatype packet = Other_Packet | Request request bool

fun process_packet_mem :: "(nat \<Rightarrow> bool) \<Rightarrow> packet \<Rightarrow> nl_session \<Rightarrow> unit session_run" where
  "process_packet_mem ok Other_Packet st = Returns () st"
| "process_packet_mem ok (Request r ends) st =
     (let (done, st) = lib_call ok st in
      if \<not> done then Returns () st
      else
        let (goes_on, st) = request_statements ok r (acquire Msg (acquire Msg_Data st)) in
        if \<not> goes_on \<or> ends then exit_with_error st else Returns () (release Msg st))"

fun poll_packets :: "(nat \<Rightarrow> bool) \<Rightarrow> packet list \<Rightarrow> nl_session \<Rightarrow> unit session_run" where
  "poll_packets ok [] st = Returns () (st\<lparr>ns_cancel := True\<rparr>)"
| "poll_packets ok (p # ps) st = session_then (process_packet_mem ok p st) (\<lambda>_ st. poll_packets ok ps st)"

definition poll_session :: "(nat \<Rightarrow> bool) \<Rightarrow> packet list \<Rightarrow> nl_session \<Rightarrow> unit session_run" where
  "poll_session ok packets st =
     (let (done, st) = lib_call ok st in
      if \<not> done then exit_with_error st
      else session_then (poll_packets ok packets (acquire Poll_Buffer st)) (\<lambda>_ st. Returns () (release Poll_Buffer st)))"

definition alvs_db_manager_main :: "(nat \<Rightarrow> bool) \<Rightarrow> nat \<Rightarrow> (bool \<times> nat) list \<Rightarrow> packet list \<Rightarrow> nl_session \<Rightarrow> unit session_run" where
  "alvs_db_manager_main ok fd svcs packets st =
     session_then (alvs_db_manager_init ok fd st) (\<lambda>_ st.
       session_then (table_init_session ok svcs st) (\<lambda>_ st.
         session_then (poll_session ok packets st) (\<lambda>_ st. Returns () (alvs_db_manager_delete st))))"

end
