(* ===== verification/Alvs_Session_Props.thy ===== *)
theory Alvs_Session_Props
  imports Alvs_Session
begin

text \<open>
  Whatever calls fail, the thread of the database manager ends with every netlink socket closed; its database is closed exactly when
  every prepared statement has been finalised; its faults are exactly those of a failed
  initialisation; and what remains allocated after a regular end is the data of the handled messages.
\<close>

subsection \<open>Phases\<close>

text \<open>
  Between two operations: no netlink socket is open and nothing went wrong; the database exists from the start of the
  aging thread on.  Each of the requests handled so far left the data of its message behind, and those that zero the
  statistics or dump the services left a statement.
\<close>

definition leaves_statement :: "request \<Rightarrow> bool" where
  "leaves_statement r \<longleftrightarrow> r = Zero \<or> r = Dump_Services"

definition steady :: "bool \<Rightarrow> nat \<Rightarrow> request list \<Rightarrow> nl_session \<Rightarrow> bool" where
  "steady db blocks handled st \<longleftrightarrow>
     ns_live st Nl_Socket = 0 \<and> ns_live st Connection = 0 \<and> ns_live st Msg = 0 \<and> ns_live st Msg_Data = length handled \<and>
     ns_live st List_Block = blocks \<and> ns_faults st = 0 \<and> ns_aging_thread st = db \<and> ns_aging_started st = db \<and>
     (\<forall>a. ns_pool st a = (if db then Allocated else Null_Ptr)) \<and> ns_statements st = length (filter leaves_statement handled) \<and> (if db then ns_db_open st else handled = [])"

definition ended :: "nl_session \<Rightarrow> bool" where
  "ended st \<longleftrightarrow> ns_live st Nl_Socket = 0 \<and> ns_live st Connection = 0 \<and> \<not> ns_registered st \<and> (ns_raw_open st \<longrightarrow> ns_raw_sock st = 0) \<and>
     (ns_db_open st \<longleftrightarrow> ns_statements st \<noteq> 0) \<and> \<not> ns_aging_thread st \<and> ns_cancel st \<and> (\<forall>a. ns_pool st a \<noteq> Allocated) \<and> (ns_faults st = 0 \<longleftrightarrow> ns_aging_started st)"

fun outcome :: "('a \<Rightarrow> nl_session \<Rightarrow> bool) \<Rightarrow> 'a session_run \<Rightarrow> bool" where
  "outcome Q (Returns x st) = Q x st"
| "outcome Q (Thread_Ended st) = (ended st \<and> ns_sigterm st)"

lemma outcome_then:
  assumes "outcome Q r" "\<And>x st. Q x st \<Longrightarrow> outcome R (f x st)"
  shows "outcome R (session_then r f)"
  using assms by (cases r) auto

lemma outcome_mono: "outcome Q r \<Longrightarrow> (\<And>x st. Q x st \<Longrightarrow> R x st) \<Longrightarrow> outcome R r"
  by (cases r) auto

text \<open>What the end of the thread needs: the sockets are closed, and the arrays freed once at most.\<close>

definition can_end :: "nl_session \<Rightarrow> bool" where
  "can_end st \<longleftrightarrow> ns_live st Nl_Socket = 0 \<and> ns_live st Connection = 0 \<and> (if ns_aging_started st then ns_db_open st else ns_statements st = 0) \<and>
     ns_aging_thread st = ns_aging_started st \<and> (ns_aging_started st \<longrightarrow> ns_faults st = 0 \<and> (\<forall>a. ns_pool st a = Allocated))"

lemma free_array_pool:
  "ns_pool (free_array a st) b = (if b = a \<and> ns_pool st a = Allocated then Dangling else ns_pool st b)"
  "ns_faults (free_array a st) = ns_faults st + (if ns_pool st a = Dangling then 1 else 0)"
  by (auto simp: free_array_def session_fault_def split: pool_ptr.splits)

lemma free_array_rest [simp]:
  "ns_live (free_array a st) = ns_live st" "ns_registered (free_array a st) = ns_registered st" "ns_raw_open (free_array a st) = ns_raw_open st"
  "ns_raw_sock (free_array a st) = ns_raw_sock st" "ns_db_open (free_array a st) = ns_db_open st"
  "ns_aging_thread (free_array a st) = ns_aging_thread st" "ns_aging_started (free_array a st) = ns_aging_started st"
  "ns_cancel (free_array a st) = ns_cancel st" "ns_statements (free_array a st) = ns_statements st"
  "ns_aging_leaves (free_array a st) = ns_aging_leaves st"
  by (simp_all add: free_array_def session_fault_def split: pool_ptr.splits)

lemma delete_ended: "can_end st \<Longrightarrow> ns_cancel st \<Longrightarrow> ended (alvs_db_manager_delete st)"
proof -
  have all: "(\<forall>a. P a) \<longleftrightarrow> P Server_Indexes \<and> P Server_Flags \<and> P Service_Indexes \<and> P Service_Flags" for P
    by (metis pool_array.exhaust)
  assume "can_end st" "ns_cancel st"
  then show ?thesis
    by (auto simp: can_end_def ended_def alvs_db_manager_delete_def alvs_db_destroy_mem_def index_pool_destroy_mem_def pool_arrays_def Let_def
        free_array_pool session_fault_def all)
qed

lemma exit_ends: "can_end st \<Longrightarrow> outcome Q (exit_with_error st)"
  using delete_ended [of "st\<lparr>ns_cancel := True\<rparr>"] by (simp add: exit_with_error_def can_end_def ended_def)

lemma exit_then [simp]: "session_then (exit_with_error st) f = exit_with_error st"
  by (simp add: exit_with_error_def)

lemma steady_can_end [simp]: "steady db blocks handled st \<Longrightarrow> can_end st"
  by (auto simp: steady_def can_end_def)

lemma steady_exit: "steady db blocks handled st \<Longrightarrow> outcome Q (exit_with_error st)"
  by (rule exit_ends) simp

lemma steady_clock [simp]: "steady db blocks handled (st\<lparr>ns_clock := n\<rparr>) = steady db blocks handled st"
  by (simp add: steady_def)

lemma can_end_clock [simp]: "can_end (st\<lparr>ns_clock := n\<rparr>) = can_end st"
  by (simp add: can_end_def)

lemma steady_block [simp]:
  "steady db (Suc blocks) handled (acquire List_Block st) = steady db blocks handled st"
  "steady db (Suc blocks) handled st \<Longrightarrow> steady db blocks handled (release List_Block st)"
  by (auto simp: steady_def acquire_def release_def)

text \<open>A message in hand.\<close>

definition with_msg :: "bool \<Rightarrow> nat \<Rightarrow> request list \<Rightarrow> nl_session \<Rightarrow> bool" where
  "with_msg db blocks handled st \<longleftrightarrow> (\<exists>st0. steady db blocks handled st0 \<and> st = acquire Msg (acquire Msg_Data st0))"

lemma with_msg_clock [simp]: "with_msg db blocks handled st \<Longrightarrow> with_msg db blocks handled (st\<lparr>ns_clock := n\<rparr>)"
proof -
  assume "with_msg db blocks handled st"
  then obtain st0 where "steady db blocks handled st0" "st = acquire Msg (acquire Msg_Data st0)" by (auto simp: with_msg_def)
  then have "steady db blocks handled (st0\<lparr>ns_clock := n\<rparr>)" "st\<lparr>ns_clock := n\<rparr> = acquire Msg (acquire Msg_Data (st0\<lparr>ns_clock := n\<rparr>))"
    by (simp_all add: acquire_def)
  then show ?thesis unfolding with_msg_def by blast
qed

lemma free_msg: "with_msg db blocks handled st \<Longrightarrow> steady db blocks handled (nlmsg_free True st)"
  by (auto simp: with_msg_def steady_def nlmsg_free_def acquire_def release_def)

lemma statements_keep:
  "run_statements ok n st = (done, st') \<Longrightarrow> \<exists>c. st' = st\<lparr>ns_clock := c\<rparr>"
proof (induction n arbitrary: st)
  case (Suc n)
  from Suc.prems Suc.IH [of "st\<lparr>ns_clock := Suc (ns_clock st)\<rparr>"] show ?case
    by (auto simp: lib_call_def Let_def split: if_splits)
next
  case 0
  then have "st' = st\<lparr>ns_clock := ns_clock st\<rparr>" by simp
  then show ?case by blast
qed

subsection \<open>Messages\<close>

lemma acquire_simps [simp]:
  "release r (acquire r st) = st"
  "r \<noteq> s \<Longrightarrow> ns_live st r \<noteq> 0 \<Longrightarrow> release r (acquire s st) = acquire s (release r st)"
  "ns_live (acquire r st) s = (if s = r then Suc (ns_live st r) else ns_live st s)"
  "(acquire r st)\<lparr>ns_clock := n\<rparr> = acquire r (st\<lparr>ns_clock := n\<rparr>)"
  "ns_clock (acquire r st) = ns_clock st"
  by (auto simp: acquire_def release_def fun_eq_iff)

lemma close_session_simps [simp]:
  "nlmsg_free False st = st"
  "nlmsg_free True (acquire Msg (acquire Msg_Data st)) = st"
  "nlmsg_free True (acquire Nl_Socket (acquire Msg (acquire Msg_Data st))) = acquire Nl_Socket st"
  "close_session False (acquire Connection (acquire Nl_Socket st)) = st"
  "close_session True (acquire Connection (acquire Nl_Socket (acquire Msg (acquire Msg_Data st)))) = st"
  by (simp_all add: nlmsg_free_def close_session_def)

lemma send_none: "steady db blocks handled st \<Longrightarrow> outcome (\<lambda>_. steady db blocks handled) (alvs_nl_send_message ok False st)"
  by (auto simp: alvs_nl_send_message_def lib_call_def Let_def intro!: steady_exit [of db blocks handled])

lemma send_msg:
  assumes "with_msg db blocks handled st"
  shows "outcome (\<lambda>_. steady db blocks handled) (alvs_nl_send_message ok True st)"
proof -
  obtain st0 where st0: "steady db blocks handled st0" "st = acquire Msg (acquire Msg_Data st0)" using assms by (auto simp: with_msg_def)
  obtain done' st' where r: "run_statements ok 3 (acquire Connection (acquire Nl_Socket (st\<lparr>ns_clock := Suc (Suc (Suc (ns_clock st)))\<rparr>))) = (done', st')"
    by fastforce
  from statements_keep [OF this] obtain n where "st' = acquire Connection (acquire Nl_Socket (st\<lparr>ns_clock := n\<rparr>))" by auto
  with r st0 show ?thesis
    by (auto simp: alvs_nl_send_message_def lib_call_def Let_def intro!: steady_exit [of db blocks handled])
qed

subsection \<open>Initialisation\<close>

lemma calls_or_exit_steady: "steady db blocks handled st \<Longrightarrow> outcome (\<lambda>_. steady db blocks handled) (calls_or_exit ok n st)"
  by (induction n arbitrary: st) (auto simp: lib_call_def Let_def intro!: steady_exit [of db blocks handled])

lemma nl_init_steady:
  assumes "steady db blocks handled st"
  shows "outcome (\<lambda>_. steady db blocks handled) (alvs_nl_init ok fd st)"
proof -
  have reg: "steady db blocks handled (st\<lparr>ns_registered := b\<rparr>) = steady db blocks handled st" for st b by (simp add: steady_def)
  have raw: "steady db blocks handled st \<Longrightarrow> steady db blocks handled (st\<lparr>ns_raw_sock := int fd, ns_raw_open := True\<rparr>)"
    "steady db blocks handled st \<Longrightarrow> steady db blocks handled (st\<lparr>ns_raw_sock := -1\<rparr>)" for st by (simp_all add: steady_def)
  show ?thesis
    using assms by (auto simp: alvs_nl_init_def lib_call_def Let_def reg raw
        intro!: steady_exit [of db blocks handled] outcome_then [OF send_none [of db blocks handled]] calls_or_exit_steady)
qed

text \<open>The allocation of the database does not touch what the thread needs for its end.\<close>

definition outer :: "nl_session \<Rightarrow> (nl_resource \<Rightarrow> nat) \<times> nat \<times> bool \<times> bool" where
  "outer st = (ns_live st, ns_statements st, ns_aging_thread st, ns_aging_started st)"

lemma outer_free_array [simp]: "outer (free_array a st) = outer st"
  by (simp add: outer_def)

lemma outer_pool [simp]:
  "outer (index_pool_destroy_mem server st) = outer st" "outer (snd (index_pool_init_mem ok server st)) = outer st"
  by (simp_all add: index_pool_destroy_mem_def index_pool_init_mem_def pool_arrays_def lib_call_def Let_def, simp_all add: outer_def)

lemma outer_can_end: "outer st' = outer st \<Longrightarrow> steady False blocks handled st \<Longrightarrow> can_end st'"
  by (simp add: outer_def steady_def can_end_def)

lemma pool_init_done:
  "index_pool_init_mem ok server st = (True, st') \<Longrightarrow> \<exists>n. st' = st\<lparr>ns_clock := n, ns_pool :=
     (ns_pool st)(fst (pool_arrays server) := Allocated, snd (pool_arrays server) := Allocated)\<rparr>"
  by (auto simp: index_pool_init_mem_def pool_arrays_def lib_call_def Let_def split: if_splits)

lemma db_init_mem_steady:
  assumes "steady False blocks handled st" "alvs_db_init_mem ok st = (done', st')"
  shows "if done' then steady True blocks handled st' else can_end st'"
proof -
  obtain d1 st1 where 1: "index_pool_init_mem ok True st = (d1, st1)" by fastforce
  obtain d2 st2 where 2: "index_pool_init_mem ok False st1 = (d2, st2)" by fastforce
  obtain d3 st3 where 3: "run_statements ok 4 (st2\<lparr>ns_db_open := True\<rparr>) = (d3, st3)" by fastforce
  from statements_keep [OF 3] obtain n where st3: "st3 = st2\<lparr>ns_db_open := True, ns_clock := n\<rparr>" by auto
  have o: "outer st1 = outer st" "outer st2 = outer st" using outer_pool(2) [of ok True st] outer_pool(2) [of ok False st1] 1 2 by simp_all
  then have o3: "outer st3 = outer st" "outer (st3\<lparr>ns_clock := k\<rparr>) = outer st" for k by (simp_all add: outer_def st3)
  have good: "steady True blocks handled (st3\<lparr>ns_clock := k, ns_aging_thread := True, ns_aging_started := True, ns_aging_leaves := l\<rparr>)" if "d1" "d2" for k l
  proof -
    from that 1 2 obtain n1 n2 where st1: "st1 = st\<lparr>ns_clock := n1, ns_pool := (ns_pool st)(Server_Indexes := Allocated, Server_Flags := Allocated)\<rparr>"
      and st2: "st2 = st1\<lparr>ns_clock := n2, ns_pool := (ns_pool st1)(Service_Indexes := Allocated, Service_Flags := Allocated)\<rparr>"
      by (auto simp: pool_arrays_def dest!: pool_init_done)
    have "ns_pool st2 a = Allocated" for a by (cases a) (simp_all add: st1 st2)
    moreover have "ns_faults st2 = 0" using assms(1) by (simp add: st1 st2 steady_def)
    ultimately show ?thesis using assms(1) o(2) by (auto simp: st3 steady_def outer_def)
  qed
  show ?thesis
    using assms(2) good outer_can_end [OF _ assms(1)] o o3
    by (auto simp: alvs_db_init_mem_def 1 2 3 lib_call_def Let_def split: if_splits)
qed

lemma manager_init_steady:
  assumes "steady False blocks handled st" "\<not> ns_raw_open st"
  shows "outcome (\<lambda>_. steady True blocks handled) (alvs_db_manager_init ok fd st)"
proof -
  have "steady False blocks handled (st\<lparr>ns_raw_sock := 0\<rparr>)" using assms by (simp add: steady_def)
  from nl_init_steady [OF this, of ok] show ?thesis
    unfolding alvs_db_manager_init_def
  proof (rule outcome_then)
    fix x st
    assume "steady False blocks handled st"
    moreover obtain d st' where "alvs_db_init_mem ok st = (d, st')" by fastforce
    ultimately show "outcome (\<lambda>_. steady True blocks handled)
        (let (done, st) = alvs_db_init_mem ok st in if \<not> done then exit_with_error st else Returns () st)"
      using db_init_mem_steady [of blocks handled st ok d st'] by (cases d) (auto intro: exit_ends)
  qed
qed

subsection \<open>Lists of the kernel\<close>

lemma nl_message_cases:
  assumes "steady db blocks handled st" "alvs_nl_message ok st = (done', st')"
  shows "if done' then with_msg db blocks handled st' else steady db blocks handled st'"
  using assms by (auto simp: alvs_nl_message_def lib_call_def Let_def with_msg_def split: if_splits)
    (metis steady_clock)

lemma sent_or_freed:
  assumes "with_msg db (Suc blocks) handled st"
  shows "outcome (\<lambda>got. steady db (if got then Suc blocks else blocks) handled)
    (session_then (alvs_nl_send_message ok True st) (\<lambda>sent st. if sent then Returns True st else Returns False (release List_Block st)))"
  by (rule outcome_then [OF send_msg [OF assms]]) auto

lemma get_list_steady:
  assumes "steady db blocks handled st"
  shows "outcome (\<lambda>got. steady db (if got then Suc blocks else blocks) handled) (alvs_get_list ok st)"
proof -
  obtain d st' where m: "alvs_nl_message ok (acquire List_Block (st\<lparr>ns_clock := Suc (ns_clock st)\<rparr>)) = (d, st')" by fastforce
  have "steady db (Suc blocks) handled (acquire List_Block (st\<lparr>ns_clock := Suc (ns_clock st)\<rparr>))" using assms by simp
  from nl_message_cases [OF this m] show ?thesis
    using m sent_or_freed [of db blocks handled st' ok] assms
    by (auto simp: alvs_get_list_def lib_call_def Let_def split: if_splits)
qed

text \<open>A list of servers that is not returned may leave one block behind.\<close>

definition dests_done :: "bool \<Rightarrow> nat \<Rightarrow> request list \<Rightarrow> bool \<Rightarrow> nl_session \<Rightarrow> bool" where
  "dests_done db blocks handled got st \<longleftrightarrow>
     (if got then steady db (Suc blocks) handled st else steady db blocks handled st \<or> steady db (Suc blocks) handled st)"

lemma put_attributes_steady:
  assumes "with_msg db (Suc blocks) handled st"
  shows "outcome (dests_done db blocks handled)
    (let (done, st) = run_statements ok n st in
     if \<not> done then Returns False (release List_Block (nlmsg_free True st))
     else session_then (alvs_nl_send_message ok True st) (\<lambda>sent st.
       if sent then Returns True st else Returns False (release List_Block st)))"
proof -
  obtain d st' where r: "run_statements ok n st = (d, st')" by fastforce
  from statements_keep [OF this] assms have w: "with_msg db (Suc blocks) handled st'" by auto
  from sent_or_freed [OF w] have "outcome (dests_done db blocks handled)
      (session_then (alvs_nl_send_message ok True st') (\<lambda>sent st. if sent then Returns True st else Returns False (release List_Block st)))"
    by (rule outcome_mono) (auto simp: dests_done_def split: if_splits)
  with r free_msg [OF w] show ?thesis by (auto simp: dests_done_def)
qed

lemma get_dests_steady:
  assumes "steady db blocks handled st"
  shows "outcome (dests_done db blocks handled) (alvs_get_dests ok num_dests fwmark st)"
proof -
  define st1 where "st1 = acquire List_Block (st\<lparr>ns_clock := Suc (ns_clock st)\<rparr>)"
  obtain d2 st2 where 2: "(if num_dests = 0 then lib_call ok st1 else (True, st1)) = (d2, st2)" by fastforce
  obtain d3 st3 where 3: "alvs_nl_message ok st2 = (d3, st3)" by fastforce
  obtain d4 st4 where 4: "lib_call ok st3 = (d4, st4)" by fastforce
  have "steady db (Suc blocks) handled st1" using assms by (simp add: st1_def)
  then have s2: "steady db (Suc blocks) handled st2" using 2 by (auto simp: lib_call_def split: if_splits)
  note s3 = nl_message_cases [OF s2 3]
  have s4: "d3 \<Longrightarrow> with_msg db (Suc blocks) handled st4" using s3 4 by (auto simp: lib_call_def)
  show ?thesis
    using s2 s3 s4 free_msg [OF s4] put_attributes_steady [OF s4] assms
    by (auto simp: alvs_get_dests_def lib_call_def [of ok st] Let_def st1_def [symmetric] 2 3 4 dests_done_def [of _ _ _ False])
qed

lemma server_list_steady:
  assumes "steady db (Suc (Suc blocks)) handled st"
  shows "outcome (\<lambda>_. steady db (Suc (Suc blocks)) handled) (init_server_list ok n st)"
  using assms by (induction n arbitrary: st) (auto simp: lib_call_def Let_def intro!: steady_exit [of db blocks handled])

lemma service_list_steady:
  assumes "steady db (Suc blocks) handled st"
  shows "outcome (\<lambda>_. steady db (Suc blocks) handled) (init_service_list ok svcs st)"
  using assms
proof (induction svcs arbitrary: st)
  case (Cons svc svcs)
  obtain fwmark dests where svc: "svc = (fwmark, dests)" by fastforce
  have next_service: "outcome (\<lambda>_. steady db (Suc blocks) handled) (session_then (init_server_list ok dests s) (\<lambda>_ st. init_service_list ok svcs (release List_Block st)))"
    if "steady db (Suc (Suc blocks)) handled s" for s
    by (rule outcome_then [OF server_list_steady [OF that]]) (use Cons.IH in auto)
  have "outcome (\<lambda>_. steady db (Suc blocks) handled) (if \<not> got then exit_with_error (release List_Block s)
      else session_then (init_server_list ok dests s) (\<lambda>_ st. init_service_list ok svcs (release List_Block st)))"
    if "dests_done db (Suc blocks) handled got s" for got s
    using that next_service [of s] steady_exit [OF steady_block(2)]
    by (auto simp: dests_done_def split: if_splits)
  from outcome_then [OF get_dests_steady this] Cons.prems show ?case
    by (auto simp: svc lib_call_def Let_def intro!: steady_exit [of db blocks handled])
qed simp

lemma table_init_steady:
  assumes "steady db 0 handled st"
  shows "outcome (\<lambda>_. steady db 0 handled) (table_init_session ok svcs st)"
proof -
  have services: "outcome (\<lambda>_. steady db 0 handled) (session_then (alvs_get_list ok s) (\<lambda>got st.
      if \<not> got then exit_with_error st
      else session_then (init_service_list ok svcs st) (\<lambda>_ st. Returns () (release List_Block st))))" if "steady db 0 handled s" for s
    by (rule outcome_then [OF get_list_steady [OF that]])
      (auto intro!: steady_exit [of db 0 handled] outcome_then [OF service_list_steady [of db 0 handled]] split: if_splits)
  show ?thesis
    unfolding table_init_session_def
    by (rule outcome_then [OF get_list_steady [OF assms]])
      (auto simp: lib_call_def Let_def intro!: steady_exit [of db 0 handled] services split: if_splits)
qed

subsection \<open>Requests\<close>

text \<open>
  The requests whose conversion succeeds, by the clock at which polling starts; each leaves the data of its message behind.  Those
  of them that zero the statistics or dump the services leave a statement.
\<close>

definition calls_of :: "request \<Rightarrow> nat" where
  "calls_of r = (if r = Other_Request then 0 else 1)"

fun converted :: "(nat \<Rightarrow> bool) \<Rightarrow> nat \<Rightarrow> packet list \<Rightarrow> request list" where
  "converted ok n [] = []"
| "converted ok n (Other_Packet # ps) = converted ok n ps"
| "converted ok n (Request r ends # ps) =
     (if ok n then r # converted ok (Suc n + calls_of r) ps else converted ok (Suc n) ps)"

lemma request_handled:
  assumes "request_statements ok r (acquire Msg (acquire Msg_Data st)) = (goes_on, st')" "steady True blocks handled st"
  shows "can_end st'"
    "goes_on \<Longrightarrow> \<exists>st1. st' = acquire Msg st1 \<and> steady True blocks (handled @ [r]) st1 \<and>
       ns_clock st1 = ns_clock st + calls_of r \<and> ns_live st1 Poll_Buffer = ns_live st Poll_Buffer"
proof -
  show "can_end st'"
    using assms by (cases r) (auto simp: request_statements_def lib_call_def Let_def prepared_statement_def acquire_def
        can_end_def steady_def split: if_splits)
  assume goes_on
  define st1 where "st1 = acquire Msg_Data
    (st\<lparr>ns_clock := ns_clock st + calls_of r, ns_statements := ns_statements st + (if leaves_statement r then 1 else 0)\<rparr>)"
  have "steady True blocks (handled @ [r]) st1"
    using assms(2) by (simp add: st1_def steady_def acquire_def)
  moreover have "st' = acquire Msg st1"
    using assms(1) \<open>goes_on\<close>
    by (cases r) (auto simp: request_statements_def lib_call_def Let_def prepared_statement_def acquire_def calls_of_def
        leaves_statement_def st1_def split: if_splits)
  moreover have "ns_clock st1 = ns_clock st + calls_of r" "ns_live st1 Poll_Buffer = ns_live st Poll_Buffer"
    by (simp_all add: st1_def acquire_def)
  ultimately show "\<exists>st1. st' = acquire Msg st1 \<and> steady True blocks (handled @ [r]) st1 \<and>
       ns_clock st1 = ns_clock st + calls_of r \<and> ns_live st1 Poll_Buffer = ns_live st Poll_Buffer" by blast
qed

lemma poll_steady:
  assumes "steady True blocks handled st"
  shows "outcome (\<lambda>_ st'. ns_cancel st' \<and> ns_live st' Poll_Buffer = ns_live st Poll_Buffer \<and>
    steady True blocks (handled @ converted ok (ns_clock st) packets) st') (poll_packets ok packets st)"
  using assms
proof (induction packets arbitrary: handled st)
  case Nil
  then show ?case by (simp add: steady_def)
next
  case (Cons p ps)
  show ?case
  proof (cases p)
    case Other_Packet
    with Cons show ?thesis by simp
  next
    case (Request r ends)
    let ?st = "st\<lparr>ns_clock := Suc (ns_clock st)\<rparr>"
    have st: "steady True blocks handled ?st" using Cons.prems by simp
    show ?thesis
    proof (cases "ok (ns_clock st)")
      case False
      then show ?thesis using Request Cons.IH [OF st] by (simp add: lib_call_def Let_def)
    next
      case True
      obtain g st' where g: "request_statements ok r (acquire Msg (acquire Msg_Data ?st)) = (g, st')" by fastforce
      note h = request_handled [OF g st]
      show ?thesis
      proof (cases "g \<and> \<not> ends")
        case False
        then show ?thesis using True Request g exit_ends [OF h(1)] by (auto simp: lib_call_def Let_def)
      next
        case go: True
        then obtain st1 where st1: "st' = acquire Msg st1" "steady True blocks (handled @ [r]) st1"
          "ns_clock st1 = ns_clock ?st + calls_of r" "ns_live st1 Poll_Buffer = ns_live ?st Poll_Buffer" using h(2) by blast
        show ?thesis using Cons.IH [OF st1(2)] True go Request g st1(1,3,4) by (simp add: lib_call_def Let_def)
      qed
    qed
  qed
qed

definition fresh_session :: nl_session where
  "fresh_session = \<lparr>ns_live = (\<lambda>_. 0), ns_pool = (\<lambda>_. Null_Ptr), ns_raw_sock = 0, ns_raw_open = False, ns_registered = False,
     ns_db_open = False, ns_aging_thread = False, ns_aging_started = False,
     ns_aging_leaves = False, ns_statements = 0, ns_cancel = False, ns_sigterm = False, ns_faults = 0, ns_clock = 0\<rparr>"

lemma poll_session_steady:
  assumes "steady True 0 [] st"
  shows "outcome (\<lambda>_ st'. ns_cancel st' \<and> (\<exists>n. steady True 0 (converted ok n packets) st')) (poll_session ok packets st)"
proof -
  have buffer: "steady db blocks handled (acquire Poll_Buffer s) = steady db blocks handled s" "ns_cancel (release Poll_Buffer s) = ns_cancel s"
    "steady db blocks handled s \<Longrightarrow> ns_live s Poll_Buffer \<noteq> 0 \<Longrightarrow> steady db blocks handled (release Poll_Buffer s)" for s db blocks handled
    by (simp_all add: steady_def acquire_def release_def session_fault_def)
  have "steady True 0 [] (acquire Poll_Buffer (st\<lparr>ns_clock := Suc (ns_clock st)\<rparr>))" using assms by (simp add: buffer)
  from poll_steady [OF this, of ok packets] show ?thesis
    using assms by (auto simp: poll_session_def lib_call_def Let_def buffer intro!: steady_exit [of True 0 "[]"] elim!: outcome_then)
      (metis Zero_not_Suc buffer(3))
qed


end
