(* ===== verification/Dp_Cpus.thy ===== *)
theory Dp_Cpus
  imports Alvs_Prelude
begin

text \<open>
  The start of the data plane, \<^verbatim>\<open>src/dp/main.c\<close>: the list of processors given on the command line and the
  processes that are started on them.

  Pointers into the string are its suffixes, so a pointer is smaller than another when its suffix is
  longer.  The array \<open>run_cpus\<close> is the list of its first \<open>num_cpus\<close> elements; writing behind its end is
  the outcome \<open>CS_Overflow\<close>.  The loop over a range may run for ever, so it is a partial function, and
  \<open>None\<close> means that it does not return.  \<open>unsigned long\<close> has 32 bits on the processor of the data plane.
\<close>

definition MAX_NUM_OF_CPUS :: nat where "MAX_NUM_OF_CPUS = 4096"
definition bitsperlong :: nat where "bitsperlong = 32"

definition longsperbits :: "u32 \<Rightarrow> nat" where
  "longsperbits n = (unat n + (bitsperlong - 1)) div bitsperlong"

record bitmask =
  bm_size :: u32
  maskp :: "u32 list"

record cpu_state =
  run_cpus :: "u32 list"
  cpu_mask :: bitmask

datatype cpuset_rc = CS_OK | CS_Error | CS_Overflow

subsection \<open>Bit masks\<close>

definition bitmask_alloc :: "bool \<Rightarrow> u32 \<Rightarrow> bitmask option" where
  "bitmask_alloc malloc_ok n =
     (if malloc_ok then Some \<lparr>bm_size = n, maskp = replicate (longsperbits n) 0\<rparr> else None)"

definition getbit :: "bitmask \<Rightarrow> u32 \<Rightarrow> bool" where
  "getbit bmp n =
     (if n < bm_size bmp then drop_bit (unat n mod bitsperlong) (maskp bmp ! (unat n div bitsperlong)) AND 1 = 1
      else False)"

definition setbit :: "bitmask \<Rightarrow> u32 \<Rightarrow> bool \<Rightarrow> bitmask" where
  "setbit bmp n v =
     (if n < bm_size bmp then
        let i = unat n div bitsperlong; w = maskp bmp ! i; m = push_bit (unat n mod bitsperlong) 1
        in bmp\<lparr>maskp := (maskp bmp)[i := if v then w OR m else w AND NOT m]\<rparr>
      else bmp)"

definition bitmask_isbitset :: "bitmask \<Rightarrow> u32 \<Rightarrow> bool" where
  "bitmask_isbitset = getbit"

definition bitmask_clearall :: "bitmask \<Rightarrow> bitmask" where
  "bitmask_clearall bmp = fold (\<lambda>i b. setbit b (of_nat i) False) [0..<unat (bm_size bmp)] bmp"

definition bitmask_setbit :: "bitmask \<Rightarrow> u32 \<Rightarrow> bitmask" where
  "bitmask_setbit bmp i = setbit bmp i True"

subsection \<open>Tokens\<close>

fun strchr :: "string \<Rightarrow> char \<Rightarrow> string option" where
  "strchr [] c = None"
| "strchr (x # xs) c = (if x = c then Some (x # xs) else strchr xs c)"

definition nexttoken :: "string option \<Rightarrow> char \<Rightarrow> string option" where
  "nexttoken q sep = (case q of None \<Rightarrow> None | Some s \<Rightarrow> map_option tl (strchr s sep))"

text \<open>
  Conversion \<^verbatim>\<open>%u\<close> of \<^verbatim>\<open>sscanf\<close> with a maximal field width: white space, an optional sign that counts for
  the width, and decimal digits.  The value of a number that does not fit 32 bits is not defined by the
  language and is the parameter \<open>big\<close>.
\<close>

definition isspace :: "char \<Rightarrow> bool" where
  "isspace c \<longleftrightarrow> c \<in> {CHR '' '', CHR 0x09, CHR 0x0A, CHR 0x0B, CHR 0x0C, CHR 0x0D}"

definition isdigit :: "char \<Rightarrow> bool" where
  "isdigit c \<longleftrightarrow> c \<in> set ''0123456789''"

definition digits_value :: "string \<Rightarrow> nat" where
  "digits_value ds = foldl (\<lambda>n c. 10 * n + (of_char c - 48)) 0 ds"

definition scan_unsigned :: "(nat \<Rightarrow> u32) \<Rightarrow> nat \<Rightarrow> string \<Rightarrow> u32 option" where
  "scan_unsigned big width str =
     (let s = dropWhile isspace str;
          signed = (s \<noteq> [] \<and> hd s \<in> {CHR ''-'', CHR ''+''});
          digits = takeWhile isdigit (take (width - (if signed then 1 else 0)) (if signed then tl s else s));
          v = (if digits_value digits < 2 ^ 32 then of_nat (digits_value digits) else big (digits_value digits))
      in if digits = [] then None else Some (if signed \<and> hd s = CHR ''-'' then - v else v))"

definition before :: "string option \<Rightarrow> string option \<Rightarrow> bool" where
  "before c1 c2 = (case c1 of None \<Rightarrow> False
     | Some s1 \<Rightarrow> (case c2 of None \<Rightarrow> True | Some s2 \<Rightarrow> length s2 < length s1))"

text \<open>The range a token describes: first processor, last processor, stride.\<close>

definition parse_range :: "(nat \<Rightarrow> u32) \<Rightarrow> string \<Rightarrow> (u32 \<times> u32 \<times> u32) option" where
  "parse_range big p =
     (case scan_unsigned big 4 p of
        None \<Rightarrow> None
      | Some a \<Rightarrow>
          let c1 = nexttoken (Some p) CHR ''-''; c2 = nexttoken (Some p) CHR '','' in
          if before c1 c2 then
            (case scan_unsigned big 4 (the c1) of
               None \<Rightarrow> None
             | Some b \<Rightarrow>
                 let c1 = nexttoken c1 CHR '':'' in
                 if before c1 c2 then map_option (\<lambda>s. (a, b, s)) (scan_unsigned big 10 (the c1))
                 else Some (a, b, 1))
          else Some (a, a, 1))"

subsection \<open>Ranges\<close>

partial_function (option) add_range :: "u32 \<Rightarrow> u32 \<Rightarrow> u32 \<Rightarrow> cpu_state \<Rightarrow> (cpuset_rc \<times> cpu_state) option" where
  "add_range a b s st =
     (if a \<le> b then
        if \<not> bitmask_isbitset (cpu_mask st) a then
          if length (run_cpus st) < MAX_NUM_OF_CPUS
          then add_range (a + s) b s (st\<lparr>run_cpus := run_cpus st @ [a], cpu_mask := bitmask_setbit (cpu_mask st) a\<rparr>)
          else Some (CS_Overflow, st)
        else add_range (a + s) b s (st\<lparr>cpu_mask := bitmask_setbit (cpu_mask st) a\<rparr>)
      else Some (CS_OK, st))"

lemma strchr_length: "strchr s c = Some t \<Longrightarrow> t \<noteq> [] \<and> length t \<le> length s"
  by (induction s) (auto split: if_splits)

lemma nexttoken_length: "nexttoken (Some s) c = Some t \<Longrightarrow> length t < length s"
proof -
  assume "nexttoken (Some s) c = Some t"
  then obtain u where u: "strchr s c = Some u" "t = tl u" by (auto simp: nexttoken_def)
  from strchr_length [OF this(1)] u(2) show ?thesis by (cases u) auto
qed

function cpuset_loop :: "(nat \<Rightarrow> u32) \<Rightarrow> string option \<Rightarrow> cpu_state \<Rightarrow> (cpuset_rc \<times> cpu_state) option" where
  "cpuset_loop big None st = Some (CS_OK, st)"
| "cpuset_loop big (Some p) st =
     (case parse_range big p of
        None \<Rightarrow> Some (CS_Error, st)
      | Some (a, b, s) \<Rightarrow>
          if \<not> a \<le> b then Some (CS_Error, st)
          else (case add_range a b s st of
                  None \<Rightarrow> None
                | Some (rc, st) \<Rightarrow> if rc = CS_OK then cpuset_loop big (nexttoken (Some p) CHR '','') st else Some (rc, st)))"
  by pat_completeness auto
termination
proof (relation "measure (\<lambda>(big, q, st). case q of None \<Rightarrow> 0 | Some p \<Rightarrow> Suc (length p))", goal_cases)
  case (2 big p st y a z b s z' rc st')
  then show ?case by (cases "nexttoken (Some p) CHR '',''") (auto dest: nexttoken_length)
qed simp

declare cpuset_loop.simps [simp del]

definition cstr_to_cpuset :: "(nat \<Rightarrow> u32) \<Rightarrow> bitmask \<Rightarrow> string option \<Rightarrow> cpu_state \<Rightarrow> (cpuset_rc \<times> cpu_state) option" where
  "cstr_to_cpuset big bmp str st =
     cpuset_loop big str (st\<lparr>run_cpus := [], cpu_mask := bitmask_clearall bmp\<rparr>)"

subsection \<open>Arguments and processes\<close>

text \<open>The outcome of the program's start: it ends with an error, it writes behind an array, or it goes on
  with a value.\<close>

datatype 'a startup = Exit_1 | Out_Of_Bounds | Continue 'a

definition add_run_cpus :: "(nat \<Rightarrow> u32) \<Rightarrow> bool \<Rightarrow> string option \<Rightarrow> cpu_state \<Rightarrow> cpu_state startup option" where
  "add_run_cpus big malloc_ok processors_str st =
     (case bitmask_alloc malloc_ok (of_nat MAX_NUM_OF_CPUS) of
        None \<Rightarrow> Some Exit_1
      | Some new_mask \<Rightarrow>
          (case cstr_to_cpuset big new_mask processors_str st of
             None \<Rightarrow> None
           | Some (rc, st) \<Rightarrow> Some (case rc of CS_OK \<Rightarrow> Continue st | CS_Error \<Rightarrow> Exit_1 | CS_Overflow \<Rightarrow> Out_Of_Bounds)))"

text \<open>The arguments after the program's name; \<open>argv[argc]\<close> is the null pointer.\<close>

fun parse_arguments :: "(nat \<Rightarrow> u32) \<Rightarrow> bool \<Rightarrow> string list \<Rightarrow> bool \<Rightarrow> cpu_state \<Rightarrow>
    (bool \<times> cpu_state) startup option" where
  "parse_arguments big malloc_ok [] num_cpus_set st = Some (Continue (num_cpus_set, st))"
| "parse_arguments big malloc_ok (arg # args) num_cpus_set st =
     (if arg = ''--run_cpus'' then
        (case add_run_cpus big malloc_ok (case args of [] \<Rightarrow> None | v # _ \<Rightarrow> Some v) st of
           None \<Rightarrow> None
         | Some Exit_1 \<Rightarrow> Some Exit_1
         | Some Out_Of_Bounds \<Rightarrow> Some Out_Of_Bounds
         | Some (Continue st) \<Rightarrow> (case args of
               [] \<Rightarrow> Some (Continue (True, st))
             | _ # rest \<Rightarrow> parse_arguments big malloc_ok rest True st))
      else parse_arguments big malloc_ok args num_cpus_set st)"

text \<open>
  What the operating system and the ezdp library answer while the program starts; a result other than 0 is an error.
  \<open>se_big\<close> is what \<^verbatim>\<open>sscanf\<close> makes of a number that does not fit.
\<close>

record start_env =
  se_big :: "nat \<Rightarrow> u32"
  se_malloc_ok :: bool
  se_sync_cp :: u32
  se_cache_size :: u32
  se_init_global :: u32
  se_fork_ok :: "nat \<Rightarrow> bool"
  se_init_local :: "u32 \<Rightarrow> u32"
  se_frame_init_local :: "u32 \<Rightarrow> u32"

text \<open>Whether the process of a processor reaches packet processing.\<close>

definition run_on :: "start_env \<Rightarrow> u32 \<Rightarrow> bool" where
  "run_on e cpu \<longleftrightarrow> se_init_local e cpu = 0 \<and> se_frame_init_local e cpu = 0"

text \<open>
  The loop of the parent over the processors: its exit code, and the processors on which packet processing runs.  A
  failed \<^verbatim>\<open>fork\<close> ends the parent; the children started before go on.
\<close>

fun fork_cpus :: "start_env \<Rightarrow> nat \<Rightarrow> u32 list \<Rightarrow> nat \<times> u32 list" where
  "fork_cpus e idx [] = (0, [])"
| "fork_cpus e idx (cpu # cpus) =
     (if \<not> se_fork_ok e idx then (1, [])
      else let (code, running) = fork_cpus e (Suc idx) cpus in (code, if run_on e cpu then cpu # running else running))"

definition run_single :: "start_env \<Rightarrow> u32 \<Rightarrow> (nat \<times> u32 list) startup" where
  "run_single e cpu = (if run_on e cpu then Continue (0, [cpu]) else Exit_1)"

definition dp_main :: "start_env \<Rightarrow> string list \<Rightarrow> cpu_state \<Rightarrow> (nat \<times> u32 list) startup option" where
  "dp_main e args st =
     (case parse_arguments (se_big e) (se_malloc_ok e) args False st of
        None \<Rightarrow> None
      | Some Exit_1 \<Rightarrow> Some Exit_1
      | Some Out_Of_Bounds \<Rightarrow> Some Out_Of_Bounds
      | Some (Continue (num_cpus_set, st)) \<Rightarrow> Some (
          if se_sync_cp e \<noteq> 0 then Exit_1
          else if se_cache_size e < 256 then Exit_1
          else if se_init_global e \<noteq> 0 then Exit_1
          else if \<not> num_cpus_set then run_single e 16
          else if length (run_cpus st) = 1 then run_single e (hd (run_cpus st))
          else Continue (fork_cpus e 0 (run_cpus st))))"

text \<open>What the two signal handlers do, in order.\<close>

datatype dp_signal_action = Set_Cancel_Signal | Kill_Group | Exit_0 | Abort

definition signal_terminate_handler_gracefully_stop :: "bool \<Rightarrow> nat \<Rightarrow> dp_signal_action list" where
  "signal_terminate_handler_gracefully_stop is_child_process num_cpus =
     (if is_child_process \<or> num_cpus = 1 then [Set_Cancel_Signal] else [Kill_Group, Exit_0])"

definition dp_signal_terminate_handler :: "bool \<Rightarrow> dp_signal_action list" where
  "dp_signal_terminate_handler sigterm = (if sigterm then [Abort] else [Kill_Group, Abort])"

end
