(* ===== verification/Dp_Cpus_Props.thy ===== *)
theory Dp_Cpus_Props
  imports Dp_Cpus
begin

text \<open>
  Properties of the list of processors: bit masks are sets, a list of ranges below the size of the mask
  gives each of its processors once, in the order of the list; every list without a zero stride is read to
  its end, and a zero stride or a processor number above the mask leads astray.
\<close>

subsection \<open>Bit masks as sets\<close>

definition mask_ok :: "bitmask \<Rightarrow> bool" where
  "mask_ok bmp \<longleftrightarrow> length (maskp bmp) = longsperbits (bm_size bmp)"

lemma mask_index: "mask_ok bmp \<Longrightarrow> n < bm_size bmp \<Longrightarrow> unat n div bitsperlong < length (maskp bmp)"
  by (simp add: mask_ok_def longsperbits_def bitsperlong_def word_less_nat_alt)

lemma getbit_iff: "getbit bmp n \<longleftrightarrow> n < bm_size bmp \<and> bit (maskp bmp ! (unat n div bitsperlong)) (unat n mod bitsperlong)"
  by (simp add: getbit_def bit_iff_and_drop_bit_eq_1)

lemma same_bit: "unat m div bitsperlong = unat n div bitsperlong \<Longrightarrow> unat m mod bitsperlong = unat n mod bitsperlong \<Longrightarrow> m = n"
  for m n :: u32
  by (metis div_mult_mod_eq word_unat_eq_iff)

lemma mod_bitsperlong: "k mod bitsperlong < 32"
  by (simp add: bitsperlong_def)

lemma setbit_props:
  assumes "mask_ok bmp"
  shows "mask_ok (setbit bmp n v)" "bm_size (setbit bmp n v) = bm_size bmp"
    "getbit (setbit bmp n v) m \<longleftrightarrow> (if m = n \<and> n < bm_size bmp then v else getbit bmp m)"
proof -
  show "mask_ok (setbit bmp n v)" "bm_size (setbit bmp n v) = bm_size bmp"
    using assms by (simp_all add: setbit_def Let_def mask_ok_def)
  show "getbit (setbit bmp n v) m \<longleftrightarrow> (if m = n \<and> n < bm_size bmp then v else getbit bmp m)"
    using mask_index [OF assms, of n] mod_bitsperlong [of "unat n"] mod_bitsperlong [of "unat m"] same_bit [of m n]
    by (auto simp: getbit_iff setbit_def Let_def nth_list_update bit_simps split: if_splits)
qed

lemma clear_fold:
  assumes "mask_ok bmp"
  shows "mask_ok (fold (\<lambda>i b. setbit b (of_nat i) False) is bmp) \<and>
    bm_size (fold (\<lambda>i b. setbit b (of_nat i) False) is bmp) = bm_size bmp \<and>
    (getbit (fold (\<lambda>i b. setbit b (of_nat i) False) is bmp) m \<longrightarrow> getbit bmp m \<and> m \<notin> of_nat ` set is)"
  using assms
proof (induction "is" arbitrary: bmp)
  case (Cons i "is")
  show ?case
    using Cons.IH [of "setbit bmp (of_nat i) False"] setbit_props [OF Cons.prems, of "of_nat i" False]
    by (auto simp: getbit_iff [of bmp] split: if_splits)
qed simp

lemma clearall_props:
  assumes "mask_ok bmp"
  shows "mask_ok (bitmask_clearall bmp)" "bm_size (bitmask_clearall bmp) = bm_size bmp" "\<not> getbit (bitmask_clearall bmp) m"
proof -
  note c = clear_fold [OF assms, of "[0..<unat (bm_size bmp)]" m]
  show "mask_ok (bitmask_clearall bmp)" "bm_size (bitmask_clearall bmp) = bm_size bmp"
    using c by (simp_all add: bitmask_clearall_def)
  have "m \<in> of_nat ` {0..<unat (bm_size bmp)}" if "m < bm_size bmp"
    using that by (intro image_eqI [of _ _ "unat m"]) (auto simp: word_less_nat_alt)
  with c show "\<not> getbit (bitmask_clearall bmp) m"
    by (auto simp: bitmask_clearall_def getbit_iff)
qed

subsection \<open>A range ends unless its stride is zero\<close>

text \<open>
  A step at a processor number outside the mask lengthens the list, which is bounded; the other steps move
  through the mask in one direction.
\<close>

definition range_measure :: "u32 \<Rightarrow> u32 \<times> cpu_state \<Rightarrow> nat \<times> nat" where
  "range_measure s = (\<lambda>(a, st). (MAX_NUM_OF_CPUS - length (run_cpus st),
     if a < 4096 then (if s < 4096 then 4097 - unat a else unat a + 1) else 0))"

lemma next_in_mask:
  fixes a s :: u32
  assumes "s \<noteq> 0" "a < 4096" "a + s < 4096"
  shows "if s < 4096 then unat (a + s) > unat a else unat (a + s) < unat a"
proof -
  have n: "unat s \<noteq> 0" "unat s < 4294967296" "unat a < 4294967296"
    using assms(1) by (auto simp: word_unat_eq_iff)
  have m: "unat a < 4096" "unat (a + s) < 4096" using assms(2,3) by (simp_all add: word_less_nat_alt)
  have w: "unat (a + s) = (if unat a + unat s < 4294967296 then unat a + unat s else unat a + unat s - 4294967296)"
    using n by (simp add: unat_plus_if' [of a s])
  show ?thesis
  proof (cases "unat s < 4096")
    case True
    with n m w show ?thesis by (simp add: word_less_nat_alt)
  next
    case False
    with m w have "4294967296 \<le> unat a + unat s" "unat (a + s) = unat a + unat s - 4294967296" by (simp_all split: if_splits)
    with n(2) have "unat (a + s) < unat a" by linarith
    with False show ?thesis by (simp add: word_less_nat_alt)
  qed
qed

lemma add_range_step:
  assumes "s \<noteq> 0" "a \<le> b" "mask_ok (cpu_mask st)" "bm_size (cpu_mask st) = 4096"
    and "length (run_cpus st) < MAX_NUM_OF_CPUS \<or> getbit (cpu_mask st) a"
    and "st' = (if getbit (cpu_mask st) a then st\<lparr>cpu_mask := bitmask_setbit (cpu_mask st) a\<rparr>
      else st\<lparr>run_cpus := run_cpus st @ [a], cpu_mask := bitmask_setbit (cpu_mask st) a\<rparr>)"
  shows "(range_measure s (a + s, st'), range_measure s (a, st)) \<in> less_than <*lex*> less_than"
proof (cases "getbit (cpu_mask st) a")
  case True
  then have "a < 4096" using assms(4) by (simp add: getbit_iff)
  then show ?thesis
    using next_in_mask [OF assms(1), of a] True assms(6) by (auto simp: range_measure_def word_less_nat_alt split: if_splits)
next
  case False
  then show ?thesis using assms(5,6) by (auto simp: range_measure_def)
qed

lemma set_setbit [simp]:
  assumes "mask_ok bmp"
  shows "mask_ok (bitmask_setbit bmp a)" "bm_size (bitmask_setbit bmp a) = bm_size bmp"
    "getbit (bitmask_setbit bmp a) m \<longleftrightarrow> m = a \<and> a < bm_size bmp \<or> getbit bmp m"
  using setbit_props [OF assms, of a True] by (auto simp: bitmask_setbit_def getbit_iff split: if_splits)

lemma add_range_returns:
  assumes "s \<noteq> 0" "mask_ok (cpu_mask st)" "bm_size (cpu_mask st) = 4096"
  shows "\<exists>rc st'. add_range a b s st = Some (rc, st') \<and> mask_ok (cpu_mask st') \<and> bm_size (cpu_mask st') = 4096"
  using assms
proof (induction "range_measure s (a, st)" arbitrary: a st rule: wf_induct_rule [OF wf_lex_prod [OF wf_less_than wf_less_than]])
  case 1
  note step = add_range_step [OF "1.prems"(1) _ "1.prems"(2,3)]
  show ?case
  proof (cases "a \<le> b \<and> (getbit (cpu_mask st) a \<or> length (run_cpus st) < MAX_NUM_OF_CPUS)")
    case True
    define st' where "st' = (if getbit (cpu_mask st) a then st\<lparr>cpu_mask := bitmask_setbit (cpu_mask st) a\<rparr>
      else st\<lparr>run_cpus := run_cpus st @ [a], cpu_mask := bitmask_setbit (cpu_mask st) a\<rparr>)"
    have "add_range a b s st = add_range (a + s) b s st'"
      using True by (subst add_range.simps) (auto simp: st'_def bitmask_isbitset_def)
    with "1.hyps" [of "a + s" st'] step [of a b st'] True "1.prems" show ?thesis
      by (auto simp: st'_def split: if_splits)
  next
    case False
    then show ?thesis using "1.prems" by (subst add_range.simps) (auto simp: bitmask_isbitset_def)
  qed
qed

subsection \<open>The tokens of a list\<close>

text \<open>The positions at which the loop over the list starts a round.\<close>

function token_starts :: "string option \<Rightarrow> string list" where
  "token_starts None = []"
| "token_starts (Some p) = p # token_starts (nexttoken (Some p) CHR '','')"
  by pat_completeness auto
termination
proof (relation "measure (\<lambda>q. case q of None \<Rightarrow> 0 | Some p \<Rightarrow> Suc (length p))", goal_cases)
  case (2 p)
  then show ?case by (cases "nexttoken (Some p) CHR '',''") (auto dest: nexttoken_length)
qed simp

lemma cpuset_loop_returns:
  assumes "\<forall>p \<in> set (token_starts q). \<forall>a b. parse_range big p \<noteq> Some (a, b, 0)"
    and "mask_ok (cpu_mask st)" "bm_size (cpu_mask st) = 4096"
  shows "\<exists>rc st'. cpuset_loop big q st = Some (rc, st')"
  using assms
proof (induction q arbitrary: st rule: token_starts.induct)
  case (2 p)
  show ?case
  proof (cases "parse_range big p")
    case (Some r)
    obtain a b s where r: "r = (a, b, s)" by (cases r)
    with Some "2.prems"(1) have "s \<noteq> 0" by auto
    then obtain rc st' where st': "add_range a b s st = Some (rc, st')" "mask_ok (cpu_mask st')" "bm_size (cpu_mask st') = 4096"
      using add_range_returns [of s st a b] "2.prems"(2,3) by blast
    with "2.IH" [of st'] "2.prems"(1) Some r show ?thesis
      by (auto simp: cpuset_loop.simps)
  qed (simp add: cpuset_loop.simps)
qed (simp add: cpuset_loop.simps)

subsection \<open>Ranges inside the mask\<close>

text \<open>The processors a range describes, and the condition under which the loop visits exactly these.\<close>

fun stride_cpus :: "u32 \<times> u32 \<times> u32 \<Rightarrow> u32 list" where
  "stride_cpus (a, b, s) = map of_nat [n \<leftarrow> [unat a..<Suc (unat b)]. unat s dvd n - unat a]"

fun range_in_mask :: "(u32 \<times> u32 \<times> u32) option \<Rightarrow> bool" where
  "range_in_mask None = False"
| "range_in_mask (Some (a, b, s)) \<longleftrightarrow> a \<le> b \<and> b < 4096 \<and> 0 < s \<and> s < 4294963200"

definition first_occurrences :: "'a list \<Rightarrow> 'a list" where
  "first_occurrences xs = rev (remdups (rev xs))"

definition cpus_inv :: "cpu_state \<Rightarrow> bool" where
  "cpus_inv st \<longleftrightarrow> mask_ok (cpu_mask st) \<and> bm_size (cpu_mask st) = 4096 \<and> distinct (run_cpus st) \<and>
     (\<forall>m. getbit (cpu_mask st) m \<longleftrightarrow> m \<in> set (run_cpus st))"

lemma first_occurrences_snoc:
  "first_occurrences (xs @ [x]) = (if x \<in> set xs then first_occurrences xs else first_occurrences xs @ [x])"
  by (simp add: first_occurrences_def)

lemma first_occurrences_append:
  "first_occurrences (xs @ x # ys) =
     (if x \<in> set xs then first_occurrences (xs @ ys) else first_occurrences ((xs @ [x]) @ ys))"
  by (induction ys rule: rev_induct) (auto simp: first_occurrences_def)

lemma first_occurrences_idem [simp]:
  "set (first_occurrences xs) = set xs" "distinct (first_occurrences xs)"
  "first_occurrences (first_occurrences xs @ ys) = first_occurrences (xs @ ys)"
  by (simp_all add: first_occurrences_def remdups_append2)

lemma stride_step:
  fixes a b s :: nat
  assumes "0 < s" "a \<le> b"
  shows "[n \<leftarrow> [a..<Suc b]. s dvd n - a] = a # [n \<leftarrow> [a + s..<Suc b]. s dvd n - (a + s)]"
proof -
  have none: "[n \<leftarrow> [Suc a..<k]. s dvd n - a] = []" if "k \<le> a + s" for k
    using that by (auto simp: filter_empty_conv dest!: dvd_imp_le)
  have rest: "[n \<leftarrow> [a + s..<Suc b]. s dvd n - a] = [n \<leftarrow> [a + s..<Suc b]. s dvd n - (a + s)]"
    by (intro filter_cong) (auto simp: dvd_diff_nat simp flip: diff_diff_left
        intro: dvd_diffD [of s _ s] dest: dvd_diff_nat [of s _ s])
  have "[n \<leftarrow> [Suc a..<Suc b]. s dvd n - a] = [n \<leftarrow> [a + s..<Suc b]. s dvd n - a]"
  proof (cases "a + s \<le> Suc b")
    case True
    then have "[Suc a..<Suc b] = [Suc a..<a + s] @ [a + s..<Suc b]"
      using assms(1) by (metis Suc_leI add_Suc_right less_add_same_cancel1 ordered_cancel_comm_monoid_diff_class.add_diff_inverse upt_add_eq_append)
    with none [of "a + s"] show ?thesis by simp
  qed (use none [of "Suc b"] in simp)
  with rest have "a # [n \<leftarrow> [Suc a..<Suc b]. s dvd n - a] = a # [n \<leftarrow> [a + s..<Suc b]. s dvd n - (a + s)]" by simp
  moreover have "[a..<Suc b] = a # [Suc a..<Suc b]" using assms(2) by (simp add: upt_conv_Cons del: upt_Suc)
  ultimately show ?thesis by (simp del: upt_Suc)
qed

lemma stride_cpus_step:
  assumes "a \<le> b" "b < 4096" "0 < s" "s < 4294963200"
  shows "stride_cpus (a, b, s) = a # stride_cpus (a + s, b, s)"
proof -
  have n: "unat a \<le> unat b" "unat b < 4096" "0 < unat s" "unat s < 4294963200"
    using assms by (simp_all add: word_less_nat_alt word_le_nat_alt)
  then have "unat (a + s) = unat a + unat s" by (simp add: unat_plus_if' [of a s])
  with stride_step [OF n(3,1)] show ?thesis by (simp del: upt_Suc)
qed

lemma cpus_inv_getbit: "cpus_inv st \<Longrightarrow> getbit (cpu_mask st) m \<longleftrightarrow> m \<in> set (run_cpus st)"
  by (simp add: cpus_inv_def)

lemma cpus_inv_below: "cpus_inv st \<Longrightarrow> m \<in> set (run_cpus st) \<Longrightarrow> m < 4096"
  using getbit_iff [of "cpu_mask st" m] unfolding cpus_inv_def by metis

lemma distinct_cpus_length:
  fixes xs :: "u32 list"
  assumes "distinct xs" "\<And>m. m \<in> set xs \<Longrightarrow> m < 4096"
  shows "length xs \<le> 4096"
proof -
  have "unat ` set xs \<subseteq> {..<4096}" using assms(2) by (auto simp: word_less_nat_alt)
  then have "card (unat ` set xs) \<le> 4096" using card_mono [OF finite_lessThan [of 4096]] by simp
  moreover have "card (unat ` set xs) = length xs"
    using distinct_card [OF assms(1)] card_image [of unat "set xs"] by (simp add: inj_on_def word_unat_eq_iff)
  ultimately show ?thesis by simp
qed

lemma cpus_inv_length: "cpus_inv st \<Longrightarrow> length (run_cpus st) \<le> MAX_NUM_OF_CPUS"
  using distinct_cpus_length [of "run_cpus st"] cpus_inv_below [of st] by (simp add: cpus_inv_def MAX_NUM_OF_CPUS_def)

lemma cpus_inv_room: "cpus_inv st \<Longrightarrow> a < 4096 \<Longrightarrow> a \<notin> set (run_cpus st) \<Longrightarrow> length (run_cpus st) < MAX_NUM_OF_CPUS"
proof -
  assume i: "cpus_inv st" and a: "a < 4096" "a \<notin> set (run_cpus st)"
  have "length (a # run_cpus st) \<le> 4096"
    using i a cpus_inv_below [OF i] by (intro distinct_cpus_length) (auto simp: cpus_inv_def)
  then show ?thesis by (simp add: MAX_NUM_OF_CPUS_def)
qed

lemma add_range_in_mask:
  assumes "b < 4096" "0 < s" "s < 4294963200" "cpus_inv st" "run_cpus st = first_occurrences L"
  shows "\<exists>st'. add_range a b s st = Some (CS_OK, st') \<and> cpus_inv st' \<and> run_cpus st' = first_occurrences (L @ stride_cpus (a, b, s))"
  using assms
proof (induction "Suc (unat b) - unat a" arbitrary: a st L rule: less_induct)
  case less
  show ?case
  proof (cases "a \<le> b")
    case True
    define st' where "st' = (if a \<in> set L then st\<lparr>cpu_mask := bitmask_setbit (cpu_mask st) a\<rparr>
      else st\<lparr>run_cpus := run_cpus st @ [a], cpu_mask := bitmask_setbit (cpu_mask st) a\<rparr>)"
    have a: "a < 4096" using True less.prems(1) by simp
    have inv: "cpus_inv st'" "run_cpus st' = first_occurrences (L @ [a])"
      using less.prems(4,5) a by (auto simp: cpus_inv_def st'_def first_occurrences_snoc)
    have "add_range a b s st = add_range (a + s) b s st'"
      using True less.prems(4,5) cpus_inv_room [OF less.prems(4) a]
      by (subst add_range.simps) (auto simp: st'_def bitmask_isbitset_def cpus_inv_getbit first_occurrences_snoc)
    moreover have "Suc (unat b) - unat (a + s) < Suc (unat b) - unat a"
    proof -
      have "unat a \<le> unat b" "unat b < 4096" "0 < unat s" "unat s < 4294963200"
        using True less.prems(1-3) by (simp_all add: word_less_nat_alt word_le_nat_alt)
      moreover from this have "unat (a + s) = unat a + unat s" by (simp add: unat_plus_if' [of a s])
      ultimately show ?thesis by linarith
    qed
    ultimately show ?thesis
      using less.hyps [of "a + s" st' "L @ [a]"] inv less.prems(1-3) stride_cpus_step [OF True less.prems(1-3)]
      by simp
  next
    case False
    then have "stride_cpus (a, b, s) = []" by (simp add: word_le_nat_alt)
    with False less.prems(4,5) show ?thesis by (subst add_range.simps) simp
  qed
qed

lemma cpuset_loop_in_mask:
  assumes "\<forall>p \<in> set (token_starts q). range_in_mask (parse_range big p)"
    and "cpus_inv st" "run_cpus st = first_occurrences L"
  shows "\<exists>st'. cpuset_loop big q st = Some (CS_OK, st') \<and> cpus_inv st' \<and>
    run_cpus st' = first_occurrences (L @ concat (map (\<lambda>p. stride_cpus (the (parse_range big p))) (token_starts q)))"
  using assms
proof (induction q arbitrary: st L rule: token_starts.induct)
  case (2 p)
  then obtain a b s where r: "parse_range big p = Some (a, b, s)" "a \<le> b" "b < 4096" "0 < s" "s < 4294963200"
    by (cases "parse_range big p") auto
  obtain st' where st': "add_range a b s st = Some (CS_OK, st')" "cpus_inv st'"
      "run_cpus st' = first_occurrences (L @ stride_cpus (a, b, s))"
    using add_range_in_mask [OF r(3-5) "2.prems"(2,3)] by blast
  from "2.IH" [OF _ st'(2,3)] "2.prems"(1) r(1,2) st'(1) show ?case
    by (auto simp: cpuset_loop.simps simp del: stride_cpus.simps)
qed (simp add: cpuset_loop.simps)

text \<open>The state in which the list is read: no processor yet, and a cleared mask.\<close>

definition no_cpus :: "cpu_state \<Rightarrow> cpu_state" where
  "no_cpus st = st\<lparr>run_cpus := [], cpu_mask := bitmask_clearall \<lparr>bm_size = 4096, maskp = replicate 128 0\<rparr>\<rparr>"

lemma no_cpus_inv: "cpus_inv (no_cpus st)" "run_cpus (no_cpus st) = []"
proof -
  have "mask_ok \<lparr>bm_size = 4096, maskp = replicate 128 0\<rparr>"
    by (simp add: mask_ok_def longsperbits_def bitsperlong_def)
  from clearall_props [OF this] show "cpus_inv (no_cpus st)" "run_cpus (no_cpus st) = []"
    by (simp_all add: no_cpus_def cpus_inv_def)
qed

lemma add_run_cpus_eq:
  "add_run_cpus big True q st = (case cpuset_loop big q (no_cpus st) of
       None \<Rightarrow> None
     | Some (rc, st) \<Rightarrow> Some (case rc of CS_OK \<Rightarrow> Continue st | CS_Error \<Rightarrow> Exit_1 | CS_Overflow \<Rightarrow> Out_Of_Bounds))"
  by (simp add: add_run_cpus_def bitmask_alloc_def cstr_to_cpuset_def no_cpus_def longsperbits_def bitsperlong_def
      MAX_NUM_OF_CPUS_def)

subsection \<open>Where the list is read wrongly\<close>

definition zero_stride :: "u32 \<Rightarrow> u32 \<Rightarrow> u32 \<Rightarrow> cpu_state \<Rightarrow> bool" where
  "zero_stride a b s st \<longleftrightarrow> s = 0 \<and> a \<le> b \<and> mask_ok (cpu_mask st) \<and> a < bm_size (cpu_mask st) \<and>
     (getbit (cpu_mask st) a \<or> length (run_cpus st) < MAX_NUM_OF_CPUS)"

lemma zero_stride_step:
  assumes "zero_stride a b s st"
  shows "zero_stride (a + s) b s (st\<lparr>cpu_mask := bitmask_setbit (cpu_mask st) a\<rparr>)"
    "zero_stride (a + s) b s (st\<lparr>run_cpus := xs, cpu_mask := bitmask_setbit (cpu_mask st) a\<rparr>)"
    "a \<le> b" "\<not> bitmask_isbitset (cpu_mask st) a \<Longrightarrow> length (run_cpus st) < MAX_NUM_OF_CPUS"
  using assms by (auto simp: zero_stride_def bitmask_isbitset_def)

lemma zero_stride_never_returns:
  assumes "zero_stride a b s st"
  shows "add_range a b s st = None"
proof (rule ccontr)
  assume "add_range a b s st \<noteq> None"
  then obtain r where "add_range a b s st = Some r" by auto
  then have "\<not> zero_stride a b s st"
  proof (rule add_range.raw_induct [where P = "\<lambda>a b s st r. \<not> zero_stride a b s st", rotated])
    fix ar a b s st r
    assume IH: "\<And>a b s st r. ar a b s st = Some r \<Longrightarrow> \<not> zero_stride a b s st"
      and eq: "(if a \<le> b then
        if \<not> bitmask_isbitset (cpu_mask st) a then
          if length (run_cpus st) < MAX_NUM_OF_CPUS
          then ar (a + s) b s (st\<lparr>run_cpus := run_cpus st @ [a], cpu_mask := bitmask_setbit (cpu_mask st) a\<rparr>)
          else Some (CS_Overflow, st)
        else ar (a + s) b s (st\<lparr>cpu_mask := bitmask_setbit (cpu_mask st) a\<rparr>)
      else Some (CS_OK, st)) = Some r"
    show "\<not> zero_stride a b s st"
    proof
      assume "zero_stride a b s st"
      from eq IH zero_stride_step [OF this] show False
        by (cases "bitmask_isbitset (cpu_mask st) a") (simp_all, blast+)
    qed
  qed
  with assms show False by simp
qed

lemma full_range_overflows:
  assumes "n \<le> 4096" "cpus_inv st" "run_cpus st = map of_nat [0..<n]"
  shows "\<exists>st'. add_range (of_nat n) 4096 1 st = Some (CS_Overflow, st')"
  using assms
proof (induction "4096 - n" arbitrary: n st)
  case 0
  then have "\<not> getbit (cpu_mask st) 4096" "length (run_cpus st) = 4096" by (simp_all add: cpus_inv_def getbit_iff)
  with 0 show ?case by (subst add_range.simps) (simp add: bitmask_isbitset_def MAX_NUM_OF_CPUS_def)
next
  case (Suc k)
  have u: "unat (of_nat m :: u32) = m" if "m \<le> n" for m
    using that Suc.hyps(2) by (simp add: unat_of_nat)
  have "of_nat n \<noteq> (of_nat m :: u32)" if "m < n" for m
    using u [of m] u [of n] that by (metis less_imp_le less_irrefl order_refl)
  then have new: "of_nat n \<notin> set (run_cpus st)" using Suc.prems(3) by fastforce
  define st' where "st' = st\<lparr>run_cpus := run_cpus st @ [of_nat n], cpu_mask := bitmask_setbit (cpu_mask st) (of_nat n)\<rparr>"
  have lt: "of_nat n < (4096 :: u32)" using u Suc.hyps(2) by (simp add: word_less_nat_alt)
  have inv: "cpus_inv st'" using Suc.prems(2) new lt by (auto simp: cpus_inv_def st'_def)
  have "add_range (of_nat n) 4096 1 st = add_range (of_nat n + 1) 4096 1 st'"
    using new lt Suc.prems(2,3) Suc.hyps(2)
    by (subst add_range.simps) (auto simp: st'_def bitmask_isbitset_def cpus_inv_getbit MAX_NUM_OF_CPUS_def)
  with Suc.hyps(1) [of "Suc n" st'] Suc.hyps(2) inv show ?case
    by (simp add: st'_def Suc.prems(3) add.commute)
qed

subsection \<open>The properties\<close>

lemmas cpu_eval = parse_range_def scan_unsigned_def nexttoken_def before_def isspace_def isdigit_def digits_value_def

lemma sample_list:
  "parse_range big ''0,7-9:2,8'' = Some (0, 0, 1)" "parse_range big ''7-9:2,8'' = Some (7, 9, 2)" "parse_range big ''8'' = Some (8, 8, 1)"
  "token_starts (Some ''0,7-9:2,8'') = [''0,7-9:2,8'', ''7-9:2,8'', ''8'']"
  by (simp_all add: cpu_eval)

lemma fork_cpus_all: "(\<And>i. se_fork_ok e i) \<Longrightarrow> fork_cpus e idx cpus = (0, filter (run_on e) cpus)"
  by (induction cpus arbitrary: idx) simp_all

definition start_ok :: "start_env \<Rightarrow> bool" where
  "start_ok e \<longleftrightarrow> se_malloc_ok e \<and> se_sync_cp e = 0 \<and> 256 \<le> se_cache_size e \<and> se_init_global e = 0 \<and> se_fork_ok e = (\<lambda>_. True)"

text \<open>Every call succeeds, but the memories of processor 9 cannot be initialised.\<close>

definition sample_env :: start_env where
  "sample_env = \<lparr>se_big = (\<lambda>_. 0), se_malloc_ok = True, se_sync_cp = 0, se_cache_size = 512, se_init_global = 0, se_fork_ok = (\<lambda>_. True),
     se_init_local = (\<lambda>cpu. if cpu = 9 then 1 else 0), se_frame_init_local = (\<lambda>_. 0)\<rparr>"

lemma dp_main_list:
  assumes "se_malloc_ok e"
  shows "dp_main e [''--run_cpus'', str] st = None \<longleftrightarrow> cpuset_loop (se_big e) (Some str) (no_cpus st) = None"
    "(\<exists>st'. cpuset_loop (se_big e) (Some str) (no_cpus st) = Some (CS_Overflow, st')) \<Longrightarrow> dp_main e [''--run_cpus'', str] st = Some Out_Of_Bounds"
  using assms by (auto simp: dp_main_def add_run_cpus_eq split: option.splits cpuset_rc.splits)

text \<open>
  C39. Reading the list of processors ends, whatever the list is, when none of its ranges has the stride
  zero: the loop over a range is bounded by the size of the mask and of the array, also where \<open>a += s\<close> wraps
  around.  A list that begins with a range of stride zero is accepted, and the program never gets past it.
\<close>

theorem cpu_list_returns:
  assumes "se_malloc_ok e"
  shows "((\<forall>p \<in> set (token_starts (Some str)). \<forall>a b. parse_range (se_big e) p \<noteq> Some (a, b, 0)) \<longrightarrow>
      (\<exists>r. dp_main e [''--run_cpus'', str] st = Some r)) \<and>
    (\<forall>a b. parse_range (se_big e) str = Some (a, b, 0) \<and> a \<le> b \<and> b < 4096 \<longrightarrow> dp_main e [''--run_cpus'', str] st = None)"
proof (intro conjI allI impI)
  assume "\<forall>p \<in> set (token_starts (Some str)). \<forall>a b. parse_range (se_big e) p \<noteq> Some (a, b, 0)"
  from cpuset_loop_returns [OF this, of "no_cpus st"] no_cpus_inv [of st] have "cpuset_loop (se_big e) (Some str) (no_cpus st) \<noteq> None"
    by (auto simp: cpus_inv_def)
  with dp_main_list(1) [OF assms, of str st] show "\<exists>r. dp_main e [''--run_cpus'', str] st = Some r" by blast
next
  fix a b
  assume r: "parse_range (se_big e) str = Some (a, b, 0) \<and> a \<le> b \<and> b < 4096"
  then have "zero_stride a b 0 (no_cpus st)"
    using no_cpus_inv [of st] by (auto simp: zero_stride_def cpus_inv_def MAX_NUM_OF_CPUS_def)
  then have "cpuset_loop (se_big e) (Some str) (no_cpus st) = None"
    using r by (simp add: cpuset_loop.simps zero_stride_never_returns)
  with dp_main_list(1) [OF assms] show "dp_main e [''--run_cpus'', str] st = None" by blast
qed

theorem cpu_list_returns_witness:
  "(\<exists>r. dp_main sample_env [''--run_cpus'', ''0,7-9:2,8''] \<lparr>run_cpus = [], cpu_mask = \<lparr>bm_size = 0, maskp = []\<rparr>\<rparr> = Some r) \<and>
   dp_main sample_env [''--run_cpus'', ''1-3:0''] \<lparr>run_cpus = [], cpu_mask = \<lparr>bm_size = 0, maskp = []\<rparr>\<rparr> = None"
proof -
  have "se_malloc_ok sample_env" "parse_range (se_big sample_env) ''1-3:0'' = Some (1, 3, 0)" by (simp_all add: sample_env_def cpu_eval)
  with cpu_list_returns [of sample_env "''0,7-9:2,8''"] cpu_list_returns [of sample_env "''1-3:0''"] show ?thesis
    by (simp add: sample_list del: token_starts.simps parse_arguments.simps)
qed

text \<open>
  C40. A list whose ranges lie below the number of processors is accepted, and packet processing is started
  on exactly the processors that its ranges describe and whose memories can be initialised, on each of them once and in the order
  of the list.  Only the failure of a single processor is reported by the exit code.  The bound is sharp: a number that does not
  fit the mask is accepted but never marked, and the list \<^verbatim>\<open>0-4096\<close> makes the program write behind its array.
\<close>

theorem cpu_list_starts_each_once:
  assumes "\<forall>p \<in> set (token_starts (Some str)). range_in_mask (parse_range (se_big e) p)" "start_ok e"
  defines "cpus \<equiv> first_occurrences (concat (map (\<lambda>p. stride_cpus (the (parse_range (se_big e) p))) (token_starts (Some str))))"
  shows "dp_main e [''--run_cpus'', str] st =
      Some (if length cpus = 1 \<and> filter (run_on e) cpus = [] then Exit_1 else Continue (0, filter (run_on e) cpus)) \<and>
    distinct cpus \<and> length cpus \<le> MAX_NUM_OF_CPUS \<and> dp_main e [''--run_cpus'', ''0-4096''] st = Some Out_Of_Bounds"
proof -
  obtain st' where st': "cpuset_loop (se_big e) (Some str) (no_cpus st) = Some (CS_OK, st')" "cpus_inv st'" "run_cpus st' = cpus"
    using cpuset_loop_in_mask [OF assms(1) no_cpus_inv(1), of st "[]"] no_cpus_inv(2)
    by (auto simp: first_occurrences_def cpus_def simp del: token_starts.simps stride_cpus.simps)
  have f: "fork_cpus e 0 cpus = (0, filter (run_on e) cpus)" using assms(2) by (intro fork_cpus_all) (simp add: start_ok_def)
  have one: "cpus = [hd cpus]" if "length cpus = 1" using that by (cases cpus) auto
  have "parse_arguments (se_big e) (se_malloc_ok e) [''--run_cpus'', str] False st = Some (Continue (True, st'))"
    using st'(1) assms(2) by (simp add: add_run_cpus_eq start_ok_def)
  then have "dp_main e [''--run_cpus'', str] st =
      Some (if length cpus = 1 then run_single e (hd cpus) else Continue (0, filter (run_on e) cpus))"
    using assms(2) st'(3) f by (simp add: dp_main_def start_ok_def not_less [symmetric] del: parse_arguments.simps)
  also have "\<dots> = Some (if length cpus = 1 \<and> filter (run_on e) cpus = [] then Exit_1 else Continue (0, filter (run_on e) cpus))"
  proof (cases "length cpus = 1")
    case True
    then obtain cpu where "cpus = [cpu]" using one by blast
    then show ?thesis by (simp add: run_single_def)
  qed simp
  finally have main: "dp_main e [''--run_cpus'', str] st =
      Some (if length cpus = 1 \<and> filter (run_on e) cpus = [] then Exit_1 else Continue (0, filter (run_on e) cpus))" .
  obtain st1 where "add_range 0 4096 1 (no_cpus st) = Some (CS_Overflow, st1)"
    using full_range_overflows [OF _ no_cpus_inv(1), of 0] no_cpus_inv(2) by auto
  moreover have "parse_range (se_big e) ''0-4096'' = Some (0, 4096, 1)" by (simp add: cpu_eval)
  ultimately have "dp_main e [''--run_cpus'', ''0-4096''] st = Some Out_Of_Bounds"
    using assms(2) by (intro dp_main_list(2)) (simp_all add: cpuset_loop.simps start_ok_def)
  with main show ?thesis using cpus_inv_length [OF st'(2)] st'(2,3) by (simp add: cpus_inv_def)
qed

theorem cpu_list_starts_each_once_witness:
  "dp_main sample_env [''--run_cpus'', ''0,7-9:2,8''] \<lparr>run_cpus = [], cpu_mask = \<lparr>bm_size = 0, maskp = []\<rparr>\<rparr> = Some (Continue (0, [0, 7, 8]))"
  using cpu_list_starts_each_once [of "''0,7-9:2,8''" sample_env "\<lparr>run_cpus = [], cpu_mask = \<lparr>bm_size = 0, maskp = []\<rparr>\<rparr>"]
  by (auto simp add: sample_list first_occurrences_def upt_rec start_ok_def sample_env_def run_on_def simp del: token_starts.simps parse_arguments.simps)

end
