(* ===== verification/Dp_Log.thy ===== *)
theory Dp_Log
  imports Sync_Master
begin

text \<open>
  Logging of the data plane, \<^verbatim>\<open>src/dp/log.c\<close>, \<^verbatim>\<open>src/dp/log.h\<close> and \<^verbatim>\<open>src/dp/alvs_log.c\<close>: a message is sent to the
  syslog daemon of the host in a UDP datagram of at most three buffers, and a token bucket limits how many
  messages are sent.

  In this theory the fields \<open>frame\<close> and \<open>frame_data\<close> of a state stand for those of the syslog work area, which is
  separate from the frame that the thread processes.  Sending a message looks up the host interface and
  logs a message of its own when the lookup fails, so \<open>write_log\<close> calls itself; the fuel bounds how deep
  it does, and \<open>None\<close> is the outcome of a deeper nesting.  Lengths are natural numbers: formatting a
  message does not fail.
\<close>

subsection \<open>Constants and strings\<close>

definition SYSLOG_UDP_SERVER_PORT :: u16 where "SYSLOG_UDP_SERVER_PORT = 514"
definition SYSLOG_PRI_FACILITY_STRING_SIZE :: nat where "SYSLOG_PRI_FACILITY_STRING_SIZE = 4"
definition SYSLOG_APPLIC_NAME_STRING_SIZE :: nat where "SYSLOG_APPLIC_NAME_STRING_SIZE = 10"
definition SYSLOG_BUF_DATA_SIZE :: nat where "SYSLOG_BUF_DATA_SIZE = 64"
definition SYSLOG_FIRST_BUFFER_SIZE :: nat where "SYSLOG_FIRST_BUFFER_SIZE = 32"
definition SYSLOG_MAX_NUM_OF_BUF :: nat where "SYSLOG_MAX_NUM_OF_BUF = 3"
definition SYSLOG_CPU_STRING_SIZE :: nat where "SYSLOG_CPU_STRING_SIZE = 6"
definition SYSLOG_SERVER_IP :: in_addr_t where "SYSLOG_SERVER_IP = 0xA9FE2A29"
definition SYSLOG_CLIENT_IP :: in_addr_t where "SYSLOG_CLIENT_IP = 0xA9FE2A2A"
definition SYSLOG_CLIENT_ETH_ADDR :: "u8 list" where "SYSLOG_CLIENT_ETH_ADDR = [0x00, 0x02, 0xc9, 0x42, 0x42, 0x43]"
definition LOG_CRIT :: nat where "LOG_CRIT = 2"
definition LOG_NOTICE :: nat where "LOG_NOTICE = 5"
definition EACCES :: u32 where "EACCES = 13"

definition bytes_of :: "string \<Rightarrow> u8 list" where "bytes_of s = map of_char s"

definition ptr_pri_facility :: "u8 list list" where
  "ptr_pri_facility = map bytes_of [''<24>'', ''<25>'', ''<26>'', ''<27>'', ''<28>'', ''<29>'', ''<30>'', ''<31>'']"

definition digit :: "nat \<Rightarrow> char" where "digit n = ''0123456789'' ! (n mod 10)"

definition cpu_string :: "nat \<Rightarrow> string" where
  "cpu_string n = ''<'' @ [digit (n div 1000), digit (n div 100), digit (n div 10), digit n] @ ''>''"

text \<open>The table of 4096 strings in the source, which numbers the processors up to a few entries.\<close>

definition ptr_cpus :: "nat \<Rightarrow> u8 list" where
  "ptr_cpus n = bytes_of (cpu_string
     (if n \<in> {101, 102, 103, 104, 106, 107, 108, 109} then n - 100 else if n = 206 then 2006 else n))"

subsection \<open>State\<close>

record syslog_info =
  applic_name :: "u8 list"
  applic_name_size :: nat
  send_cb_set :: bool
  dest_port :: u16
  dest_ip :: in_addr_t
  src_ip :: in_addr_t
  remained_length_for_user_string :: nat

text \<open>The rest of the environment: the colour that the token bucket gives, and the number of the processor.\<close>

record log_env =
  le_dp :: dp_env
  tb_green :: "nat \<Rightarrow> bool"
  cpu_id :: nat

definition log_assert :: "bool \<Rightarrow> dp_state \<Rightarrow> dp_state" where
  "log_assert b st = (if b then st else st\<lparr>blocked := True\<rparr>)"

subsection \<open>Opening the log\<close>

text \<open>The result is \<open>None\<close> when an assertion fails.\<close>

definition open_log :: "syslog_info \<Rightarrow> syslog_info \<Rightarrow> (bool \<times> syslog_info) option" where
  "open_log user_syslog_info info =
     (if \<not> send_cb_set user_syslog_info then Some (False, info)
      else
        let size = min (applic_name_size user_syslog_info) SYSLOG_APPLIC_NAME_STRING_SIZE;
            info = info\<lparr>applic_name_size := size,
              applic_name := take size (applic_name user_syslog_info) @ drop size (applic_name info),
              send_cb_set := True, dest_ip := dest_ip user_syslog_info, src_ip := src_ip user_syslog_info,
              dest_port := dest_port user_syslog_info\<rparr>
        in if SYSLOG_PRI_FACILITY_STRING_SIZE + size + SYSLOG_CPU_STRING_SIZE \<le> SYSLOG_BUF_DATA_SIZE \<and>
              IPHDR_SIZE + UDPHDR_SIZE \<le> SYSLOG_FIRST_BUFFER_SIZE
           then Some (True, info\<lparr>remained_length_for_user_string :=
                  SYSLOG_BUF_DATA_SIZE - SYSLOG_PRI_FACILITY_STRING_SIZE - size - SYSLOG_CPU_STRING_SIZE\<rparr>)
           else None)"

definition alvs_open_log :: "syslog_info \<Rightarrow> (bool \<times> syslog_info) option" where
  "alvs_open_log info =
     open_log \<lparr>applic_name = bytes_of '' alvs_dp '' @ [0], applic_name_size = 9, send_cb_set = True,
               dest_port = SYSLOG_UDP_SERVER_PORT, dest_ip = SYSLOG_SERVER_IP, src_ip = SYSLOG_CLIENT_IP,
               remained_length_for_user_string = 0\<rparr> info"

subsection \<open>Building a frame\<close>

definition set_syslog_template :: "log_env \<Rightarrow> syslog_info \<Rightarrow> nat \<Rightarrow> dp_state \<Rightarrow> dp_state" where
  "set_syslog_template e info total_frame_length st =
     (let st = write_data 0 ([0x45, 0] @ bytes16 (of_nat (IPHDR_SIZE + UDPHDR_SIZE + total_frame_length)) @
            bytes16 0x6dad @ bytes16 0x4000 @ [255, ucast IPPROTO_UDP] @ bytes16 0 @ bytes32 (src_ip info) @ bytes32 (dest_ip info)) st;
          st = write_data IPHDR_SIZE (bytes16 (dest_port info) @ bytes16 (dest_port info) @
            bytes16 (of_nat (UDPHDR_SIZE + total_frame_length)) @ bytes16 0) st
      in write_data 10 (bytes16 (ipv4_checksum (le_dp e) (bytes_at (le_dp e) st 0 IPHDR_SIZE))) st)"

text \<open>The priority, the name of the application and the processor, at the beginning of the work area.\<close>

definition put_prefix :: "log_env \<Rightarrow> syslog_info \<Rightarrow> nat \<Rightarrow> dp_state \<Rightarrow> dp_state" where
  "put_prefix e info priority st =
     write_data (SYSLOG_PRI_FACILITY_STRING_SIZE + applic_name_size info) (ptr_cpus (cpu_id e))
       (write_data SYSLOG_PRI_FACILITY_STRING_SIZE (take (applic_name_size info) (applic_name info))
         (write_data 0 (ptr_pri_facility ! priority) st))"

definition prefix_size :: "syslog_info \<Rightarrow> nat" where
  "prefix_size info = SYSLOG_PRI_FACILITY_STRING_SIZE + applic_name_size info + SYSLOG_CPU_STRING_SIZE"

text \<open>The end of both ways to send a message: the frame is handed to the callback, and freed when that fails.\<close>

definition finish_frame :: "log_env \<Rightarrow> (dp_state \<Rightarrow> (u32 \<times> dp_state) option) \<Rightarrow> dp_state \<Rightarrow> (u32 \<times> dp_state) option" where
  "finish_frame e send st =
     (let (rc, st) = ezframe_first_buf (le_dp e) st in
      if rc \<noteq> 0 then Some (rc, ezframe_free st)
      else case send st of
             None \<Rightarrow> None
           | Some (rc, st) \<Rightarrow> if rc \<noteq> 0 then Some (rc, ezframe_free st) else Some (0, st))"

definition send_special_message :: "log_env \<Rightarrow> syslog_info \<Rightarrow> (dp_state \<Rightarrow> (u32 \<times> dp_state) option) \<Rightarrow> u8 list \<Rightarrow>
    dp_state \<Rightarrow> (u32 \<times> dp_state) option" where
  "send_special_message e info send str st =
     (let (rc, st) = ezframe_new (le_dp e) NET_HDR_SIZE st in
      if rc \<noteq> 0 then Some (1, st)
      else
        let st = put_prefix e info LOG_NOTICE st;
            st = log_assert (length str \<le> remained_length_for_user_string info) st;
            buf_len = min (length str) (remained_length_for_user_string info);
            st = write_data (prefix_size info) (take buf_len str) st;
            (rc, st) = ezframe_append_buf (le_dp e) (SYSLOG_BUF_DATA_SIZE - remained_length_for_user_string info + buf_len) st
        in if rc \<noteq> 0 then Some (rc, ezframe_free st) else finish_frame e send st)"

subsection \<open>The token bucket\<close>

definition color_flag_addr :: "log_env \<Rightarrow> ezdp_sum_addr" where
  "color_flag_addr e = push_bit 31 (EZDP_EXTERNAL_MS (le_dp e)) OR push_bit 27 USER_ON_DEMAND_STATS_MSID OR
     of_nat EMEM_STATS_ON_DEMAND_COLOR_FLAG_OFFSET"

definition back_to_normal_str :: "u8 list" where
  "back_to_normal_str = bytes_of ''LOG_MSG: Back to normal logging'' @ [0]"

definition notice_str :: "u8 list" where
  "notice_str = bytes_of ''LOG_MSG: Logging overloaded-logs are dropped'' @ [0]"

definition token_bucket :: "log_env \<Rightarrow> syslog_info \<Rightarrow> (dp_state \<Rightarrow> (u32 \<times> dp_state) option) \<Rightarrow> dp_state \<Rightarrow> (u32 \<times> dp_state) option" where
  "token_bucket e info send st =
     (let green = tb_green e (dp_clock st); st = dp_tick st;
          flag = on_demand_ctr (sh st) (color_flag_addr e)
      in if green then
           let st = sh_update (on_demand_ctr_update (\<lambda>c. c(color_flag_addr e := 0))) st in
           if flag \<noteq> 0 then
             let st = set_syslog_template e info (prefix_size info + length back_to_normal_str) st in
             case send_special_message e info send back_to_normal_str st of
               None \<Rightarrow> None
             | Some (rc, st) \<Rightarrow> Some (if rc \<noteq> 0 then 1 else 0, st)
           else Some (0, st)
         else
           let st = ezdp_add_single_ctr (color_flag_addr e) 1 st in
           if flag = 0 then
             let st = set_syslog_template e info (prefix_size info + length notice_str) st in
             map_option (\<lambda>(rc, st). (1, st)) (send_special_message e info send notice_str st)
           else Some (1, st))"

subsection \<open>Messages\<close>

text \<open>How much of the message fits the buffers of a frame.\<close>

function user_string_loop :: "nat \<Rightarrow> nat \<Rightarrow> nat \<Rightarrow> nat" where
  "user_string_loop len user_string_length num_of_bufs =
     (if 0 < len - user_string_length \<and> num_of_bufs < SYSLOG_MAX_NUM_OF_BUF
      then user_string_loop len (user_string_length + min (len - user_string_length) SYSLOG_BUF_DATA_SIZE) (num_of_bufs + 1)
      else user_string_length)"
  by pat_completeness auto
termination by (relation "measure (\<lambda>(len, u, n). SYSLOG_MAX_NUM_OF_BUF - n)") auto

declare user_string_loop.simps [simp del]

function append_user_bufs :: "log_env \<Rightarrow> u8 list \<Rightarrow> nat \<Rightarrow> nat \<Rightarrow> dp_state \<Rightarrow> u32 \<times> dp_state" where
  "append_user_bufs e str len num_of_bufs st =
     (if 0 < len \<and> num_of_bufs < SYSLOG_MAX_NUM_OF_BUF
      then
        let buf_len = min len SYSLOG_BUF_DATA_SIZE;
            (rc, st) = ezframe_append_buf (le_dp e) buf_len (write_data 0 (take buf_len str) st)
        in if rc \<noteq> 0 then (rc, ezframe_free st)
           else append_user_bufs e (drop buf_len str) (len - buf_len) (num_of_bufs + 1) st
      else (0, st))"
  by pat_completeness auto
termination by (relation "measure (\<lambda>(e, str, len, n, st). SYSLOG_MAX_NUM_OF_BUF - n)") auto

declare append_user_bufs.simps [simp del]

definition write_log_frame :: "log_env \<Rightarrow> syslog_info \<Rightarrow> (dp_state \<Rightarrow> (u32 \<times> dp_state) option) \<Rightarrow> nat \<Rightarrow> u8 list \<Rightarrow>
    nat \<Rightarrow> dp_state \<Rightarrow> dp_state option" where
  "write_log_frame e info send priority str len st =
     (let user_string_length = user_string_loop len (min (remained_length_for_user_string info) len) 2;
          st = set_syslog_template e info (prefix_size info + user_string_length) st;
          (rc, st) = ezframe_new (le_dp e) NET_HDR_SIZE st
      in if rc \<noteq> 0 then Some st
         else
           let st = put_prefix e info priority st;
               buf_len = min len (remained_length_for_user_string info);
               st = write_data (prefix_size info) (take buf_len str) st;
               (rc, st) = ezframe_append_buf (le_dp e) (SYSLOG_BUF_DATA_SIZE - remained_length_for_user_string info + buf_len) st
           in if rc \<noteq> 0 then Some (ezframe_free st)
              else
                let (rc, st) = append_user_bufs e (drop buf_len str) (len - buf_len) 2 st in
                if rc \<noteq> 0 then Some st else map_option snd (finish_frame e send st))"

subsection \<open>Sending to the host\<close>

definition host_lookup_message :: "u8 list" where
  "host_lookup_message = bytes_of ''error - host interface lookup fail!''"

definition nw_interface_get_host_mac_address :: "log_env \<Rightarrow> (nat \<Rightarrow> u8 list \<Rightarrow> nat \<Rightarrow> dp_state \<Rightarrow> dp_state option) \<Rightarrow>
    dp_state \<Rightarrow> (u8 list option \<times> dp_state) option" where
  "nw_interface_get_host_mac_address e log st =
     (let (rc, st) = nw_interface_lookup_host (le_dp e) st in
      if rc \<noteq> 0 then map_option (\<lambda>st. (None, st)) (log LOG_CRIT (host_lookup_message @ [0]) (length host_lookup_message) st)
      else Some (Some (nir_mac_address (host_interface_result st)), st))"

text \<open>The buffer is loaded behind the room for the Ethernet header.\<close>

definition syslog_load_buf :: "dp_state \<Rightarrow> nat \<times> dp_state" where
  "syslog_load_buf st =
     (if fr_live (frame st) \<and> fr_pos (frame st) < length (fr_bufs (frame st))
      then let b = fr_bufs (frame st) ! fr_pos (frame st) in (length b, write_data SYSLOG_FIRST_BUFFER_SIZE b st)
      else (0, st\<lparr>frame_faults := Suc (frame_faults st)\<rparr>))"

definition syslog_store_buf :: "log_env \<Rightarrow> u8 list \<Rightarrow> dp_state \<Rightarrow> u32 \<times> dp_state" where
  "syslog_store_buf e buf st =
     (if frame_rc (le_dp e) (dp_clock st) \<noteq> 0 then (frame_rc (le_dp e) (dp_clock st), dp_tick st)
      else (0, ezframe_store_buf buf (dp_tick st)))"

definition alvs_send :: "log_env \<Rightarrow> (nat \<Rightarrow> u8 list \<Rightarrow> nat \<Rightarrow> dp_state \<Rightarrow> dp_state option) \<Rightarrow> dp_state \<Rightarrow> (u32 \<times> dp_state) option" where
  "alvs_send e log st =
     (let (rc, st) = ezframe_first_buf (le_dp e) st in
      if rc \<noteq> 0 then Some (rc, st)
      else
        let (orig_length, st) = syslog_load_buf st;
            eth = SYSLOG_FIRST_BUFFER_SIZE - ETHER_HEADER_SIZE;
            st = write_data (eth + 12) (bytes16 0x0800) (write_data (eth + 6) SYSLOG_CLIENT_ETH_ADDR st)
        in case nw_interface_get_host_mac_address e log st of
             None \<Rightarrow> None
           | Some (None, st) \<Rightarrow> Some (- EACCES, st)
           | Some (Some my_mac, st) \<Rightarrow>
               let st = write_data eth my_mac st;
                   (rc, st) = syslog_store_buf e (bytes_at (le_dp e) st eth (orig_length + ETHER_HEADER_SIZE)) st
               in if rc \<noteq> 0 then Some (rc, st)
                  else Some (0, ezframe_send_to_if (nir_output_channel (host_interface_result st)) st))"

fun write_log :: "log_env \<Rightarrow> syslog_info \<Rightarrow> nat \<Rightarrow> nat \<Rightarrow> u8 list \<Rightarrow> nat \<Rightarrow> dp_state \<Rightarrow> dp_state option" where
  "write_log e info 0 priority str len st = None"
| "write_log e info (Suc depth) priority str len st =
     (case token_bucket e info (alvs_send e (write_log e info depth)) st of
        None \<Rightarrow> None
      | Some (rc, st) \<Rightarrow>
          if rc \<noteq> 0 then Some st
          else write_log_frame e info (alvs_send e (write_log e info depth)) priority str len st)"

text \<open>The macro that formats a message; a message longer than the buffer is cut, but its full length is passed on.\<close>

definition LOGMASK_UPTO :: nat where "LOGMASK_UPTO = 6"

definition alvs_write_log :: "log_env \<Rightarrow> syslog_info \<Rightarrow> nat \<Rightarrow> nat \<Rightarrow> u8 list \<Rightarrow> dp_state \<Rightarrow> dp_state option" where
  "alvs_write_log e info depth priority msg st =
     (if priority \<le> LOGMASK_UPTO
      then write_log e info depth priority (take (EZFRAME_BUF_DATA_SIZE (le_dp e) - 1) msg @ [0]) (length msg) st
      else Some st)"

end
