(* ===== verification/Dp_Log_Props.thy ===== *)
theory Dp_Log_Props
  imports Dp_Log Dp_Example
begin

text \<open>
  Properties of the logging of the data plane.  The locale \<open>syslog_sender\<close> is the contract of the callback
  that sends a frame: it takes the frame exactly when it reports success.  Under this contract every
  frame that is created for a message is sent or freed, whatever fails on the way.
\<close>

subsection \<open>Frames of the work area\<close>

definition owned :: "dp_state \<Rightarrow> bool" where
  "owned st \<longleftrightarrow> fr_live (frame st) \<and> fr_bufs (frame st) \<noteq> []"

text \<open>What the steps between the calls on frames leave alone.\<close>

definition log_view :: "dp_state \<Rightarrow> ezframe \<times> nat \<times> (u32 \<rightharpoonup> nw_if_result) \<times> (u8 \<times> u8 list list) list" where
  "log_view st = (frame st, frame_faults st, interfaces (sh st), tx st)"

named_theorems log_frame_simps

lemma log_view_steps [log_frame_simps]:
  "log_view (write_data off bs st) = log_view st"
  "log_view (dp_tick st) = log_view st"
  "log_view (log_assert b st) = log_view st"
  "log_view (set_syslog_template e info n st) = log_view st"
  "log_view (put_prefix e info p st) = log_view st"
  by (simp_all add: log_view_def write_data_def dp_tick_def log_assert_def set_syslog_template_def put_prefix_def Let_def)

lemma log_view_fields:
  assumes "log_view st' = log_view st"
  shows "frame st' = frame st" "frame_faults st' = frame_faults st" "interfaces (sh st') = interfaces (sh st)" "tx st' = tx st"
  using assms by (simp_all add: log_view_def)

lemmas log_view_frame [log_frame_simps] = log_view_steps [THEN log_view_fields(1)]
lemmas log_view_faults [log_frame_simps] = log_view_steps [THEN log_view_fields(2)]
lemmas log_view_interfaces [log_frame_simps] = log_view_steps [THEN log_view_fields(3)]

text \<open>A step keeps the account of frames: no fault is added and the interface table is the same.\<close>

definition clean :: "dp_state \<Rightarrow> dp_state \<Rightarrow> bool" where
  "clean st st' \<longleftrightarrow> frame_faults st' = frame_faults st \<and> interfaces (sh st') = interfaces (sh st)"

lemma clean_refl: "clean st st"
  by (simp add: clean_def)

lemma clean_trans: "clean st st' \<Longrightarrow> clean st' st'' \<Longrightarrow> clean st st''"
  by (simp add: clean_def)

lemma clean_free: "fr_live (frame st) \<Longrightarrow> clean st (ezframe_free st) \<and> \<not> fr_live (frame (ezframe_free st))"
  by (simp add: ezframe_free_def clean_def)

lemma clean_new:
  assumes "\<not> fr_live (frame st)" "ezframe_new e n st = (rc, st')"
  shows "clean st st'" "rc = 0 \<Longrightarrow> owned st'" "rc \<noteq> 0 \<Longrightarrow> \<not> fr_live (frame st')"
  using assms by (auto simp: ezframe_new_def clean_def owned_def log_frame_simps split: if_splits)

lemma clean_append:
  assumes "owned st" "ezframe_append_buf e n st = (rc, st')"
  shows "clean st st'" "owned st'"
  using assms by (auto simp: ezframe_append_buf_def clean_def owned_def log_frame_simps split: if_splits)

lemma clean_first:
  assumes "owned st" "ezframe_first_buf e st = (rc, st')"
  shows "clean st st'" "owned st'" "rc = 0 \<Longrightarrow> fr_pos (frame st') = 0"
  using assms by (auto simp: ezframe_first_buf_def clean_def owned_def log_frame_simps split: if_splits)

lemma clean_steps [log_frame_simps]:
  "clean st (write_data off bs st')  = clean st st'" "clean st (dp_tick st')  = clean st st'" "clean st (log_assert b st')  = clean st st'"
  "clean st (set_syslog_template e info n st')  = clean st st'" "clean st (put_prefix e info p st')  = clean st st'"
  by (simp_all add: clean_def log_frame_simps)

lemma owned_steps [log_frame_simps]:
  "owned (write_data off bs st) = owned st" "owned (dp_tick st) = owned st" "owned (log_assert b st) = owned st"
  "owned (set_syslog_template e info n st) = owned st" "owned (put_prefix e info p st) = owned st"
  by (simp_all add: owned_def log_frame_simps)

lemma clean_append_user_bufs:
  assumes "owned st" "append_user_bufs e str len n st = (rc, st')"
  shows "clean st st' \<and> (rc = 0 \<longrightarrow> owned st') \<and> (rc \<noteq> 0 \<longrightarrow> \<not> fr_live (frame st'))"
  using assms
proof (induction e str len n st arbitrary: rc st' rule: append_user_bufs.induct)
  case (1 e str len n st)
  let ?w = "write_data 0 (take (min len SYSLOG_BUF_DATA_SIZE) str) st"
  obtain rc1 st1 where a: "ezframe_append_buf (le_dp e) (min len SYSLOG_BUF_DATA_SIZE) ?w = (rc1, st1)" by fastforce
  have o: "owned ?w" using "1.prems"(1) by (simp add: log_frame_simps)
  note ca = clean_append [OF o a]
  have c: "clean st st1" using ca(1) by (simp add: clean_def log_frame_simps)
  have f: "clean st1 (ezframe_free st1)" "\<not> fr_live (frame (ezframe_free st1))"
    using clean_free [of st1] ca(2) by (simp_all add: owned_def)
  show ?case
    using "1.prems" "1.IH" [OF _ refl a [symmetric] refl] a ca(2) c f
    by (subst (asm) append_user_bufs.simps) (auto simp: clean_refl Let_def intro: clean_trans split: if_splits)
qed

subsection \<open>The contract of the sending callback\<close>

definition settled :: "dp_state \<Rightarrow> (u32 \<times> dp_state) option \<Rightarrow> bool" where
  "settled st r \<longleftrightarrow> (\<exists>rc st'. r = Some (rc, st') \<and> clean st st' \<and> \<not> fr_live (frame st'))"

lemma settled_clean: "clean st st' \<Longrightarrow> settled st' r \<Longrightarrow> settled st r"
  by (auto simp: settled_def intro: clean_trans)

lemma settled_free: "clean st st' \<Longrightarrow> owned st' \<Longrightarrow> settled st (Some (rc, ezframe_free st'))"
  using clean_free [of st'] by (auto simp: settled_def owned_def intro: clean_trans)

locale syslog_sender =
  fixes send :: "dp_state \<Rightarrow> (u32 \<times> dp_state) option" and ready :: "(u32 \<rightharpoonup> nw_if_result) \<Rightarrow> bool"
  assumes send_takes_frame: "ready (interfaces (sh st)) \<Longrightarrow> owned st \<Longrightarrow> fr_pos (frame st) = 0 \<Longrightarrow>
    \<exists>rc st'. send st = Some (rc, st') \<and> clean st st' \<and> (rc = 0 \<longrightarrow> \<not> fr_live (frame st')) \<and> (rc \<noteq> 0 \<longrightarrow> owned st')"
begin

lemma finish_settles:
  assumes "ready (interfaces (sh st))" "owned st"
  shows "settled st (finish_frame e send st)"
proof -
  obtain rc st1 where f: "ezframe_first_buf (le_dp e) st = (rc, st1)" by fastforce
  note c = clean_first [OF assms(2) f]
  show ?thesis
  proof (cases "rc = 0")
    case True
    have "ready (interfaces (sh st1))" using assms(1) c(1) by (simp add: clean_def)
    from send_takes_frame [OF this c(2) c(3) [OF True]] obtain rc2 st2
      where s: "send st1 = Some (rc2, st2)" "clean st1 st2" "rc2 = 0 \<Longrightarrow> \<not> fr_live (frame st2)" "rc2 \<noteq> 0 \<Longrightarrow> owned st2"
      by blast
    have "clean st st2" using c(1) s(2) by (rule clean_trans)
    then show ?thesis
      using True f s settled_free [of st st2 rc2] by (cases "rc2 = 0") (auto simp: finish_frame_def settled_def)
  next
    case False
    then show ?thesis using f settled_free [OF c(1,2)] by (simp add: finish_frame_def)
  qed
qed

text \<open>Whatever is added to a frame after it is created, the frame is settled in the end.\<close>

lemma append_settles:
  assumes "ready (interfaces (sh st))" "owned st"
  shows "settled st (let (rc, st) = ezframe_append_buf (le_dp e) n st in
    if rc \<noteq> 0 then Some (rc, ezframe_free st) else finish_frame e send st)"
proof -
  obtain rc st1 where a: "ezframe_append_buf (le_dp e) n st = (rc, st1)" by fastforce
  note c = clean_append [OF assms(2) a]
  have "ready (interfaces (sh st1))" using assms(1) c(1) by (simp add: clean_def)
  from finish_settles [OF this c(2)] show ?thesis
    using a settled_free [OF c] settled_clean [OF c(1)] by simp
qed

lemma special_settles:
  assumes "ready (interfaces (sh st))" "\<not> fr_live (frame st)"
  shows "settled st (send_special_message e info send str st)"
proof -
  obtain rc st1 where n: "ezframe_new (le_dp e) NET_HDR_SIZE st = (rc, st1)" by fastforce
  note c = clean_new [OF assms(2) n]
  let ?w = "write_data (prefix_size info) (take (min (length str) (remained_length_for_user_string info)) str)
    (log_assert (length str \<le> remained_length_for_user_string info) (put_prefix e info LOG_NOTICE st1))"
  have "ready (interfaces (sh ?w))" "clean st ?w" using assms(1) c(1) by (simp_all add: clean_def log_frame_simps)
  moreover have "rc = 0 \<Longrightarrow> owned ?w" using c(2) by (simp add: log_frame_simps)
  ultimately show ?thesis
    using n c settled_clean [OF _ append_settles, of st ?w e]
    by (auto simp: send_special_message_def Let_def settled_def [of st "Some (1, st1)"])
qed

lemma bucket_settles:
  assumes "ready (interfaces (sh st))" "\<not> fr_live (frame st)"
  shows "settled st (token_bucket e info send st)"
proof -
  have special: "settled st (send_special_message e info send str (set_syslog_template e info n st'))"
    if "clean st st'" "frame st' = frame st" for st' str n
    using special_settles [of "set_syslog_template e info n st'" e info str] that assms
    by (intro settled_clean [of st "set_syslog_template e info n st'"]) (simp_all add: log_frame_simps clean_def)
  have map: "settled st r \<Longrightarrow> settled st (case r of None \<Rightarrow> None | Some (rc, st) \<Rightarrow> Some (f rc, st))"
      "settled st r \<Longrightarrow> settled st (map_option (\<lambda>(rc, st). (1, st)) r)" for r f
    by (auto simp: settled_def)
  have "settled st (Some (rc, dp_tick st))" for rc using assms(2) by (simp add: settled_def clean_refl log_frame_simps)
  show ?thesis
    using assms(2) unfolding token_bucket_def Let_def
    by (auto intro!: map special simp: settled_def [of st "Some _"] clean_def log_frame_simps ezdp_add_single_ctr_def)
qed

lemma frame_settles:
  assumes "ready (interfaces (sh st))" "\<not> fr_live (frame st)"
  shows "\<exists>st'. write_log_frame e info send priority str len st = Some st' \<and> clean st st' \<and> \<not> fr_live (frame st')"
proof -
  define u where "u = prefix_size info + user_string_loop len (min (remained_length_for_user_string info) len) 2"
  define b where "b = min len (remained_length_for_user_string info)"
  let ?t = "set_syslog_template e info u st"
  obtain rc st1 where n: "ezframe_new (le_dp e) NET_HDR_SIZE ?t = (rc, st1)" by fastforce
  have "\<not> fr_live (frame ?t)" using assms(2) by (simp add: log_frame_simps)
  note cn = clean_new [OF this n]
  let ?w = "write_data (prefix_size info) (take b str) (put_prefix e info priority st1)"
  obtain rc2 st2 where a: "ezframe_append_buf (le_dp e) (SYSLOG_BUF_DATA_SIZE - remained_length_for_user_string info + b) ?w = (rc2, st2)"
    by fastforce
  obtain rc3 st3 where l: "append_user_bufs e (drop b str) (len - b) 2 st2 = (rc3, st3)" by fastforce
  have eq: "write_log_frame e info send priority str len st =
      (if rc \<noteq> 0 then Some st1 else if rc2 \<noteq> 0 then Some (ezframe_free st2)
       else if rc3 \<noteq> 0 then Some st3 else map_option snd (finish_frame e send st3))"
    using n a l by (simp add: write_log_frame_def Let_def u_def b_def)
  have c1: "clean st st1" using cn(1) by (simp add: clean_def log_frame_simps)
  show ?thesis
  proof (cases "rc = 0")
    case True
    then have "owned ?w" "clean st ?w" using cn(2) c1 by (simp_all add: log_frame_simps)
    from clean_append [OF this(1) a] clean_trans [OF this(2)] have c2: "clean st st2" "owned st2" by blast+
    note c3 = clean_append_user_bufs [OF c2(2) l]
    have "settled st (finish_frame e send st3)" if "rc3 = 0"
      using that c3 c2(1) assms(1)
      by (intro settled_clean [OF clean_trans [OF c2(1)] finish_settles]) (auto simp: clean_def)
    then show ?thesis
      using eq True c2 c3 settled_free [OF c2, of rc2] by (auto simp: settled_def intro: clean_trans)
  qed (use eq cn(3) c1 in simp)
qed

end

text \<open>The host interface is in the table, and lookups do not fail.\<close>

definition host_present :: "log_env \<Rightarrow> (u32 \<rightharpoonup> nw_if_result) \<Rightarrow> bool" where
  "host_present e ifs \<longleftrightarrow> (\<forall>k. lookup_rc (le_dp e) k = 0) \<and> ifs (ucast USER_HOST_LOGICAL_ID) \<noteq> None"

lemma host_mac_found:
  assumes "host_present e (interfaces (sh st))"
  shows "\<exists>h. interfaces (sh st) (ucast USER_HOST_LOGICAL_ID) = Some h \<and>
    nw_interface_get_host_mac_address e log st = Some (Some (nir_mac_address h), (dp_tick st)\<lparr>host_interface_result := h\<rparr>)"
  using assms
  by (auto simp: host_present_def nw_interface_get_host_mac_address_def nw_interface_lookup_host_def ezdp_lookup_def)

interpretation host: syslog_sender "alvs_send e log" "host_present e" for e log
proof (unfold_locales, goal_cases)
  case (1 st)
  obtain rc st1 where f: "ezframe_first_buf (le_dp e) st = (rc, st1)" by fastforce
  note c = clean_first [OF 1(2) f]
  show ?case
  proof (cases "rc = 0")
    case True
    define eth where "eth = SYSLOG_FIRST_BUFFER_SIZE - ETHER_HEADER_SIZE"
    obtain n st2 where l: "syslog_load_buf st1 = (n, st2)" by fastforce
    have c2: "clean st st2" "owned st2"
      using l c c(3) [OF True] by (auto simp: syslog_load_buf_def owned_def clean_def log_frame_simps Let_def split: if_splits)
    define st3 where "st3 = write_data (eth + 12) (bytes16 0x0800) (write_data (eth + 6) SYSLOG_CLIENT_ETH_ADDR st2)"
    have "host_present e (interfaces (sh st3))" using 1(1) c2(1) by (simp add: st3_def log_frame_simps clean_def)
    then obtain h where h: "nw_interface_get_host_mac_address e log st3 =
        Some (Some (nir_mac_address h), (dp_tick st3)\<lparr>host_interface_result := h\<rparr>)" using host_mac_found by blast
    define st4 where "st4 = write_data eth (nir_mac_address h) ((dp_tick st3)\<lparr>host_interface_result := h\<rparr>)"
    have c4: "clean st st4" "owned st4" using c2 by (auto simp: st4_def st3_def clean_def owned_def log_frame_simps)
    obtain rc5 st5 where s: "syslog_store_buf e (bytes_at (le_dp e) st4 eth (n + ETHER_HEADER_SIZE)) st4 = (rc5, st5)" by fastforce
    have c5: "clean st st5" "owned st5"
      using s c4 by (auto simp: syslog_store_buf_def ezframe_store_buf_def clean_def owned_def log_frame_simps split: if_splits)
    have "alvs_send e log st = (if rc5 \<noteq> 0 then Some (rc5, st5)
        else Some (0, ezframe_send_to_if (nir_output_channel (host_interface_result st5)) st5))"
      using f True l h s by (simp add: alvs_send_def Let_def eth_def [symmetric] st3_def [symmetric] st4_def [symmetric])
    then show ?thesis using c5 by (auto simp: ezframe_send_to_if_def clean_def owned_def)
  next
    case False
    then show ?thesis using f c by (auto simp: alvs_send_def)
  qed
qed

text \<open>
  C36. Logging leaves no frame behind: with the host interface in its table, a message is handled without
  logging another one, and whichever of the calls that create, extend, rewind, store or send the frame
  fails, every frame of the work area has been sent or freed exactly once at the end.
\<close>

theorem log_frames_settled:
  assumes "\<forall>k. lookup_rc (le_dp e) k = 0" "interfaces (sh st) (ucast USER_HOST_LOGICAL_ID) \<noteq> None" "\<not> fr_live (frame st)"
  shows "\<exists>st'. write_log e info (Suc depth) priority str len st = Some st' \<and>
    \<not> fr_live (frame st') \<and> frame_faults st' = frame_faults st"
proof -
  have ready: "host_present e (interfaces (sh st))" using assms(1,2) by (simp add: host_present_def)
  obtain rc st1 where b: "token_bucket e info (alvs_send e (write_log e info depth)) st = Some (rc, st1)"
      "clean st st1" "\<not> fr_live (frame st1)"
    using host.bucket_settles [OF ready assms(3)] unfolding settled_def by blast
  have "host_present e (interfaces (sh st1))" using ready b(2) by (simp add: clean_def)
  from host.frame_settles [OF this b(3)] b show ?thesis
    by (fastforce simp: clean_def)
qed

definition log_example :: dp_state where
  "log_example = sh_update (interfaces_update (\<lambda>m. m(ucast USER_HOST_LOGICAL_ID \<mapsto> zero_if\<lparr>nir_output_channel := 7\<rparr>)))
     (idle_state\<lparr>frame_data := replicate 64 0\<rparr>)"

definition log_example_env :: log_env where
  "log_example_env = \<lparr>le_dp = plain_env, tb_green = (\<lambda>_. True), cpu_id = 16\<rparr>"

theorem log_frames_settled_witness:
  "\<exists>st'. write_log log_example_env (snd (the (alvs_open_log \<lparr>applic_name = replicate 10 0, applic_name_size = 0, send_cb_set = False,
       dest_port = 0, dest_ip = 0, src_ip = 0, remained_length_for_user_string = 0\<rparr>))) 1 6 (bytes_of ''started'') 7 log_example = Some st' \<and>
     \<not> fr_live (frame st') \<and> frame_faults st' = 0"
  using log_frames_settled [of log_example_env log_example _ 0]
  by (simp add: log_example_def log_example_env_def idle_state_def plain_env_def empty_shared_def)

subsection \<open>The frame of a message\<close>

text \<open>The IPv4 and UDP headers of a datagram with \<open>n\<close> bytes for the syslog daemon.\<close>

definition syslog_headers :: "log_env \<Rightarrow> nat \<Rightarrow> u8 list" where
  "syslog_headers e n =
     (let ip1 = [0x45, 0] @ bytes16 (of_nat (28 + n)) @ bytes16 0x6dad @ bytes16 0x4000 @ [255, 17];
          ip2 = bytes32 SYSLOG_CLIENT_IP @ bytes32 SYSLOG_SERVER_IP
      in ip1 @ bytes16 (ipv4_checksum (le_dp e) (ip1 @ bytes16 0 @ ip2)) @ ip2 @
         bytes16 514 @ bytes16 514 @ bytes16 (of_nat (8 + n)) @ bytes16 0)"

text \<open>The text of a message: priority, application and processor, and the part of the message that fits.\<close>

definition syslog_text :: "log_env \<Rightarrow> nat \<Rightarrow> u8 list \<Rightarrow> u8 list" where
  "syslog_text e priority msg = ptr_pri_facility ! priority @ bytes_of '' alvs_dp '' @ ptr_cpus (cpu_id e) @ take 109 msg"

lemmas syslog_sizes = SYSLOG_PRI_FACILITY_STRING_SIZE_def SYSLOG_APPLIC_NAME_STRING_SIZE_def SYSLOG_BUF_DATA_SIZE_def
  SYSLOG_FIRST_BUFFER_SIZE_def SYSLOG_MAX_NUM_OF_BUF_def SYSLOG_CPU_STRING_SIZE_def ETHER_HEADER_SIZE_def IPHDR_SIZE_def
  UDPHDR_SIZE_def NET_HDR_SIZE_def

lemma length_bytes [simp]: "length (bytes16 x) = 2" "length (bytes32 y) = 4" "length (bytes_of s) = length s" "length (ptr_cpus c) = 6"
  by (simp_all add: bytes16_def bytes32_def bytes_of_def ptr_cpus_def cpu_string_def)

lemma length_pri_facility [simp]: "p \<le> 7 \<Longrightarrow> length (ptr_pri_facility ! p) = 4"
  by (cases p; simp add: ptr_pri_facility_def bytes_of_def nth_Cons split: nat.splits)

lemma opened_log:
  assumes "alvs_open_log i0 = Some (True, info)"
  shows "applic_name_size info = 9" "take 9 (applic_name info) = bytes_of '' alvs_dp ''" "dest_port info = 514"
    "dest_ip info = SYSLOG_SERVER_IP" "src_ip info = SYSLOG_CLIENT_IP" "remained_length_for_user_string info = 45"
    "prefix_size info = 19"
  using assms
  by (auto simp: alvs_open_log_def open_log_def syslog_sizes SYSLOG_UDP_SERVER_PORT_def prefix_size_def bytes_of_def)

lemma bytes_at_prefix: "length (frame_data st) \<ge> off + n \<Longrightarrow> bytes_at e st off n = take n (drop off (frame_data st))"
  by (rule nth_equalityI) (auto simp: bytes_at_def)

lemma frame_data_write [simp]: "frame_data (write_data off bs st) = take off (frame_data st) @ bs @ drop (off + length bs) (frame_data st)"
  by (simp add: write_data_def overwrite_def)

lemma write_data_frame [simp]: "frame (write_data off bs st) = frame st" "dp_clock (write_data off bs st) = dp_clock st" "sh (write_data off bs st) = sh st"
  "tx (write_data off bs st) = tx st"
  by (simp_all add: write_data_def)

lemma template_data:
  assumes "alvs_open_log i0 = Some (True, info)" "length (frame_data st) = 64"
  shows "frame_data (set_syslog_template e info n st) = syslog_headers e n @ drop 28 (frame_data st)"
    "frame (set_syslog_template e info n st) = frame st" "dp_clock (set_syslog_template e info n st) = dp_clock st"
    "sh (set_syslog_template e info n st) = sh st" "tx (set_syslog_template e info n st) = tx st"
  using assms(2) opened_log [OF assms(1)]
  by (simp_all add: set_syslog_template_def syslog_headers_def Let_def syslog_sizes bytes_at_prefix IPPROTO_UDP_def)

lemma length_headers [simp]: "length (syslog_headers e n) = 28"
  by (simp add: syslog_headers_def Let_def)

lemma prefix_data:
  assumes "alvs_open_log i0 = Some (True, info)" "length (frame_data st) = 64" "p \<le> 7"
  shows "frame_data (put_prefix e info p st) = ptr_pri_facility ! p @ bytes_of '' alvs_dp '' @ ptr_cpus (cpu_id e) @ drop 19 (frame_data st)"
    "frame (put_prefix e info p st) = frame st" "dp_clock (put_prefix e info p st) = dp_clock st"
    "sh (put_prefix e info p st) = sh st" "tx (put_prefix e info p st) = tx st"
  using assms(2,3) opened_log [OF assms(1)] by (simp_all add: put_prefix_def syslog_sizes)

lemma user_string_fits: "user_string_loop len (min 45 len) 2 = min len 109"
  by (simp add: user_string_loop.simps [of len _ 2] user_string_loop.simps [of len _ 3] syslog_sizes min_def, arith)

lemma user_bufs_appended:
  assumes "\<And>k. frame_rc (le_dp e) k = 0" "fr_live (frame st)" "length (frame_data st) = 64" "n \<le> length str"
  shows "\<exists>st'. append_user_bufs e str n 2 st = (0, st') \<and> fr_live (frame st') \<and> tx st' = tx st \<and> sh st' = sh st \<and>
    length (frame_data st') = 64 \<and>
    fr_bufs (frame st') = fr_bufs (frame st) @ (if n = 0 then [] else [take (min n 64) str])"
proof -
  have stop: "append_user_bufs e s k 3 st' = (0, st')" for s k st'
    by (subst append_user_bufs.simps) (simp add: syslog_sizes)
  show ?thesis
    using assms
    by (subst append_user_bufs.simps) (auto simp: syslog_sizes ezframe_append_buf_def Let_def stop dp_tick_def min_def)
qed

lemma alvs_send_frame:
  assumes "\<And>k. frame_rc (le_dp e) k = 0" "\<And>k. lookup_rc (le_dp e) k = 0"
    and "interfaces (sh st) (ucast USER_HOST_LOGICAL_ID) = Some h" "length (nir_mac_address h) = 6"
    and "fr_live (frame st)" "fr_bufs (frame st) = hdr # bufs" "length hdr = 28" "length (frame_data st) = 64"
  shows "\<exists>st'. alvs_send e log st = Some (0, st') \<and> \<not> fr_live (frame st') \<and>
    tx st' = tx st @ [(nir_output_channel h, (nir_mac_address h @ SYSLOG_CLIENT_ETH_ADDR @ bytes16 0x0800 @ hdr) # bufs)]"
proof -
  have f: "ezframe_first_buf (le_dp e) st = (0, frame_update (fr_pos_update (\<lambda>_. 0)) (dp_tick st))"
    using assms(1) by (simp add: ezframe_first_buf_def)
  define st1 where "st1 = write_data 32 hdr (frame_update (fr_pos_update (\<lambda>_. 0)) (dp_tick st))"
  define st2 where "st2 = write_data 30 (bytes16 0x0800) (write_data 24 SYSLOG_CLIENT_ETH_ADDR st1)"
  have l: "syslog_load_buf (frame_update (fr_pos_update (\<lambda>_. 0)) (dp_tick st)) = (28, st1)"
    using assms(5-7) by (simp add: syslog_load_buf_def st1_def dp_tick_def syslog_sizes)
  have i: "interfaces (sh st2) (ucast USER_HOST_LOGICAL_ID) = Some h"
    using assms(3) by (simp add: st2_def st1_def dp_tick_def)
  then have m: "nw_interface_get_host_mac_address e log st2 =
      Some (Some (nir_mac_address h), (dp_tick st2)\<lparr>host_interface_result := h\<rparr>)"
    using host_mac_found [of e st2 log] assms(2) by (auto simp: host_present_def)
  define st3 where "st3 = write_data 18 (nir_mac_address h) ((dp_tick st2)\<lparr>host_interface_result := h\<rparr>)"
  have b: "bytes_at (le_dp e) st3 18 42 = nir_mac_address h @ SYSLOG_CLIENT_ETH_ADDR @ bytes16 0x0800 @ hdr"
    using assms(4,7,8) by (simp add: bytes_at_prefix st3_def st2_def st1_def dp_tick_def SYSLOG_CLIENT_ETH_ADDR_def)
  have fr: "frame st3 = (frame st)\<lparr>fr_pos := 0\<rparr>" "tx st3 = tx st" "host_interface_result st3 = h"
    by (simp_all add: st3_def st2_def st1_def dp_tick_def write_data_def)
  have "alvs_send e log st = (let (rc, st') = syslog_store_buf e (bytes_at (le_dp e) st3 18 42) st3 in
      if rc \<noteq> 0 then Some (rc, st') else Some (0, ezframe_send_to_if (nir_output_channel (host_interface_result st')) st'))"
    using f l m by (simp add: alvs_send_def Let_def syslog_sizes st2_def [symmetric] st3_def [symmetric])
  then show ?thesis
    using assms(1,5,6) b fr by (simp add: syslog_store_buf_def ezframe_store_buf_def ezframe_send_to_if_def dp_tick_def)
qed

lemma message_frame:
  assumes "alvs_open_log i0 = Some (True, info)" "\<And>k. frame_rc (le_dp e) k = 0"
    and "\<not> fr_live (frame st)" "length (frame_data st) = 64" "priority \<le> 7" "len \<le> length str"
  shows "\<exists>st' bufs. (\<forall>send. write_log_frame e info send priority str len st = map_option snd (finish_frame e send st')) \<and>
    fr_live (frame st') \<and> tx st' = tx st \<and> interfaces (sh st') = interfaces (sh st) \<and> length (frame_data st') = 64 \<and>
    fr_bufs (frame st') = syslog_headers e (length (syslog_text e priority (take len str))) # bufs \<and>
    concat bufs = syslog_text e priority (take len str) \<and> length bufs \<le> 2"
proof -
  note o = opened_log [OF assms(1)]
  define b where "b = min len 45"
  define text1 where "text1 = ptr_pri_facility ! priority @ bytes_of '' alvs_dp '' @ ptr_cpus (cpu_id e) @ take b str"
  have n: "length (syslog_text e priority (take len str)) = 19 + min len 109"
    using assms(5,6) by (simp add: syslog_text_def min_def)
  obtain st2 where st2: "ezframe_new (le_dp e) 28 (set_syslog_template e info (19 + min len 109) st) = (0, st2)"
      "fr_live (frame st2)" "fr_bufs (frame st2) = [syslog_headers e (19 + min len 109)]" "length (frame_data st2) = 64"
      "tx st2 = tx st" "interfaces (sh st2) = interfaces (sh st)"
    using assms(2-4) template_data [OF assms(1,4), of e "19 + min len 109"] by (simp add: ezframe_new_def dp_tick_def)
  note p = prefix_data [OF assms(1) st2(4) assms(5), of e]
  define w where "w = write_data 19 (take b str) (put_prefix e info priority st2)"
  obtain st3 where st3: "ezframe_append_buf (le_dp e) (19 + b) w = (0, st3)" "fr_live (frame st3)"
      "fr_bufs (frame st3) = [syslog_headers e (19 + min len 109), text1]" "length (frame_data st3) = 64" "tx st3 = tx st"
      "interfaces (sh st3) = interfaces (sh st)"
    using assms(2,5,6) p st2(2-6) by (auto simp: w_def ezframe_append_buf_def dp_tick_def text1_def b_def min_def)
  obtain st4 where st4: "append_user_bufs e (drop b str) (len - b) 2 st3 = (0, st4)" "fr_live (frame st4)" "tx st4 = tx st3"
      "sh st4 = sh st3" "length (frame_data st4) = 64"
      "fr_bufs (frame st4) = fr_bufs (frame st3) @ (if len - b = 0 then [] else [take (min (len - b) 64) (drop b str)])"
    using user_bufs_appended [OF assms(2) st3(2,4), of "len - b" "drop b str"] diff_le_mono [OF assms(6), of b] by auto
  have eq: "write_log_frame e info send priority str len st = map_option snd (finish_frame e send st4)" for send
    using st2(1) st3(1) st4(1) o user_string_fits [of len]
    by (simp add: write_log_frame_def Let_def syslog_sizes b_def [symmetric] w_def [symmetric] min.commute [of _ len])
  have "text1 @ take (min (len - b) 64) (drop b str) = syslog_text e priority (take len str)"
  proof -
    have "b + min (len - b) 64 = min 109 len" by (simp add: b_def min_def, arith)
    then show ?thesis using take_add [of b "min (len - b) 64" str] by (simp add: text1_def syslog_text_def)
  qed
  then show ?thesis
    using eq st3(3,5,6) st4(2-6) n
    by (intro exI [of _ st4] exI [of _ "text1 # (if len - b = 0 then [] else [take (min (len - b) 64) (drop b str)])"]) (auto split: if_splits)
qed

text \<open>
  C37. What the syslog daemon receives.  After the log has been opened, and while the token bucket gives
  green and no overload has been reported, a message is sent to the host in one frame: the Ethernet
  header with the addresses of the host and of the client, the IPv4 and UDP headers whose length fields
  count exactly the text, and the text, in at most two further buffers: priority, application and processor,
  and the first 109 bytes of the message.
\<close>

theorem log_message_sent:
  assumes "alvs_open_log i0 = Some (True, info)"
    and "\<forall>k. frame_rc (le_dp e) k = 0 \<and> lookup_rc (le_dp e) k = 0"
    and "interfaces (sh st) (ucast USER_HOST_LOGICAL_ID) = Some h" "length (nir_mac_address h) = 6"
    and "tb_green e (dp_clock st)" "on_demand_ctr (sh st) (color_flag_addr e) = 0"
    and "\<not> fr_live (frame st)" "length (frame_data st) = 64" "priority \<le> 7" "len \<le> length str"
  shows "\<exists>st' bufs. write_log e info (Suc depth) priority str len st = Some st' \<and>
    tx st' = tx st @ [(nir_output_channel h, (nir_mac_address h @ SYSLOG_CLIENT_ETH_ADDR @ bytes16 0x0800 @
      syslog_headers e (length (syslog_text e priority (take len str)))) # bufs)] \<and>
    concat bufs = syslog_text e priority (take len str) \<and> length bufs \<le> 2"
proof -
  define st1 where "st1 = sh_update (on_demand_ctr_update (\<lambda>c. c(color_flag_addr e := 0))) (dp_tick st)"
  have tb: "token_bucket e info send st = Some (0, st1)" for send
    using assms(5,6) by (simp add: token_bucket_def Let_def st1_def dp_tick_def)
  have "\<not> fr_live (frame st1)" "length (frame_data st1) = 64"
    using assms(7,8) by (simp_all add: st1_def dp_tick_def)
  from message_frame [OF assms(1) _ this assms(9,10), of e] assms(2) obtain st2 bufs where st2:
      "\<And>send. write_log_frame e info send priority str len st1 = map_option snd (finish_frame e send st2)"
      "fr_live (frame st2)" "tx st2 = tx st1" "interfaces (sh st2) = interfaces (sh st1)" "length (frame_data st2) = 64"
      "fr_bufs (frame st2) = syslog_headers e (length (syslog_text e priority (take len str))) # bufs"
      "concat bufs = syslog_text e priority (take len str)" "length bufs \<le> 2" by blast
  define st3 where "st3 = frame_update (fr_pos_update (\<lambda>_. 0)) (dp_tick st2)"
  have "ezframe_first_buf (le_dp e) st2 = (0, st3)" using assms(2) by (simp add: ezframe_first_buf_def st3_def)
  moreover obtain st4 where "alvs_send e (write_log e info depth) st3 = Some (0, st4)" "\<not> fr_live (frame st4)"
    "tx st4 = tx st3 @ [(nir_output_channel h, (nir_mac_address h @ SYSLOG_CLIENT_ETH_ADDR @ bytes16 0x0800 @
      syslog_headers e (length (syslog_text e priority (take len str)))) # bufs)]"
    using alvs_send_frame [of e st3 h "syslog_headers e (length (syslog_text e priority (take len str)))" bufs "write_log e info depth"]
      assms(2-4) st2(2-6) by (auto simp: st3_def dp_tick_def st1_def)
  ultimately show ?thesis
    using tb st2(1,3,7,8) by (simp add: finish_frame_def st3_def st1_def dp_tick_def)
qed

lemma log_example_facts:
  "frame_rc (le_dp log_example_env) k = 0" "lookup_rc (le_dp log_example_env) k = 0" "tb_green log_example_env k"
  "interfaces (sh log_example) (ucast USER_HOST_LOGICAL_ID) = Some (zero_if\<lparr>nir_output_channel := 7\<rparr>)"
  "on_demand_ctr (sh log_example) a = 0" "\<not> fr_live (frame log_example)" "length (frame_data log_example) = 64" "tx log_example = []"
  "nir_mac_address (zero_if\<lparr>nir_output_channel := 7\<rparr>) = [0, 0, 0, 0, 0, 0]"
  by (simp_all add: log_example_def log_example_env_def example_defs)

theorem log_message_sent_witness:
  "\<exists>st' bufs. write_log log_example_env (snd (the (alvs_open_log \<lparr>applic_name = replicate 10 0, applic_name_size = 0, send_cb_set = False,
       dest_port = 0, dest_ip = 0, src_ip = 0, remained_length_for_user_string = 0\<rparr>))) 1 6 (bytes_of ''started'') 7 log_example = Some st' \<and>
     tx st' = [(7, ([0, 0, 0, 0, 0, 0] @ SYSLOG_CLIENT_ETH_ADDR @ bytes16 0x0800 @ syslog_headers log_example_env 26) # bufs)] \<and>
     concat bufs = bytes_of ''<30> alvs_dp <0016>started''"
proof -
  let ?i0 = "\<lparr>applic_name = replicate 10 0, applic_name_size = 0, send_cb_set = False,
       dest_port = 0, dest_ip = 0, src_ip = 0, remained_length_for_user_string = 0\<rparr> :: syslog_info"
  have i: "alvs_open_log ?i0 = Some (True, snd (the (alvs_open_log ?i0)))"
    by (simp add: alvs_open_log_def open_log_def syslog_sizes)
  have t: "syslog_text log_example_env 6 (take 7 (bytes_of ''started'')) = bytes_of ''<30> alvs_dp <0016>started''"
    by (simp add: syslog_text_def ptr_pri_facility_def ptr_cpus_def bytes_of_def cpu_string_def digit_def log_example_env_def)
  have n: "length (bytes_of ''<30> alvs_dp <0016>started'') = 26" "length (bytes_of ''started'') = 7" by (simp_all only: length_bytes) simp_all
  show ?thesis
    using log_message_sent [OF i _ log_example_facts(4), of log_example_env 6 7 "bytes_of ''started''" 0] t
    by (auto simp: log_example_facts n simp del: write_log.simps length_bytes(3))
qed

subsection \<open>Without the host interface\<close>

text \<open>
  What the steps that build a frame leave alone: the counters and the interface table.  \<open>k\<close> is how many calls of the
  library they make.
\<close>

definition log_after :: "nat \<Rightarrow> dp_state \<Rightarrow> dp_state \<Rightarrow> bool" where
  "log_after k st st' \<longleftrightarrow> dp_clock st' = dp_clock st + k \<and> on_demand_ctr (sh st') = on_demand_ctr (sh st) \<and>
     interfaces (sh st') = interfaces (sh st)"

definition no_host :: "dp_state \<Rightarrow> bool" where
  "no_host st \<longleftrightarrow> interfaces (sh st) (ucast USER_HOST_LOGICAL_ID) = None"

lemma log_after_refl: "log_after 0 st st"
  by (simp add: log_after_def)

lemma log_after_no_host: "log_after k st st' \<Longrightarrow> no_host st' = no_host st"
  by (simp add: log_after_def no_host_def)

lemma log_after_steps [log_frame_simps]:
  "log_after k st (write_data off bs st') = log_after k st st'" "log_after k st (log_assert b st') = log_after k st st'"
  "log_after k st (set_syslog_template e info n st') = log_after k st st'" "log_after k st (put_prefix e info p st') = log_after k st st'"
  by (simp_all add: log_after_def write_data_def log_assert_def set_syslog_template_def put_prefix_def Let_def)

lemma log_after_calls:
  assumes "\<And>k. frame_rc e k = 0" "log_after k st st'"
  shows "\<exists>s. ezframe_new e n st' = (0, s) \<and> log_after (Suc k) st s" "\<exists>s. ezframe_append_buf e n st' = (0, s) \<and> log_after (Suc k) st s"
    "\<exists>s. ezframe_first_buf e st' = (0, s) \<and> log_after (Suc k) st s" "\<exists>m s. syslog_load_buf st' = (m, s) \<and> log_after k st s"
  using assms
  by (auto simp: ezframe_new_def ezframe_append_buf_def ezframe_first_buf_def syslog_load_buf_def log_after_def dp_tick_def write_data_def Let_def)

text \<open>
  Sending to the host without its interface is a message of its own.  What becomes of the frame depends on the answer
  of the callback alone, so each way to send one is that message, logged after a fixed number of calls.
\<close>

definition log_lookup_fails :: "(nat \<Rightarrow> u8 list \<Rightarrow> nat \<Rightarrow> dp_state \<Rightarrow> dp_state option) \<Rightarrow> dp_state \<Rightarrow> dp_state option" where
  "log_lookup_fails log = log LOG_CRIT (host_lookup_message @ [0]) (length host_lookup_message)"

lemma alvs_send_without_host:
  assumes "\<And>k. frame_rc (le_dp e) k = 0" "log_after k st0 st" "no_host st0"
  shows "\<exists>s. log_after (k + 2) st0 s \<and> alvs_send e log st = map_option (\<lambda>s. (- EACCES, s)) (log_lookup_fails log s)"
proof -
  obtain st1 where f: "ezframe_first_buf (le_dp e) st = (0, st1)" "log_after (Suc k) st0 st1"
    using log_after_calls(3) [OF assms(1,2)] by blast
  obtain m st2 where l: "syslog_load_buf st1 = (m, st2)" "log_after (Suc k) st0 st2"
    using log_after_calls(4) [OF assms(1) f(2)] by blast
  define w where "w = write_data (SYSLOG_FIRST_BUFFER_SIZE - ETHER_HEADER_SIZE + 12) (bytes16 0x0800)
      (write_data (SYSLOG_FIRST_BUFFER_SIZE - ETHER_HEADER_SIZE + 6) SYSLOG_CLIENT_ETH_ADDR st2)"
  have w: "log_after (Suc k) st0 w" using l(2) by (simp add: w_def log_frame_simps)
  have "no_host w" using w assms(3) by (simp add: log_after_no_host)
  then have "\<exists>rc. nw_interface_lookup_host (le_dp e) w = (rc, dp_tick w) \<and> rc \<noteq> 0"
    by (cases "lookup_rc (le_dp e) (dp_clock w) = 0")
      (simp_all add: nw_interface_lookup_host_def no_host_def ezdp_lookup_def ENOENT_def)
  then obtain rc where rc: "nw_interface_lookup_host (le_dp e) w = (rc, dp_tick w)" "rc \<noteq> 0" by blast
  have "log_after (k + 2) st0 (dp_tick w)" using w by (simp add: log_after_def dp_tick_def)
  moreover have "alvs_send e log st = map_option (\<lambda>s. (- EACCES, s)) (log_lookup_fails log (dp_tick w))"
    using f(1) l(1) rc
    by (simp add: alvs_send_def Let_def w_def [symmetric] nw_interface_get_host_mac_address_def log_lookup_fails_def split: option.split)
  ultimately show ?thesis by blast
qed

lemma finish_without_host:
  assumes "\<And>k. frame_rc (le_dp e) k = 0" "log_after k st0 st" "no_host st0"
  shows "\<exists>s. log_after (k + 3) st0 s \<and>
    finish_frame e (alvs_send e log) st = map_option (\<lambda>s. (- EACCES, ezframe_free s)) (log_lookup_fails log s)"
proof -
  obtain st1 where f: "ezframe_first_buf (le_dp e) st = (0, st1)" "log_after (Suc k) st0 st1"
    using log_after_calls(3) [OF assms(1,2)] by blast
  obtain s where "log_after (Suc k + 2) st0 s" "alvs_send e log st1 = map_option (\<lambda>s. (- EACCES, s)) (log_lookup_fails log s)"
    using alvs_send_without_host [OF assms(1) f(2) assms(3)] by blast
  then show ?thesis using f(1)
    by (intro exI [of _ s]) (simp add: finish_frame_def EACCES_def numeral_3_eq_3 split: option.split)
qed

lemma special_without_host:
  assumes "\<And>k. frame_rc (le_dp e) k = 0" "log_after k st0 st" "no_host st0"
  shows "\<exists>s. log_after (k + 5) st0 s \<and>
    send_special_message e info (alvs_send e log) str st = map_option (\<lambda>s. (- EACCES, ezframe_free s)) (log_lookup_fails log s)"
proof -
  obtain st1 where n: "ezframe_new (le_dp e) NET_HDR_SIZE st = (0, st1)" "log_after (Suc k) st0 st1"
    using log_after_calls(1) [OF assms(1,2)] by blast
  define b where "b = min (length str) (remained_length_for_user_string info)"
  define w where "w = write_data (prefix_size info) (take b str)
    (log_assert (length str \<le> remained_length_for_user_string info) (put_prefix e info LOG_NOTICE st1))"
  have "log_after (Suc k) st0 w" using n(2) by (simp add: w_def log_frame_simps)
  then obtain st2 where a: "ezframe_append_buf (le_dp e) (SYSLOG_BUF_DATA_SIZE - remained_length_for_user_string info + b) w = (0, st2)"
      "log_after (Suc (Suc k)) st0 st2"
    using log_after_calls(2) [OF assms(1)] by blast
  have "Suc (Suc k) + 3 = k + 5" by simp
  with finish_without_host [OF assms(1) a(2) assms(3), of log] n(1) a(1) show ?thesis
    by (simp only:) (simp add: send_special_message_def Let_def b_def [symmetric] w_def [symmetric])
qed

lemma frame_without_host:
  assumes "\<And>k. frame_rc (le_dp e) k = 0" "log_after k st0 st" "no_host st0" "len \<le> remained_length_for_user_string info"
  shows "\<exists>s. log_after (k + 5) st0 s \<and>
    write_log_frame e info (alvs_send e log) priority str len st = map_option ezframe_free (log_lookup_fails log s)"
proof -
  define t where "t = set_syslog_template e info (prefix_size info + user_string_loop len len 2) st"
  have "log_after k st0 t" using assms(2) by (simp add: t_def log_frame_simps)
  then obtain st1 where n: "ezframe_new (le_dp e) NET_HDR_SIZE t = (0, st1)" "log_after (Suc k) st0 st1"
    using log_after_calls(1) [OF assms(1)] by blast
  define w where "w = write_data (prefix_size info) (take len str) (put_prefix e info priority st1)"
  have "log_after (Suc k) st0 w" using n(2) by (simp add: w_def log_frame_simps)
  then obtain st2 where a: "ezframe_append_buf (le_dp e) (SYSLOG_BUF_DATA_SIZE - remained_length_for_user_string info + len) w = (0, st2)"
      "log_after (Suc (Suc k)) st0 st2"
    using log_after_calls(2) [OF assms(1)] by blast
  have u: "append_user_bufs e (drop len str) 0 2 st2 = (0, st2)" by (subst append_user_bufs.simps) simp
  obtain s where "log_after (k + 5) st0 s"
      "finish_frame e (alvs_send e log) st2 = map_option (\<lambda>s. (- EACCES, ezframe_free s)) (log_lookup_fails log s)"
    using finish_without_host [OF assms(1) a(2) assms(3), of log] by (auto simp: add.commute)
  with n(1) a(1) u assms(4) show ?thesis
    by (intro exI [of _ s])
      (simp add: write_log_frame_def Let_def min_absorb1 min_absorb2 w_def [symmetric] t_def [symmetric] option.map_comp comp_def)
qed

text \<open>
  One level of the nesting: it ends when the token bucket gives red while the flag of the overload is set, and leads
  to the next level otherwise, which finds the flag set exactly when this one found red.  A level makes six calls.
\<close>

fun logging_ends :: "(nat \<Rightarrow> bool) \<Rightarrow> bool \<Rightarrow> nat \<Rightarrow> nat \<Rightarrow> bool" where
  "logging_ends green flagged t 0 = False"
| "logging_ends green flagged t (Suc depth) = (\<not> green t \<and> flagged \<or> logging_ends green (\<not> green t) (t + 6) depth)"

lemma write_log_ends_iff:
  assumes "\<And>k. frame_rc (le_dp e) k = 0" "length host_lookup_message \<le> remained_length_for_user_string info"
    and "len \<le> remained_length_for_user_string info" "no_host st"
  shows "write_log e info depth priority str len st \<noteq> None \<longleftrightarrow>
    logging_ends (tb_green e) (on_demand_ctr (sh st) (color_flag_addr e) \<noteq> 0) (dp_clock st) depth"
  using assms(3,4)
proof (induction depth arbitrary: priority str len st)
  case (Suc depth)
  let ?log = "write_log e info depth" and ?flag = "on_demand_ctr (sh st) (color_flag_addr e)" and ?green = "tb_green e (dp_clock st)"
  define flag where "flag b = sh_update (on_demand_ctr_update (\<lambda>c. c(color_flag_addr e := b))) (dp_tick st)" for b
  have flag: "no_host (flag b)" "dp_clock (flag b) = Suc (dp_clock st)" "on_demand_ctr (sh (flag b)) (color_flag_addr e) = b" for b
    using Suc.prems(2) by (simp_all add: flag_def no_host_def dp_tick_def)
  have next_level: "log_lookup_fails ?log s \<noteq> None \<longleftrightarrow> logging_ends (tb_green e) (b \<noteq> 0) (dp_clock st + 6) depth"
    if "log_after 5 (flag b) s" for s b
    using Suc.IH [OF assms(2), of s] that flag log_after_no_host [OF that]
    by (simp add: log_lookup_fails_def log_after_def add.commute)
  obtain s where s: "log_after 5 (flag 0) s"
      "write_log_frame e info (alvs_send e ?log) priority str len (flag 0) = map_option ezframe_free (log_lookup_fails ?log s)"
    using frame_without_host [OF assms(1) log_after_refl flag(1) Suc.prems(1)] by fastforce
  have sp: "\<exists>s. log_after 5 (flag b) s \<and> send_special_message e info (alvs_send e ?log) str (set_syslog_template e info n (flag b)) =
      map_option (\<lambda>s. (- EACCES, ezframe_free s)) (log_lookup_fails ?log s)" for b str n
    using special_without_host [of e 0 "flag b"] assms(1) flag(1) log_after_refl by (simp add: log_frame_simps)
  have red: "ezdp_add_single_ctr (color_flag_addr e) 1 (dp_tick st) = flag (?flag + 1)"
    by (simp add: ezdp_add_single_ctr_def flag_def dp_tick_def)
  have ctr: "on_demand_ctr (sh (dp_tick st)) = on_demand_ctr (sh st)" by (simp add: dp_tick_def)
  show ?case
  proof (cases ?green)
    case True
    show ?thesis
    proof (cases "?flag = 0")
      case True
      then show ?thesis using \<open>?green\<close> s next_level [OF s(1)]
        by (simp add: token_bucket_def Let_def ctr flag_def [symmetric])
    next
      case False
      obtain s where "log_after 5 (flag 0) s"
          "send_special_message e info (alvs_send e ?log) back_to_normal_str
             (set_syslog_template e info (prefix_size info + length back_to_normal_str) (flag 0)) =
           map_option (\<lambda>s. (- EACCES, ezframe_free s)) (log_lookup_fails ?log s)"
        using sp by blast
      with False \<open>?green\<close> next_level [of 0 s] show ?thesis
        by (cases "log_lookup_fails ?log s") (simp_all add: token_bucket_def Let_def ctr flag_def [symmetric] EACCES_def)
    qed
  next
    case False
    obtain s where "log_after 5 (flag 1) s"
        "send_special_message e info (alvs_send e ?log) notice_str (set_syslog_template e info (prefix_size info + length notice_str) (flag 1)) =
         map_option (\<lambda>s. (- EACCES, ezframe_free s)) (log_lookup_fails ?log s)"
      using sp by blast
    with False next_level [of 1 s] show ?thesis
      by (cases "log_lookup_fails ?log s"; cases "?flag = 0") (simp_all add: token_bucket_def Let_def ctr red)
  qed
qed simp

lemma logging_ends_red:
  "\<not> green (t + 6 * i) \<Longrightarrow> \<not> green (t + 6 * Suc i) \<Longrightarrow> logging_ends green flagged t (i + 2)"
proof (induction i arbitrary: t flagged)
  case (Suc i)
  from Suc.IH [of "t + 6"] Suc.prems show ?case by (simp add: algebra_simps)
qed (simp add: numeral_2_eq_2)

lemma logging_ends_iff:
  "(\<exists>depth. logging_ends green flagged t depth) \<longleftrightarrow>
     flagged \<and> \<not> green t \<or> (\<exists>i. \<not> green (t + 6 * i) \<and> \<not> green (t + 6 * Suc i))"
proof
  assume "\<exists>depth. logging_ends green flagged t depth"
  then obtain depth where "logging_ends green flagged t depth" by blast
  then show "flagged \<and> \<not> green t \<or> (\<exists>i. \<not> green (t + 6 * i) \<and> \<not> green (t + 6 * Suc i))"
  proof (induction depth arbitrary: flagged t)
    case (Suc depth)
    show ?case
    proof (cases "\<not> green t \<and> flagged")
      case False
      then have "logging_ends green (\<not> green t) (t + 6) depth" using Suc.prems by (auto simp only: logging_ends.simps)
      from Suc.IH [OF this] consider "\<not> green t" "\<not> green (t + 6)" | i where "\<not> green (t + 6 + 6 * i)" "\<not> green (t + 6 + 6 * Suc i)"
        by blast
      then show ?thesis
      proof cases
        case 1
        then show ?thesis by (intro disjI2 exI [of _ 0]) simp
      next
        case (2 i)
        then show ?thesis by (intro disjI2 exI [of _ "Suc i"]) (simp add: algebra_simps)
      qed
    qed simp
  qed simp
next
  assume "flagged \<and> \<not> green t \<or> (\<exists>i. \<not> green (t + 6 * i) \<and> \<not> green (t + 6 * Suc i))"
  moreover have "logging_ends green flagged t 1" if "flagged" "\<not> green t" using that by simp
  ultimately show "\<exists>depth. logging_ends green flagged t depth" using logging_ends_red by metis
qed

text \<open>
  C38. Sending a message to the host without the host interface logs a message, which is again sent to the host.
  Let the interface be missing from the table, let the calls on frames succeed, let no other thread change the flag of
  the overload meanwhile, and let the message fit the first buffer of its text, as the one of the missing interface
  does.  Then the messages nest: the token bucket is asked once for each of them, six calls of the library apart, and
  \<open>write_log\<close> returns, at whatever depth, exactly when the bucket gives red at the first one with the flag set, or red
  at two successive ones.  While the bucket gives no two reds in a row the thread goes on nesting one message in
  the other, and a bucket that stays green never lets it return.
\<close>

theorem log_without_host_returns_iff:
  assumes "interfaces (sh st) (ucast USER_HOST_LOGICAL_ID) = None" "\<forall>k. frame_rc (le_dp e) k = 0"
    and "length host_lookup_message \<le> remained_length_for_user_string info" "len \<le> remained_length_for_user_string info"
  shows "(\<exists>depth. write_log e info depth priority str len st \<noteq> None) \<longleftrightarrow>
    on_demand_ctr (sh st) (color_flag_addr e) \<noteq> 0 \<and> \<not> tb_green e (dp_clock st) \<or>
    (\<exists>i. \<not> tb_green e (dp_clock st + 6 * i) \<and> \<not> tb_green e (dp_clock st + 6 * Suc i))"
proof -
  have rc: "frame_rc (le_dp e) k = 0" for k using assms(2) by simp
  have h: "no_host st" using assms(1) by (simp add: no_host_def)
  show ?thesis
    unfolding write_log_ends_iff [of e info len st, OF rc assms(3,4) h] by (rule logging_ends_iff)
qed

definition demo_syslog :: syslog_info where
  "demo_syslog = \<lparr>applic_name = [], applic_name_size = 0, send_cb_set = True, dest_port = 514, dest_ip = 0, src_ip = 0,
     remained_length_for_user_string = 54\<rparr>"

text \<open>A bucket that stays green never lets the thread return; one that gives red at the first two messages does.\<close>

theorem log_without_host_returns_iff_witness:
  "(\<forall>depth. write_log log_example_env demo_syslog depth 3 (bytes_of ''started'') 7 idle_state = None) \<and>
   (\<exists>depth. write_log (log_example_env\<lparr>tb_green := (\<lambda>k. 6 < k)\<rparr>) demo_syslog depth 3 (bytes_of ''started'') 7 idle_state \<noteq> None)"
proof -
  have m: "length host_lookup_message \<le> remained_length_for_user_string demo_syslog"
    by (simp add: host_lookup_message_def demo_syslog_def bytes_of_def)
  have h: "interfaces (sh idle_state) (ucast USER_HOST_LOGICAL_ID) = None" "dp_clock idle_state = 0"
    by (simp_all add: example_defs)
  have "\<not> (\<exists>depth. write_log log_example_env demo_syslog depth 3 (bytes_of ''started'') 7 idle_state \<noteq> None)"
    by (subst log_without_host_returns_iff [OF h(1) _ m]) (simp_all add: log_example_env_def demo_syslog_def example_defs)
  moreover have "\<exists>depth. write_log (log_example_env\<lparr>tb_green := (\<lambda>k. 6 < k)\<rparr>) demo_syslog depth 3 (bytes_of ''started'') 7 idle_state \<noteq> None"
    by (subst log_without_host_returns_iff [OF h(1) _ m])
      (simp_all add: log_example_env_def demo_syslog_def example_defs exI [of _ 0])
  ultimately show ?thesis by blast
qed


end
