(* ===== verification/Lvs_Publish.thy ===== *)
theory Lvs_Publish
  imports Alvs_DB_Behaviour
begin

text \<open>
  What the NPS says of a service after a request on its servers.  \<open>published\<close> is the contract between
  the control plane and the data plane: the service's entry counts exactly the scheduling entries that
  exist, each of them names an active server of positive weight, and there is none only when there is no
  such server.  Adding a server establishes it.  Deleting a server does too, but leaves the old count in
  the services table, from where the next change of the service publishes it again.
\<close>

definition sched_image :: "alvs_db_service \<Rightarrow> nat \<Rightarrow> cp_state \<Rightarrow> bool" where
  "sched_image s n st \<longleftrightarrow> n \<le> 256 \<and> (n = 0 \<longleftrightarrow> active_servers s st = []) \<and>
     (\<forall>j < n. \<exists>r \<in> set (active_servers s st).
        nps st (sched_key s j) = Some (SchedInfo \<lparr>schr_server_index = bswap_32 (srv_nps_index (snd r))\<rparr>)) \<and>
     (\<forall>j. n \<le> j \<and> j < 256 \<longrightarrow> nps st (sched_key s j) = None)"

definition published :: "cp_env \<Rightarrow> alvs_db_service \<Rightarrow> cp_state \<Rightarrow> bool" where
  "published e s st \<longleftrightarrow> (\<exists>n. sched_image s n st \<and> nps st (build_nps_service_info_key s) =
     Some (ServiceInfo (build_nps_service_info_result e (s\<lparr>svc_sched_entries_count := of_nat n\<rparr>))))"

text \<open>The same with the count the services table holds.\<close>

definition published_row :: "cp_env \<Rightarrow> alvs_db_service \<Rightarrow> cp_state \<Rightarrow> bool" where
  "published_row e s st \<longleftrightarrow> s \<in> set (services st) \<and> sched_image s (unat (svc_sched_entries_count s)) st \<and>
     nps st (build_nps_service_info_key s) = Some (ServiceInfo (build_nps_service_info_result e s))"

lemma active_servers_count [simp]: "active_servers (s\<lparr>svc_sched_entries_count := c\<rparr>) st = active_servers s st"
  by (simp add: active_servers_def svc_key_def)

lemma sched_key_fields [simp]:
  "sched_key (s\<lparr>svc_sched_entries_count := c\<rparr>) = sched_key s" "sched_key (s\<lparr>svc_flags := f\<rparr>) = sched_key s"
  "sched_key (s\<lparr>svc_sched_alg := a\<rparr>) = sched_key s"
  by (simp_all add: fun_eq_iff sched_key_def sched_index_def)

lemma info_key_fields [simp]:
  "build_nps_service_info_key (s\<lparr>svc_sched_entries_count := c\<rparr>) = build_nps_service_info_key s"
  "build_nps_service_info_key (s\<lparr>svc_flags := f\<rparr>) = build_nps_service_info_key s"
  by (simp_all add: build_nps_service_info_key_def)

lemma sched_image_fields [simp]: "sched_image (s\<lparr>svc_sched_entries_count := c\<rparr>) n st = sched_image s n st"
  by (simp add: sched_image_def)

lemma published_count:
  assumes "sched_image s n st" "nps st (build_nps_service_info_key s) =
     Some (ServiceInfo (build_nps_service_info_result e (s\<lparr>svc_sched_entries_count := of_nat n\<rparr>)))"
  shows "published e s st"
  using assms by (auto simp: published_def)

lemma published_row_published: "published_row e s st \<Longrightarrow> published e s st"
  by (rule published_count [of s "unat (svc_sched_entries_count s)"]) (simp_all add: published_row_def)

lemma sched_image_cong:
  assumes "servers st' = servers st" "\<forall>k. struct_of k = STRUCT_ID_ALVS_SCHED_INFO \<longrightarrow> nps st' k = nps st k"
  shows "sched_image s n st' = sched_image s n st"
  using assms by (simp add: sched_image_def active_servers_def)

lemma recalculate_image:
  assumes "all_calls_ok e" "select_ok e" "unat (svc_nps_index s) < 256" "supported_sched_alg (svc_sched_alg s)"
  obtains n st' where "alvs_db_recalculate_scheduling_info e s st = (ALVS_DB_OK, s\<lparr>svc_sched_entries_count := of_nat n\<rparr>, st')"
    "sched_image s n st'" "same_but_sched st st'"
proof -
  obtain L b st' where r: "alvs_db_recalculate_scheduling_info e s st =
      (ALVS_DB_OK, s\<lparr>svc_sched_entries_count := of_nat (filled b)\<rparr>, st')"
    "mset L = mset (map snd (active_servers s st))" "fill_servers_buckets (svc_sched_alg s) L (length L) = Some b"
    "same_db st st'" "\<forall>j < 256. nps st' (sched_key s j) = sched_entry L (b ! j)"
    using recalculate_spec [OF assms, of st] by blast
  note ent = recalculate_entries [OF r(2,3)]
  have "active_servers s st' = active_servers s st" using r(4) by (simp add: active_servers_def same_db_def)
  then have "sched_image s (filled b) st'" using ent r(5) by (simp add: sched_image_def)
  moreover have "same_but_sched st st'"
    using recalculate_frame [OF assms, of st] r(1) by auto
  ultimately show thesis using that r(1) by blast
qed

lemma recalculate_and_publish_published:
  assumes ok: "all_calls_ok e" "select_ok e" and s: "unat (svc_nps_index s) < 256" "supported_sched_alg (svc_sched_alg s)"
  obtains st' where "recalculate_and_publish e s st = (ALVS_DB_OK, st')" "published e s st'" "same_db st st'"
proof -
  obtain n st1 where r: "alvs_db_recalculate_scheduling_info e s st =
      (ALVS_DB_OK, s\<lparr>svc_sched_entries_count := of_nat n\<rparr>, st1)" "sched_image s n st1" "same_but_sched st st1"
    by (rule recalculate_image [OF ok s])
  let ?s = "s\<lparr>svc_sched_entries_count := of_nat n\<rparr>"
  define st2 where "st2 = st1\<lparr>clock := Suc (clock st1), nps := (nps st1)(build_nps_service_info_key ?s \<mapsto>
      ServiceInfo (build_nps_service_info_result e ?s))\<rparr>"
  have "recalculate_and_publish e s st = (ALVS_DB_OK, st2)"
    using r(1) ok(1) by (simp add: recalculate_and_publish_def db_simps st2_def)
  moreover have "sched_image s n st2"
    using r(2) by (subst sched_image_cong [of st2 st1]) (auto simp: st2_def build_nps_service_info_key_def)
  then have "published e s st2" by (rule published_count) (simp add: st2_def)
  moreover have "same_db st st2" using r(3) by (simp add: same_but_sched_def same_db_def st2_def)
  ultimately show thesis by (rule that)
qed

lemma recalculate_store_and_publish_published:
  assumes ok: "all_calls_ok e" "select_ok e" and s: "s \<in> set (services st)" and inv: "cp_inv e st"
  obtains c st' where "recalculate_store_and_publish e s st = (ALVS_DB_OK, st')" "cp_inv e st'"
    "servers st' = servers st" "published_row e (s\<lparr>svc_sched_entries_count := c\<rparr>) st'"
proof -
  have rows: "service_rows_ok st" using inv by (simp add: cp_inv_def)
  have bound: "unat (svc_nps_index s) < 256" using service_index_bound [OF rows s] .
  have sup: "supported_sched_alg (svc_sched_alg s)" using rows s by (simp add: service_rows_ok_def)
  obtain n st1 where r: "alvs_db_recalculate_scheduling_info e s st =
      (ALVS_DB_OK, s\<lparr>svc_sched_entries_count := of_nat n\<rparr>, st1)" "sched_image s n st1" "same_but_sched st st1"
    by (rule recalculate_image [OF ok bound sup])
  let ?s = "s\<lparr>svc_sched_entries_count := of_nat n\<rparr>"
  define st2 where "st2 = st1\<lparr>services := map (update_service_row ?s) (services st1), clock := Suc (Suc (clock st1)),
      nps := (nps st1)(build_nps_service_info_key ?s \<mapsto> ServiceInfo (build_nps_service_info_result e ?s))\<rparr>"
  have run: "recalculate_store_and_publish e s st = (ALVS_DB_OK, st2)"
    using r(1) ok(1) by (simp add: recalculate_store_and_publish_def db_simps st2_def)
  have "?s \<in> set (services st2)"
  proof -
    have "update_service_row ?s s = ?s" by (simp add: update_service_row_def svc_key_def)
    then show ?thesis using s same_but_sched_services [OF r(3)] by (force simp: st2_def)
  qed
  moreover have "sched_image s n st2"
    using r(2) by (subst sched_image_cong [of st2 st1]) (auto simp: st2_def build_nps_service_info_key_def)
  moreover have "n \<le> 256" using r(2) by (simp add: sched_image_def)
  ultimately have "published_row e ?s st2"
    by (simp add: published_row_def unat_of_nat_u16_le) (simp add: st2_def)
  moreover have "cp_inv e st2" using recalculate_store_and_publish_inv [OF ok s inv] run by simp
  moreover have "servers st2 = servers st" using r(3) by (simp add: same_but_sched_def same_db_def st2_def)
  ultimately show thesis using that run by blast
qed

subsection \<open>Adding a server\<close>

text \<open>The row of the requested server, active and with the requested weight and thresholds.\<close>

definition added_row :: "alvs_db_service \<Rightarrow> ip_vs_dest_user \<Rightarrow> server_row \<Rightarrow> bool" where
  "added_row s d r \<longleftrightarrow> row_key r = (svc_key s, srv_ip (requested_server d), srv_port (requested_server d)) \<and>
     srv_active (snd r) = 1 \<and> srv_weight (snd r) = word_of_int (ivd_weight d) \<and>
     srv_u_thresh (snd r) = ivd_u_threshold d \<and> srv_l_thresh (snd r) = ivd_l_threshold d"

text \<open>The overload flag of a server has the word of external memory that belongs to its index.\<close>

definition flags_based :: "cp_env \<Rightarrow> server_row \<Rightarrow> bool" where
  "flags_based e r \<longleftrightarrow> srv_flags_dp_base (snd r) = BUILD_SUM_ADDR (EZDP_EXTERNAL_MS e) USER_EMEM_OUT_OF_BAND_MSID
     (of_nat EMEM_SERVER_FLAGS_OFFSET + srv_nps_index (snd r))"

text \<open>What adding a server does to the table of the servers.\<close>

definition rows_added :: "cp_env \<Rightarrow> alvs_db_service \<Rightarrow> ip_vs_dest_user \<Rightarrow> cp_state \<Rightarrow> cp_state \<Rightarrow> bool" where
  "rows_added e s d st st' \<longleftrightarrow> (\<exists>r \<in> set (servers st'). added_row s d r) \<and> length (servers st') \<le> Suc (length (servers st)) \<and>
     ((\<forall>r \<in> set (servers st). flags_based e r) \<longrightarrow> (\<forall>r \<in> set (servers st'). flags_based e r))"

lemma create_server_row:
  assumes "all_calls_ok e" "create_server e s (requested_server d) d st = (ALVS_DB_OK, v, st')"
    and "(svc_key s, srv_ip (requested_server d), srv_port (requested_server d)) \<notin> row_key ` set (servers st)"
  shows "rows_added e s d st st'"
proof -
  have "\<not> list_ex (same_server (svc_key s) w) (servers st)"
    if "srv_ip w = srv_ip (requested_server d)" "srv_port w = srv_port (requested_server d)" for w
    using assms(3) that by (auto simp: list_ex_iff same_server_row_key image_iff)
  then show ?thesis
    using assms(1,2)
    by (auto simp: create_server_def db_simps Let_def alvs_db_clean_server_stats_def infra_clear_long_counters_def
        infra_clear_posted_counters_def internal_db_add_server_def rows_added_def flags_based_def added_row_def row_key_def split: option.splits if_splits)
qed

lemma reactivate_server_row:
  assumes "all_calls_ok e" "r \<in> set (servers st)"
    and "row_key r = (svc_key s, srv_ip (requested_server d), srv_port (requested_server d))"
    and "reactivate_server e s ((snd r)\<lparr>srv_stats := x\<rparr>) d st = (rc, v, st')"
  shows "rows_added e s d st st'"
proof -
  have k: "srv_ip (snd r) = srv_ip (requested_server d)" "srv_port (snd r) = srv_port (requested_server d)" "fst r = svc_key s"
    using assms(3) by (auto simp: row_key_def)
  have "servers st' = map (\<lambda>q. if row_key q = row_key r then activated_row d q else q) (servers st)"
    using assms(1,4) unfolding reactivate_server_def internal_db_activate_server_def activated_row_def Let_def
    by (auto simp: db_simps k assms(3) cong: if_cong)
  moreover have "activated_row d r \<in> (\<lambda>q. if row_key q = row_key r then activated_row d q else q) ` set (servers st)"
    using assms(2) by force
  moreover have "added_row s d (activated_row d r)"
    unfolding added_row_def activated_row_fields assms(3) by (simp add: activated_row_def)
  moreover have "flags_based e (activated_row d q) = flags_based e q" for q
    by (simp add: flags_based_def activated_row_def)
  ultimately show ?thesis unfolding rows_added_def by (auto intro: bexI [of _ "activated_row d r"])
qed

lemma add_server_reaches:
  assumes ok: "all_calls_ok e" "select_ok e" and inv: "cp_inv e st"
    and run: "alvs_db_add_server e u d st = (ALVS_DB_OK, st')"
  obtains s v st1 where "s \<in> set (services st)" "svc_key (requested_service u) = svc_key s" "cp_inv e st1"
    "services st1 = services st" "schedule_new_server e d s v st1 = (ALVS_DB_OK, st')"
    "rows_added e s d st st1"
proof -
  have rows: "distinct (map svc_key (services st))" "distinct (map row_key (servers st))"
    using inv by (simp_all add: cp_inv_def service_rows_ok_def server_rows_ok_def)
  have adm: "supported_routing_alg (ivd_conn_flags d)" "\<not> ivd_l_threshold d > ivd_u_threshold d"
    using run by (auto simp: alvs_db_add_server_def split: if_splits)
  have "svc_key (requested_service u) \<in> svc_key ` set (services st)"
  proof (rule ccontr)
    assume "svc_key (requested_service u) \<notin> svc_key ` set (services st)"
    then show False using run adm by (simp add: alvs_db_add_server_def with_service_none [OF ok(1)])
  qed
  then obtain s where s: "s \<in> set (services st)" "svc_key (requested_service u) = svc_key s" by auto
  let ?k = "(svc_key s, srv_ip (requested_server d), srv_port (requested_server d))"
  note op = run [unfolded alvs_db_add_server_def with_service_some [OF ok(1) rows(1) s]]
  have room: "length (filter (server_selected (svc_key s) False True) (servers st)) \<noteq> ALVS_SIZE_OF_SCHED_BUCKET"
    using op adm ok(1) by (auto simp: db_simps split: if_splits)
  define st0 where "st0 = st\<lparr>clock := Suc (Suc (Suc (clock st)))\<rparr>"
  have st0: "cp_inv e st0" "s \<in> set (services st0)" using inv s by (simp_all add: st0_def)
  show thesis
  proof (cases "\<exists>r \<in> set (servers st). row_key r = ?k")
    case True
    then obtain r where r: "r \<in> set (servers st)" "row_key r = ?k" by blast
    let ?v = "(snd r)\<lparr>srv_stats := srv_stats zero_server\<rparr>"
    have get: "internal_db_get_server e s (requested_server d) (st\<lparr>clock := Suc (Suc (clock st))\<rparr>) =
        (ALVS_DB_OK, ?v, st0)"
      using get_server_some [OF ok(1), of "st\<lparr>clock := Suc (Suc (clock st))\<rparr>" r s d] rows(2) r by (simp add: st0_def)
    obtain v st1 where st1: "reactivate_server e s ?v d st0 = (ALVS_DB_OK, v, st1)" "cp_inv e st1"
      "services st1 = services st0"
      using reactivate_server_inv [OF ok(1) st0(1), of r s "srv_stats zero_server" d] r
      by (auto simp: st0_def row_key_def)
    have "schedule_new_server e d s v st1 = (ALVS_DB_OK, st')"
      using op adm ok(1) room get st1(1) by (cases "srv_active (snd r) = 1") (simp_all add: db_simps)
    then show thesis
      using that [OF s st1(2)] st1(3) reactivate_server_row [OF ok(1) _ r(2) st1(1)] r(1) by (simp add: st0_def rows_added_def)
  next
    case False
    then have new: "?k \<notin> row_key ` set (servers st)" by auto
    have get: "internal_db_get_server e s (requested_server d) (st\<lparr>clock := Suc (Suc (clock st))\<rparr>) =
        (ALVS_DB_FAILURE, requested_server d, st0)"
      using get_server_none [OF ok(1), of s d "st\<lparr>clock := Suc (Suc (clock st))\<rparr>"] new by (simp add: st0_def)
    obtain rc1 v st1 where st1: "create_server e s (requested_server d) d st0 = (rc1, v, st1)"
      by (cases "create_server e s (requested_server d) d st0") auto
    have rc1: "rc1 = ALVS_DB_OK" "schedule_new_server e d s v st1 = (ALVS_DB_OK, st')"
      using op adm ok(1) room get st1(1) by (simp_all add: db_simps split: if_splits)
    have "cp_inv e st1" "services st1 = services st0"
      using create_server_inv [OF ok(1) st0(1) _ st1] new by (simp_all add: st0_def)
    moreover have "rows_added e s d st0 st1"
      by (rule create_server_row [OF ok(1) st1 [unfolded rc1(1)]]) (use new in \<open>simp add: st0_def\<close>)
    ultimately show thesis using that [OF s _ _ rc1(2)] by (simp add: st0_def rows_added_def)
  qed
qed

lemma schedule_new_server_published:
  assumes ok: "all_calls_ok e" "select_ok e" and s: "s \<in> set (services st)" and inv: "cp_inv e st"
    and w: "ivd_weight d > 0" and run: "schedule_new_server e d s v st = (rc, st')"
  obtains c where "rc = ALVS_DB_OK" "cp_inv e st'" "servers st' = servers st"
    "published_row e (s\<lparr>svc_sched_entries_count := c\<rparr>) st'"
proof -
  obtain c st1 where r: "recalculate_store_and_publish e s st = (ALVS_DB_OK, st1)" "cp_inv e st1"
    "servers st1 = servers st" "published_row e (s\<lparr>svc_sched_entries_count := c\<rparr>) st1"
    by (rule recalculate_store_and_publish_published [OF ok s inv])
  let ?st = "st1\<lparr>clock := Suc (clock st1), nps := (nps st1)(build_nps_server_classification_key s v \<mapsto>
      ServerClassification (build_nps_server_classification_result v))\<rparr>"
  have st': "rc = ALVS_DB_OK" "st' = ?st"
    using run ok(1) w by (simp_all add: schedule_new_server_def r(1) infra_add_entry_def db_simps)
  have "cp_inv e st'" using schedule_new_server_inv [OF ok s inv run] by simp
  moreover have "sched_image s n st' = sched_image s n st1" for n
    by (rule sched_image_cong) (auto simp: st' build_nps_server_classification_key_def)
  then have "published_row e (s\<lparr>svc_sched_entries_count := c\<rparr>) st'"
    using r(4) by (simp add: published_row_def st' build_nps_service_info_key_def build_nps_server_classification_key_def)
  ultimately show thesis using that r(3) st' by simp
qed

lemma positive_weight: "0 < w \<Longrightarrow> w < 65536 \<Longrightarrow> (word_of_int w :: u16) \<noteq> 0"
proof
  assume w: "0 < w" "w < 65536" and z: "(word_of_int w :: u16) = 0"
  from z have "uint (word_of_int w :: u16) = 0" by simp
  then show False using w by (simp add: uint_word_of_int)
qed

lemma add_server_result:
  assumes "all_calls_ok e" "select_ok e" "cp_inv e st" "0 < ivd_weight d" "ivd_weight d < 65536"
    and "alvs_db_add_server e u d st = (ALVS_DB_OK, st')"
  obtains s c r where "s \<in> set (services st)" "svc_key (requested_service u) = svc_key s" "cp_inv e st'"
    "published_row e (s\<lparr>svc_sched_entries_count := c\<rparr>) st'" "r \<in> set (active_servers s st')" "added_row s d r"
    "rows_added e s d st st'"
proof -
  obtain s v st1 where s: "s \<in> set (services st)" "svc_key (requested_service u) = svc_key s" "cp_inv e st1"
    "services st1 = services st" "schedule_new_server e d s v st1 = (ALVS_DB_OK, st')"
    "rows_added e s d st st1"
    by (rule add_server_reaches [OF assms(1-3,6)])
  obtain c where c: "cp_inv e st'" "servers st' = servers st1" "published_row e (s\<lparr>svc_sched_entries_count := c\<rparr>) st'"
    using schedule_new_server_published [OF assms(1,2) _ s(3) assms(4) s(5)] s(1,4) by metis
  obtain r where r: "r \<in> set (servers st1)" "added_row s d r" using s(6) by (auto simp: rows_added_def)
  then have "r \<in> set (active_servers s st')"
    using c(2) positive_weight [OF assms(4,5)]
    by (simp add: active_servers_def server_selected_def added_row_def row_key_def word_gt_0)
  then show thesis using that s c r by (simp add: rows_added_def)
qed

text \<open>
  When a request to add a server succeeds with a positive weight that fits its sixteen bits, the
  service is published under the count its row now holds, nothing else of the row is changed, and the
  server is one of those that connections can be scheduled to.
\<close>

theorem added_server_published:
  assumes "all_calls_ok e" "select_ok e" "cp_inv e st" "0 < ivd_weight d" "ivd_weight d < 65536"
    and "alvs_db_add_server e u d st = (ALVS_DB_OK, st')"
  shows "\<exists>s \<in> set (services st). svc_key (requested_service u) = svc_key s \<and>
    (\<exists>c. published_row e (s\<lparr>svc_sched_entries_count := c\<rparr>) st') \<and> (\<exists>r \<in> set (active_servers s st'). added_row s d r)"
  by (rule add_server_result [OF assms]) blast

subsection \<open>Deleting a server\<close>

lemma delete_server_run:
  assumes ok: "all_calls_ok e" "select_ok e" and inv: "cp_inv e st"
    and s: "s \<in> set (services st)" "svc_key (requested_service u) = svc_key s"
    and row: "active_row s d st r" "srv_weight (snd r) > 0"
  obtains st' where "alvs_db_delete_server e u d st = (ALVS_DB_OK, st')" "published e s st'" "services st' = services st"
    "servers st' = map (\<lambda>q. if row_key q = row_key r then deactivate_row q else q) (servers st)"
proof -
  have rows: "service_rows_ok st" using inv by (simp add: cp_inv_def)
  have keys: "distinct (map svc_key (services st))" using rows by (simp add: service_rows_ok_def)
  have sup: "supported_sched_alg (svc_sched_alg s)" using rows s(1) by (simp add: service_rows_ok_def)
  have r: "r \<in> set (servers st)" "row_key r = (svc_key s, srv_ip (requested_server d), srv_port (requested_server d))"
    "srv_active (snd r) \<noteq> 0" "row_key r = (svc_key s, srv_ip (snd r), srv_port (snd r))"
    using row(1) by (auto simp: active_row_def row_key_def)
  let ?v = "(snd r)\<lparr>srv_stats := srv_stats zero_server, srv_server_flags := not_available (srv_server_flags (snd r))\<rparr>"
  let ?c = "Suc (Suc (clock st))"
  define st1 where "st1 = st\<lparr>clock := Suc ?c,
    servers := map (\<lambda>q. if row_key q = row_key r then deactivate_row q else q) (servers st)\<rparr>"
  obtain st2 where st2: "recalculate_and_publish e s st1 = (ALVS_DB_OK, st2)" "published e s st2" "same_db st1 st2"
    by (rule recalculate_and_publish_published [OF ok service_index_bound [OF rows s(1)] sup])
  define st3 where "st3 = st2\<lparr>clock := Suc (Suc (clock st2)), nps := ((nps st2)(build_nps_server_info_key ?v \<mapsto>
    ServerInfo (build_nps_server_info_result ?v)))(build_nps_server_classification_key s ?v := None)\<rparr>"
  have "server_rows_ok (st\<lparr>clock := Suc (clock st)\<rparr>)" using inv by (simp add: cp_inv_def server_rows_ok_def)
  from with_active_server_some [OF ok(1) this _ r(2)]
  have "alvs_db_delete_server e u d st = (ALVS_DB_OK, st3)"
    unfolding alvs_db_delete_server_def with_service_some [OF ok(1) keys s]
    using ok(1) st2(1) row(2) r(1,3,4)
    by (simp add: internal_db_deactivate_server_def infra_delete_entry_def db_simps Let_def st1_def st3_def)
  moreover have "sched_image s n st3 = sched_image s n st2" for n
    by (rule sched_image_cong)
      (auto simp: st3_def build_nps_server_info_key_def build_nps_server_classification_key_def)
  then have "published e s st3"
    using st2(2) by (simp add: published_def st3_def build_nps_service_info_key_def build_nps_server_info_key_def
        build_nps_server_classification_key_def)
  moreover have "services st3 = services st" "servers st3 = servers st1"
    using st2(3) by (simp_all add: st3_def same_db_def st1_def)
  ultimately show thesis using that by (simp add: st1_def)
qed

subsection \<open>The count that goes stale\<close>

lemma modify_service_same_alg:
  assumes ok: "all_calls_ok e" "select_ok e" and keys: "distinct (map svc_key (services st))"
    and s: "s \<in> set (services st)" "svc_key (requested_service u) = svc_key s"
    and alg: "get_sched_alg (ivs_sched_name u) = svc_sched_alg s" "supported_sched_alg (svc_sched_alg s)"
  obtains st' where "alvs_db_modify_service e u st = (ALVS_DB_OK, st')" "servers st' = servers st"
    "nps st' = (nps st)(build_nps_service_info_key s \<mapsto>
       ServiceInfo (build_nps_service_info_result e (s\<lparr>svc_flags := ivs_flags u\<rparr>)))"
proof -
  let ?s = "s\<lparr>svc_sched_alg := get_sched_alg (ivs_sched_name u), svc_flags := ivs_flags u\<rparr>"
  have s': "?s = s\<lparr>svc_flags := ivs_flags u\<rparr>" using alg(1) by simp
  define st1 where "st1 = st\<lparr>clock := Suc (Suc (Suc (clock st))), services := map (update_service_row ?s) (services st),
      nps := (nps st)(build_nps_service_info_key ?s \<mapsto> ServiceInfo (build_nps_service_info_result e ?s))\<rparr>"
  have "alvs_db_modify_service e u st = (ALVS_DB_OK, st1)"
    using with_service_some [OF ok(1) keys s] alg ok(1)
    by (simp add: alvs_db_modify_service_def db_simps st1_def Let_def)
  then show thesis using that by (simp add: st1_def s')
qed

text \<open>
  C18. Deleting a server publishes the remaining entries with their count, but the services table keeps the
  old count.  The next change of the service that keeps its algorithm publishes that old count again:
  the NPS then counts scheduling entries that do not exist, all of them when the server was the last.
\<close>

theorem stale_entries_count_republished:
  assumes ok: "all_calls_ok e" "select_ok e" and inv: "cp_inv e st"
    and s: "s \<in> set (services st)" "svc_key (requested_service u) = svc_key s"
    and row: "active_row s d st r" "srv_weight (snd r) > 0"
    and u': "svc_key (requested_service u') = svc_key s" "get_sched_alg (ivs_sched_name u') = svc_sched_alg s"
    and run: "alvs_db_delete_server e u d st = (rc, st1)" "alvs_db_modify_service e u' st1 = (rc', st2)"
  shows "rc = ALVS_DB_OK \<and> published e s st1 \<and> rc' = ALVS_DB_OK \<and>
    nps st2 (build_nps_service_info_key s) =
      Some (ServiceInfo (build_nps_service_info_result e (s\<lparr>svc_flags := ivs_flags u'\<rparr>))) \<and>
    (\<exists>n. sched_image s n st2) \<and>
    (active_servers s st = [r] \<longrightarrow> (\<forall>j < 256. nps st2 (sched_key s j) = None))"
proof -
  obtain st1' where st1: "alvs_db_delete_server e u d st = (ALVS_DB_OK, st1')" "published e s st1'"
    "services st1' = services st"
    "servers st1' = map (\<lambda>q. if row_key q = row_key r then deactivate_row q else q) (servers st)"
    by (rule delete_server_run [OF ok inv s row])
  have rows: "service_rows_ok st" using inv by (simp add: cp_inv_def)
  then have sup: "supported_sched_alg (svc_sched_alg s)" using s(1) by (simp add: service_rows_ok_def)
  have keys: "distinct (map svc_key (services st1'))" using rows st1(3) by (simp add: service_rows_ok_def)
  obtain st2' where st2: "alvs_db_modify_service e u' st1' = (ALVS_DB_OK, st2')" "servers st2' = servers st1'"
    "nps st2' = (nps st1')(build_nps_service_info_key s \<mapsto>
       ServiceInfo (build_nps_service_info_result e (s\<lparr>svc_flags := ivs_flags u'\<rparr>)))"
    using modify_service_same_alg [OF ok keys _ u'(1) u'(2) sup] s(1) st1(3) by metis
  obtain n where n: "sched_image s n st1'" using st1(2) by (auto simp: published_def)
  have im: "sched_image s n st2'"
    using n by (subst sched_image_cong [of st2' st1']) (auto simp: st2 build_nps_service_info_key_def)
  have gone: "\<forall>j < 256. nps st2' (sched_key s j) = None" if one: "active_servers s st = [r]"
  proof -
    have "active_servers s st2' = []"
    proof (rule ccontr)
      assume "active_servers s st2' \<noteq> []"
      then obtain q where q: "q \<in> set (servers st)" "row_key q \<noteq> row_key r" "server_selected (svc_key s) True True q"
        by (auto simp: active_servers_def st2(2) st1(4) filter_empty_conv server_selected_def split: if_splits)
      then have "q \<in> set (active_servers s st)" by (simp add: active_servers_def)
      then show False using one q(2) by simp
    qed
    then show ?thesis using im by (simp add: sched_image_def)
  qed
  have eq: "rc = ALVS_DB_OK" "st1 = st1'" "rc' = ALVS_DB_OK" "st2 = st2'" using run st1(1) st2(1) by simp_all
  show ?thesis unfolding eq using st1(2) im gone by (blast intro: trans [OF fun_cong [OF st2(3)] fun_upd_same])
qed

subsection \<open>A state with a published server\<close>

text \<open>Adding a server that the service does not have succeeds while the service has room and an index is free.\<close>

lemma add_server_new_ok:
  assumes ok: "all_calls_ok e" "select_ok e" and inv: "cp_inv e st"
    and s: "s \<in> set (services st)" "svc_key (requested_service u) = svc_key s"
    and d: "supported_routing_alg (ivd_conn_flags d)" "\<not> ivd_l_threshold d > ivd_u_threshold d"
    and room: "length (filter (server_selected (svc_key s) False True) (servers st)) \<noteq> ALVS_SIZE_OF_SCHED_BUCKET"
    and new: "(svc_key s, srv_ip (requested_server d), srv_port (requested_server d)) \<notin> row_key ` set (servers st)"
    and index: "pool_free (server_index_pool st) \<noteq> []"
  shows "fst (alvs_db_add_server e u d st) = ALVS_DB_OK"
proof -
  have keys: "distinct (map svc_key (services st))" using inv by (simp add: cp_inv_def service_rows_ok_def)
  define st0 where "st0 = st\<lparr>clock := Suc (Suc (Suc (clock st)))\<rparr>"
  have get: "internal_db_get_server e s (requested_server d) (st\<lparr>clock := Suc (Suc (clock st))\<rparr>) =
      (ALVS_DB_FAILURE, requested_server d, st0)"
    using get_server_none [OF ok(1), of s d "st\<lparr>clock := Suc (Suc (clock st))\<rparr>"] new by (simp add: st0_def)
  obtain rc v st1 where st1: "create_server e s (requested_server d) d st0 = (rc, v, st1)"
    by (cases "create_server e s (requested_server d) d st0") auto
  have "pool_ok (server_index_pool st0)" using inv by (simp add: st0_def cp_inv_def server_rows_ok_def owned_def)
  then obtain a where a: "index_pool_alloc (server_index_pool st0) = Some a"
    using index pool.alloc_none [of "server_index_pool st0"] by (cases "index_pool_alloc (server_index_pool st0)") (auto simp: st0_def)
  have fresh: "\<not> list_ex (same_server (svc_key s) w) (servers st)"
    if "srv_ip w = srv_ip (requested_server d)" "srv_port w = srv_port (requested_server d)" for w
    using new that by (auto simp: list_ex_iff same_server_row_key image_iff)
  have "rc = ALVS_DB_OK"
    using st1 ok a fresh
    by (cases a) (auto simp: create_server_def db_simps Let_def alvs_db_clean_server_stats_def infra_clear_long_counters_def
        infra_clear_posted_counters_def internal_db_add_server_def st0_def)
  moreover have inv1: "cp_inv e st1" "s \<in> set (services st1)"
    using create_server_inv [OF ok(1) _ _ st1] inv new s(1) by (simp_all add: st0_def)
  obtain rc' st2 where st2: "schedule_new_server e d s v st1 = (rc', st2)" by fastforce
  have "rc' = ALVS_DB_OK"
    using st2 ok(1) recalculate_store_and_publish_inv [OF ok inv1(2,1)]
    by (auto simp: schedule_new_server_def infra_add_entry_def db_simps split: if_splits)
  ultimately show ?thesis
    using d room get st1 st2 ok(1)
    by (simp add: alvs_db_add_server_def with_service_some [OF ok(1) keys s] db_simps)
qed

definition example_lb :: cp_state where
  "example_lb = snd (alvs_db_add_server ok_env example_service (example_dest 1) example_one)"

lemma example_lb_run:
  "alvs_db_add_server ok_env example_service (example_dest 1) example_one = (ALVS_DB_OK, example_lb)"
proof -
  obtain i where i: "services example_one = [new_service ok_env example_service i]"
    using example_one_services by blast
  have none: "servers example_one = []" by (simp add: example_one_servers example_start_servers)
  have "owned [] (server_index_pool example_one) 32768"
    using example_one_inv by (simp add: cp_inv_def server_rows_ok_def none)
  then have "pool_free (server_index_pool example_one) \<noteq> []"
    unfolding owned_def by (metis append_Nil empty_iff empty_set unat_0 zero_less_numeral)
  then have "fst (alvs_db_add_server ok_env example_service (example_dest 1) example_one) = ALVS_DB_OK"
    by (intro add_server_new_ok [OF ok_env_ok example_one_inv, of "new_service ok_env example_service i"])
      (simp_all add: i none example_dest_def supported_routing_alg_def IP_VS_CONN_F_FWD_MASK_def IP_VS_CONN_F_DROUTE_def
        ALVS_SIZE_OF_SCHED_BUCKET_def)
  then show ?thesis by (simp add: example_lb_def prod_eq_iff)
qed

lemma example_lb_inv: "cp_inv ok_env example_lb"
  using add_server_inv [OF ok_env_ok example_one_inv example_lb_run] by simp

lemma example_lb_cases:
  obtains s c r where "s \<in> set (services example_one)" "svc_key (requested_service example_service) = svc_key s"
    "svc_sched_alg s = ALVS_ROUND_ROBIN_SCHEDULER" "published_row ok_env (s\<lparr>svc_sched_entries_count := c\<rparr>) example_lb"
    "active_servers s example_lb = [r]" "added_row s (example_dest 1) r"
    "\<forall>q \<in> set (servers example_one). flags_based ok_env q"
proof -
  have w: "0 < ivd_weight (example_dest 1)" "ivd_weight (example_dest 1) < 65536" by (simp_all add: example_dest_def)
  obtain s c r where r: "s \<in> set (services example_one)" "svc_key (requested_service example_service) = svc_key s"
    "published_row ok_env (s\<lparr>svc_sched_entries_count := c\<rparr>) example_lb" "r \<in> set (active_servers s example_lb)"
    "added_row s (example_dest 1) r" "rows_added ok_env s (example_dest 1) example_one example_lb"
    by (rule add_server_result [OF ok_env_ok example_one_inv w example_lb_run])
  have "length (servers example_lb) \<le> 1"
    using r(6) by (simp add: rows_added_def example_one_servers example_start_servers)
  then have "length (active_servers s example_lb) \<le> 1"
    unfolding active_servers_def by (rule le_trans [OF length_filter_le])
  then have "active_servers s example_lb = [r]" using r(4) by (cases "active_servers s example_lb") auto
  moreover have "svc_sched_alg s = ALVS_ROUND_ROBIN_SCHEDULER"
    using r(1) example_one_services by (auto simp: new_service_def example_service_def get_sched_alg_def)
  moreover have "\<forall>q \<in> set (servers example_one). flags_based ok_env q"
    by (simp add: example_one_servers example_start_servers)
  ultimately show thesis using that r by blast
qed

theorem added_server_published_witness:
  "\<exists>s \<in> set (services example_one). (\<exists>c. published_row ok_env (s\<lparr>svc_sched_entries_count := c\<rparr>) example_lb) \<and>
     (\<exists>r \<in> set (active_servers s example_lb). added_row s (example_dest 1) r)"
  using added_server_published [OF ok_env_ok example_one_inv _ _ example_lb_run] by (auto simp: example_dest_def)

text \<open>The only server is deleted and the service's flags are changed: one entry is counted, none exists.\<close>

theorem stale_entries_count_republished_witness:
  "\<exists>s r. nps (snd (alvs_db_modify_service ok_env example_service
        (snd (alvs_db_delete_server ok_env example_service (example_dest 1) example_lb)))) (build_nps_service_info_key s) =
      Some (ServiceInfo r) \<and> sir_sched_entries_count r \<noteq> 0 \<and>
    nps (snd (alvs_db_modify_service ok_env example_service
        (snd (alvs_db_delete_server ok_env example_service (example_dest 1) example_lb)))) (sched_key s 0) = None"
proof -
  obtain s c r where s: "s \<in> set (services example_one)" "svc_key (requested_service example_service) = svc_key s"
    "svc_sched_alg s = ALVS_ROUND_ROBIN_SCHEDULER" "published_row ok_env (s\<lparr>svc_sched_entries_count := c\<rparr>) example_lb"
    "active_servers s example_lb = [r]" "added_row s (example_dest 1) r"
    by (rule example_lb_cases)
  let ?s = "s\<lparr>svc_sched_entries_count := c\<rparr>"
  obtain rc st1 where d: "alvs_db_delete_server ok_env example_service (example_dest 1) example_lb = (rc, st1)" by fastforce
  obtain rc' st2 where m: "alvs_db_modify_service ok_env example_service st1 = (rc', st2)" by fastforce
  have in_s: "?s \<in> set (services example_lb)" "c \<noteq> 0"
    using s(4,5) by (auto simp: published_row_def sched_image_def unat_eq_0)
  have k: "svc_key ?s = svc_key s" by (simp add: svc_key_def)
  have mem: "r \<in> set (active_servers s example_lb)" by (simp add: s(5))
  then have row: "active_row ?s (example_dest 1) example_lb r" "srv_weight (snd r) > 0"
    using s(6) by (auto simp: active_row_def added_row_def k active_servers_def server_selected_def)
  have alg: "get_sched_alg (ivs_sched_name example_service) = svc_sched_alg ?s"
    by (simp add: s(3) example_service_def get_sched_alg_def)
  have key: "svc_key (requested_service example_service) = svc_key ?s" by (simp only: k s(2))
  note p = stale_entries_count_republished [OF ok_env_ok example_lb_inv in_s(1) key row key alg d m]
  have "nps st2 (build_nps_service_info_key ?s) = Some (ServiceInfo (build_nps_service_info_result ok_env
      (?s\<lparr>svc_flags := ivs_flags example_service\<rparr>)))" "nps st2 (sched_key ?s 0) = None"
    using p s(5) by simp_all
  moreover have "bswap_16 c \<noteq> 0" using in_s(2) bswap_16_inj [of c 0] by (simp add: bswap_16_def)
  ultimately show ?thesis unfolding d m snd_conv
    by (intro exI [of _ ?s] exI conjI) (assumption | simp add: build_nps_service_info_result_def)+
qed

end
