(* ===== verification/Lvs_Compose.thy ===== *)
theory Lvs_Compose
  imports Lvs_Publish Dp_Aging_Props
begin

text \<open>
  The control plane and the data plane together.  \<open>lb_reads\<close> says how the structures the control plane
  writes look to the data plane, whose processors read the words in the other byte order.  Through it
  the contract \<open>published\<close> of \<open>Lvs_Publish\<close> becomes what round robin needs of its tables, and a packet
  that opens a connection to a published service ends with a connection bound to one of its servers.
\<close>

subsection \<open>The structures as the data plane reads them\<close>

definition dp_service_entry :: "alvs_service_info_result \<Rightarrow> alvs_service_info_result" where
  "dp_service_entry r = r\<lparr>sir_sched_entries_count := bswap_16 (sir_sched_entries_count r),
     sir_service_sched_ctr := bswap_32 (sir_service_sched_ctr r), sir_service_stats_base := bswap_32 (sir_service_stats_base r),
     sir_service_flags := bswap_32 (sir_service_flags r)\<rparr>"

definition dp_server_entry :: "alvs_server_info_result \<Rightarrow> alvs_server_info_result" where
  "dp_server_entry r = r\<lparr>svr_server_port := bswap_16 (svr_server_port r),
     svr_server_stats_base := bswap_32 (svr_server_stats_base r), svr_server_ip := bswap_32 (svr_server_ip r),
     svr_server_on_demand_stats_base := bswap_32 (svr_server_on_demand_stats_base r),
     svr_service_stats_base := bswap_32 (svr_service_stats_base r), svr_u_thresh := bswap_16 (svr_u_thresh r),
     svr_l_thresh := bswap_16 (svr_l_thresh r), svr_conn_flags := bswap_32 (svr_conn_flags r),
     svr_server_flags_dp_base := bswap_32 (svr_server_flags_dp_base r)\<rparr>"

definition lb_view :: "cp_state \<Rightarrow> dp_shared \<Rightarrow> dp_shared" where
  "lb_view st m = m\<lparr>
     service_class := (\<lambda>k. case nps st (SERVICE_CLASSIFICATION (k\<lparr>sck_address := bswap_32 (sck_address k),
         sck_port := bswap_16 (sck_port k), sck_protocol := bswap_16 (sck_protocol k)\<rparr>)) of
       Some (ServiceClassification r) \<Rightarrow> Some r | _ \<Rightarrow> None),
     service_info := (\<lambda>i. case nps st (SERVICE_INFO i) of
       Some (ServiceInfo r) \<Rightarrow> Some (dp_service_entry r) | _ \<Rightarrow> None),
     sched_info := (\<lambda>i. case nps st (SCHED_INFO (bswap_16 i)) of
       Some (SchedInfo r) \<Rightarrow> Some (r\<lparr>schr_server_index := bswap_32 (schr_server_index r)\<rparr>) | _ \<Rightarrow> None),
     server_info := (\<lambda>i. case nps st (SERVER_INFO (bswap_32 i)) of
       Some (ServerInfo r) \<Rightarrow> Some (dp_server_entry r) | _ \<Rightarrow> None)\<rparr>"

definition lb_reads :: "cp_state \<Rightarrow> dp_shared \<Rightarrow> bool" where
  "lb_reads st m \<longleftrightarrow> lb_view st m = m"

lemma lb_reads_view: "lb_reads st (lb_view st m)"
  by (simp add: lb_reads_def lb_view_def)

lemma lb_reads_eqs:
  assumes "lb_reads st m"
  shows "service_class m = service_class (lb_view st m)" "service_info m = service_info (lb_view st m)"
    "sched_info m = sched_info (lb_view st m)" "server_info m = server_info (lb_view st m)"
  using assms by (simp_all add: lb_reads_def)

lemma lb_reads_entries:
  assumes "lb_reads st s"
  shows "nps st (build_nps_service_classification_key v) = Some (ServiceClassification c) \<Longrightarrow>
      service_class s \<lparr>sck_address = svc_ip v, sck_port = svc_port v, sck_protocol = svc_protocol v\<rparr> = Some c"
    and "nps st (build_nps_service_info_key v) = Some (ServiceInfo i) \<Longrightarrow>
      service_info s (ucast (svc_nps_index v)) = Some (dp_service_entry i)"
    and "nps st (build_nps_server_info_key w) = Some (ServerInfo r) \<Longrightarrow>
      server_info s (srv_nps_index w) = Some (dp_server_entry r)"
  unfolding lb_reads_eqs [OF assms] by (simp_all add: lb_view_def build_nps_service_classification_key_def build_nps_service_info_key_def
      build_nps_server_info_key_def)

text \<open>Both sides compute the same index of a scheduling entry.\<close>

lemma same_sched_index:
  assumes "unat (svc_nps_index s) < 256" "j < 256"
  shows "scheduling_index (ucast (svc_nps_index s)) (of_nat j) = sched_index s j"
proof -
  have "unat (scheduling_index (ucast (svc_nps_index s)) (of_nat j)) = unat (sched_index s j)"
    using assms
    by (simp add: scheduling_index_def sched_index_def ALVS_SIZE_OF_SCHED_BUCKET_def unsigned_ucast_eq take_bit_eq_mod
        unat_word_ariths unat_of_nat)
  then show ?thesis by (simp only: word_unat_eq_iff)
qed

lemma lb_reads_sched:
  assumes "lb_reads st s" "unat (svc_nps_index v) < 256" "j < 256"
    and "nps st (sched_key v j) = Some (SchedInfo \<lparr>schr_server_index = bswap_32 i\<rparr>)"
  shows "sched_info s (scheduling_index (ucast (svc_nps_index v)) (of_nat j)) = Some \<lparr>schr_server_index = i\<rparr>"
  unfolding lb_reads_eqs [OF assms(1)] using assms(4) by (simp add: lb_view_def sched_key_def same_sched_index [OF assms(2,3)])

subsection \<open>What round robin finds\<close>

text \<open>
  A server takes another connection, and the word of its overload flag is not the counter with which the
  service distributes its connections.
\<close>

definition open_server :: "cp_env \<Rightarrow> alvs_db_service \<Rightarrow> dp_shared \<Rightarrow> alvs_db_server \<Rightarrow> bool" where
  "open_server ce s m v \<longleftrightarrow> can_accept m (dp_server_entry (build_nps_server_info_result v)) \<and>
     srv_flags_dp_base v \<noteq> BUILD_SUM_ADDR (EZDP_INTERNAL_MS ce) (EZDP_ALL_CLUSTER_DATA ce) (svc_nps_index s)"

lemma dp_server_entry_result [simp]:
  "svr_server_ip (dp_server_entry (build_nps_server_info_result v)) = srv_ip v"
  "svr_server_flags_dp_base (dp_server_entry (build_nps_server_info_result v)) = srv_flags_dp_base v"
  by (simp_all add: dp_server_entry_def build_nps_server_info_result_def)

lemma dp_service_entry_result [simp]:
  "sir_sched_alg (dp_service_entry (build_nps_service_info_result ce v)) = svc_sched_alg v"
  "sir_sched_entries_count (dp_service_entry (build_nps_service_info_result ce v)) = svc_sched_entries_count v"
  "sir_service_sched_ctr (dp_service_entry (build_nps_service_info_result ce v)) =
     BUILD_SUM_ADDR (EZDP_INTERNAL_MS ce) (EZDP_ALL_CLUSTER_DATA ce) (svc_nps_index v)"
  by (simp_all add: dp_service_entry_def build_nps_service_info_result_def)

lemma rr_reaches_server:
  assumes cp: "server_info_ok st" "unat (svc_nps_index s) < 256" "published_row ce s st" "active_servers s st \<noteq> []"
    and lb: "lb_reads st (sh d)" and si: "service_info_result d = dp_service_entry (build_nps_service_info_result ce s)"
    and acc: "\<forall>r \<in> set (active_servers s st). open_server ce s (sh d) (snd r)"
    and dp: "lookups_ok e" "arith_ok e"
  obtains r d' where "r \<in> set (active_servers s st)"
    "alvs_sched_rr_schedule_connection e (ucast (svc_nps_index s)) d = (True, d')"
    "schr_server_index (sched_info_result d') = srv_nps_index (snd r)"
    "svr_server_ip (server_info_result d') = srv_ip (snd r)"
proof -
  define n where "n = svc_sched_entries_count s"
  have im: "sched_image s (unat n) st" using cp(3) by (simp add: published_row_def n_def)
  have n: "0 < n" "n \<le> 256"
    using im cp(4) by (simp_all add: sched_image_def unat_eq_0 word_gt_0 word_le_nat_alt) 
  define i where "i = rr_index e (mem32 (sh d) (sir_service_sched_ctr (service_info_result d))) n"
  have "i < ucast n" unfolding i_def by (rule rr_index_less [OF dp(2) n])
  then have i: "unat i < unat n" by (simp add: word_less_nat_alt)
  then obtain r where r: "r \<in> set (active_servers s st)"
    "nps st (sched_key s (unat i)) = Some (SchedInfo \<lparr>schr_server_index = bswap_32 (srv_nps_index (snd r))\<rparr>)"
    using im by (auto simp: sched_image_def)
  have i256: "unat i < 256" using i n(2) by (simp add: word_le_nat_alt)
  have t: "sched_info (sh d) (scheduling_index (ucast (svc_nps_index s)) i) = Some \<lparr>schr_server_index = srv_nps_index (snd r)\<rparr>"
    using lb_reads_sched [OF lb cp(2) i256 r(2)] by simp
  have act: "r \<in> set (servers st)" "srv_active (snd r) = 1" using r(1) by (simp_all add: active_servers_def server_selected_def)
  then have v: "server_info (sh d) (schr_server_index \<lparr>schr_server_index = srv_nps_index (snd r)\<rparr>) =
      Some (dp_server_entry (build_nps_server_info_result (snd r)))"
    using cp(1) lb_reads_entries(3) [OF lb] by (simp add: server_info_ok_def)
  have op: "can_accept (sh d) (dp_server_entry (build_nps_server_info_result (snd r)))"
    "svr_server_flags_dp_base (dp_server_entry (build_nps_server_info_result (snd r))) \<noteq>
      sir_service_sched_ctr (service_info_result d)"
    using acc r(1) by (auto simp: open_server_def si)
  have nn: "n = sir_sched_entries_count (service_info_result d)" by (simp add: n_def si)
  obtain d' where "alvs_sched_rr_schedule_connection e (ucast (svc_nps_index s)) d = (True, d')"
    "sched_info_result d' = \<lparr>schr_server_index = srv_nps_index (snd r)\<rparr>"
    "server_info_result d' = dp_server_entry (build_nps_server_info_result (snd r))"
    by (rule rr_schedules_at [OF dp nn n i_def t v op])
  then show thesis using that r(1) by simp
qed

subsection \<open>The connection entry\<close>

lemma create_new_entry_succeeds:
  assumes "tables_reliable e" "\<forall>n. hash_add_rc e n = 0" "conn_inv e U (tabs st)" "conn_pool (sh st) \<noteq> []"
  obtains i st' where "alvs_conn_create_new_entry e b v p cs fl r st = (ALVS_SERVICE_DATA_PATH_SUCCESS, st')"
    "conn_class (sh st') (conn_class_key st) = Some \<lparr>ccr_conn_index = i\<rparr>"
    "conn_info (sh st') i = Some (new_conn_info (conn_class_key st) b v p cs fl r)"
    "server_info_result st' = server_info_result st"
    "conn_info_result st' = new_conn_info (conn_class_key st) b v p cs fl r"
proof -
  define i where "i = conn_pool (sh st) ! (pick_index e (dp_clock st) mod length (conn_pool (sh st)))"
  have "i \<in> set (conn_pool (sh st))" using assms(4) by (simp add: i_def)
  then have i: "i \<noteq> EZDP_NULL_INDEX e" using assms(3) by (auto simp: conn_inv_def view_defs)
  define st1 where "st1 = sh_update (conn_pool_update (remove1 i)) (dp_tick st)"
  let ?c = "new_conn_info (conn_class_key st) b v p cs fl r"
  define st2 where "st2 = (ezdp_add_conn_info e i (st1\<lparr>conn_info_result := ?c\<rparr>))\<lparr>conn_result := \<lparr>ccr_conn_index = i\<rparr>\<rparr>"
  define st3 where "st3 = snd (ezdp_add_conn_class e (conn_class_key st) \<lparr>ccr_conn_index = i\<rparr> st2)"
  have k: "conn_class_key st1 = conn_class_key st" "conn_class_key st2 = conn_class_key st"
    by (simp_all add: st1_def st2_def dp_tick_def)
  have a: "ezdp_alloc_index e st = (i, st1)" using assms(4) by (simp add: ezdp_alloc_index_def i_def st1_def Let_def)
  have h: "ezdp_add_conn_class e (conn_class_key st) \<lparr>ccr_conn_index = i\<rparr> st2 = (0, st3)"
    using assms(2) by (simp add: st3_def ezdp_add_conn_class_def)
  have "alvs_conn_create_new_entry e b v p cs fl r st = (ALVS_SERVICE_DATA_PATH_SUCCESS, new_conn_statistics b cs st3)"
    using i h by (simp add: alvs_conn_create_new_entry_def a k Let_def st2_def)
  moreover have st3: "conn_class (sh st3) (conn_class_key st) = Some \<lparr>ccr_conn_index = i\<rparr>" "conn_info (sh st3) i = Some ?c"
    "server_info_result st3 = server_info_result st" "conn_info_result st3 = ?c"
    using assms(1,2) by (simp_all add: st3_def st2_def st1_def ezdp_add_conn_class_def ezdp_add_conn_info_def tables_reliable_def dp_tick_def)
  moreover have "tabs (new_conn_statistics b cs st3) = tabs st3" by (simp add: dp_simps)
  moreover have "server_info_result (new_conn_statistics b cs st3) = server_info_result st3"
    "conn_info_result (new_conn_statistics b cs st3) = conn_info_result st3"
    by (simp_all add: new_conn_statistics_def alvs_update_connection_statistics_def ezdp_dual_add_posted_ctr_def
        ezdp_add_posted_ctr_def Let_def)
  ultimately show thesis by (intro that [of "new_conn_statistics b cs st3" i]) (simp_all add: view_defs)
qed

subsection \<open>A packet that opens a connection\<close>

text \<open>The connection \<open>key\<close> is bound to the server of the row \<open>r\<close>.\<close>

definition bound_to :: "alvs_conn_classification_key \<Rightarrow> server_row \<Rightarrow> dp_shared \<Rightarrow> bool" where
  "bound_to key r m \<longleftrightarrow> (\<exists>i c. conn_class m key = Some \<lparr>ccr_conn_index = i\<rparr> \<and> conn_info m i = Some c \<and>
     cir_bound c \<and> cir_server_word c = srv_nps_index (snd r) \<and> cir_conn_class_key c = key)"

definition round_robin :: "alvs_scheduler_type \<Rightarrow> bool" where
  "round_robin alg \<longleftrightarrow> alg = ALVS_ROUND_ROBIN_SCHEDULER \<or> alg = ALVS_WEIGHTED_ROUND_ROBIN_SCHEDULER"

text \<open>What the data plane's library must do: lookups and updates work, the hash tables have room, no other
  thread changes the memory meanwhile, and an entry is free.\<close>

definition dp_works :: "dp_env \<Rightarrow> dp_state \<Rightarrow> bool" where
  "dp_works e d \<longleftrightarrow> lookups_ok e \<and> arith_ok e \<and> tables_reliable e \<and> quiet e \<and> (\<forall>n. hash_add_rc e n = 0) \<and>
     (\<exists>U. conn_inv e U (tabs d)) \<and> conn_pool (sh d) \<noteq> [] \<and> held d = []"

lemma schedule_new_bound:
  assumes cp: "server_info_ok st" "unat (svc_nps_index s) < 256" "published_row ce s st" "active_servers s st \<noteq> []"
      "round_robin (svc_sched_alg s)"
    and lb: "lb_reads st (sh d)" and si: "service_info_result d = dp_service_entry (build_nps_service_info_result ce s)"
    and acc: "\<forall>r \<in> set (active_servers s st). open_server ce s (sh d) (snd r)"
    and dp: "dp_works e d" and new: "conn_class (sh d) (conn_class_key d) = None"
  obtains r d' where "r \<in> set (active_servers s st)"
    "alvs_tcp_schedule_new_connection e (ucast (svc_nps_index s)) ip tcp d = (ALVS_SERVICE_DATA_PATH_SUCCESS, d')"
    "svr_server_ip (server_info_result d') = srv_ip (snd r)" "cir_bound (conn_info_result d')"
    "bound_to (conn_class_key d) r (sh d')"
proof -
  let ?si = "ucast (svc_nps_index s) :: u8"
  note w = dp [unfolded dp_works_def]
  obtain h d1 where l: "alvs_lock_connection e d = (h, d1)" by fastforce
  then have d1: "sh d1 = sh d" "service_info_result d1 = service_info_result d" "conn_class_key d1 = conn_class_key d"
    using w by (auto simp: alvs_lock_connection_def ezdp_lock_spinlock_def quiet_def dp_tick_def Let_def)
  have "sir_sched_entries_count (service_info_result d) \<noteq> 0"
    using cp(3,4) by (auto simp: si published_row_def sched_image_def unat_eq_0)
  then have act: "alvs_sched_check_active_servers e d = (True, d)" by (simp add: alvs_sched_check_active_servers_def)
  obtain r d2 where r: "r \<in> set (active_servers s st)" "alvs_sched_rr_schedule_connection e ?si (dp_tick d1) = (True, d2)"
    "schr_server_index (sched_info_result d2) = srv_nps_index (snd r)" "svr_server_ip (server_info_result d2) = srv_ip (snd r)"
    by (rule rr_reaches_server [OF cp(1-4), of "dp_tick d1" e])
      (use lb si acc w d1 in \<open>simp_all add: dp_tick_def\<close>)
  have s: "schedule_connection e ?si ip tcp (dp_tick d1) = (True, d2)"
    using r(2) cp(5) by (auto simp: schedule_connection_def si d1 round_robin_def dp_tick_def)
  have t2: "tabs d2 = tabs d" "conn_class_key d2 = conn_class_key d"
    using schedule_connection_views(1) [of e ?si ip tcp "dp_tick d1"] schedule_key [of e ?si ip tcp "dp_tick d1"] d1
    by (simp_all add: s dp_simps) (simp_all add: tabs_def dp_tick_def)
  define cs where "cs = (if tcp_fin tcp \<or> tcp_rst tcp then ucast IP_VS_TCP_S_CLOSE_WAIT else ucast IP_VS_TCP_S_ESTABLISHED :: u32)"
  obtain U where pre: "conn_inv e U (tabs d2)" "conn_pool (sh d2) \<noteq> []" using w t2(1) by (auto simp: view_defs)
  obtain i d3 where c: "alvs_conn_create_new_entry e True (srv_nps_index (snd r)) 0 cs (svr_conn_flags (server_info_result d2))
      (tcp_rst tcp) d2 = (ALVS_SERVICE_DATA_PATH_SUCCESS, d3)"
    "conn_class (sh d3) (conn_class_key d2) = Some \<lparr>ccr_conn_index = i\<rparr>"
    "conn_info (sh d3) i = Some (new_conn_info (conn_class_key d2) True (srv_nps_index (snd r)) 0 cs
        (svr_conn_flags (server_info_result d2)) (tcp_rst tcp))"
    "server_info_result d3 = server_info_result d2"
    "conn_info_result d3 = new_conn_info (conn_class_key d2) True (srv_nps_index (snd r)) 0 cs
        (svr_conn_flags (server_info_result d2)) (tcp_rst tcp)"
    using create_new_entry_succeeds w pre by metis
  define d4 where "d4 = alvs_unlock_connection h
      (conn_sync_state_update (conn_sync_status_update (\<lambda>_. ALVS_CONN_SYNC_NEED)) d3)"
  have "alvs_tcp_schedule_new_connection e ?si ip tcp d = (ALVS_SERVICE_DATA_PATH_SUCCESS, d4)"
    using w new d1 c(1) r(3)
    by (simp add: alvs_tcp_schedule_new_connection_def act l s create_scheduled_connection_def cs_def d4_def ENOENT_def EIO_def)
  moreover have "bound_to (conn_class_key d) r (sh d4)"
    using c(2,3) t2(2) by (simp add: bound_to_def d4_def alvs_unlock_connection_def ezdp_unlock_spinlock_def new_conn_info_def)
  moreover have "svr_server_ip (server_info_result d4) = srv_ip (snd r)" "cir_bound (conn_info_result d4)"
    using c(4,5) r(4) by (simp_all add: d4_def alvs_unlock_connection_def ezdp_unlock_spinlock_def new_conn_info_def)
  ultimately show thesis using that r(1) by blast
qed

text \<open>A packet to the address, port and protocol of the service.\<close>

definition packet_to :: "alvs_db_service \<Rightarrow> iphdr \<Rightarrow> tcphdr \<Rightarrow> bool" where
  "packet_to s ip tcp \<longleftrightarrow> iph_daddr ip = svc_ip s \<and> tcp_dest tcp = svc_port s \<and>
     ucast (iph_protocol ip) = svc_protocol s \<and> svc_protocol s = IPPROTO_TCP"

lemma service_class_entry:
  assumes "cp_inv ce st" "s \<in> set (services st)"
  shows "nps st (build_nps_service_classification_key s) =
    Some (ServiceClassification (build_nps_service_classification_result s))"
proof -
  have rows: "distinct (map svc_key (services st))" using assms(1) by (simp add: cp_inv_def service_rows_ok_def)
  obtain k where k: "build_nps_service_classification_key s = SERVICE_CLASSIFICATION k" using class_key_cases by blast
  have "find (\<lambda>t. build_nps_service_classification_key t = SERVICE_CLASSIFICATION k) (services st) = Some s"
    unfolding k [symmetric] class_key_inj by (rule find_unique [OF rows assms(2)])
  then show ?thesis using assms(1) k by (simp add: cp_inv_def service_class_ok_def)
qed

lemma packet_bound:
  assumes cp: "cp_inv ce st" "published_row ce s st" "active_servers s st \<noteq> []" "round_robin (svc_sched_alg s)"
    and lb: "lb_reads st (sh d)" and acc: "\<forall>r \<in> set (active_servers s st). open_server ce s (sh d) (snd r)"
    and dp: "dp_works e d" and pkt: "packet_to s ip tcp" and new: "conn_class (sh d) (tcp_conn_key ip tcp) = None"
  shows "\<exists>r \<in> set (active_servers s st). \<exists>d'. alvs_tcp_processing e ip tcp d = alvs_conn_do_route e d' \<and>
    svr_server_ip (server_info_result d') = srv_ip (snd r) \<and> cir_bound (conn_info_result d') \<and>
    bound_to (tcp_conn_key ip tcp) r (sh (alvs_tcp_processing e ip tcp d))"
proof -
  have s: "s \<in> set (services st)" "nps st (build_nps_service_info_key s) = Some (ServiceInfo (build_nps_service_info_result ce s))"
    using cp(2) by (simp_all add: published_row_def)
  have bound: "unat (svc_nps_index s) < 256" using cp(1) s(1) by (auto simp: cp_inv_def intro: service_index_bound)
  let ?si = "ucast (svc_nps_index s) :: u8"
  note ent = lb_reads_entries(1) [OF lb service_class_entry [OF cp(1) s(1)]] lb_reads_entries(2) [OF lb s(2)]
  define d1 where "d1 = dp_tick (dp_tick (dp_tick (d\<lparr>conn_class_key := tcp_conn_key ip tcp\<rparr>)))
      \<lparr>service_info_result := dp_service_entry (build_nps_service_info_result ce s)\<rparr>"
  have d1: "sh d1 = sh d" "conn_class_key d1 = tcp_conn_key ip tcp" "held d1 = held d"
    "service_info_result d1 = dp_service_entry (build_nps_service_info_result ce s)"
    by (simp_all add: d1_def dp_tick_def)
  have w: "dp_works e d1" using dp d1 by (simp add: dp_works_def tabs_def)
  obtain r d2 where r: "r \<in> set (active_servers s st)"
    "alvs_tcp_schedule_new_connection e ?si ip tcp d1 = (ALVS_SERVICE_DATA_PATH_SUCCESS, d2)"
    "svr_server_ip (server_info_result d2) = srv_ip (snd r)" "cir_bound (conn_info_result d2)"
    "bound_to (conn_class_key d1) r (sh d2)"
    by (rule schedule_new_bound [OF _ bound cp(2-4) _ d1(4) _ w, of ip tcp]) (use cp(1) lb acc new d1 in \<open>simp_all add: cp_inv_def\<close>)
  have ok: "lookups_ok e" using dp by (simp add: dp_works_def)
  have "alvs_tcp_processing e ip tcp d = alvs_conn_do_route e d2"
    using ok new ent r(2) pkt
    by (simp add: alvs_tcp_processing_def alvs_unknown_packet_processing_def alvs_service_data_path_def
        alvs_service_info_lookup_def packet_to_def build_nps_service_classification_result_def dp_tick_def d1_def Let_def)
  moreover have "bound_to k r (sh (alvs_conn_do_route e d2)) = bound_to k r (sh d2)" for k
    using conn_route_tabs(2) [of e d2] by (simp add: bound_to_def view_defs)
  ultimately show ?thesis using r unfolding d1(2) by metis
qed

subsection \<open>Adding a server lets connections reach the service's servers\<close>

text \<open>What the addresses of the NPS need: external and internal memory differ in the bit of the memory space.\<close>

definition memory_layout :: "cp_env \<Rightarrow> bool" where
  "memory_layout ce \<longleftrightarrow> bit (cp_env.EZDP_EXTERNAL_MS ce) 0 \<and> \<not> bit (EZDP_INTERNAL_MS ce) 0 \<and> EZDP_ALL_CLUSTER_DATA ce < 16"

lemma high_bit_zero:
  fixes w :: u32
  assumes "unat w < 2 ^ n" "n \<le> m"
  shows "\<not> bit w m"
proof -
  have "unat w < 2 ^ m" using assms order.strict_trans2 power_increasing [of n m "2 :: nat"] by fastforce
  then have "\<not> bit (unat w) m" by (simp add: bit_iff_odd)
  then show ?thesis by (simp add: bit_unsigned_iff)
qed

lemma flags_apart:
  assumes "memory_layout ce" "flags_based ce r" "unat (svc_nps_index s) < 256"
  shows "srv_flags_dp_base (snd r) \<noteq> BUILD_SUM_ADDR (EZDP_INTERNAL_MS ce) (EZDP_ALL_CLUSTER_DATA ce) (svc_nps_index s)"
proof -
  have "bit (srv_flags_dp_base (snd r)) 31"
    using assms(1,2) by (simp add: memory_layout_def flags_based_def BUILD_SUM_ADDR_def bit_simps)
  moreover have "\<not> bit (svc_nps_index s) 31" by (rule high_bit_zero [of _ 8]) (use assms(3) in simp_all)
  moreover have "\<not> bit (EZDP_ALL_CLUSTER_DATA ce) 4"
    by (rule high_bit_zero [of _ 4]) (use assms(1) in \<open>simp_all add: memory_layout_def word_less_nat_alt\<close>)
  then have "\<not> bit (BUILD_SUM_ADDR (EZDP_INTERNAL_MS ce) (EZDP_ALL_CLUSTER_DATA ce) (svc_nps_index s)) 31"
    using assms(1) calculation(2) by (simp add: memory_layout_def BUILD_SUM_ADDR_def bit_simps)
  ultimately show ?thesis by metis
qed

lemma active_in_rows: "r \<in> set (active_servers s st) \<Longrightarrow> r \<in> set (servers st)"
  by (simp add: active_servers_def)

text \<open>
  C2. From the request to the connection.  A request adds a server with a positive weight to a service that
  is scheduled by round robin, and succeeds.  Then the server is one of those the service is balanced
  over, and the next packet of a new connection to the service, if these servers are below their limits,
  creates a connection bound to one of them and is routed to that server's address, whatever the value of
  the round-robin counter, the order in which SQLite lists the servers and the entry the pool gives.
\<close>

theorem added_server_reached:
  assumes ok: "all_calls_ok ce" "select_ok ce" "memory_layout ce" and inv: "cp_inv ce st"
    and s: "s \<in> set (services st)" "svc_key (requested_service u) = svc_key s" "round_robin (svc_sched_alg s)"
    and weight: "0 < ivd_weight dst" "ivd_weight dst < 65536"
    and run: "alvs_db_add_server ce u dst st = (ALVS_DB_OK, st')"
    and based: "\<forall>r \<in> set (servers st). flags_based ce r"
    and lb: "lb_reads st' (sh d)" and dp: "dp_works e d"
    and acc: "\<forall>r \<in> set (active_servers s st'). can_accept (sh d) (dp_server_entry (build_nps_server_info_result (snd r)))"
    and pkt: "packet_to s ip tcp" "conn_class (sh d) (tcp_conn_key ip tcp) = None"
  shows "(\<exists>r \<in> set (active_servers s st'). added_row s dst r) \<and>
    (\<exists>r \<in> set (active_servers s st'). \<exists>d'. alvs_tcp_processing e ip tcp d = alvs_conn_do_route e d' \<and>
      svr_server_ip (server_info_result d') = srv_ip (snd r) \<and> cir_bound (conn_info_result d') \<and>
      bound_to (tcp_conn_key ip tcp) r (sh (alvs_tcp_processing e ip tcp d)))"
proof -
  obtain s2 c r where a: "s2 \<in> set (services st)" "svc_key (requested_service u) = svc_key s2" "cp_inv ce st'"
    "published_row ce (s2\<lparr>svc_sched_entries_count := c\<rparr>) st'" "r \<in> set (active_servers s2 st')" "added_row s2 dst r"
    "rows_added ce s2 dst st st'"
    by (rule add_server_result [OF ok(1,2) inv weight run])
  have rows: "service_rows_ok st" using inv by (simp add: cp_inv_def)
  have s2: "s2 = s" using service_key_unique [OF rows a(1) s(1)] a(2) s(2) by simp
  let ?s = "s\<lparr>svc_sched_entries_count := c\<rparr>"
  have "\<forall>q \<in> set (servers st'). flags_based ce q" using a(7) based by (simp add: rows_added_def)
  then have opens: "\<forall>q \<in> set (active_servers ?s st'). open_server ce ?s (sh d) (snd q)"
    using acc flags_apart [OF ok(3) _ service_index_bound [OF rows s(1)]] active_in_rows
    by (auto simp: open_server_def simp del: split_paired_All)
  have "active_servers s st' \<noteq> []" using a(5) s2 by auto
  with packet_bound [OF a(3) a(4) [unfolded s2] _ _ lb opens dp _ pkt(2)] s(3) pkt(1)
  have "\<exists>r \<in> set (active_servers s st'). \<exists>d'. alvs_tcp_processing e ip tcp d = alvs_conn_do_route e d' \<and>
      svr_server_ip (server_info_result d') = srv_ip (snd r) \<and> cir_bound (conn_info_result d') \<and>
      bound_to (tcp_conn_key ip tcp) r (sh (alvs_tcp_processing e ip tcp d))"
    by (auto simp: s2 packet_to_def)
  then show ?thesis using a(5,6) s2 by blast
qed

definition example_packet :: iphdr where
  "example_packet = \<lparr>iph_ihl = 5, iph_protocol = 6, iph_saddr = 9, iph_daddr = bswap_32 0x0a000001\<rparr>"

definition example_syn :: tcphdr where
  "example_syn = \<lparr>tcp_source = 7, tcp_dest = bswap_16 80, tcp_fin = False, tcp_rst = False\<rparr>"

definition example_dp :: dp_state where
  "example_dp = idle_state\<lparr>sh := lb_view example_lb (empty_shared\<lparr>conn_pool := [5]\<rparr>)\<rparr>"

theorem added_server_reached_witness:
  "\<exists>r \<in> set (servers example_lb). bound_to (tcp_conn_key example_packet example_syn) r
     (sh (alvs_tcp_processing plain_env example_packet example_syn example_dp))"
proof -
  obtain s c r where s: "s \<in> set (services example_one)" "svc_key (requested_service example_service) = svc_key s"
    "svc_sched_alg s = ALVS_ROUND_ROBIN_SCHEDULER" "active_servers s example_lb = [r]" "added_row s (example_dest 1) r"
    "\<forall>q \<in> set (servers example_one). flags_based ok_env q"
    by (rule example_lb_cases)
  have m: "memory_layout ok_env" by (simp add: memory_layout_def ok_env_def)
  have w: "0 < ivd_weight (example_dest 1)" "ivd_weight (example_dest 1) < 65536" by (simp_all add: example_dest_def)
  have rr: "round_robin (svc_sched_alg s)" by (simp add: round_robin_def s(3))
  have lb: "lb_reads example_lb (sh example_dp)" by (simp add: example_dp_def lb_reads_view)
  have "conn_inv plain_env {5} (tabs example_dp)"
    by (simp add: conn_inv_def view_defs example_dp_def idle_state_def lb_view_def empty_shared_def plain_env_def)
  moreover have "lookups_ok plain_env" "arith_ok plain_env" "tables_reliable plain_env" "quiet plain_env" "\<forall>n. hash_add_rc plain_env n = 0"
    "conn_pool (sh example_dp) \<noteq> []" "held example_dp = []"
    by (simp_all add: tables_reliable_def quiet_def) (simp_all add: example_dp_def idle_state_def lb_view_def plain_env_def)
  ultimately have dp: "dp_works plain_env example_dp" unfolding dp_works_def by blast
  have new: "conn_class (sh example_dp) (tcp_conn_key example_packet example_syn) = None"
    by (simp add: example_dp_def idle_state_def lb_view_def empty_shared_def)
  have pkt: "packet_to s example_packet example_syn"
    using s(2) by (simp add: requested_service_def packet_to_def example_packet_def example_syn_def example_service_def svc_key_def IPPROTO_TCP_def)
  have "srv_u_thresh (snd r) = 0" using s(5) by (simp add: added_row_def example_dest_def)
  then have acc: "\<forall>r \<in> set (active_servers s example_lb).
      can_accept (sh example_dp) (dp_server_entry (build_nps_server_info_result (snd r)))"
    by (simp add: s(4) can_accept_def dp_server_entry_def build_nps_server_info_result_def)
  from added_server_reached [OF ok_env_ok m example_one_inv s(1,2) rr w example_lb_run s(6) lb dp acc pkt new]
  show ?thesis using active_in_rows by blast
qed

subsection \<open>A stale count loses connections\<close>

lemma rr_loop_absent:
  assumes "lookups_ok e" "arith_ok e" "service_info (sh d) si = Some v" "service_info_result d = v"
    and "0 < sir_sched_entries_count v" "sir_sched_entries_count v \<le> 256"
    and "\<forall>i < ucast (sir_sched_entries_count v). sched_info (sh d) (scheduling_index si i) = None"
  shows "\<exists>d'. rr_sched_loop e si n c d = (Some ALVS_SCHED_SERVER_EMPTY, d')"
  using assms(3,4,7)
proof (induction n arbitrary: c d)
  case (Suc n)
  define i where "i = rr_index e c (sir_sched_entries_count v)"
  have "i < ucast (sir_sched_entries_count v)" unfolding i_def by (rule rr_index_less [OF assms(2,5,6)])
  then have "sched_info (sh d) (scheduling_index si i) = None" using Suc.prems(3) by blast
  then have "alvs_sched_get_server_info e (scheduling_index si i) d = (ALVS_SCHED_SERVER_EMPTY, dp_tick d)"
    using assms(1) by (simp add: alvs_sched_get_server_info_def alvs_server_sched_lookup_def ENOENT_def)
  moreover define d1 where "d1 = (dp_tick (dp_tick d))\<lparr>service_info_result := v\<rparr>"
  moreover have "alvs_sched_service_info_lookup e si (dp_tick d) = (0, d1)"
    using assms(1) Suc.prems(1) by (simp add: alvs_sched_service_info_lookup_def d1_def dp_tick_def)
  moreover have "alvs_sched_check_active_servers e d1 = (True, d1)"
    using assms(5) by (simp add: alvs_sched_check_active_servers_def d1_def)
  moreover have "\<exists>d'. rr_sched_loop e si n i d1 = (Some ALVS_SCHED_SERVER_EMPTY, d')"
    by (rule Suc.IH) (use Suc.prems in \<open>simp_all add: d1_def dp_tick_def\<close>)
  ultimately show ?case using Suc.prems(2) by (simp add: Let_def i_def)
qed simp

text \<open>
  After \<open>stale_entries_count_republished\<close> with the only server deleted, the data plane still takes the
  service for active: it tries the absent entries until its retries are used up and refuses the
  connection as an error of the scheduling.
\<close>

lemma stale_count_loses_connections:
  assumes "lb_reads st (sh d)" "lookups_ok e" "arith_ok e" "unat (svc_nps_index s) < 256"
    and "nps st (build_nps_service_info_key s) = Some (ServiceInfo (build_nps_service_info_result ce s))"
    and "0 < svc_sched_entries_count s" "svc_sched_entries_count s \<le> 256" "\<forall>j < 256. nps st (sched_key s j) = None"
    and "service_info_result d = dp_service_entry (build_nps_service_info_result ce s)"
  shows "alvs_sched_check_active_servers e d = (True, d)"
    "fst (alvs_sched_rr_schedule_connection e (ucast (svc_nps_index s)) d) = False"
proof -
  let ?v = "dp_service_entry (build_nps_service_info_result ce s)"
  show "alvs_sched_check_active_servers e d = (True, d)"
    using assms(6,9) by (simp add: alvs_sched_check_active_servers_def)
  have "sched_info (sh d) (scheduling_index (ucast (svc_nps_index s)) i) = None" if "i < ucast (svc_sched_entries_count s)" for i
  proof -
    have "unat i < 256" using that assms(7) by (simp add: word_less_nat_alt word_le_nat_alt)
    then show ?thesis
      using same_sched_index [OF assms(4), of "unat i"] assms(8) lb_reads_eqs(3) [OF assms(1)]
      by (simp add: lb_view_def sched_key_def)
  qed
  moreover have "service_info (sh d) (ucast (svc_nps_index s)) = Some ?v" by (rule lb_reads_entries(2) [OF assms(1,5)])
  ultimately obtain d' where "rr_sched_loop e (ucast (svc_nps_index s)) ALVS_SCHED_RR_RETRIES
      (mem32 (sh d) (sir_service_sched_ctr ?v)) (ezdp_atomic_set32 (sir_service_sched_ctr ?v) (\<lambda>w. w + 1) d) =
      (Some ALVS_SCHED_SERVER_EMPTY, d')"
    using rr_loop_absent [OF assms(2,3), of "ezdp_atomic_set32 (sir_service_sched_ctr ?v) (\<lambda>w. w + 1) d"
        "ucast (svc_nps_index s)" ?v ALVS_SCHED_RR_RETRIES] assms(6,7,9)
    by (auto simp: ezdp_atomic_set32_def)
  then show "fst (alvs_sched_rr_schedule_connection e (ucast (svc_nps_index s)) d) = False"
    using assms(9) by (simp add: alvs_sched_rr_schedule_connection_def Let_def)
qed

end
