(* ===== verification/Mac_Address.thy ===== *)
theory Mac_Address
  imports Alvs_Defs "HOL-Library.Char_ord"
begin

text \<open>
  The hardware address of the host interface, \<open>infra_get_my_mac\<close> of \<^verbatim>\<open>src/cp/infrastructure.c\<close>: the
  file of the kernel is read with one call of \<open>fscanf\<close>, whose conversions \<open>%2hhx\<close> and \<open>%*c\<close> are
  modelled on the characters of the file as the C standard defines them (7.21.6.2).  The address bytes
  assigned before a conversion fails keep their new values.
\<close>

subsection \<open>Conversions of \<open>fscanf\<close>\<close>

definition is_space :: "char \<Rightarrow> bool" where
  "is_space c \<longleftrightarrow> c \<in> {CHR '' '', CHR 0x09, CHR 0x0A, CHR 0x0B, CHR 0x0C, CHR 0x0D}"

definition hex_digit :: "char \<Rightarrow> nat option" where
  "hex_digit c =
     (if CHR ''0'' \<le> c \<and> c \<le> CHR ''9'' then Some (of_char c - of_char (CHR ''0''))
      else if CHR ''a'' \<le> c \<and> c \<le> CHR ''f'' then Some (of_char c - of_char (CHR ''a'') + 10)
      else if CHR ''A'' \<le> c \<and> c \<le> CHR ''F'' then Some (of_char c - of_char (CHR ''A'') + 10)
      else None)"

text \<open>
  The input item of \<open>%2hhx\<close> has at most two characters: a sign and a digit, or one or two digits.  The
  characters \<open>0x\<close> alone begin a number but are none, so they fail.
\<close>

fun scan_hex2_item :: "string \<Rightarrow> (u8 \<times> string) option" where
  "scan_hex2_item (c # d # rest) =
     (if c = CHR ''+'' then map_option (\<lambda>n. (of_nat n, rest)) (hex_digit d)
      else if c = CHR ''-'' then map_option (\<lambda>n. (- of_nat n, rest)) (hex_digit d)
      else if c = CHR ''0'' \<and> (d = CHR ''x'' \<or> d = CHR ''X'') then None
      else case (hex_digit c, hex_digit d) of
        (Some m, Some n) \<Rightarrow> Some (of_nat (16 * m + n), rest)
      | (Some m, None) \<Rightarrow> Some (of_nat m, d # rest)
      | (None, _) \<Rightarrow> None)"
| "scan_hex2_item [c] = map_option (\<lambda>m. (of_nat m, [])) (hex_digit c)"
| "scan_hex2_item [] = None"

definition scan_hex2 :: "string \<Rightarrow> (u8 \<times> string) option" where
  "scan_hex2 input = scan_hex2_item (dropWhile is_space input)"

text \<open>
  The loop over the fields: \<open>i\<close> bytes are assigned, and the separator \<open>%*c\<close> stands between two fields.
  The result is the number of assigned bytes; \<open>EOF\<close>, returned when the input ends before the first
  conversion, differs from the expected number like any count below six.
\<close>

fun scan_mac :: "nat \<Rightarrow> nat \<Rightarrow> string \<Rightarrow> ether_addr \<Rightarrow> nat \<times> ether_addr" where
  "scan_mac 0 i input mac = (i, mac)"
| "scan_mac (Suc n) i input mac =
     (case scan_hex2 input of
        None \<Rightarrow> (i, mac)
      | Some (b, rest) \<Rightarrow>
          (case (n, rest) of
             (0, _) \<Rightarrow> (Suc i, mac[i := b])
           | (Suc _, []) \<Rightarrow> (Suc i, mac[i := b])
           | (Suc _, c # rest) \<Rightarrow> scan_mac n (Suc i) rest (mac[i := b])))"

definition ETH_ALEN :: nat where "ETH_ALEN = 6"

text \<open>\<open>None\<close> stands for a file that cannot be opened.\<close>

definition infra_get_my_mac :: "string option \<Rightarrow> ether_addr \<Rightarrow> bool \<times> ether_addr" where
  "infra_get_my_mac address_file my_mac =
     (case address_file of
        None \<Rightarrow> (False, my_mac)
      | Some text \<Rightarrow> let (fscanf_res, my_mac) = scan_mac 6 0 text my_mac in (fscanf_res = ETH_ALEN, my_mac))"

subsection \<open>The address the kernel prints is read back\<close>

definition hex_char :: "nat \<Rightarrow> char" where
  "hex_char n = (if n < 10 then char_of (n + 48) else char_of (n + 87))"

definition print_byte :: "u8 \<Rightarrow> string" where
  "print_byte b = [hex_char (unat b div 16), hex_char (unat b mod 16)]"

text \<open>The kernel writes two digits per byte, colons between the bytes and a line feed at the end.\<close>

fun print_mac :: "ether_addr \<Rightarrow> string" where
  "print_mac [] = [CHR 0x0A]"
| "print_mac [b] = print_byte b @ [CHR 0x0A]"
| "print_mac (b # c # bs) = print_byte b @ CHR '':'' # print_mac (c # bs)"

lemma hex_char_digit:
  assumes "n < 16"
  shows "hex_digit (hex_char n) = Some n" "\<not> is_space (hex_char n)"
    "hex_char n \<noteq> CHR ''+''" "hex_char n \<noteq> CHR ''-''" "hex_char n \<noteq> CHR ''x''" "hex_char n \<noteq> CHR ''X''"
proof -
  have "\<forall>n \<in> set [0..<16]. hex_digit (hex_char n) = Some n \<and> \<not> is_space (hex_char n) \<and> hex_char n \<noteq> CHR ''+'' \<and>
      hex_char n \<noteq> CHR ''-'' \<and> hex_char n \<noteq> CHR ''x'' \<and> hex_char n \<noteq> CHR ''X''"
    by code_simp
  then have "hex_digit (hex_char n) = Some n \<and> \<not> is_space (hex_char n) \<and> hex_char n \<noteq> CHR ''+'' \<and>
      hex_char n \<noteq> CHR ''-'' \<and> hex_char n \<noteq> CHR ''x'' \<and> hex_char n \<noteq> CHR ''X''"
    using assms by (metis atLeastLessThan_iff set_upt zero_le)
  then show "hex_digit (hex_char n) = Some n" "\<not> is_space (hex_char n)"
    "hex_char n \<noteq> CHR ''+''" "hex_char n \<noteq> CHR ''-''" "hex_char n \<noteq> CHR ''x''" "hex_char n \<noteq> CHR ''X''"
    by simp_all
qed

lemma scan_hex2_print: "scan_hex2 (print_byte b @ rest) = Some (b, rest)"
proof -
  have n: "unat b div 16 < 16" "unat b mod 16 < 16" using unsigned_less [of b] by (simp_all add: less_mult_imp_div_less)
  show ?thesis
    using hex_char_digit [OF n(1)] hex_char_digit [OF n(2)]
    by (simp add: scan_hex2_def print_byte_def)
qed

lemma scan_print_mac:
  assumes "length mac = i + length bs"
  shows "scan_mac (length bs) i (print_mac bs) mac = (i + length bs, take i mac @ bs)"
  using assms
proof (induction bs arbitrary: i mac rule: print_mac.induct)
  case (2 b)
  have "mac[i := b] = take i mac @ [b]" using 2 by (simp add: upd_conv_take_nth_drop)
  then show ?case by (simp add: scan_hex2_print)
next
  case three: (3 b c bs)
  have "take (Suc i) (mac[i := b]) = take i mac @ [b]" using three.prems by (simp add: take_Suc_conv_app_nth)
  then show ?case using three.IH [of "mac[i := b]" "Suc i"] three.prems by (simp add: scan_hex2_print)
qed simp

theorem mac_address_roundtrip:
  assumes "length bs = ETH_ALEN" "length old = ETH_ALEN"
  shows "infra_get_my_mac (Some (print_mac bs)) old = (True, bs)"
  using scan_print_mac [of old 0 bs] assms by (simp add: infra_get_my_mac_def ETH_ALEN_def)

theorem mac_address_roundtrip_witness:
  "infra_get_my_mac (Some ''00:02:c9:42:42:43\<newline>'') [0, 0, 0, 0, 0, 0] = (True, [0x00, 0x02, 0xc9, 0x42, 0x42, 0x43])"
proof -
  have "print_mac [0x00, 0x02, 0xc9, 0x42, 0x42, 0x43] = ''00:02:c9:42:42:43\<newline>''" by code_simp
  then show ?thesis
    using mac_address_roundtrip [of "[0x00, 0x02, 0xc9, 0x42, 0x42, 0x43]" "[0, 0, 0, 0, 0, 0]"]
    by (simp only: ETH_ALEN_def) simp
qed

text \<open>A file that ends early, or holds something else, is refused, but the bytes read before are kept.\<close>

lemma mac_address_refused:
  "infra_get_my_mac None old = (False, old)"
  "fst (infra_get_my_mac (Some ''00:02:c9'') old) = False"
  "infra_get_my_mac (Some ''0:2:zz'') [9, 9, 9, 9, 9, 9] = (False, [0, 2, 9, 9, 9, 9])"
proof -
  show "infra_get_my_mac None old = (False, old)" by (simp add: infra_get_my_mac_def)
  have "fst (scan_mac 6 0 ''00:02:c9'' old) = 3" 
    by (simp add: numeral_eq_Suc scan_hex2_def is_space_def hex_digit_def)
  then show "fst (infra_get_my_mac (Some ''00:02:c9'') old) = False"
    by (simp add: infra_get_my_mac_def ETH_ALEN_def case_prod_beta Let_def)
  show "infra_get_my_mac (Some ''0:2:zz'') [9, 9, 9, 9, 9, 9] = (False, [0, 2, 9, 9, 9, 9])" by code_simp
qed

end
