(* ===== verification/Cp_Log.thy ===== *)
theory Cp_Log
  imports Alvs_Defs
begin

text \<open>
  The log of the control plane, \<^verbatim>\<open>src/cp/log.c\<close> and \<^verbatim>\<open>src/cp/log.h\<close>: \<open>open_log\<close>, \<open>close_log\<close> and the
  macro \<open>write_log\<close>, in the debug build and in the release build.  The functions of \<^verbatim>\<open>syslog.h\<close> are
  modelled by the state POSIX gives them and the lines they deliver; the calls of the EZ log of the SDK,
  whose results the code ignores, are recorded in order.
\<close>

subsection \<open>State\<close>

text \<open>A delivered line: facility and priority, identification and text.\<close>

record log_line =
  ll_facility :: u32
  ll_priority :: u32
  ll_ident :: string
  ll_text :: string

datatype ezlog_call =
    EZlog_SetFileName string
  | EZlog_OpenLogFile
  | EZlog_SetMaximalLogSize nat
  | EZlog_SetLog string string string string
  | EZlog_CloseLogFile

record cp_log =
  lg_mask :: u32
  lg_ident :: string
  lg_option :: u32
  lg_facility :: u32
  lg_open :: bool
  lg_lines :: "log_line list"
  ez_calls :: "ezlog_call list"

definition LOG_ERR :: u32 where "LOG_ERR = 3"
definition LOG_INFO :: u32 where "LOG_INFO = 6"
definition LOG_DEBUG :: u32 where "LOG_DEBUG = 7"
definition LOG_USER :: u32 where "LOG_USER = 8"
definition LOG_DAEMON :: u32 where "LOG_DAEMON = 24"
definition LOG_PID :: u32 where "LOG_PID = 1"
definition LOG_CONS :: u32 where "LOG_CONS = 2"
definition LOG_NDELAY :: u32 where "LOG_NDELAY = 8"
definition LOG_PRIMASK :: u32 where "LOG_PRIMASK = 7"

definition LOG_UPTO :: "u32 \<Rightarrow> u32" where
  "LOG_UPTO pri = push_bit (unat pri + 1) 1 - 1"

definition LOG_MAKEPRI :: "u32 \<Rightarrow> u32 \<Rightarrow> u32" where
  "LOG_MAKEPRI fac pri = fac OR pri"

subsection \<open>The functions of \<^verbatim>\<open>syslog.h\<close>\<close>

text \<open>A mask of zero leaves the mask as it is; a message without a facility gets the default one.\<close>

definition setlogmask :: "u32 \<Rightarrow> cp_log \<Rightarrow> cp_log" where
  "setlogmask m st = (if m = 0 then st else st\<lparr>lg_mask := m\<rparr>)"

definition openlog :: "string \<Rightarrow> u32 \<Rightarrow> u32 \<Rightarrow> cp_log \<Rightarrow> cp_log" where
  "openlog ident option facility st =
     st\<lparr>lg_ident := ident, lg_option := option, lg_facility := facility, lg_open := True\<rparr>"

definition closelog :: "cp_log \<Rightarrow> cp_log" where
  "closelog st = st\<lparr>lg_open := False\<rparr>"

definition syslog :: "u32 \<Rightarrow> string \<Rightarrow> cp_log \<Rightarrow> cp_log" where
  "syslog pri text st =
     (let priority = pri AND LOG_PRIMASK; facility = pri AND NOT LOG_PRIMASK in
      if \<not> bit (lg_mask st) (unat priority) then st
      else st\<lparr>lg_lines := lg_lines st @ [\<lparr>ll_facility = (if facility = 0 then lg_facility st else facility),
             ll_priority = priority, ll_ident = lg_ident st, ll_text = text\<rparr>]\<rparr>)"

subsection \<open>The log\<close>

text \<open>\<open>debug\<close> is true in a build without \<open>NDEBUG\<close>.\<close>

definition LOG_LEVEL :: "bool \<Rightarrow> u32" where
  "LOG_LEVEL debug = (if debug then LOG_DEBUG else LOG_INFO)"

definition EZlog_LEVEL :: "bool \<Rightarrow> string" where
  "EZlog_LEVEL debug = (if debug then ''EZlog_LEVEL_DEBUG'' else ''EZlog_LEVEL_TRACE'')"

definition LOG_MAX_SIZE :: nat where "LOG_MAX_SIZE = 500"

definition ezlog :: "ezlog_call \<Rightarrow> cp_log \<Rightarrow> cp_log" where
  "ezlog c st = st\<lparr>ez_calls := ez_calls st @ [c]\<rparr>"

definition cp_open_log :: "bool \<Rightarrow> string \<Rightarrow> cp_log \<Rightarrow> cp_log" where
  "cp_open_log debug s st =
     (let st = setlogmask (LOG_UPTO (LOG_LEVEL debug)) st;
          facility = LOG_DAEMON;
          option = LOG_CONS OR LOG_PID OR LOG_NDELAY;
          st = openlog s option facility st;
          st = ezlog (EZlog_SetFileName ''/var/log/alvs_ezcp_log'') st;
          st = ezlog EZlog_OpenLogFile st;
          st = ezlog (EZlog_SetMaximalLogSize LOG_MAX_SIZE) st
      in ezlog (EZlog_SetLog ''EZlog_OUTPUT_FILE'' ''EZlog_COMP_CP_ALL'' ''EZlog_SUB_COMP_CP_ALL_PRM'' (EZlog_LEVEL debug)) st)"

definition cp_close_log :: "cp_log \<Rightarrow> cp_log" where
  "cp_close_log st =
     closelog (ezlog EZlog_CloseLogFile
       (ezlog (EZlog_SetLog ''EZlog_OUTPUT_FILE'' ''EZlog_COMP_ALL'' ''EZlog_SUB_COMP_LOG_ALL'' ''EZlog_LEVEL_FATAL'') st))"

text \<open>
  The macro: \<open>s\<close> is the formatted message, and the debug build appends the place \<open>(file, line, func)\<close> of
  the call, its line printed in decimal.
\<close>

definition cp_write_log :: "bool \<Rightarrow> string \<times> string \<times> string \<Rightarrow> u32 \<Rightarrow> string \<Rightarrow> cp_log \<Rightarrow> cp_log" where
  "cp_write_log debug place priority s st =
     (let (file, line, func) = place in
      syslog (LOG_MAKEPRI LOG_USER priority)
        (if debug then s @ '' [FILE: '' @ file @ '':'' @ line @ '' FUNC: '' @ func @ '']'' else s) st)"

subsection \<open>What is delivered\<close>

type_synonym log_request = "(string \<times> string \<times> string) \<times> u32 \<times> string"

definition delivered_text :: "bool \<Rightarrow> log_request \<Rightarrow> string" where
  "delivered_text debug r = (let ((file, line, func), p, s) = r in
     if debug then s @ '' [FILE: '' @ file @ '':'' @ line @ '' FUNC: '' @ func @ '']'' else s)"

definition delivered_line :: "bool \<Rightarrow> string \<Rightarrow> log_request \<Rightarrow> log_line" where
  "delivered_line debug ident r =
     \<lparr>ll_facility = LOG_USER, ll_priority = fst (snd r), ll_ident = ident, ll_text = delivered_text debug r\<rparr>"

lemma priority_cases: "unat (p :: u32) < 8 \<Longrightarrow> p \<in> {0, 1, 2, 3, 4, 5, 6, 7}"
proof -
  assume "unat p < 8"
  then have "unat p \<in> {0, 1, 2, 3, 4, 5, 6, 7}" by auto
  then show ?thesis by (auto simp: word_unat_eq_iff)
qed

lemma makepri_split:
  assumes "unat p < 8"
  shows "LOG_MAKEPRI LOG_USER p AND LOG_PRIMASK = p" "LOG_MAKEPRI LOG_USER p AND NOT LOG_PRIMASK = LOG_USER"
  using priority_cases [OF assms] by (auto simp: LOG_MAKEPRI_def LOG_USER_def LOG_PRIMASK_def)

lemma level_mask:
  assumes "unat p < 8"
  shows "bit (LOG_UPTO (LOG_LEVEL debug)) (unat p) \<longleftrightarrow> p \<le> LOG_LEVEL debug"
  using priority_cases [OF assms]
  by (cases debug) (auto simp: LOG_UPTO_def LOG_LEVEL_def LOG_DEBUG_def LOG_INFO_def push_bit_eq_mult bit_iff_odd_drop_bit drop_bit_eq_div)

lemma cp_write_log_delivers:
  assumes "unat (fst (snd r)) < 8" "lg_mask st = LOG_UPTO (LOG_LEVEL debug)"
  shows "cp_write_log debug (fst r) (fst (snd r)) (snd (snd r)) st =
    (if fst (snd r) \<le> LOG_LEVEL debug
     then st\<lparr>lg_lines := lg_lines st @ [delivered_line debug (lg_ident st) r]\<rparr> else st)"
  using makepri_split [OF assms(1)] level_mask [OF assms(1), of debug] assms(2)
  by (auto simp: cp_write_log_def syslog_def delivered_line_def delivered_text_def Let_def LOG_USER_def split: prod.splits)

text \<open>
  Between opening and closing, the log delivers exactly the messages up to the level of the build, in
  their order, with the application's name; the release build drops the debug messages only.
\<close>

theorem log_delivers:
  assumes "\<forall>r \<in> set rs. unat (fst (snd r)) < 8"
  shows "lg_lines (cp_close_log (fold (\<lambda>r. cp_write_log debug (fst r) (fst (snd r)) (snd (snd r))) rs (cp_open_log debug s st))) =
    lg_lines st @ map (delivered_line debug s) (filter (\<lambda>r. fst (snd r) \<le> LOG_LEVEL debug) rs)"
proof -
  have "lg_lines (fold (\<lambda>r. cp_write_log debug (fst r) (fst (snd r)) (snd (snd r))) rs st1) =
      lg_lines st1 @ map (delivered_line debug (lg_ident st1)) (filter (\<lambda>r. fst (snd r) \<le> LOG_LEVEL debug) rs)"
    if "lg_mask st1 = LOG_UPTO (LOG_LEVEL debug)" for st1
    using assms that by (induction rs arbitrary: st1) (simp_all add: cp_write_log_delivers)
  moreover have "LOG_UPTO (LOG_LEVEL debug) \<noteq> 0"
    by (cases debug) (simp_all add: LOG_UPTO_def LOG_LEVEL_def LOG_DEBUG_def LOG_INFO_def push_bit_eq_mult)
  ultimately show ?thesis
    by (simp add: cp_close_log_def closelog_def ezlog_def cp_open_log_def setlogmask_def openlog_def Let_def)
qed

theorem log_delivers_witness:
  "lg_lines (cp_close_log (fold (\<lambda>r. cp_write_log False (fst r) (fst (snd r)) (snd (snd r)))
      [((''main.c'', ''1'', ''main''), LOG_DEBUG, ''a''), ((''main.c'', ''2'', ''main''), LOG_ERR, ''b'')]
      (cp_open_log False ''alvs_daemon'' \<lparr>lg_mask = 255, lg_ident = [], lg_option = 0, lg_facility = LOG_USER,
        lg_open = False, lg_lines = [], ez_calls = []\<rparr>))) =
    [\<lparr>ll_facility = LOG_USER, ll_priority = LOG_ERR, ll_ident = ''alvs_daemon'', ll_text = ''b''\<rparr>]"
  by (subst log_delivers) (simp_all add: LOG_DEBUG_def LOG_ERR_def LOG_LEVEL_def LOG_INFO_def delivered_line_def delivered_text_def)

text \<open>Opening and closing touch the EZ log in a fixed order, and leave both logs closed.\<close>

lemma open_close_calls:
  "ez_calls (cp_close_log (cp_open_log debug s st)) = ez_calls st @
     [EZlog_SetFileName ''/var/log/alvs_ezcp_log'', EZlog_OpenLogFile, EZlog_SetMaximalLogSize LOG_MAX_SIZE,
      EZlog_SetLog ''EZlog_OUTPUT_FILE'' ''EZlog_COMP_CP_ALL'' ''EZlog_SUB_COMP_CP_ALL_PRM'' (EZlog_LEVEL debug),
      EZlog_SetLog ''EZlog_OUTPUT_FILE'' ''EZlog_COMP_ALL'' ''EZlog_SUB_COMP_LOG_ALL'' ''EZlog_LEVEL_FATAL'',
      EZlog_CloseLogFile]"
  "lg_open (cp_open_log debug s st)" "\<not> lg_open (cp_close_log st)"
  by (simp_all add: cp_close_log_def cp_open_log_def closelog_def openlog_def ezlog_def setlogmask_def Let_def)

end
