(* ===== verification/Text_Output.thy ===== *)
theory Text_Output
  imports Alvs_DB_Admin Dp_State
begin

text \<open>
  Texts the program prints: addresses (\<open>my_inet_ntoa\<close> of \<^verbatim>\<open>src/cp/alvs_db.c\<close> and \<open>addr_to_str\<close> of
  \<^verbatim>\<open>src/cp/nw_db_manager.c\<close>, which return pointers to static buffers), the names of the error counters
  (\<^verbatim>\<open>src/cp/error_names.c\<close>) and the report of the data plane at its start (\<open>alvs_print_info\<close> of
  \<^verbatim>\<open>src/dp/main.c\<close>).
\<close>

subsection \<open>Addresses\<close>

fun dec :: "nat \<Rightarrow> string" where
  "dec n = (if n < 10 then [char_of (n + 48)] else dec (n div 10) @ [char_of (n mod 10 + 48)])"

declare dec.simps [simp del]

text \<open>\<open>inet_ntoa\<close> prints the bytes of its argument in the order of the memory of the little-endian host.\<close>

definition inet_ntoa :: "in_addr_t \<Rightarrow> string" where
  "inet_ntoa s_addr =
     dec (unat (take_bit 8 s_addr)) @ ''.'' @ dec (unat (take_bit 8 (drop_bit 8 s_addr))) @ ''.'' @
     dec (unat (take_bit 8 (drop_bit 16 s_addr))) @ ''.'' @ dec (unat (take_bit 8 (drop_bit 24 s_addr)))"

text \<open>
  The text is written to the one buffer of the C library, the state of the function; the pointer that is
  returned is always the same, so reading it gives what the buffer holds at that time.
\<close>

definition my_inet_ntoa :: "in_addr_t \<Rightarrow> string \<Rightarrow> string" where
  "my_inet_ntoa ip buffer = inet_ntoa (bswap_32 ip)"

text \<open>
  The message of the aging thread names the address of a server and the address of its service.  Both
  arguments are evaluated, in an order C leaves open, before the message is formatted.
\<close>

definition aging_message :: "bool \<Rightarrow> in_addr_t \<Rightarrow> in_addr_t \<Rightarrow> string \<Rightarrow> string \<times> string" where
  "aging_message server_first server_ip service_ip buffer =
     (let buffer = (if server_first then my_inet_ntoa service_ip (my_inet_ntoa server_ip buffer)
                    else my_inet_ntoa server_ip (my_inet_ntoa service_ip buffer))
      in (buffer, buffer))"

text \<open>Whatever the order, the message shows one of the two addresses twice.\<close>

lemma aging_message_one_address:
  "fst (aging_message o1 a b buf) = snd (aging_message o1 a b buf)"
  "aging_message True a b buf = (inet_ntoa (bswap_32 b), inet_ntoa (bswap_32 b))"
  "aging_message False a b buf = (inet_ntoa (bswap_32 a), inet_ntoa (bswap_32 a))"
  by (simp_all add: aging_message_def my_inet_ntoa_def Let_def)

lemma aging_message_example:
  "aging_message True 0x0a000002 0x0a000001 [] = (''10.0.0.1'', ''10.0.0.1'')"
  by code_simp

text \<open>
  The network database keeps four buffers of 256 characters and uses them in turn.  \<open>nl_addr2str\<close> is a
  parameter; it writes no more than 255 characters and the terminating null byte.
\<close>

record addr_bufs =
  ab_i :: nat
  ab_bufs :: "string list"

definition addr_to_str :: "('a \<Rightarrow> string) \<Rightarrow> 'a \<Rightarrow> addr_bufs \<Rightarrow> nat \<times> addr_bufs" where
  "addr_to_str nl_addr2str addr st =
     (let buf = ab_i st; i = (ab_i st + 1) mod 4
      in (buf, st\<lparr>ab_i := i, ab_bufs := (ab_bufs st)[buf := take 255 (nl_addr2str addr)]\<rparr>))"

fun addr_to_strs :: "('a \<Rightarrow> string) \<Rightarrow> 'a list \<Rightarrow> addr_bufs \<Rightarrow> nat list \<times> addr_bufs" where
  "addr_to_strs conv [] st = ([], st)"
| "addr_to_strs conv (a # addrs) st =
     (let (buf, st) = addr_to_str conv a st; (bufs, st) = addr_to_strs conv addrs st in (buf # bufs, st))"

definition bufs_ok :: "addr_bufs \<Rightarrow> bool" where
  "bufs_ok st \<longleftrightarrow> length (ab_bufs st) = 4 \<and> ab_i st < 4"

lemma addr_to_strs_spec:
  assumes "bufs_ok st" "length addrs \<le> 4" "addr_to_strs conv addrs st = (bufs, st')"
  shows "bufs = map (\<lambda>k. (ab_i st + k) mod 4) [0..<length addrs] \<and> bufs_ok st' \<and>
    (\<forall>k < length addrs. ab_bufs st' ! ((ab_i st + k) mod 4) = take 255 (conv (addrs ! k))) \<and>
    (\<forall>k. length addrs \<le> k \<and> k < 4 \<longrightarrow> ab_bufs st' ! ((ab_i st + k) mod 4) = ab_bufs st ! ((ab_i st + k) mod 4))"
  using assms
proof (induction addrs arbitrary: st bufs)
  case (Cons a addrs)
  let ?i = "ab_i st"
  define st1 where "st1 = st\<lparr>ab_i := (?i + 1) mod 4, ab_bufs := (ab_bufs st)[?i := take 255 (conv a)]\<rparr>"
  obtain bufs1 where r: "addr_to_strs conv addrs st1 = (bufs1, st')" "bufs = ?i # bufs1"
    using Cons.prems(3) by (auto simp: addr_to_str_def st1_def Let_def split: prod.splits)
  have ok1: "bufs_ok st1" "ab_i st1 = (?i + 1) mod 4" using Cons.prems(1) by (simp_all add: st1_def bufs_ok_def)
  have shift: "(ab_i st1 + k) mod 4 = (?i + Suc k) mod 4" for k by (simp add: ok1(2) mod_simps)
  have IH: "bufs1 = map (\<lambda>k. (?i + Suc k) mod 4) [0..<length addrs]" "bufs_ok st'"
    "\<And>k. k < length addrs \<Longrightarrow> ab_bufs st' ! ((?i + Suc k) mod 4) = take 255 (conv (addrs ! k))"
    "\<And>k. length addrs \<le> k \<Longrightarrow> k < 4 \<Longrightarrow> ab_bufs st' ! ((?i + Suc k) mod 4) = ab_bufs st1 ! ((?i + Suc k) mod 4)"
    using Cons.IH [OF ok1(1) _ r(1)] Cons.prems(2) by (simp_all add: shift)
  have i: "?i < 4" "length (ab_bufs st) = 4" using Cons.prems(1) by (simp_all add: bufs_ok_def)
  have here: "ab_bufs st' ! ?i = take 255 (conv a)"
    using IH(4) [of 3] Cons.prems(2) i by (simp add: st1_def)
  have "bufs = map (\<lambda>k. (?i + k) mod 4) [0..<length (a # addrs)]"
    using r(2) IH(1) i(1) by (simp add: upt_conv_Cons map_Suc_upt [symmetric] comp_def del: upt_Suc)
  moreover have "ab_bufs st' ! ((?i + k) mod 4) = take 255 (conv ((a # addrs) ! k))" if "k < length (a # addrs)" for k
    using that IH(3) here i(1) by (cases k) simp_all
  moreover have "ab_bufs st' ! ((?i + k) mod 4) = ab_bufs st ! ((?i + k) mod 4)" if "length (a # addrs) \<le> k" "k < 4" for k
  proof -
    from that(1) have "Suc (length addrs) \<le> k" by simp
    then obtain j where j: "k = Suc j" "length addrs \<le> j" by (metis Suc_le_D Suc_le_mono)
    have "(?i + Suc j) mod 4 \<noteq> ?i" using that(2) j(1) i(1) by presburger
    then show ?thesis using IH(4) [of j] j that(2) by (simp add: st1_def)
  qed
  ultimately show ?case using IH(2) by blast
qed (simp add: bufs_ok_def)

text \<open>
  A message may name up to four addresses: each pointer still leads to the text of its own address when
  the message is formatted.
\<close>

theorem four_addresses_intact:
  assumes "bufs_ok st" "length addrs \<le> 4" "addr_to_strs conv addrs st = (bufs, st')"
  shows "map (\<lambda>buf. ab_bufs st' ! buf) bufs = map (\<lambda>a. take 255 (conv a)) addrs"
  using addr_to_strs_spec [OF assms] by (auto intro!: nth_equalityI)

theorem four_addresses_intact_witness:
  "(let (bufs, st) = addr_to_strs (\<lambda>s. s) [''10.0.0.1'', ''02:00'', ''10.0.0.2'', ''02:01'']
      \<lparr>ab_i = 2, ab_bufs = [[], [], [], []]\<rparr> in map (\<lambda>buf. ab_bufs st ! buf) bufs) =
   [''10.0.0.1'', ''02:00'', ''10.0.0.2'', ''02:01'']"
proof -
  let ?as = "[''10.0.0.1'', ''02:00'', ''10.0.0.2'', ''02:01'']"
  obtain bufs st where r: "addr_to_strs (\<lambda>s. s) ?as \<lparr>ab_i = 2, ab_bufs = [[], [], [], []]\<rparr> = (bufs, st)" by fastforce
  show ?thesis using four_addresses_intact [OF _ _ r] by (simp add: bufs_ok_def r del: addr_to_strs.simps)
qed

subsection \<open>Names of the error counters\<close>

definition alvs_error_stats_offsets_names :: "string list" where
  "alvs_error_stats_offsets_names =
     [''UNSUPPORTED_ROUTING_ALGO'', ''CANT_EXPIRE_CONNECTION'', ''CANT_UPDATE_CONNECTION_STATE'', ''CONN_INFO_LKUP_FAIL'',
      ''CONN_CLASS_ALLOC_FAIL'', ''CONN_INFO_ALLOC_FAIL'', ''CONN_INDEX_ALLOC_FAIL'', ''SERVICE_CLASS_LKUP_FAIL'',
      ''SCHEDULING_FAIL'', ''SERVER_INFO_LKUP_FAIL'', ''SERVER_IS_UNAVAILABLE'', ''SERVER_INDEX_LKUP_FAIL'',
      ''CONN_CLASS_LKUP_FAIL'', ''SERVICE_INFO_LOOKUP'', ''UNSUPPORTED_SCHED_ALGO'', ''CANT_MARK_DELETE'',
      ''DEST_SERVER_IS_NOT_AVAIL'', ''SEND_FRAME_FAIL'', ''CONN_MARK_TO_DELETE'', ''SERVICE_CLASS_LOOKUP'',
      ''UNSUPPORTED_PROTOCOL'', ''NO_ACTIVE_SERVERS'', ''CREATE_CONN_MEM_ERROR'', ''STATE_SYNC'', ''STATE_SYNC_LOOKUP_FAIL'',
      ''STATE_SYNC_BACKUP_DOWN'', ''STATE_SYNC_BAD_HEADER_SIZE'', ''STATE_SYNC_BACKUP_NOT_MY_SYNCID'',
      ''STATE_SYNC_BAD_BUFFER'', ''STATE_SYNC_DECODE_CONN'', ''STATE_SYNC_BAD_MESSAGE_VERSION'',
      '''', '''', '''', '''', '''', '''', '''', '''', '''', '''']"

text \<open>The lines of \<open>alvs_db_print_global_error_stats\<close>: the name of each counter above zero with its value.\<close>

definition global_error_lines :: "(nat \<times> u64) list \<Rightarrow> (string \<times> u64) list" where
  "global_error_lines counters = map (\<lambda>(i, v). (alvs_error_stats_offsets_names ! i, v)) counters"

text \<open>
  Every counter the data plane increments is one of those that are read, and has a name of its own, so a
  printed line tells which error it counts.
\<close>

theorem error_counters_named:
  "unat (error_offset x) < ALVS_NUM_OF_ALVS_ERROR_STATS \<and> alvs_error_stats_offsets_names ! unat (error_offset x) \<noteq> '''' \<and>
   (alvs_error_stats_offsets_names ! unat (error_offset x) = alvs_error_stats_offsets_names ! unat (error_offset y) \<longleftrightarrow> x = y)"
proof -
  have d: "distinct (take 31 alvs_error_stats_offsets_names)" "length (take 31 alvs_error_stats_offsets_names) = 31"
    "list_all (\<lambda>s. s \<noteq> []) (take 31 alvs_error_stats_offsets_names)" "length alvs_error_stats_offsets_names = 41"
    by code_simp+
  have b: "unat (error_offset z) < 31" for z by (cases z) simp_all
  have inj: "unat (error_offset x) = unat (error_offset y) \<longleftrightarrow> x = y" by (cases x; cases y) simp_all
  have nth: "alvs_error_stats_offsets_names ! unat (error_offset z) = take 31 alvs_error_stats_offsets_names ! unat (error_offset z)" for z
    using b by simp
  show ?thesis
    unfolding nth using d b inj
    by (auto simp: nth_eq_iff_index_eq list_all_length ALVS_NUM_OF_ALVS_ERROR_STATS_def simp del: nth_take intro: less_trans [OF b])
qed

subsection \<open>The report of the data plane\<close>

record ezdp_mem_section_info =
  private_cmem_size :: nat
  shared_cmem_size :: nat
  cache_size :: nat
  imem_private_data_size :: nat
  imem_half_cluster_code_size :: nat
  imem_half_cluster_data_size :: nat
  imem_1_cluster_code_size :: nat
  imem_1_cluster_data_size :: nat
  imem_2_cluster_code_size :: nat
  imem_2_cluster_data_size :: nat
  imem_4_cluster_code_size :: nat
  imem_4_cluster_data_size :: nat
  imem_16_cluster_code_size :: nat
  imem_16_cluster_data_size :: nat
  imem_all_cluster_code_size :: nat
  imem_all_cluster_data_size :: nat
  emem_data_size :: nat

datatype info_priority = Info | Debug

definition mem_line :: "string \<Rightarrow> nat \<Rightarrow> (info_priority \<times> string) list" where
  "mem_line label v = (if v > 0 then [(Debug, label @ dec v @ '' bytes'')] else [])"

definition alvs_print_info :: "nat \<Rightarrow> string \<Rightarrow> ezdp_mem_section_info \<Rightarrow> (info_priority \<times> string) list" where
  "alvs_print_info num_cpus version mem_info =
     [(Info, ''starting ALVS DP application.''),
      (Info, ''num CPUs:            '' @ dec num_cpus),
      (Info, ''Application version: '' @ version @ ''.''),
      (Debug, ''ALVS MEMORY:''),
      (Debug, ''  private_cmem size is             '' @ dec (private_cmem_size mem_info) @ '' bytes''),
      (Debug, ''  shared_cmem size is              '' @ dec (shared_cmem_size mem_info) @ '' bytes'')] @
     mem_line ''  cache size is                    '' (cache_size mem_info) @
     mem_line ''  imem_private data size is        '' (imem_private_data_size mem_info) @
     mem_line ''  imem_half_cluster code size is   '' (imem_half_cluster_code_size mem_info) @
     mem_line ''  imem_half_cluster data size is   '' (imem_half_cluster_data_size mem_info) @
     mem_line ''  imem_1_cluster code size is      '' (imem_1_cluster_code_size mem_info) @
     mem_line ''  imem_1_cluster data size is      '' (imem_1_cluster_data_size mem_info) @
     mem_line ''  imem_2_cluster code size is      '' (imem_2_cluster_code_size mem_info) @
     mem_line ''  imem_2_cluster data size is      '' (imem_2_cluster_data_size mem_info) @
     mem_line ''  imem_4_cluster code size is      '' (imem_4_cluster_code_size mem_info) @
     mem_line ''  imem_4_cluster data size is      '' (imem_4_cluster_data_size mem_info) @
     mem_line ''  imem_16_cluster code size is     '' (imem_16_cluster_code_size mem_info) @
     mem_line ''  imem_16_cluster data size is     '' (imem_16_cluster_data_size mem_info) @
     mem_line ''  imem_all_cluster code size is    '' (imem_all_cluster_code_size mem_info) @
     mem_line ''  imem_all_cluster data size is    '' (imem_all_cluster_data_size mem_info) @
     mem_line ''  emem data size is                '' (emem_data_size mem_info)"

end
