(* ===== verification/Spec2Isabelle.thy ===== *)
theory Spec2Isabelle
  imports Index_Pool Sched_Buckets Nw_DB Alvs_DB_Behaviour Sync_Daemon_Props Sync_Props Dp_Races Dp_Frame_Props Dp_Lock_Props
    Nw_Manager_Props Nps_Bringup_Props Alvs_Session_Props Dp_Cpus_Props Dp_Log_Props
    Lvs_Compose Mac_Address Cp_Log Text_Output
begin

text \<open>
  Verification of ALVS, an accelerator of the Linux Virtual Server for the NPS network processor.

  \<^bold>\<open>The program.\<close>  A control plane (\<^verbatim>\<open>src/src/cp\<close>) runs on a host processor.  It receives the IPVS
  configuration through netlink, keeps it in an SQLite database and writes it to the search structures
  of the NPS.  A data plane (\<^verbatim>\<open>src/src/dp\<close>) runs on the threads of the NPS.  Each thread receives frames,
  looks up the connection they belong to, schedules new connections on the servers of a service, and
  forwards the frames; timer events age the connections.  A master tells a backup about its connections
  with synchronisation messages.  The two planes meet in the search structures, whose keys and results are
  defined in \<^verbatim>\<open>src/src/common\<close>.

  \<^bold>\<open>Theories of the control plane.\<close>
    \<^item> \<open>Alvs_Prelude\<close>: widths of integers, byte order, collections of rewrite rules, generic lemmas.
    \<^item> \<open>Alvs_Defs\<close>: constants, enumerations, keys and results of \<^verbatim>\<open>common/*.h\<close> and \<^verbatim>\<open>dp/alvs_defs.h\<close>.
    \<^item> \<open>Index_Pool\<close>: \<^verbatim>\<open>cp/index_pool.h\<close>.  The pool refines a queue of free indexes; the locale
      \<open>index_allocator\<close> states what its clients rely on and is interpreted on the pool.
    \<^item> \<open>Sched_Buckets\<close>: the bucket filling of \<^verbatim>\<open>cp/alvs_db.c\<close> for round robin, weighted round robin and
      source hash, with what each bucket holds.
    \<^item> \<open>Nw_DB\<close>: the route table of \<^verbatim>\<open>cp/nw_db.c\<close> and its image in the TCAM.  The operations refine
      those of a sorted list; the locale \<open>lpm_table\<close> gives longest-prefix match.
    \<^item> \<open>Alvs_Infra\<close>, \<open>Internal_DB\<close>, \<open>Alvs_DB\<close>, \<open>Alvs_DB_Admin\<close>: \<^verbatim>\<open>cp/infrastructure.c\<close> as far as the
      database uses it (locale \<open>search_structures\<close>) and \<^verbatim>\<open>cp/alvs_db.c\<close>, one definition per function.
    \<^item> \<open>Alvs_Manager\<close>: \<^verbatim>\<open>cp/alvs_db_manager.c\<close>, the decoding and dispatch of requests.
    \<^item> \<open>Alvs_DB_Props\<close>, \<open>Alvs_Server_Props\<close>, \<open>Alvs_Admin_Props\<close>, \<open>Alvs_Manager_Props\<close>: the invariant of
      the control plane, kept by every operation (locale \<open>db_operation\<close>, interpreted on each of them)
      and so by every sequence of requests; which requests end the application, and which crash it.
    \<^item> \<open>Alvs_Session\<close>, \<open>Alvs_Session_Props\<close>: the sockets, messages, lists and arrays of the same thread from its start to
      its end, and the statements it prepares: whatever fails, its sockets are closed and its arrays freed; which failures release
      something twice, and which requests leave a statement behind that keeps the database open.
    \<^item> \<open>Nw_Manager\<close>, \<open>Nw_Manager_Props\<close>: \<^verbatim>\<open>cp/nw_db_manager.c\<close>, the thread that mirrors the interfaces, routes and
      neighbours of the kernel, and the way from the kernel's tables to a frame that the data plane forwards.  The kernel's
      routes are a list of their own (\<open>kernel_route\<close>), and the mirror is exact while it has one route for a prefix and at
      most 8192 of them, the size of the TCAM.
    \<^item> \<open>Nps_Bringup\<close>, \<open>Nps_Bringup_Props\<close>: \<^verbatim>\<open>cp/main.c\<close>, the configuration of the chip in \<^verbatim>\<open>cp/infrastructure.c\<close> and the
      constructors of the search structures, with the checks of \<^verbatim>\<open>dp/alvs_init.c\<close> and \<^verbatim>\<open>dp/nw_init.c\<close>: what the one side creates is
      what the other was compiled for, and what is created is released in order.
    \<^item> \<open>Alvs_DB_Behaviour\<close>, \<open>Sync_Daemon_Props\<close>: what single operations publish, and where they fall
      short of it.
    \<^item> \<open>Lvs_Publish\<close>: the contract \<open>published\<close> between the planes: the service's entry of the NPS counts the scheduling
      entries that exist, and these name active servers.  Adding and deleting a server establish it, and the count
      that the services table keeps makes a later change of the service break it.
    \<^item> \<open>Mac_Address\<close> (\<open>infra_get_my_mac\<close> on the characters of the kernel's file) and \<open>Cp_Log\<close> (\<^verbatim>\<open>cp/log.c\<close>, \<^verbatim>\<open>cp/log.h\<close>):
      the printed address is read back; which messages are delivered.

  \<^bold>\<open>Theories of the data plane.\<close>
    \<^item> \<open>Dp_State\<close>: shared memory, the private memory of a thread, the library, \<^verbatim>\<open>dp/alvs_utils.h\<close> and
      \<^verbatim>\<open>dp/nw_utils.h\<close>.
    \<^item> \<open>Dp_Sched\<close> (\<^verbatim>\<open>dp/alvs_server.h\<close>, \<^verbatim>\<open>dp/alvs_sched.h\<close>), \<open>Nw_Routing\<close> (\<^verbatim>\<open>dp/nw_routing.h\<close>), \<open>Sync_Master\<close>
      (\<^verbatim>\<open>dp/alvs_state_sync_master.h\<close>), \<open>Dp_Conn\<close> (\<^verbatim>\<open>dp/alvs_conn.h\<close>, \<^verbatim>\<open>dp/alvs_service.h\<close>,
      \<^verbatim>\<open>dp/alvs_packet_processing.h\<close>), \<open>Sync_Backup\<close> (\<^verbatim>\<open>dp/alvs_state_sync_backup.h\<close>), \<open>Dp_Main\<close>
      (\<^verbatim>\<open>dp/alvs_packet_processing.c\<close>, \<^verbatim>\<open>dp/nw_recieve.h\<close>, \<^verbatim>\<open>dp/alvs_aging.h\<close>, the loop of \<^verbatim>\<open>dp/main.c\<close>): one
      definition per function.
    \<^item> \<open>Dp_Sched_Props\<close>: the overload control refines an admission control and respects the limits; the
      schedulers find a server when there is one.
    \<^item> \<open>Sync_Props\<close>: messages split over buffers are read as their concatenation, and what a master
      writes is what a backup processes.
    \<^item> \<open>Dp_Views\<close>, \<open>Dp_Conn_Props\<close>, \<open>Dp_Job_Props\<close>, \<open>Dp_Aging_Props\<close>: the connection tables stay consistent
      over all jobs; connections without traffic end when they should.
    \<^item> \<open>Dp_Frame_Props\<close>, \<open>Dp_Lock_Props\<close>: every received frame is sent or freed exactly once unless the thread
      waits for its own lock for ever, which it does not while it has the tables for itself; and the case of a
      backup where the frame is freed twice.
    \<^item> \<open>Dp_Cpus\<close>, \<open>Dp_Cpus_Props\<close>: the start of \<^verbatim>\<open>dp/main.c\<close>: its arguments, the list of processors, one process for each.
    \<^item> \<open>Dp_Log\<close>, \<open>Dp_Log_Props\<close>: \<^verbatim>\<open>dp/log.c\<close> and \<^verbatim>\<open>dp/alvs_log.c\<close>: the frames of log messages, byte by byte.  The locale
      \<open>syslog_sender\<close> states what a message needs of its sender and is interpreted on \<open>alvs_send\<close>; without the host
      interface messages nest, and exactly two reds of the token bucket in a row end that.
    \<^item> \<open>Lvs_Compose\<close>: both planes together.  \<open>lb_view\<close> is what the data plane reads of the structures the control plane
      writes; through it the request that adds a server leads to a connection bound to a server of the service, from the packet
      to the route, and a stale count leads to refused connections.
    \<^item> \<open>Text_Output\<close>: texts of both planes: addresses in static buffers, the names of the error counters, the report at the start.
    \<^item> \<open>Dp_Races\<close>: two races between threads.  \<open>Dp_Example\<close>: a concrete environment and state.

  \<^bold>\<open>What is a parameter.\<close>  SQLite, the NPS driver and netlink (\<open>cp_env\<close>, \<open>nw_mgr_env\<close>, \<open>bringup_env\<close>), and the ezdp and
  ezframe libraries (\<open>dp_env\<close>, \<open>log_env\<close>, \<open>start_env\<close>): which of their calls fail, which values hash and decode functions return.
  A call that fails has no effect; one that succeeds has its documented effect.  Other threads of the data plane are
  the function \<open>others\<close>, applied to the shared memory whenever a lock is granted.  The caches and events of libnl are lists.

  \<^bold>\<open>Loops and termination.\<close>  Every definition is total.  Loops over lists and counters are structural
  recursions; reading a message split over buffers (\<open>load_tail\<close>) ends because each step advances to a
  later buffer; the bucket filling and the reordering of routes recurse over the entries left.  The main loop of a thread is a
  fold over the jobs it receives, and polling one over the messages that arrive.  Two functions need not return: the loop
  over a range of processors, \<open>add_range\<close>, is a partial function whose value \<open>None\<close> is not returning, and
  \<open>write_log\<close>, which may log while it sends, has the depth of nested messages as fuel.  Where they return is proved: for every range
  without stride zero, and at depth one for every message when the host interface is known.

  \<^bold>\<open>Not modelled.\<close>  \<^verbatim>\<open>cp/sqlite3.c\<close> is a third-party library, and the scripts and tests outside \<^verbatim>\<open>src/src\<close> build the
  program and drive it on hardware.  Where a plane only reports what it does, the calls of its log are left out of the
  operations; so the operations of the data plane say nothing of the time that logging takes, nor of a log message that does not return.  The freeing of lists of one request (\<open>alvs_free_server_list\<close>, \<open>alvs_free_service_list\<close>) is left out, and three states of the chip's
  bring-up at which the code does nothing.  Padding, parity and reserved bits are left out.
\<close>

end
